(* ===== verification/Ledger_Prelude.thy ===== *)
theory Ledger_Prelude
  imports Main "HOL-Library.AList" "HOL-Library.Word" "HOL-Library.Char_ord"
    "HOL-Library.List_Lexorder" "HOL-Library.Product_Lexorder" "HOL-Library.Sublist"
begin

section \<open>Shared vocabulary of the orchestration ledger\<close>

text \<open>
  What every component theory uses: the error type of the control plane
  (\<^verbatim>\<open>orchestration/types.rs\<close>: \<open>OrchErrorCode\<close>, \<open>OrchError\<close>), pure results and the
  \<open>?\<close> operator, stateful operations that may fail (a failed operation keeps the
  writes made before it failed, as a method on \<open>&self\<close> that returns \<open>Err\<close> does),
  strings as byte lists with the string functions the code calls, 64-bit revisions
  with \<open>saturating_add\<close> and \<open>checked_add\<close>, and directories of records as
  association lists in directory order. Instants are nanoseconds on one time line.
\<close>

subsection \<open>Errors\<close>

datatype orch_error_code =
    Unauthenticated
  | ForbiddenScope
  | WorkspaceMismatch
  | SessionBusy
  | CapacityExhausted
  | StaleVersion
  | CursorExpired
  | RestartRequired
  | Internal
  | Timeout
  | InvalidRequest
  | Unsupported
  | Conflict

fun code_as_str :: "orch_error_code \<Rightarrow> string" where
  "code_as_str Unauthenticated = ''unauthenticated''"
| "code_as_str ForbiddenScope = ''forbidden_scope''"
| "code_as_str WorkspaceMismatch = ''workspace_mismatch''"
| "code_as_str SessionBusy = ''session_busy''"
| "code_as_str CapacityExhausted = ''capacity_exhausted''"
| "code_as_str StaleVersion = ''stale_version''"
| "code_as_str CursorExpired = ''cursor_expired''"
| "code_as_str RestartRequired = ''restart_required''"
| "code_as_str Internal = ''internal''"
| "code_as_str Timeout = ''timeout''"
| "code_as_str InvalidRequest = ''invalid_request''"
| "code_as_str Unsupported = ''unsupported''"
| "code_as_str Conflict = ''conflict''"

record orch_error =
  err_code :: orch_error_code
  err_message :: string

definition orch_error_new :: "orch_error_code \<Rightarrow> string \<Rightarrow> orch_error" where
  "orch_error_new c m = \<lparr>err_code = c, err_message = m\<rparr>"

definition orch_error_fmt :: "orch_error \<Rightarrow> string" where
  "orch_error_fmt e = code_as_str (err_code e) @ '': '' @ err_message e"

definition invalid :: "string \<Rightarrow> orch_error" where
  "invalid m = orch_error_new InvalidRequest m"

text \<open>
  The store's inner methods return \<open>anyhow::Error\<close>: either a plain text, or a wrapped
  \<open>OrchError\<close> that \<open>downcast\<close> can recover.
\<close>

datatype anyhow = Opaque string | Typed orch_error

fun anyhow_to_string :: "anyhow \<Rightarrow> string" where
  "anyhow_to_string (Opaque m) = m"
| "anyhow_to_string (Typed e) = orch_error_fmt e"

definition internal_of :: "anyhow \<Rightarrow> orch_error" where
  "internal_of e = orch_error_new Internal (anyhow_to_string e)"

fun orch_error_from_anyhow :: "anyhow \<Rightarrow> orch_error" where
  "orch_error_from_anyhow (Typed e) = e"
| "orch_error_from_anyhow (Opaque m) = orch_error_new Internal m"

definition opaque_of :: "orch_error \<Rightarrow> anyhow" where
  "opaque_of e = Opaque (orch_error_fmt e)"

subsection \<open>Pure results\<close>

type_synonym 'a result = "orch_error + 'a"

definition reject :: "bool \<Rightarrow> 'e \<Rightarrow> 'e + unit" where
  "reject c e = (if c then Inl e else Inr ())"

fun first_err :: "('e + unit) list \<Rightarrow> 'e + unit" where
  "first_err [] = Inr ()"
| "first_err (c # cs) = (case c of Inl e \<Rightarrow> Inl e | Inr _ \<Rightarrow> first_err cs)"

definition on_some :: "'a option \<Rightarrow> ('a \<Rightarrow> 'e + unit) \<Rightarrow> 'e + unit" where
  "on_some v f = (case v of None \<Rightarrow> Inr () | Some x \<Rightarrow> f x)"

definition rbind :: "'e + 'a \<Rightarrow> ('a \<Rightarrow> 'e + 'b) \<Rightarrow> 'e + 'b" where
  "rbind r f = (case r of Inl e \<Rightarrow> Inl e | Inr x \<Rightarrow> f x)"

definition is_ok :: "'e + 'a \<Rightarrow> bool" where
  "is_ok r = (case r of Inl _ \<Rightarrow> False | Inr _ \<Rightarrow> True)"

definition is_some_and :: "'a option \<Rightarrow> ('a \<Rightarrow> bool) \<Rightarrow> bool" where
  "is_some_and v p = (case v of None \<Rightarrow> False | Some x \<Rightarrow> p x)"

definition is_none_or :: "'a option \<Rightarrow> ('a \<Rightarrow> bool) \<Rightarrow> bool" where
  "is_none_or v p = (case v of None \<Rightarrow> True | Some x \<Rightarrow> p x)"

subsection \<open>Stateful operations that may fail\<close>

type_synonym ('s, 'e, 'a) op = "'s \<Rightarrow> ('e + 'a) \<times> 's"

definition ret :: "'a \<Rightarrow> ('s, 'e, 'a) op" where
  "ret x = (\<lambda>s. (Inr x, s))"

definition raise :: "'e \<Rightarrow> ('s, 'e, 'a) op" where
  "raise e = (\<lambda>s. (Inl e, s))"

definition bindE :: "('s, 'e, 'a) op \<Rightarrow> ('a \<Rightarrow> ('s, 'e, 'b) op) \<Rightarrow> ('s, 'e, 'b) op" where
  "bindE m f = (\<lambda>s. case m s of (Inl e, s') \<Rightarrow> (Inl e, s') | (Inr x, s') \<Rightarrow> f x s')"

definition thenE :: "('s, 'e, unit) op \<Rightarrow> ('s, 'e, 'b) op \<Rightarrow> ('s, 'e, 'b) op" where
  "thenE m k = bindE m (\<lambda>_. k)"

definition lift :: "'e + 'a \<Rightarrow> ('s, 'e, 'a) op" where
  "lift r = (\<lambda>s. (r, s))"

definition reads :: "('s \<Rightarrow> 'e + 'a) \<Rightarrow> ('s, 'e, 'a) op" where
  "reads g = (\<lambda>s. (g s, s))"

definition gets :: "('s \<Rightarrow> 'a) \<Rightarrow> ('s, 'e, 'a) op" where
  "gets g = (\<lambda>s. (Inr (g s), s))"

definition modify :: "('s \<Rightarrow> 's) \<Rightarrow> ('s, 'e, unit) op" where
  "modify f = (\<lambda>s. (Inr (), f s))"

definition map_err :: "('e \<Rightarrow> 'f) \<Rightarrow> ('s, 'e, 'a) op \<Rightarrow> ('s, 'f, 'a) op" where
  "map_err g m = (\<lambda>s. case m s of (Inl e, s') \<Rightarrow> (Inl (g e), s') | (Inr x, s') \<Rightarrow> (Inr x, s'))"

definition on_err :: "('e \<Rightarrow> 's \<Rightarrow> 's) \<Rightarrow> ('s, 'e, 'a) op \<Rightarrow> ('s, 'e, 'a) op" where
  "on_err g m = (\<lambda>s. case m s of (Inl e, s') \<Rightarrow> (Inl e, g e s') | (Inr x, s') \<Rightarrow> (Inr x, s'))"

definition some_or :: "'e \<Rightarrow> 'a option \<Rightarrow> ('s, 'e, 'a) op" where
  "some_or e v = (case v of None \<Rightarrow> raise e | Some x \<Rightarrow> ret x)"

primrec for_each :: "'a list \<Rightarrow> ('a \<Rightarrow> ('s, 'e, unit) op) \<Rightarrow> ('s, 'e, unit) op" where
  "for_each [] f = ret ()"
| "for_each (x # xs) f = thenE (f x) (for_each xs f)"

primrec fold_op :: "('a \<Rightarrow> 'b \<Rightarrow> ('s, 'e, 'b) op) \<Rightarrow> 'a list \<Rightarrow> 'b \<Rightarrow> ('s, 'e, 'b) op" where
  "fold_op f [] acc = ret acc"
| "fold_op f (x # xs) acc = bindE (f x acc) (fold_op f xs)"

subsection \<open>Strings as UTF-8 byte lists\<close>

definition str_contains :: "string \<Rightarrow> string \<Rightarrow> bool" where
  "str_contains s needle = sublist needle s"

definition NUL :: char where "NUL = CHR 0x00"
definition BACKSLASH :: char where "BACKSLASH = CHR 0x5C"

definition ws_seqs :: "string list" where
  "ws_seqs =
     [[CHR 0x09], [CHR 0x0A], [CHR 0x0B], [CHR 0x0C], [CHR 0x0D], [CHR 0x20],
      [CHR 0xC2, CHR 0x85], [CHR 0xC2, CHR 0xA0], [CHR 0xE1, CHR 0x9A, CHR 0x80],
      [CHR 0xE2, CHR 0x80, CHR 0x80], [CHR 0xE2, CHR 0x80, CHR 0x81],
      [CHR 0xE2, CHR 0x80, CHR 0x82], [CHR 0xE2, CHR 0x80, CHR 0x83],
      [CHR 0xE2, CHR 0x80, CHR 0x84], [CHR 0xE2, CHR 0x80, CHR 0x85],
      [CHR 0xE2, CHR 0x80, CHR 0x86], [CHR 0xE2, CHR 0x80, CHR 0x87],
      [CHR 0xE2, CHR 0x80, CHR 0x88], [CHR 0xE2, CHR 0x80, CHR 0x89],
      [CHR 0xE2, CHR 0x80, CHR 0x8A], [CHR 0xE2, CHR 0x80, CHR 0xA8],
      [CHR 0xE2, CHR 0x80, CHR 0xA9], [CHR 0xE2, CHR 0x80, CHR 0xAF],
      [CHR 0xE2, CHR 0x81, CHR 0x9F], [CHR 0xE3, CHR 0x80, CHR 0x80]]"

text \<open>
  \<open>str::trim\<close> strips the characters with the Unicode property White_Space; \<open>ws_seqs\<close>
  lists their UTF-8 encodings. Stripping stops at the first byte sequence that is
  none of them. Recursion consumes at least one byte.
\<close>

function strip_seqs :: "string list \<Rightarrow> string \<Rightarrow> string" where
  "strip_seqs ws s =
     (case find (\<lambda>w. w \<noteq> [] \<and> prefix w s) ws of
        None \<Rightarrow> s
      | Some w \<Rightarrow> strip_seqs ws (drop (length w) s))"
  by pat_completeness auto
termination
  by (relation "measure (\<lambda>(ws, s). length s)")
     (auto simp: find_Some_iff prefix_def)

declare strip_seqs.simps [simp del]

definition trim_start :: "string \<Rightarrow> string" where
  "trim_start s = strip_seqs ws_seqs s"

definition trim_end :: "string \<Rightarrow> string" where
  "trim_end s = rev (strip_seqs (map rev ws_seqs) (rev s))"

definition trim :: "string \<Rightarrow> string" where
  "trim s = trim_end (trim_start s)"

fun split_at :: "char \<Rightarrow> string \<Rightarrow> string list" where
  "split_at c [] = [[]]"
| "split_at c (x # xs) =
     (if x = c then [] # split_at c xs
      else (case split_at c xs of [] \<Rightarrow> [[x]] | p # ps \<Rightarrow> (x # p) # ps))"

fun join :: "char \<Rightarrow> string list \<Rightarrow> string" where
  "join c [] = []"
| "join c [p] = p"
| "join c (p # q # ps) = p @ c # join c (q # ps)"

definition is_ascii_lowercase :: "char \<Rightarrow> bool" where
  "is_ascii_lowercase c = (CHR ''a'' \<le> c \<and> c \<le> CHR ''z'')"

definition is_ascii_uppercase :: "char \<Rightarrow> bool" where
  "is_ascii_uppercase c = (CHR ''A'' \<le> c \<and> c \<le> CHR ''Z'')"

definition is_ascii_digit :: "char \<Rightarrow> bool" where
  "is_ascii_digit c = (CHR ''0'' \<le> c \<and> c \<le> CHR ''9'')"

definition is_ascii_alphanumeric :: "char \<Rightarrow> bool" where
  "is_ascii_alphanumeric c = (is_ascii_lowercase c \<or> is_ascii_uppercase c \<or> is_ascii_digit c)"

definition is_ascii_hexdigit :: "char \<Rightarrow> bool" where
  "is_ascii_hexdigit c =
     (is_ascii_digit c \<or> (CHR ''a'' \<le> c \<and> c \<le> CHR ''f'') \<or> (CHR ''A'' \<le> c \<and> c \<le> CHR ''F''))"

text \<open>Decimal text of an unsigned integer, as \<open>format!\<close> prints it.\<close>

fun decimal :: "nat \<Rightarrow> string" where
  "decimal n =
     (if n < 10 then [char_of (48 + n)] else decimal (n div 10) @ [char_of (48 + n mod 10)])"

declare decimal.simps [simp del]

definition to_ascii_lower :: "char \<Rightarrow> char" where
  "to_ascii_lower c = (if is_ascii_uppercase c then char_of (of_char c + 32 :: nat) else c)"

definition to_ascii_upper :: "char \<Rightarrow> char" where
  "to_ascii_upper c = (if is_ascii_lowercase c then char_of (of_char c - 32 :: nat) else c)"

subsection \<open>Machine integers and instants\<close>

type_synonym u64 = "64 word"
type_synonym time = int
type_synonym uuid = nat

definition saturating_succ :: "u64 \<Rightarrow> u64" where
  "saturating_succ r = (if r = - 1 then - 1 else r + 1)"

definition checked_succ :: "u64 \<Rightarrow> u64 option" where
  "checked_succ r = (if r = - 1 then None else Some (r + 1))"

definition milliseconds :: "nat \<Rightarrow> time" where
  "milliseconds n = int n * 1000000"

subsection \<open>Directories of records\<close>

type_synonym ('k, 'v) dir = "('k \<times> 'v) list"

definition dir_get :: "('k, 'v) dir \<Rightarrow> 'k \<Rightarrow> 'v option" where
  "dir_get d k = map_of d k"

definition dir_put :: "'k \<Rightarrow> 'v \<Rightarrow> ('k, 'v) dir \<Rightarrow> ('k, 'v) dir" where
  "dir_put k v d = AList.update k v d"

definition dir_del :: "'k \<Rightarrow> ('k, 'v) dir \<Rightarrow> ('k, 'v) dir" where
  "dir_del k d = AList.delete k d"

definition dir_list :: "('k, 'v) dir \<Rightarrow> 'v list" where
  "dir_list d = map snd d"

definition dir_ok :: "('v \<Rightarrow> 'k) \<Rightarrow> ('k, 'v) dir \<Rightarrow> bool" where
  "dir_ok key d = (distinct (map fst d) \<and> (\<forall>(k, v) \<in> set d. key v = k))"

named_theorems ledger_intro \<open>introduction rules for invariants of operations\<close>
named_theorems wp \<open>weakest preconditions of operations, for symbolic execution\<close>

subsection \<open>Weakest preconditions of operations\<close>

text \<open>
  \<open>wp m Q E s\<close>: run from \<open>s\<close>, operation \<open>m\<close> either returns a value in a state that
  satisfies \<open>Q\<close>, or fails with an error in a state that satisfies \<open>E\<close>. The rules turn a
  composed operation into conditions on its parts, so a proof about a handler is
  \<open>simp add: handler_def wp\<close> followed by the facts about the writes it makes.
\<close>

definition wp :: "('s, 'e, 'a) op \<Rightarrow> ('a \<Rightarrow> 's \<Rightarrow> bool) \<Rightarrow> ('e \<Rightarrow> 's \<Rightarrow> bool) \<Rightarrow> 's \<Rightarrow> bool" where
  "wp m Q E s = (case m s of (Inl e, s') \<Rightarrow> E e s' | (Inr x, s') \<Rightarrow> Q x s')"

definition keeps :: "('s \<Rightarrow> bool) \<Rightarrow> ('s, 'e, 'a) op \<Rightarrow> bool" where
  "keeps I m = (\<forall>s. I s \<longrightarrow> I (snd (m s)))"

lemma wp_ret [wp]: "wp (ret x) Q E s = Q x s"
  by (simp add: wp_def ret_def)

lemma wp_raise [wp]: "wp (raise e) Q E s = E e s"
  by (simp add: wp_def raise_def)

lemma wp_bindE [wp]: "wp (bindE m f) Q E s = wp m (\<lambda>x. wp (f x) Q E) E s"
  by (auto simp: wp_def bindE_def split: prod.splits sum.splits)

lemma wp_thenE [wp]: "wp (thenE m k) Q E s = wp m (\<lambda>_. wp k Q E) E s"
  by (simp add: thenE_def wp_bindE)

lemma wp_lift [wp]: "wp (lift r) Q E s = (case r of Inl e \<Rightarrow> E e s | Inr x \<Rightarrow> Q x s)"
  by (auto simp: wp_def lift_def split: sum.splits)

lemma wp_reads [wp]: "wp (reads g) Q E s = (case g s of Inl e \<Rightarrow> E e s | Inr x \<Rightarrow> Q x s)"
  by (auto simp: wp_def reads_def split: sum.splits)

lemma wp_gets [wp]: "wp (gets g) Q E s = Q (g s) s"
  by (simp add: wp_def gets_def)

lemma wp_modify [wp]: "wp (modify f) Q E s = Q () (f s)"
  by (simp add: wp_def modify_def)

lemma wp_map_err [wp]: "wp (map_err g m) Q E s = wp m Q (\<lambda>e. E (g e)) s"
  by (auto simp: wp_def map_err_def split: prod.splits sum.splits)

lemma wp_on_err [wp]: "wp (on_err g m) Q E s = wp m Q (\<lambda>e s'. E e (g e s')) s"
  by (auto simp: wp_def on_err_def split: prod.splits sum.splits)

lemma wp_some_or [wp]:
  "wp (some_or e v) Q E s = (case v of None \<Rightarrow> E e s | Some x \<Rightarrow> Q x s)"
  by (auto simp: some_or_def wp_ret wp_raise split: option.splits)

lemma wp_if [wp]: "wp (if c then m else n) Q E s = (if c then wp m Q E s else wp n Q E s)"
  by simp

lemma wp_case_option [wp]:
  "wp (case v of None \<Rightarrow> m | Some x \<Rightarrow> f x) Q E s =
     (case v of None \<Rightarrow> wp m Q E s | Some x \<Rightarrow> wp (f x) Q E s)"
  by (simp split: option.splits)

lemma wp_mono:
  assumes "wp m Q E s"
    and "\<And>x t. Q x t \<Longrightarrow> Q' x t" and "\<And>e t. E e t \<Longrightarrow> E' e t"
  shows "wp m Q' E' s"
  using assms by (auto simp: wp_def split: prod.splits sum.splits)

lemma wp_conj:
  "wp m Q E s \<Longrightarrow> wp m Q' E' s \<Longrightarrow> wp m (\<lambda>x t. Q x t \<and> Q' x t) (\<lambda>e t. E e t \<and> E' e t) s"
  by (auto simp: wp_def split: prod.splits sum.splits)

lemma wp_result:
  "wp m Q E s \<Longrightarrow> m s = (Inr x, t) \<Longrightarrow> Q x t"
  "wp m Q E s \<Longrightarrow> m s = (Inl e, t) \<Longrightarrow> E e t"
  by (simp_all add: wp_def)

lemma keeps_wp: "keeps I m \<longleftrightarrow> (\<forall>s. I s \<longrightarrow> wp m (\<lambda>_. I) (\<lambda>_. I) s)"
proof -
  have "I (snd (m s)) = wp m (\<lambda>_. I) (\<lambda>_. I) s" for s
    by (cases "m s") (auto simp: wp_def split: sum.splits)
  then show ?thesis by (simp add: keeps_def)
qed

lemma keeps_bindE [ledger_intro]:
  "keeps I m \<Longrightarrow> (\<And>x. keeps I (f x)) \<Longrightarrow> keeps I (bindE m f)"
  unfolding keeps_wp by (auto simp: wp_bindE intro: wp_mono)

lemma wp_for_each:
  assumes "I s" and "\<And>x s. x \<in> set xs \<Longrightarrow> I s \<Longrightarrow> wp (f x) (\<lambda>_. I) E s"
  shows "wp (for_each xs f) (\<lambda>_. I) E s"
  using assms
proof (induction xs arbitrary: s)
  case Nil
  then show ?case by (simp add: wp)
next
  case (Cons x xs)
  have "wp (f x) (\<lambda>_. I) E s" using Cons.prems by simp
  then have "wp (f x) (\<lambda>_. wp (for_each xs f) (\<lambda>_. I) E) E s"
    by (rule wp_mono) (use Cons in auto)
  then show ?case by (simp add: wp)
qed

lemma wp_fold_op:
  assumes "I acc s" and "\<And>x acc s. x \<in> set xs \<Longrightarrow> I acc s \<Longrightarrow> wp (f x acc) I E s"
  shows "wp (fold_op f xs acc) I E s"
  using assms
proof (induction xs arbitrary: acc s)
  case Nil
  then show ?case by (simp add: wp)
next
  case (Cons x xs)
  have "wp (f x acc) I E s" using Cons.prems by simp
  then have "wp (f x acc) (\<lambda>acc'. wp (fold_op f xs acc') I E) E s"
    by (rule wp_mono) (use Cons in auto)
  then show ?case by (simp add: wp)
qed

subsection \<open>Facts about results, strings, integers and directories\<close>

lemma first_err_ok [simp]: "first_err cs = Inr u \<longleftrightarrow> (\<forall>c \<in> set cs. c = Inr ())"
  by (induction cs) (auto split: sum.splits)

declare first_err.simps(2) [simp del]

lemma reject_ok [simp]: "reject c e = Inr u \<longleftrightarrow> \<not> c"
  by (simp add: reject_def)

lemma on_some_ok [simp]: "on_some v f = Inr u \<longleftrightarrow> (\<forall>x. v = Some x \<longrightarrow> f x = Inr ())"
  by (auto simp: on_some_def split: option.splits)

lemma rbind_ok: "rbind r f = Inr y \<longleftrightarrow> (\<exists>x. r = Inr x \<and> f x = Inr y)"
  by (cases r) (auto simp: rbind_def)

lemma is_some_and_simps [simp]:
  "is_some_and None p = False" "is_some_and (Some x) p = p x"
  "is_none_or None p = True" "is_none_or (Some x) p = p x"
  by (simp_all add: is_some_and_def is_none_or_def)

lemma split_at_nonempty [simp]: "split_at c s \<noteq> []"
  by (induction s) (auto split: list.splits)

lemma join_Cons: "ps \<noteq> [] \<Longrightarrow> join c (p # ps) = p @ c # join c ps"
  by (cases ps) auto

lemma join_split_at [simp]: "join c (split_at c s) = s"
proof (induction s)
  case Nil
  then show ?case by simp
next
  case (Cons x xs)
  obtain p ps where ps: "split_at c xs = p # ps"
    by (cases "split_at c xs") auto
  show ?case
  proof (cases "x = c")
    case True
    then show ?thesis using Cons by (simp add: join_Cons)
  next
    case False
    have "join c ((x # p) # ps) = x # join c (p # ps)"
      by (cases ps) auto
    then show ?thesis using False Cons ps by simp
  qed
qed

lemma unat_succ: "r \<noteq> - 1 \<Longrightarrow> unat (r + 1) = Suc (unat r)" for r :: u64
proof -
  assume "r \<noteq> - 1"
  then have "1 + r \<noteq> 0" by (metis add.commute eq_neg_iff_add_eq_0)
  then show ?thesis by (simp add: unatSuc add.commute)
qed

lemma checked_succ_Some:
  "checked_succ r = Some r' \<Longrightarrow> unat r' = Suc (unat r) \<and> r' = saturating_succ r"
  by (auto simp: checked_succ_def saturating_succ_def unat_succ split: if_splits)

lemma saturating_succ_greater: "r \<noteq> - 1 \<Longrightarrow> r < saturating_succ r"
  by (simp add: saturating_succ_def word_less_nat_alt unat_succ)

lemma saturating_succ_ge: "r \<le> saturating_succ r"
  using saturating_succ_greater [of r] by (cases "r = - 1") (auto simp: saturating_succ_def)

lemma saturating_succ_pos: "saturating_succ r \<noteq> 0"
  by (auto simp: saturating_succ_def) (metis add.inverse_inverse eq_neg_iff_add_eq_0)

lemma dir_get_put [simp]: "dir_get (dir_put k v d) j = (if j = k then Some v else dir_get d j)"
  by (simp add: dir_get_def dir_put_def update_conv)

lemma dir_get_del [simp]: "dir_get (dir_del k d) j = (if j = k then None else dir_get d j)"
  by (simp add: dir_get_def dir_del_def delete_conv)

lemma dir_get_Nil [simp]: "dir_get [] k = None"
  by (simp add: dir_get_def)

lemma dir_list_get: "dir_ok key d \<Longrightarrow> v \<in> set (dir_list d) \<longleftrightarrow> dir_get d (key v) = Some v"
  by (force simp: dir_ok_def dir_list_def dir_get_def map_of_eq_Some_iff)

lemma dir_ok_key: "dir_ok key d \<Longrightarrow> dir_get d k = Some v \<Longrightarrow> key v = k"
  by (auto simp: dir_ok_def dir_get_def dest: map_of_SomeD)

lemma dir_ok_Nil [simp]: "dir_ok key []"
  by (simp add: dir_ok_def)

lemma set_update_subset: "set (AList.update k v d) \<subseteq> insert (k, v) (set d)"
  by (induction d) auto

lemma dir_ok_put [intro]: "dir_ok key d \<Longrightarrow> key v = k \<Longrightarrow> dir_ok key (dir_put k v d)"
  using set_update_subset [of k v d]
  by (fastforce simp: dir_ok_def dir_put_def distinct_update)

lemma dir_ok_del [intro]: "dir_ok key d \<Longrightarrow> dir_ok key (dir_del k d)"
  by (auto simp: dir_ok_def dir_del_def AList.delete_eq distinct_map_filter)

lemma dir_ok_distinct: "dir_ok key d \<Longrightarrow> distinct (map key (dir_list d))"
proof -
  assume d: "dir_ok key d"
  then have "map key (dir_list d) = map fst d"
    by (auto simp: dir_ok_def dir_list_def)
  then show ?thesis using d by (simp add: dir_ok_def)
qed

subsection \<open>Interfaces\<close>

text \<open>
  \<open>durable_dir\<close>: what the ledger's writers rely on when they replace or remove one record
  file. \<open>invariant_machine\<close>: an invariant that the start states satisfy and every step
  keeps holds in every state a run reaches.
\<close>

locale durable_dir =
  fixes get :: "'d \<Rightarrow> 'k \<Rightarrow> 'v option"
    and put :: "'k \<Rightarrow> 'v \<Rightarrow> 'd \<Rightarrow> 'd"
    and del :: "'k \<Rightarrow> 'd \<Rightarrow> 'd"
  assumes get_put: "get (put k v d) j = (if j = k then Some v else get d j)"
    and get_del: "get (del k d) j = (if j = k then None else get d j)"
begin

lemma put_twice: "get (put k v (put k w d)) = get (put k v d)"
  by (auto simp: get_put)

lemma del_put: "get d k = None \<Longrightarrow> get (del k (put k v d)) = get d"
  by (auto simp: get_put get_del)

lemma put_known: "get d k = Some v \<Longrightarrow> get (put k v d) = get d"
  by (auto simp: get_put)

lemma put_commute: "k \<noteq> j \<Longrightarrow> get (put k v (put j w d)) = get (put j w (put k v d))"
  by (auto simp: get_put)

end

interpretation dir: durable_dir dir_get dir_put dir_del
  by unfold_locales simp_all

locale invariant_machine =
  fixes start :: "'s \<Rightarrow> bool" and next_state :: "'s \<Rightarrow> 's \<Rightarrow> bool" and inv :: "'s \<Rightarrow> bool"
  assumes start_inv: "start s \<Longrightarrow> inv s"
    and step_inv: "inv s \<Longrightarrow> next_state s t \<Longrightarrow> inv t"
begin

lemma run_inv: "next_state\<^sup>*\<^sup>* s t \<Longrightarrow> inv s \<Longrightarrow> inv t"
  by (induction rule: rtranclp_induct) (auto intro: step_inv)

lemma reach_inv: "start s \<Longrightarrow> next_state\<^sup>*\<^sup>* s t \<Longrightarrow> inv t"
  using start_inv run_inv by blast

end

end
