(* ===== verification/Evidence.thy ===== *)
theory Evidence
  imports Ledger_Prelude
begin

section \<open>Completion evidence and candidate verification\<close>

text \<open>
  The evidence a Work result carries. \<^verbatim>\<open>completion.rs\<close>: what a run claimed and what the
  host observed, the builder of the evidence summary, and the re-check
  \<open>evidence_authorizes_success\<close> that the ledger applies before a worker may finish work
  without a reviewer. \<^verbatim>\<open>verified_change.rs\<close>: the declared host checks, their validation,
  and the predicate \<open>authorizes_applied_success\<close> on a candidate verification.
  Counters are naturals; \<open>changed_files as u32\<close> and the saturating \<open>u32\<close> operations keep
  their width.
\<close>

subsection \<open>Completion evidence\<close>

record completion_claims =
  cc_present :: bool
  cc_mentions_changes :: bool
  cc_mentions_tests :: bool
  cc_mentions_verification :: bool

record completion_observations =
  co_changed_files :: nat
  co_tests_observed :: nat
  co_tests_passed :: nat
  co_tests_failed :: nat
  co_tests_incomplete :: nat
  co_permissions_requested :: nat
  co_permissions_granted :: nat
  co_permissions_denied :: nat
  co_permissions_unresolved :: nat

record completion_usage =
  cu_prompt_tokens :: nat
  cu_completion_tokens :: nat
  cu_total_tokens :: nat
  cu_requests :: nat

record completion_evidence =
  ce_status :: string
  ce_stop_reason :: string
  ce_interrupted :: bool
  ce_claims :: completion_claims
  ce_observations :: completion_observations
  ce_usage :: completion_usage
  ce_work_id :: "string option"
  ce_run_id :: "string option"
  ce_attempt_id :: "string option"

definition default_claims :: completion_claims where
  "default_claims = \<lparr>cc_present = False, cc_mentions_changes = False,
     cc_mentions_tests = False, cc_mentions_verification = False\<rparr>"

definition claims_from_response :: "string option \<Rightarrow> completion_claims" where
  "claims_from_response response =
     (case response of
        None \<Rightarrow> default_claims
      | Some r \<Rightarrow>
          let txt = trim r in
          if txt = [] then default_claims
          else
            let lower = map to_ascii_lower txt in
            \<lparr>cc_present = True,
             cc_mentions_changes =
               list_ex (str_contains lower)
                 [''changed'', ''modified'', ''created'', ''removed'', ''edited'',
                  ''files changed'', ''no files changed''],
             cc_mentions_tests =
               (str_contains lower ''test'' \<or> str_contains lower ''verification''),
             cc_mentions_verification =
               list_ex (str_contains lower) [''verified'', ''passed'', ''green'', ''verification'']\<rparr>)"

definition u32_max :: nat where "u32_max = 2 ^ 32 - 1"

definition sat_add_u32 :: "nat \<Rightarrow> nat \<Rightarrow> nat" where
  "sat_add_u32 a b = min (a + b) u32_max"

fun observe_tests ::
  "(int option \<times> bool option) list \<Rightarrow> completion_observations \<Rightarrow> completion_observations" where
  "observe_tests [] obs = obs"
| "observe_tests ((exit_code, cancelled) # ts) obs =
     (let obs1 = obs\<lparr>co_tests_observed := co_tests_observed obs + 1\<rparr> in
      observe_tests ts
        (if cancelled = Some True \<or> exit_code = None
         then obs1\<lparr>co_tests_incomplete := co_tests_incomplete obs1 + 1\<rparr>
         else if exit_code = Some 0
         then obs1\<lparr>co_tests_passed := co_tests_passed obs1 + 1\<rparr>
         else obs1\<lparr>co_tests_failed := co_tests_failed obs1 + 1\<rparr>))"

definition observations_from_run ::
  "nat \<Rightarrow> (int option \<times> bool option) list \<Rightarrow> nat \<Rightarrow> nat \<Rightarrow> nat \<Rightarrow> completion_observations" where
  "observations_from_run changed_files tests requested granted denied =
     observe_tests tests
       \<lparr>co_changed_files = changed_files mod 2 ^ 32,
        co_tests_observed = 0, co_tests_passed = 0, co_tests_failed = 0,
        co_tests_incomplete = 0,
        co_permissions_requested = requested,
        co_permissions_granted = granted,
        co_permissions_denied = denied,
        co_permissions_unresolved = requested - sat_add_u32 granted denied\<rparr>"

definition build_evidence ::
  "string \<Rightarrow> string option \<Rightarrow> completion_observations \<Rightarrow> completion_usage \<Rightarrow> bool
     \<Rightarrow> completion_evidence" where
  "build_evidence outcome final_response obs usage interrupted =
     (let claims = claims_from_response final_response;
          status =
            (if outcome = ''failed'' \<or> co_tests_failed obs > 0 then ''failed''
             else if interrupted
                  \<or> outcome \<in> {''cancelled'', ''interrupted'', ''limit_reached''}
                  \<or> \<not> cc_present claims then ''incomplete''
             else if co_tests_observed obs = 0
                  \<or> co_tests_incomplete obs > 0
                  \<or> co_permissions_unresolved obs > 0
                  \<or> (co_changed_files obs > 0 \<and> \<not> cc_mentions_changes claims)
                  \<or> (co_tests_observed obs > 0
                     \<and> (\<not> cc_mentions_tests claims \<or> \<not> cc_mentions_verification claims))
                  then ''unverified''
             else ''verified'')
      in \<lparr>ce_status = status, ce_stop_reason = outcome, ce_interrupted = interrupted,
          ce_claims = claims, ce_observations = obs, ce_usage = usage,
          ce_work_id = None, ce_run_id = None, ce_attempt_id = None\<rparr>)"

definition evidence_authorizes_success :: "completion_evidence \<Rightarrow> bool" where
  "evidence_authorizes_success e =
     (if ce_status e \<noteq> ''verified'' \<or> ce_stop_reason e \<noteq> ''completed'' \<or> ce_interrupted e
      then False
      else
        let obs = ce_observations e; claims = ce_claims e in
        if co_tests_failed obs > 0 then False
        else if \<not> cc_present claims then False
        else if co_tests_observed obs = 0
             \<or> co_tests_passed obs = 0
             \<or> co_tests_incomplete obs > 0
             \<or> co_permissions_unresolved obs > 0
             \<or> (co_changed_files obs > 0 \<and> \<not> cc_mentions_changes claims)
             \<or> (co_tests_observed obs > 0
                \<and> (\<not> cc_mentions_tests claims \<or> \<not> cc_mentions_verification claims))
        then False
        else True)"

subsection \<open>Required checks and candidate verification\<close>

datatype required_check_cwd = Candidate | Oracle

record required_check_env =
  env_key :: string
  env_value :: string

record required_check_spec =
  rc_check_id :: string
  rc_executable :: string
  rc_args :: "string list"
  rc_cwd :: required_check_cwd
  rc_env :: "required_check_env list"
  rc_timeout_ms :: nat
  rc_max_output_bytes :: nat

record candidate_file_record =
  cf_path :: string
  cf_digest :: string
  cf_kind :: string

record required_check_execution =
  rx_check_id :: string
  rx_outcome :: string
  rx_exit_code :: "int option"
  rx_output_digest :: string
  rx_output_truncated :: bool
  rx_duration_ms :: nat
  rx_spec_digest :: string

record candidate_verification =
  cv_schema_version :: nat
  cv_work_id :: string
  cv_run_id :: "string option"
  cv_attempt_id :: "string option"
  cv_source_revision :: string
  cv_source_fingerprint :: string
  cv_content_digest :: string
  cv_spec_digest :: string
  cv_files :: "candidate_file_record list"
  cv_checks :: "required_check_execution list"
  cv_worker_stopped :: bool
  cv_change_proposed :: bool
  cv_checks_passed :: bool
  cv_invalidated :: bool
  cv_applied :: bool
  cv_diff_digest :: "string option"
  cv_changed_paths :: "string list"
  cv_bounded_diff :: string
  cv_diff_truncated :: bool
  cv_reconciliation_required :: bool
  cv_check_profile_id :: string
  cv_check_profile_revision :: nat
  cv_check_authority_digest :: string
  cv_apply_bundle_digest :: string
  cv_execution_envelope_digest :: string

definition valid_check_id :: "string \<Rightarrow> bool" where
  "valid_check_id v =
     (v \<noteq> [] \<and> length v \<le> 64
      \<and> list_all (\<lambda>c. is_ascii_lowercase c \<or> is_ascii_digit c \<or> c = CHR ''-'') v)"

fun valid_env_key :: "string \<Rightarrow> bool" where
  "valid_env_key [] = False"
| "valid_env_key (c # cs) =
     (if is_ascii_uppercase c \<or> c = CHR ''_''
      then list_all (\<lambda>x. is_ascii_uppercase x \<or> is_ascii_digit x \<or> x = CHR ''_'') cs
           \<and> length (c # cs) \<le> 64
      else False)"

definition secret_env_key :: "string \<Rightarrow> bool" where
  "secret_env_key v =
     (let upper = map to_ascii_upper v in
      list_ex (str_contains upper)
        [''TOKEN'', ''SECRET'', ''KEY'', ''PASSWORD'', ''CREDENTIAL'', ''HOME'', ''PATH'',
         ''GITHUB'', ''AUTHORIZATION'', ''GROK'', ''XAI'', ''AWS'', ''SSH'', ''COOKIE''])"

definition is_absolute_path :: "string \<Rightarrow> bool" where
  "is_absolute_path p = (case p of [] \<Rightarrow> False | c # _ \<Rightarrow> c = CHR ''/'')"

fun validate_required_check_list ::
  "string set \<Rightarrow> required_check_spec list \<Rightarrow> string + unit" where
  "validate_required_check_list seen [] = Inr ()"
| "validate_required_check_list seen (c # cs) =
     rbind (first_err
       [reject (\<not> valid_check_id (rc_check_id c) \<or> rc_check_id c \<in> seen)
          ''required check id must be a unique lowercase token'',
        reject (\<not> is_absolute_path (rc_executable c) \<or> NUL \<in> set (rc_executable c))
          ''required check executable must be an absolute path'',
        reject (length (rc_args c) > 16) ''required check has too many arguments'',
        reject (list_ex (\<lambda>a. length a > 512 \<or> NUL \<in> set a) (rc_args c))
          ''required check argument is empty, too long, or contains NUL'',
        reject (length (rc_env c) > 8) ''required check environment is too large'',
        reject (list_ex (\<lambda>v. \<not> valid_env_key (env_key v) \<or> secret_env_key (env_key v)
                          \<or> NUL \<in> set (env_value v)) (rc_env c))
          ''required check environment refuses operator credentials, PATH, and HOME'',
        reject (rc_timeout_ms c = 0 \<or> rc_timeout_ms c > 60000)
          ''required check timeout must be between 1 and 60000 milliseconds'',
        reject (rc_max_output_bytes c = 0 \<or> rc_max_output_bytes c > 16 * 1024)
          ''required check output bound must be between 1 and 16384 bytes''])
     (\<lambda>_. validate_required_check_list (insert (rc_check_id c) seen) cs)"

definition validate_required_checks :: "required_check_spec list \<Rightarrow> string + unit" where
  "validate_required_checks checks =
     (if length checks > 8 then Inl ''required checks exceed the host bound''
      else validate_required_check_list {} checks)"

definition authorizes_applied_success ::
  "candidate_verification \<Rightarrow> string option \<Rightarrow> string option \<Rightarrow> string \<Rightarrow> nat \<Rightarrow> string
     \<Rightarrow> string option \<Rightarrow> bool" where
  "authorizes_applied_success v approved_digest target_revision profile_id profile_revision
       authority_digest approved_bundle =
     (cv_schema_version v = 1
      \<and> cv_applied v
      \<and> \<not> cv_invalidated v
      \<and> cv_checks_passed v
      \<and> cv_worker_stopped v
      \<and> cv_change_proposed v
      \<and> approved_digest = Some (cv_content_digest v)
      \<and> approved_bundle = Some (cv_apply_bundle_digest v)
      \<and> cv_apply_bundle_digest v \<noteq> []
      \<and> target_revision = Some (cv_source_revision v)
      \<and> list_all (\<lambda>c. rx_outcome c = ''passed'') (cv_checks v)
      \<and> cv_checks v \<noteq> []
      \<and> \<not> cv_reconciliation_required v
      \<and> profile_id \<noteq> []
      \<and> cv_check_profile_id v = profile_id
      \<and> cv_check_profile_revision v = profile_revision
      \<and> cv_check_profile_revision v > 0
      \<and> authority_digest \<noteq> []
      \<and> cv_check_authority_digest v = authority_digest)"

subsection \<open>The builder and the re-check agree\<close>

lemma observe_tests_partition:
  "co_tests_observed obs
     = co_tests_passed obs + co_tests_failed obs + co_tests_incomplete obs \<Longrightarrow>
   co_tests_observed (observe_tests ts obs)
     = co_tests_passed (observe_tests ts obs) + co_tests_failed (observe_tests ts obs)
       + co_tests_incomplete (observe_tests ts obs)"
  by (induction ts obs rule: observe_tests.induct) (auto simp: Let_def)

lemma observations_from_run_partition:
  "co_tests_observed (observations_from_run n ts r g d)
     = co_tests_passed (observations_from_run n ts r g d)
       + co_tests_failed (observations_from_run n ts r g d)
       + co_tests_incomplete (observations_from_run n ts r g d)"
  unfolding observations_from_run_def by (rule observe_tests_partition) simp

lemma evidence_authorizes_successD:
  assumes "evidence_authorizes_success e"
  shows "ce_status e = ''verified''" "ce_stop_reason e = ''completed''" "\<not> ce_interrupted e"
    "co_tests_failed (ce_observations e) = 0" "0 < co_tests_passed (ce_observations e)"
    "co_tests_incomplete (ce_observations e) = 0"
    "co_permissions_unresolved (ce_observations e) = 0"
    "cc_present (ce_claims e)" "cc_mentions_tests (ce_claims e)"
    "cc_mentions_verification (ce_claims e)"
  using assms by (auto simp: evidence_authorizes_success_def Let_def split: if_splits)


end
