(* ===== verification/Workload.thy ===== *)
theory Workload
  imports Evidence
begin

section \<open>Durable work records\<close>

text \<open>
  \<^verbatim>\<open>orchestration/workload.rs\<close> with \<open>RunBounds\<close> of \<^verbatim>\<open>orchestration/types.rs\<close>: the work item,
  its policy, dependencies, result, approval and decisions, the leased attempt, and the
  validation of each record. A record's \<open>validate\<close> is the list of its checks in source
  order; \<open>first_err\<close> returns the first that fails.

  Code outside the repository that these records rely on is collected in the record
  \<open>host\<close>: the wall clock (\<open>Utc::now\<close>), random identifiers (\<open>Uuid::new_v4\<close>), path
  canonicalisation (\<open>dunce::canonicalize\<close>), the SHA-256 digest of a serialised value
  (\<open>hash_payload\<close>, \<open>domain_digest\<close>), what the checkout and the retained candidate files
  hold (\<open>source_revision\<close>, \<open>retained_matches\<close>, \<open>recompute_candidate_apply_bundle\<close>, which
  run git and read the file system), and how a durable write ends. Clock, identifiers and
  writes are indexed by how many were used before, so successive readings may differ.
\<close>

subsection \<open>States\<close>

datatype work_state =
    W_Queued | W_Blocked | W_Leased | W_Running | W_AwaitingInput
  | W_AwaitingApproval | W_Review | W_Succeeded | W_Failed | W_Cancelled

fun ws_is_terminal :: "work_state \<Rightarrow> bool" where
  "ws_is_terminal W_Succeeded = True"
| "ws_is_terminal W_Failed = True"
| "ws_is_terminal W_Cancelled = True"
| "ws_is_terminal _ = False"

fun ws_is_review_gate :: "work_state \<Rightarrow> bool" where
  "ws_is_review_gate W_AwaitingApproval = True"
| "ws_is_review_gate W_Review = True"
| "ws_is_review_gate _ = False"

fun ws_is_claimable :: "work_state \<Rightarrow> bool" where
  "ws_is_claimable W_Queued = True"
| "ws_is_claimable _ = False"

fun work_state_debug :: "work_state \<Rightarrow> string" where
  "work_state_debug W_Queued = ''Queued''"
| "work_state_debug W_Blocked = ''Blocked''"
| "work_state_debug W_Leased = ''Leased''"
| "work_state_debug W_Running = ''Running''"
| "work_state_debug W_AwaitingInput = ''AwaitingInput''"
| "work_state_debug W_AwaitingApproval = ''AwaitingApproval''"
| "work_state_debug W_Review = ''Review''"
| "work_state_debug W_Succeeded = ''Succeeded''"
| "work_state_debug W_Failed = ''Failed''"
| "work_state_debug W_Cancelled = ''Cancelled''"

datatype assignment_status = Unassigned | Offered | Accepted | Declined

fun is_claimable_by :: "assignment_status \<Rightarrow> string option \<Rightarrow> string \<Rightarrow> unit result" where
  "is_claimable_by Offered assigned claimant =
     Inl (invalid ''work offer must be accepted before it can be claimed'')"
| "is_claimable_by Declined assigned claimant = Inr ()"
| "is_claimable_by Unassigned assigned claimant = Inr ()"
| "is_claimable_by Accepted assigned claimant =
     (if is_some_and assigned (\<lambda>agent. agent \<noteq> claimant)
      then Inl (invalid ''work item is assigned to a different worker'')
      else Inr ())"

datatype work_decision_action =
    D_Assign | D_Offer | D_Accept | D_Decline | D_Reassign | D_Reprioritize | D_Block
  | D_Unblock | D_Cancel | D_RequestReview | D_AuthorizeExecution

datatype attempt_state =
    A_Leased | A_Running | A_AwaitingInput | A_AwaitingApproval | A_Review
  | A_Released | A_Expired | A_Succeeded | A_Failed | A_Cancelled

fun as_is_active :: "attempt_state \<Rightarrow> bool" where
  "as_is_active A_Leased = True"
| "as_is_active A_Running = True"
| "as_is_active A_AwaitingInput = True"
| "as_is_active A_AwaitingApproval = True"
| "as_is_active A_Review = True"
| "as_is_active _ = False"

fun as_is_review_gate :: "attempt_state \<Rightarrow> bool" where
  "as_is_review_gate A_AwaitingApproval = True"
| "as_is_review_gate A_Review = True"
| "as_is_review_gate _ = False"

fun requires_lease_heartbeat :: "attempt_state \<Rightarrow> bool" where
  "requires_lease_heartbeat A_Leased = True"
| "requires_lease_heartbeat A_Running = True"
| "requires_lease_heartbeat A_AwaitingInput = True"
| "requires_lease_heartbeat _ = False"

datatype block_provenance = Derived | Manual

fun bp_is_manual :: "block_provenance \<Rightarrow> bool" where
  "bp_is_manual Manual = True"
| "bp_is_manual Derived = False"

fun bp_is_derived :: "block_provenance \<Rightarrow> bool" where
  "bp_is_derived Derived = True"
| "bp_is_derived Manual = False"

subsection \<open>Field checks\<close>

definition validate_id :: "string \<Rightarrow> string \<Rightarrow> unit result" where
  "validate_id v field =
     reject (v = [] \<or> length v > 256 \<or> str_contains v ''..'' \<or> CHR ''/'' \<in> set v
             \<or> BACKSLASH \<in> set v \<or> NUL \<in> set v)
       (invalid (field @ '' is empty or invalid''))"

definition validate_text :: "string \<Rightarrow> nat \<Rightarrow> string \<Rightarrow> unit result" where
  "validate_text v max_bytes field =
     reject (v = [] \<or> length v > max_bytes \<or> NUL \<in> set v)
       (invalid (field @ '' is empty or exceeds its bound''))"

text \<open>
  \<open>safe_id_filename\<close> checks an id and names its file by the SHA-256 digest of the id. The
  model keeps the check and names the file by the id itself.
\<close>

definition safe_id_filename :: "string \<Rightarrow> string result" where
  "safe_id_filename i =
     rbind (first_err
       [reject (i = [] \<or> length i > 256) (invalid ''id length out of range''),
        reject (str_contains i ''..'' \<or> CHR ''/'' \<in> set i \<or> BACKSLASH \<in> set i \<or> NUL \<in> set i)
          (invalid ''id contains path separators'')])
     (\<lambda>_. Inr i)"

definition MAX_WORK_KIND_BYTES :: nat where "MAX_WORK_KIND_BYTES = 96"
definition MAX_WORK_OBJECTIVE_BYTES :: nat where "MAX_WORK_OBJECTIVE_BYTES = 32 * 1024"
definition MAX_WORK_ACTOR_BYTES :: nat where "MAX_WORK_ACTOR_BYTES = 256"
definition MAX_WORK_ARTIFACTS :: nat where "MAX_WORK_ARTIFACTS = 256"
definition MAX_WORK_ARTIFACT_BYTES :: nat where "MAX_WORK_ARTIFACT_BYTES = 2 * 1024"
definition MAX_WORK_DEPENDENCIES :: nat where "MAX_WORK_DEPENDENCIES = 128"
definition MAX_WORK_APPROVAL_NOTE_BYTES :: nat where "MAX_WORK_APPROVAL_NOTE_BYTES = 4 * 1024"
definition DEFAULT_WORK_LEASE_MS :: nat where "DEFAULT_WORK_LEASE_MS = 5 * 60 * 1000"
definition MAX_WORK_LEASE_MS :: nat where "MAX_WORK_LEASE_MS = 60 * 60 * 1000"
definition MAX_WORK_ALLOWED_FILES :: nat where "MAX_WORK_ALLOWED_FILES = 256"
definition MAX_WORK_ALLOWED_FILE_PATH_BYTES :: nat where
  "MAX_WORK_ALLOWED_FILE_PATH_BYTES = 1024"

definition lease_duration :: "nat option \<Rightarrow> time result" where
  "lease_duration ms =
     (let m = (case ms of None \<Rightarrow> DEFAULT_WORK_LEASE_MS | Some m \<Rightarrow> m) in
      if m = 0 \<or> m > MAX_WORK_LEASE_MS
      then Inl (invalid ''lease_ms must be between 1 and 3600000'')
      else Inr (milliseconds m))"

subsection \<open>Policies\<close>

record run_bounds =
  rb_max_prompt_bytes :: nat
  rb_max_rounds :: nat
  rb_max_duration_ms :: nat
  rb_max_total_tokens :: "nat option"

definition run_bounds_validate :: "run_bounds \<Rightarrow> unit result" where
  "run_bounds_validate b = first_err
     [reject (rb_max_prompt_bytes b = 0) (invalid ''max_prompt_bytes must be > 0''),
      reject (rb_max_rounds b = 0) (invalid ''max_rounds must be > 0''),
      reject (rb_max_duration_ms b = 0) (invalid ''max_duration_ms must be > 0''),
      reject (rb_max_total_tokens b = Some 0) (invalid ''max_total_tokens must be > 0'')]"

record work_retry_policy =
  rp_max_attempts :: nat
  rp_retry_failed :: bool
  rp_retry_expired :: bool
  rp_backoff_ms :: nat

definition retry_policy_validate :: "work_retry_policy \<Rightarrow> unit result" where
  "retry_policy_validate p = first_err
     [reject (rp_max_attempts p = 0) (invalid ''retry.max_attempts must be greater than zero''),
      reject (rp_max_attempts p > 100) (invalid ''retry.max_attempts exceeds the workload bound''),
      reject (rp_backoff_ms p > 24 * 60 * 60 * 1000) (invalid ''retry.backoff_ms exceeds one day'')]"

datatype managed_work_mode = MM_Inherit | MM_Forbid

record work_policy =
  wp_bounds :: run_bounds
  wp_retry :: work_retry_policy
  wp_requires_approval :: bool
  wp_max_concurrent_attempts :: nat
  wp_managed_execution :: managed_work_mode
  wp_allowed_files :: "string list"
  wp_required_checks :: "required_check_spec list"

fun path_parts :: "string list \<Rightarrow> string list result" where
  "path_parts [] = Inr []"
| "path_parts (p # ps) =
     (if p = [] \<or> p = ''.'' then
        Inl (invalid ''allowed_files path contains empty or dot components'')
      else if p = ''..'' then Inl (invalid ''allowed_files paths must not contain ..'')
      else rbind (path_parts ps) (\<lambda>rest. Inr (p # rest)))"

definition normalize_allowed_file_path :: "string \<Rightarrow> string result" where
  "normalize_allowed_file_path raw =
     rbind (first_err
       [reject (length raw > MAX_WORK_ALLOWED_FILE_PATH_BYTES)
          (invalid ''allowed_files path exceeds its bound''),
        reject (raw = [] \<or> raw = ''.'' \<or> raw = ''..'')
          (invalid ''allowed_files entries must be relative workspace files''),
        reject (NUL \<in> set raw \<or> BACKSLASH \<in> set raw \<or> str_contains raw ''//''
                \<or> suffix ''/'' raw)
          (invalid ''allowed_files path contains empty/dot targets or separator tricks''),
        reject (prefix ''/'' raw) (invalid ''allowed_files paths must be relative'')])
     (\<lambda>_. rbind (path_parts (split_at (CHR ''/'') raw)) (\<lambda>parts.
        if parts = [] then
          Inl (invalid ''allowed_files entries must be relative workspace files'')
        else Inr (join (CHR ''/'') parts)))"

fun normalize_entries :: "string list \<Rightarrow> string list \<Rightarrow> string list result" where
  "normalize_entries [] seen = Inr []"
| "normalize_entries (raw # rest) seen =
     rbind (normalize_allowed_file_path raw) (\<lambda>p.
       if p \<in> set seen
       then Inl (invalid ''allowed_files contains duplicate normalized paths'')
       else rbind (normalize_entries rest (p # seen)) (\<lambda>ps. Inr (p # ps)))"

definition normalize_allowed_files :: "string list \<Rightarrow> string list result" where
  "normalize_allowed_files entries =
     (if length entries > MAX_WORK_ALLOWED_FILES
      then Inl (invalid ''allowed_files exceeds the work policy bound'')
      else normalize_entries entries [])"

definition work_policy_validate :: "work_policy \<Rightarrow> unit result" where
  "work_policy_validate p = first_err
     [run_bounds_validate (wp_bounds p),
      retry_policy_validate (wp_retry p),
      reject (wp_max_concurrent_attempts p = 0 \<or> wp_max_concurrent_attempts p > 1)
        (invalid ''policy.max_concurrent_attempts must be exactly one in the single-owner runtime''),
      rbind (normalize_allowed_files (wp_allowed_files p)) (\<lambda>normalized.
        reject (normalized \<noteq> wp_allowed_files p)
          (invalid ''allowed_files must be stored as normalized relative workspace paths'')),
      (case validate_required_checks (wp_required_checks p) of
         Inl m \<Rightarrow> Inl (invalid m) | Inr _ \<Rightarrow> Inr ())]"

definition restricts_local_mutations :: "work_policy \<Rightarrow> bool" where
  "restricts_local_mutations p = (wp_allowed_files p \<noteq> [])"

definition denies_shell :: "work_policy \<Rightarrow> bool" where
  "denies_shell p = restricts_local_mutations p"

subsection \<open>Results, approvals, decisions\<close>

record work_dependency =
  dep_work_id :: string
  dep_required_state :: work_state

definition dependency_validate :: "work_dependency \<Rightarrow> unit result" where
  "dependency_validate d = first_err
     [validate_id (dep_work_id d) ''dependency.work_id'',
      reject (dep_required_state d \<noteq> W_Succeeded)
        (invalid ''dependency.required_state must be succeeded in this slice'')]"

record work_progress =
  pg_summary :: string
  pg_percent :: "nat option"
  pg_updated_at :: time

record work_artifact_ref =
  ar_artifact_id :: string
  ar_kind :: string
  ar_label :: string
  ar_digest :: "string option"
  ar_retained_until :: "time option"

definition artifact_validate :: "work_artifact_ref \<Rightarrow> unit result" where
  "artifact_validate a = first_err
     [validate_id (ar_artifact_id a) ''artifact.artifact_id'',
      validate_text (ar_kind a) MAX_WORK_ARTIFACT_BYTES ''artifact.kind'',
      validate_text (ar_label a) MAX_WORK_ARTIFACT_BYTES ''artifact.label'',
      on_some (ar_digest a) (\<lambda>d. validate_text d MAX_WORK_ARTIFACT_BYTES ''artifact.digest'')]"

record work_result =
  wr_summary :: string
  wr_evidence :: "string list"
  wr_artifacts :: "work_artifact_ref list"
  wr_failure :: "string option"
  wr_cancellation_reason :: "string option"
  wr_completed_at :: time
  wr_verification :: "completion_evidence option"
  wr_candidate_verification :: "candidate_verification option"

record work_approval =
  ap_reviewer_id :: string
  ap_note :: "string option"
  ap_approved_at :: time
  ap_candidate_digest :: "string option"
  ap_target_revision :: "string option"
  ap_apply_bundle_digest :: "string option"

definition approval_validate :: "work_approval \<Rightarrow> unit result" where
  "approval_validate a = first_err
     [validate_text (ap_reviewer_id a) MAX_WORK_ACTOR_BYTES ''approval.reviewer_id'',
      on_some (ap_note a) (\<lambda>n. validate_text n MAX_WORK_APPROVAL_NOTE_BYTES ''approval.note'')]"

definition verification_ids_validate :: "completion_evidence \<Rightarrow> unit result" where
  "verification_ids_validate v = first_err
     [validate_text (ce_status v) MAX_WORK_ARTIFACT_BYTES ''result.verification.status'',
      validate_text (ce_stop_reason v) MAX_WORK_ARTIFACT_BYTES ''result.verification.stop_reason'',
      on_some (ce_work_id v) (\<lambda>i. validate_id i ''result.verification.work_id''),
      on_some (ce_run_id v) (\<lambda>i. validate_id i ''result.verification.run_id''),
      on_some (ce_attempt_id v) (\<lambda>i. validate_id i ''result.verification.attempt_id'')]"

definition candidate_out_of_bound :: "candidate_verification \<Rightarrow> bool" where
  "candidate_out_of_bound c =
     (length (cv_bounded_diff c) > 16 * 1024
      \<or> length (cv_files c) > 256
      \<or> length (cv_checks c) > 8
      \<or> list_ex (\<lambda>p. prefix ''/'' p \<or> str_contains p ''..'' \<or> NUL \<in> set p)
           (cv_changed_paths c @ map cf_path (cv_files c)))"

definition result_validate :: "work_result \<Rightarrow> unit result" where
  "result_validate r = first_err
     ([validate_text (wr_summary r) MAX_WORK_OBJECTIVE_BYTES ''result.summary'',
       reject (length (wr_evidence r) > MAX_WORK_ARTIFACTS)
         (invalid ''result.evidence exceeds the workload bound'')]
      @ map (\<lambda>v. validate_text v MAX_WORK_ARTIFACT_BYTES ''result.evidence'') (wr_evidence r)
      @ [reject (length (wr_artifacts r) > MAX_WORK_ARTIFACTS)
           (invalid ''result.artifacts exceeds the workload bound'')]
      @ map artifact_validate (wr_artifacts r)
      @ [on_some (wr_failure r)
           (\<lambda>f. validate_text f MAX_WORK_OBJECTIVE_BYTES ''result.failure''),
         on_some (wr_cancellation_reason r)
           (\<lambda>c. validate_text c MAX_WORK_OBJECTIVE_BYTES ''result.cancellation_reason''),
         on_some (wr_verification r) verification_ids_validate,
         on_some (wr_candidate_verification r)
           (\<lambda>c. reject (candidate_out_of_bound c)
                  (invalid ''candidate verification is outside the host evidence bound''))])"

definition WORKLOAD_SCHEMA_VERSION :: nat where "WORKLOAD_SCHEMA_VERSION = 1"

record work_decision =
  wd_schema_version :: nat
  wd_decision_id :: string
  wd_work_id :: string
  wd_action :: work_decision_action
  wd_actor_id :: string
  wd_actor_agent_id :: "string option"
  wd_assigned_agent_id :: "string option"
  wd_policy_revision :: "u64 option"
  wd_work_revision :: "u64 option"
  wd_reason :: string
  wd_created_at :: time

definition decision_validate :: "work_decision \<Rightarrow> unit result" where
  "decision_validate d = first_err
     [reject (wd_schema_version d \<noteq> WORKLOAD_SCHEMA_VERSION)
        (invalid ''work decision schema version is invalid''),
      validate_id (wd_decision_id d) ''decision_id'',
      validate_id (wd_work_id d) ''work_id'',
      validate_text (wd_actor_id d) MAX_WORK_ACTOR_BYTES ''actor_id'',
      on_some (wd_actor_agent_id d) (\<lambda>i. validate_id i ''actor_agent_id''),
      on_some (wd_assigned_agent_id d) (\<lambda>i. validate_id i ''assigned_agent_id''),
      reject (wd_work_revision d = Some 0) (invalid ''work_revision must be greater than zero''),
      reject (wd_policy_revision d = Some 0)
        (invalid ''policy_revision must be greater than zero''),
      validate_text (wd_reason d) MAX_WORK_OBJECTIVE_BYTES ''reason'']"

subsection \<open>Work items\<close>

record work_item =
  wi_schema_version :: nat
  wi_work_id :: string
  wi_kind :: string
  wi_objective :: string
  wi_session_id :: uuid
  wi_workspace :: string
  wi_created_by :: string
  wi_assigned_agent_id :: "string option"
  wi_priority :: int
  wi_deadline :: "time option"
  wi_parent_work_id :: "string option"
  wi_dependencies :: "work_dependency list"
  wi_policy :: work_policy
  wi_state :: work_state
  wi_revision :: u64
  wi_attempt_count :: nat
  wi_progress :: "work_progress option"
  wi_result :: "work_result option"
  wi_is_container :: bool
  wi_approval :: "work_approval option"
  wi_source_routine_id :: "string option"
  wi_source_activation_id :: "string option"
  wi_source_manager_plan_id :: "string option"
  wi_source_manager_step_id :: "string option"
  wi_assignment_status :: assignment_status
  wi_blocked_reason :: "string option"
  wi_block_provenance :: "block_provenance option"
  wi_last_decision_id :: "string option"
  wi_created_at :: time
  wi_updated_at :: time

fun dependencies_validate ::
  "string \<Rightarrow> string set \<Rightarrow> work_dependency list \<Rightarrow> unit result" where
  "dependencies_validate me seen [] = Inr ()"
| "dependencies_validate me seen (d # ds) =
     rbind (first_err
       [dependency_validate d,
        reject (dep_work_id d = me) (invalid ''work item cannot depend on itself''),
        reject (dep_work_id d \<in> seen) (invalid ''duplicate workload dependency'')])
     (\<lambda>_. dependencies_validate me (insert (dep_work_id d) seen) ds)"

definition progress_validate :: "work_progress \<Rightarrow> unit result" where
  "progress_validate p = first_err
     [validate_text (pg_summary p) MAX_WORK_OBJECTIVE_BYTES ''progress.summary'',
      reject (is_some_and (pg_percent p) (\<lambda>n. n > 100))
        (invalid ''progress.percent must be between 0 and 100'')]"

definition item_validate :: "work_item \<Rightarrow> unit result" where
  "item_validate i = first_err
     [reject (wi_schema_version i \<noteq> WORKLOAD_SCHEMA_VERSION \<or> wi_revision i = 0)
        (invalid ''work item schema version or revision is invalid''),
      validate_id (wi_work_id i) ''work_id'',
      validate_text (wi_kind i) MAX_WORK_KIND_BYTES ''kind'',
      validate_text (wi_objective i) MAX_WORK_OBJECTIVE_BYTES ''objective'',
      validate_text (wi_workspace i) (MAX_WORK_ACTOR_BYTES * 4) ''workspace'',
      validate_text (wi_created_by i) MAX_WORK_ACTOR_BYTES ''created_by'',
      on_some (wi_assigned_agent_id i) (\<lambda>a. validate_id a ''assigned_agent_id''),
      on_some (wi_parent_work_id i) (\<lambda>p. first_err
        [validate_id p ''parent_work_id'',
         reject (p = wi_work_id i) (invalid ''work item cannot be its own parent'')]),
      reject (length (wi_dependencies i) > MAX_WORK_DEPENDENCIES)
        (invalid ''dependencies exceeds the workload bound''),
      dependencies_validate (wi_work_id i) {} (wi_dependencies i),
      work_policy_validate (wi_policy i),
      reject (wi_attempt_count i > rp_max_attempts (wp_retry (wi_policy i)))
        (invalid ''attempt_count exceeds retry.max_attempts''),
      on_some (wi_progress i) progress_validate,
      on_some (wi_result i) result_validate,
      on_some (wi_approval i) approval_validate,
      on_some (wi_source_routine_id i) (\<lambda>r. validate_id r ''source_routine_id''),
      on_some (wi_source_activation_id i) (\<lambda>r. validate_id r ''source_activation_id''),
      reject ((wi_source_manager_plan_id i \<noteq> None) \<noteq> (wi_source_manager_step_id i \<noteq> None))
        (invalid ''source manager plan and step links must be provided together''),
      on_some (wi_source_manager_plan_id i) (\<lambda>r. validate_id r ''source_manager_plan_id''),
      on_some (wi_source_manager_step_id i) (\<lambda>r. validate_id r ''source_manager_step_id''),
      on_some (wi_blocked_reason i)
        (\<lambda>r. validate_text r MAX_WORK_OBJECTIVE_BYTES ''blocked_reason''),
      on_some (wi_last_decision_id i) (\<lambda>r. validate_id r ''last_decision_id'')]"

definition item_new_at ::
  "string \<Rightarrow> string \<Rightarrow> string \<Rightarrow> uuid \<Rightarrow> string \<Rightarrow> string \<Rightarrow> work_policy \<Rightarrow> time \<Rightarrow> work_item result" where
  "item_new_at fresh_id kind objective session_id workspace created_by policy now =
     (let item =
        \<lparr>wi_schema_version = WORKLOAD_SCHEMA_VERSION, wi_work_id = fresh_id, wi_kind = kind,
         wi_objective = objective, wi_session_id = session_id, wi_workspace = workspace,
         wi_created_by = created_by, wi_assigned_agent_id = None, wi_priority = 0,
         wi_deadline = None, wi_parent_work_id = None, wi_dependencies = [],
         wi_policy = policy, wi_state = W_Queued, wi_revision = 1, wi_attempt_count = 0,
         wi_progress = None, wi_result = None, wi_is_container = False, wi_approval = None,
         wi_source_routine_id = None, wi_source_activation_id = None,
         wi_source_manager_plan_id = None, wi_source_manager_step_id = None,
         wi_assignment_status = Unassigned, wi_blocked_reason = None,
         wi_block_provenance = None, wi_last_decision_id = None,
         wi_created_at = now, wi_updated_at = now\<rparr>
      in rbind (item_validate item) (\<lambda>_. Inr item))"

definition dependency_ready :: "work_item \<Rightarrow> work_state list \<Rightarrow> bool" where
  "dependency_ready i states =
     (length (wi_dependencies i) = length (filter (\<lambda>st. st = W_Succeeded) states))"

definition bump_at :: "time \<Rightarrow> work_item \<Rightarrow> work_item" where
  "bump_at now i = i\<lparr>wi_revision := saturating_succ (wi_revision i), wi_updated_at := now\<rparr>"

subsection \<open>Leased attempts\<close>

record work_attempt =
  wa_schema_version :: nat
  wa_attempt_id :: string
  wa_work_id :: string
  wa_attempt_number :: nat
  wa_claimant_id :: string
  wa_lease_token_hash :: string
  wa_acquired_at :: time
  wa_lease_expires_at :: time
  wa_last_heartbeat_at :: time
  wa_state :: attempt_state
  wa_linked_run_ids :: "string list"
  wa_progress :: "work_progress option"
  wa_result :: "work_result option"
  wa_terminal_reason :: "string option"
  wa_created_at :: time
  wa_updated_at :: time

datatype payload =
    P_LeaseToken string
  | P_LeaseSecret string string string nat
  | P_Item work_item
  | P_Attempt work_attempt
  | P_Decision work_decision

text \<open>
  A durable write goes to a temporary file that is renamed over the record and then made
  durable by syncing the directory. It can fail before the rename, with the old record in
  place, or after it, with the new record in place although the caller sees an error.
\<close>

datatype write_outcome = Written | NotWritten | WrittenUnsynced

record host =
  utc_now :: "nat \<Rightarrow> time"
  new_uuid :: "nat \<Rightarrow> string"
  durable_outcome :: "nat \<Rightarrow> write_outcome"
  io_error :: string
  canonicalize :: "string \<Rightarrow> string option"
  hash_payload :: "payload \<Rightarrow> string"
  domain_digest :: "string \<Rightarrow> string \<Rightarrow> string"
  source_revision :: "string \<Rightarrow> string + string"
  retained_matches :: "string \<Rightarrow> string \<Rightarrow> candidate_file_record list \<Rightarrow> string + bool"
  recompute_candidate_apply_bundle ::
    "string \<Rightarrow> candidate_verification \<Rightarrow> string list \<Rightarrow> string + string"

definition attempt_new ::
  "host \<Rightarrow> string \<Rightarrow> time \<Rightarrow> string \<Rightarrow> nat \<Rightarrow> string \<Rightarrow> string \<Rightarrow> work_attempt" where
  "attempt_new h fresh_id now work_id attempt_number claimant_id lease_token =
     \<lparr>wa_schema_version = WORKLOAD_SCHEMA_VERSION, wa_attempt_id = fresh_id,
      wa_work_id = work_id, wa_attempt_number = attempt_number,
      wa_claimant_id = claimant_id,
      wa_lease_token_hash = hash_payload h (P_LeaseToken lease_token),
      wa_acquired_at = now,
      wa_lease_expires_at = now + milliseconds DEFAULT_WORK_LEASE_MS,
      wa_last_heartbeat_at = now, wa_state = A_Leased, wa_linked_run_ids = [],
      wa_progress = None, wa_result = None, wa_terminal_reason = None,
      wa_created_at = now, wa_updated_at = now\<rparr>"

definition lease_token_for_secret :: "host \<Rightarrow> work_attempt \<Rightarrow> string \<Rightarrow> string" where
  "lease_token_for_secret h a lease_secret =
     hash_payload h (P_LeaseSecret lease_secret (wa_work_id a) (wa_attempt_id a) (wa_attempt_number a))"

definition new_with_lease_secret ::
  "host \<Rightarrow> string \<Rightarrow> time \<Rightarrow> string \<Rightarrow> nat \<Rightarrow> string \<Rightarrow> string \<Rightarrow> work_attempt" where
  "new_with_lease_secret h fresh_id now work_id attempt_number claimant_id lease_secret =
     (let attempt = attempt_new h fresh_id now work_id attempt_number claimant_id
                      ''generated-at-claim'';
          lease_token = lease_token_for_secret h attempt lease_secret
      in attempt\<lparr>wa_lease_token_hash := hash_payload h (P_LeaseToken lease_token)\<rparr>)"

definition attempt_validate :: "work_attempt \<Rightarrow> unit result" where
  "attempt_validate a = first_err
     ([reject (wa_schema_version a \<noteq> WORKLOAD_SCHEMA_VERSION)
         (invalid ''work attempt schema version is invalid''),
       validate_id (wa_attempt_id a) ''attempt_id'',
       validate_id (wa_work_id a) ''attempt.work_id'',
       reject (wa_attempt_number a = 0) (invalid ''attempt_number must be greater than zero''),
       validate_text (wa_claimant_id a) MAX_WORK_ACTOR_BYTES ''claimant_id'',
       validate_text (wa_lease_token_hash a) 128 ''lease_token_hash'',
       reject (wa_lease_expires_at a < wa_acquired_at a)
         (invalid ''lease expires before it was acquired''),
       reject (length (wa_linked_run_ids a) > 16)
         (invalid ''linked_run_ids exceeds the workload bound'')]
      @ map (\<lambda>r. validate_id r ''linked_run_id'') (wa_linked_run_ids a)
      @ [on_some (wa_progress a)
           (\<lambda>p. validate_text (pg_summary p) MAX_WORK_OBJECTIVE_BYTES ''attempt.progress''),
         on_some (wa_result a) result_validate,
         on_some (wa_terminal_reason a)
           (\<lambda>r. validate_text r MAX_WORK_OBJECTIVE_BYTES ''attempt.terminal_reason'')])"

definition token_matches :: "host \<Rightarrow> work_attempt \<Rightarrow> string \<Rightarrow> bool" where
  "token_matches h a lease_token =
     (wa_lease_token_hash a = hash_payload h (P_LeaseToken lease_token))"

definition lease_active_at :: "work_attempt \<Rightarrow> time \<Rightarrow> bool" where
  "lease_active_at a now = (as_is_active (wa_state a) \<and> now < wa_lease_expires_at a)"

record work_attempt_view =
  av_schema_version :: nat
  av_attempt_id :: string
  av_work_id :: string
  av_attempt_number :: nat
  av_claimant_id :: string
  av_acquired_at :: time
  av_lease_expires_at :: time
  av_last_heartbeat_at :: time
  av_state :: attempt_state
  av_linked_run_ids :: "string list"
  av_progress :: "work_progress option"
  av_result :: "work_result option"
  av_terminal_reason :: "string option"
  av_created_at :: time
  av_updated_at :: time

definition attempt_view :: "work_attempt \<Rightarrow> work_attempt_view" where
  "attempt_view a =
     \<lparr>av_schema_version = wa_schema_version a, av_attempt_id = wa_attempt_id a,
      av_work_id = wa_work_id a, av_attempt_number = wa_attempt_number a,
      av_claimant_id = wa_claimant_id a, av_acquired_at = wa_acquired_at a,
      av_lease_expires_at = wa_lease_expires_at a,
      av_last_heartbeat_at = wa_last_heartbeat_at a, av_state = wa_state a,
      av_linked_run_ids = wa_linked_run_ids a, av_progress = wa_progress a,
      av_result = wa_result a, av_terminal_reason = wa_terminal_reason a,
      av_created_at = wa_created_at a, av_updated_at = wa_updated_at a\<rparr>"

record work_claim =
  cl_work :: work_item
  cl_attempt :: work_attempt
  cl_lease_token :: string

subsection \<open>Facts about the records\<close>

named_theorems valid_dest \<open>what a successful validation says\<close>

lemma rb_is_ok [simp]: "rbind (Inr x) f = f x" "rbind (Inl e) f = Inl e"
  by (simp_all add: rbind_def)

lemma validate_id_ok:
  "validate_id v f = Inr u \<longleftrightarrow>
     v \<noteq> [] \<and> length v \<le> 256 \<and> \<not> str_contains v ''..'' \<and> CHR ''/'' \<notin> set v
     \<and> BACKSLASH \<notin> set v \<and> NUL \<notin> set v"
  by (auto simp: validate_id_def)

lemma validate_id_any_field: "validate_id v f = Inr () \<Longrightarrow> validate_id v g = Inr ()"
  by (simp add: validate_id_ok)

lemma safe_id_filename_valid: "validate_id v f = Inr () \<Longrightarrow> safe_id_filename v = Inr v"
  by (simp add: validate_id_ok safe_id_filename_def rbind_ok)

lemma safe_id_filename_same: "safe_id_filename v = Inr w \<Longrightarrow> w = v"
  by (auto simp: safe_id_filename_def rbind_ok)

lemma item_validate_id [valid_dest]: "item_validate i = Inr () \<Longrightarrow> validate_id (wi_work_id i) f = Inr ()"
  by (simp add: item_validate_def validate_id_ok)

lemma item_validate_attempts [valid_dest]:
  "item_validate i = Inr () \<Longrightarrow>
     wi_attempt_count i \<le> rp_max_attempts (wp_retry (wi_policy i))
     \<and> 1 \<le> rp_max_attempts (wp_retry (wi_policy i))
     \<and> rp_max_attempts (wp_retry (wi_policy i)) \<le> 100"
  by (simp add: item_validate_def work_policy_validate_def retry_policy_validate_def
        run_bounds_validate_def)

lemma item_validate_revision [valid_dest]: "item_validate i = Inr () \<Longrightarrow> wi_revision i \<noteq> 0"
  by (simp add: item_validate_def)

lemma dependencies_validate_distinct:
  "dependencies_validate me seen ds = Inr () \<Longrightarrow>
     distinct (map dep_work_id ds) \<and> dep_work_id ` set ds \<inter> insert me seen = {}
     \<and> (\<forall>d \<in> set ds. dep_required_state d = W_Succeeded)"
  by (induction ds arbitrary: seen)
     (fastforce simp: rbind_ok dependency_validate_def)+

lemma item_validate_dependencies [valid_dest]:
  "item_validate i = Inr () \<Longrightarrow>
     distinct (map dep_work_id (wi_dependencies i))
     \<and> wi_work_id i \<notin> dep_work_id ` set (wi_dependencies i)
     \<and> (\<forall>d \<in> set (wi_dependencies i). dep_required_state d = W_Succeeded)"
  using dependencies_validate_distinct [of "wi_work_id i" "{}" "wi_dependencies i"]
  by (simp add: item_validate_def)

lemma attempt_validate_ids [valid_dest]:
  "attempt_validate a = Inr () \<Longrightarrow>
     validate_id (wa_attempt_id a) f = Inr () \<and> validate_id (wa_work_id a) f = Inr ()"
  by (simp add: attempt_validate_def validate_id_ok)

lemma bump_at_simps [simp]:
  "wi_work_id (bump_at t i) = wi_work_id i"
  "wi_session_id (bump_at t i) = wi_session_id i"
  "wi_workspace (bump_at t i) = wi_workspace i"
  "wi_created_by (bump_at t i) = wi_created_by i"
  "wi_state (bump_at t i) = wi_state i"
  "wi_dependencies (bump_at t i) = wi_dependencies i"
  "wi_policy (bump_at t i) = wi_policy i"
  "wi_attempt_count (bump_at t i) = wi_attempt_count i"
  "wi_is_container (bump_at t i) = wi_is_container i"
  "wi_deadline (bump_at t i) = wi_deadline i"
  "wi_block_provenance (bump_at t i) = wi_block_provenance i"
  "wi_blocked_reason (bump_at t i) = wi_blocked_reason i"
  "wi_revision (bump_at t i) = saturating_succ (wi_revision i)"
  "wi_approval (bump_at t i) = wi_approval i"
  "wi_result (bump_at t i) = wi_result i"
  "wi_last_decision_id (bump_at t i) = wi_last_decision_id i"
  by (simp_all add: bump_at_def)

lemma lease_active_antimono: "lease_active_at a t \<Longrightarrow> t' \<le> t \<Longrightarrow> lease_active_at a t'"
  by (auto simp: lease_active_at_def)

lemma lease_active_active: "lease_active_at a t \<Longrightarrow> as_is_active (wa_state a)"
  by (simp add: lease_active_at_def)

lemma heartbeat_is_active: "requires_lease_heartbeat st \<Longrightarrow> as_is_active st"
  by (cases st) auto

lemma active_heartbeat_or_gate:
  "as_is_active st \<longleftrightarrow> requires_lease_heartbeat st \<or> as_is_review_gate st"
  by (cases st) auto

lemma lease_duration_ok:
  "lease_duration ms = Inr d \<Longrightarrow> 0 < d \<and> d \<le> milliseconds MAX_WORK_LEASE_MS"
  by (auto simp: lease_duration_def milliseconds_def Let_def split: if_splits)

lemma path_parts_ok:
  "path_parts ps = Inr qs \<Longrightarrow>
     qs = ps \<and> (\<forall>p \<in> set ps. p \<noteq> [] \<and> p \<noteq> ''.'' \<and> p \<noteq> ''..'')"
  by (induction ps arbitrary: qs) (auto simp: rbind_ok split: if_splits)

lemma normalize_allowed_file_path_ok:
  assumes "normalize_allowed_file_path raw = Inr p"
  shows "p = raw" "\<not> prefix ''/'' raw" "length raw \<le> MAX_WORK_ALLOWED_FILE_PATH_BYTES"
    "\<forall>c \<in> set (split_at (CHR ''/'') raw). c \<noteq> [] \<and> c \<noteq> ''.'' \<and> c \<noteq> ''..''"
proof -
  from assms obtain parts where rel: "\<not> prefix ''/'' raw"
    and len: "\<not> length raw > MAX_WORK_ALLOWED_FILE_PATH_BYTES"
    and parts: "path_parts (split_at (CHR ''/'') raw) = Inr parts"
    and p: "(if parts = []
             then Inl (invalid ''allowed_files entries must be relative workspace files'')
             else Inr (join (CHR ''/'') parts)) = Inr p"
    unfolding normalize_allowed_file_path_def rbind_ok first_err_ok by force
  from path_parts_ok [OF parts] p
  show "p = raw" and
    "\<forall>c \<in> set (split_at (CHR ''/'') raw). c \<noteq> [] \<and> c \<noteq> ''.'' \<and> c \<noteq> ''..''"
    by (simp_all split: if_splits)
  show "\<not> prefix ''/'' raw" "length raw \<le> MAX_WORK_ALLOWED_FILE_PATH_BYTES"
    using rel len by simp_all
qed

lemma normalize_entries_ok:
  "normalize_entries es seen = Inr ps \<Longrightarrow>
     ps = es \<and> distinct es \<and> set es \<inter> set seen = {}
     \<and> (\<forall>e \<in> set es. normalize_allowed_file_path e = Inr e)"
proof (induction es arbitrary: seen ps)
  case Nil
  then show ?case by simp
next
  case (Cons e es)
  from Cons.prems obtain qs where e: "normalize_allowed_file_path e = Inr e"
    and qs: "normalize_entries es (e # seen) = Inr qs" and "ps = e # qs" and "e \<notin> set seen"
    by (auto simp: rbind_ok split: if_splits dest: normalize_allowed_file_path_ok)
  then show ?case using Cons.IH [OF qs] by auto
qed

text \<open>
  The allowed-files policy of a work item is confined to the workspace: whatever the
  normaliser accepts it returns unchanged, without duplicates and within its bound, every
  accepted path is relative, and no component of it is empty, a dot or dot-dot.
\<close>

theorem allowed_files_confined:
  assumes "normalize_allowed_files entries = Inr files"
  shows "files = entries \<and> distinct files \<and> length files \<le> MAX_WORK_ALLOWED_FILES
    \<and> (\<forall>f \<in> set files. \<not> prefix ''/'' f \<and> length f \<le> MAX_WORK_ALLOWED_FILE_PATH_BYTES
         \<and> (\<forall>c \<in> set (split_at (CHR ''/'') f). c \<noteq> [] \<and> c \<noteq> ''.'' \<and> c \<noteq> ''..''))"
proof -
  from assms have len: "length entries \<le> MAX_WORK_ALLOWED_FILES"
    and ok: "normalize_entries entries [] = Inr files"
    by (auto simp: normalize_allowed_files_def split: if_splits)
  from normalize_entries_ok [OF ok] have "files = entries" "distinct entries"
    and each: "\<And>e. e \<in> set entries \<Longrightarrow> normalize_allowed_file_path e = Inr e"
    by auto
  then show ?thesis
    using len normalize_allowed_file_path_ok [OF each] by blast
qed

theorem allowed_files_confined_witness:
  "normalize_allowed_files [''src/lib.rs'', ''README.md''] = Inr [''src/lib.rs'', ''README.md'']
   \<and> distinct [''src/lib.rs'', ''README.md'']"
proof -
  have "normalize_allowed_files [''src/lib.rs'', ''README.md'']
          = Inr [''src/lib.rs'', ''README.md'']"
    by (simp add: normalize_allowed_files_def normalize_allowed_file_path_def rbind_ok
          MAX_WORK_ALLOWED_FILES_def MAX_WORK_ALLOWED_FILE_PATH_BYTES_def str_contains_def
          sublist_Cons_right NUL_def BACKSLASH_def suffix_def)
  then show ?thesis using allowed_files_confined [of "[''src/lib.rs'', ''README.md'']"] by blast
qed

subsection \<open>Example records for the witnesses\<close>

definition example_policy :: work_policy where
  "example_policy =
     \<lparr>wp_bounds = \<lparr>rb_max_prompt_bytes = 65536, rb_max_rounds = 8, rb_max_duration_ms = 60000,
                  rb_max_total_tokens = None\<rparr>,
      wp_retry = \<lparr>rp_max_attempts = 3, rp_retry_failed = True, rp_retry_expired = True,
                  rp_backoff_ms = 0\<rparr>,
      wp_requires_approval = False, wp_max_concurrent_attempts = 1,
      wp_managed_execution = MM_Inherit, wp_allowed_files = [], wp_required_checks = []\<rparr>"

definition example_item :: "string \<Rightarrow> string list \<Rightarrow> work_item" where
  "example_item i deps =
     \<lparr>wi_schema_version = 1, wi_work_id = i, wi_kind = ''task'',
      wi_objective = ''objective'', wi_session_id = 7, wi_workspace = ''/w'',
      wi_created_by = ''operator'', wi_assigned_agent_id = None, wi_priority = 0,
      wi_deadline = None, wi_parent_work_id = None,
      wi_dependencies = map (\<lambda>d. \<lparr>dep_work_id = d, dep_required_state = W_Succeeded\<rparr>) deps,
      wi_policy = example_policy, wi_state = W_Queued, wi_revision = 1, wi_attempt_count = 0,
      wi_progress = None, wi_result = None, wi_is_container = False, wi_approval = None,
      wi_source_routine_id = None, wi_source_activation_id = None,
      wi_source_manager_plan_id = None, wi_source_manager_step_id = None,
      wi_assignment_status = Unassigned, wi_blocked_reason = None,
      wi_block_provenance = None, wi_last_decision_id = None,
      wi_created_at = 0, wi_updated_at = 0\<rparr>"

lemma example_item_simps [simp]:
  "wi_work_id (example_item i ds) = i"
  "wi_session_id (example_item i ds) = 7"
  "wi_workspace (example_item i ds) = ''/w''"
  "wi_state (example_item i ds) = W_Queued"
  "wi_dependencies (example_item i ds)
     = map (\<lambda>d. \<lparr>dep_work_id = d, dep_required_state = W_Succeeded\<rparr>) ds"
  by (simp_all add: example_item_def)

definition example_host :: host where
  "example_host =
     \<lparr>utc_now = (\<lambda>n. int n * 1000000),
      new_uuid = (\<lambda>n. replicate (Suc n) (CHR ''u'')),
      durable_outcome = (\<lambda>_. Written), io_error = ''io error'',
      canonicalize = (\<lambda>p. Some p),
      hash_payload = (\<lambda>p. case p of
          P_LeaseToken t \<Rightarrow> take 128 (''t'' @ t)
        | P_LeaseSecret a b c n \<Rightarrow> ''s'' @ a
        | P_Item i \<Rightarrow> ''i'' @ wi_work_id i
        | P_Attempt a \<Rightarrow> ''a'' @ wa_attempt_id a
        | P_Decision d \<Rightarrow> ''d'' @ wd_decision_id d),
      domain_digest = (\<lambda>d v. replicate 64 (CHR ''0'')),
      source_revision = (\<lambda>_. Inl ''no repository''),
      retained_matches = (\<lambda>_ _ _. Inr False),
      recompute_candidate_apply_bundle = (\<lambda>_ _ _. Inl ''no candidate'')\<rparr>"

end
