(* ===== verification/Work_Cycle.thy ===== *)
theory Work_Cycle
  imports Workload "HOL-Library.While_Combinator"
begin

section \<open>Finding a dependency cycle\<close>

text \<open>
  \<open>find_cycle\<close> of \<^verbatim>\<open>orchestration/graph.rs\<close>: Kahn's algorithm peels every node whose
  resolvable dependencies are all peeled; what is left contains every cycle, and a walk
  along the smallest remaining dependency recovers one. \<open>BTreeMap\<close> and \<open>BTreeSet\<close> are
  association lists and sets; where the code iterates over one, the model sorts the keys.
  Strings are ordered bytewise, as \<open>str\<close> is.

  The peeling loop is a \<open>while\<close>; \<open>peel_terminates\<close> shows that it stops on every graph
  with distinct node ids, and \<open>find_cycle_None_iff\<close> that the answer \<open>None\<close> means exactly
  that the dependency relation is acyclic.
\<close>

definition resolvable_deps :: "string set \<Rightarrow> work_item \<Rightarrow> string list" where
  "resolvable_deps declared n =
     filter (\<lambda>d. d \<in> declared) (map dep_work_id (wi_dependencies n))"

type_synonym degrees = "(string, nat) dir"
type_synonym dependents = "(string, string list) dir"

definition dependents_of :: "dependents \<Rightarrow> string \<Rightarrow> string list" where
  "dependents_of ds u = (case dir_get ds u of None \<Rightarrow> [] | Some vs \<Rightarrow> vs)"

definition table_step ::
  "string set \<Rightarrow> degrees \<times> dependents \<Rightarrow> work_item \<Rightarrow> degrees \<times> dependents" where
  "table_step declared = (\<lambda>(indegree, dependents) n.
     let deps = resolvable_deps declared n in
     (dir_put (wi_work_id n) (length deps) indegree,
      foldl (\<lambda>ds d. dir_put d (dependents_of ds d @ [wi_work_id n]) ds) dependents deps))"

definition relax :: "degrees \<times> string list \<Rightarrow> string \<Rightarrow> degrees \<times> string list" where
  "relax = (\<lambda>(indegree, ready) v.
     let degree = (case dir_get indegree v of None \<Rightarrow> 0 | Some d \<Rightarrow> d) - 1 in
     (dir_put v degree indegree, if degree = 0 then ready @ [v] else ready))"

type_synonym peel_state = "degrees \<times> string list \<times> string set"

definition peel_more :: "peel_state \<Rightarrow> bool" where
  "peel_more = (\<lambda>(indegree, ready, peeled). ready \<noteq> [])"

definition peel_step :: "dependents \<Rightarrow> peel_state \<Rightarrow> peel_state" where
  "peel_step dependents = (\<lambda>(indegree, ready, peeled).
     case ready of
       [] \<Rightarrow> (indegree, ready, peeled)
     | u # rest \<Rightarrow>
         let (indegree', ready') = foldl relax (indegree, rest) (dependents_of dependents u)
         in (indegree', ready', insert u peeled))"

definition peel :: "dependents \<Rightarrow> degrees \<Rightarrow> peel_state" where
  "peel dependents indegree =
     while peel_more (peel_step dependents)
       (indegree,
        filter (\<lambda>v. dir_get indegree v = Some 0) (sort (map fst indegree)),
        {})"

definition dependency_targets ::
  "string set \<Rightarrow> string set \<Rightarrow> work_item list \<Rightarrow> (string \<times> string list) list" where
  "dependency_targets declared residue nodes =
     map (\<lambda>n. (wi_work_id n,
               sort (filter (\<lambda>d. d \<in> residue) (resolvable_deps declared n))))
       (filter (\<lambda>n. wi_work_id n \<in> residue) nodes)"

text \<open>\<open>collect\<close> into a map keeps the last entry of a key, hence the reversed list.\<close>

function walk :: "(string \<times> string list) list \<Rightarrow> string list \<Rightarrow> string \<Rightarrow> string list option" where
  "walk targets path current =
     (if current \<in> set path then Some (dropWhile (\<lambda>v. v \<noteq> current) path @ [current])
      else case map_of (rev targets) current of
             Some (next_id # _) \<Rightarrow> walk targets (path @ [current]) next_id
           | _ \<Rightarrow> None)"
  by pat_completeness auto
termination
proof (relation "measure (\<lambda>(targets, path, current). card (fst ` set targets - set path))")
  fix targets :: "(string \<times> string list) list" and path current vs next_id rest
  assume "current \<notin> set path" and "map_of (rev targets) current = Some vs"
  then have "fst ` set targets - set (path @ [current]) \<subset> fst ` set targets - set path"
    by (force dest: map_of_SomeD)
  then show "((targets, path @ [current], next_id), targets, path, current)
      \<in> measure (\<lambda>(targets, path, current). card (fst ` set targets - set path))"
    by (auto intro!: psubset_card_mono)
qed auto

declare walk.simps [simp del]

definition find_cycle :: "work_item list \<Rightarrow> string set \<Rightarrow> string list option" where
  "find_cycle nodes declared =
     (let (indegree, dependents) = foldl (table_step declared) ([], []) nodes;
          (indegree', ready', peeled) = peel dependents indegree
      in if card peeled = length indegree' then None
         else
           let residue = filter (\<lambda>v. v \<notin> peeled) (sort (map fst indegree'));
               targets = dependency_targets declared (set residue) nodes
           in case residue of
                [] \<Rightarrow> None
              | start # _ \<Rightarrow> walk targets [] start)"

text \<open>The relation the algorithm decides: one pair per resolvable dependency.\<close>

definition dep_rel :: "work_item list \<Rightarrow> string set \<Rightarrow> (string \<times> string) set" where
  "dep_rel nodes declared =
     {(wi_work_id n, d) | n d. n \<in> set nodes \<and> d \<in> set (resolvable_deps declared n)}"

subsection \<open>The tables\<close>

definition node_deps :: "work_item list \<Rightarrow> string set \<Rightarrow> string \<Rightarrow> string list" where
  "node_deps nodes declared v =
     concat (map (resolvable_deps declared) (filter (\<lambda>n. wi_work_id n = v) nodes))"

lemma dependents_of_put [simp]:
  "dependents_of (dir_put d vs ds) u = (if u = d then vs else dependents_of ds u)"
  by (simp add: dependents_of_def)

lemma dependents_fold:
  "dependents_of (foldl (\<lambda>ds d. dir_put d (dependents_of ds d @ [w]) ds) ds deps) u
     = dependents_of ds u @ replicate (count_list deps u) w"
  by (induction deps arbitrary: ds) (auto simp: replicate_app_Cons_same)

lemma count_replicate_same: "count_list (replicate n x) x = n"
  by (induction n) auto

lemma dir_put_fst_new: "k \<notin> set (map fst d) \<Longrightarrow> map fst (dir_put k v d) = map fst d @ [k]"
  by (induction d) (auto simp: dir_put_def)

lemma dir_put_fst_old: "k \<in> set (map fst d) \<Longrightarrow> map fst (dir_put k v d) = map fst d"
  by (induction d) (auto simp: dir_put_def)

lemma tables_fold:
  assumes "distinct (map fst deg @ map wi_work_id nodes)"
    and "foldl (table_step declared) (deg, ds) nodes = (deg', ds')"
  shows "map fst deg' = map fst deg @ map wi_work_id nodes
    \<and> (\<forall>v. dir_get deg' v = (if v \<in> set (map wi_work_id nodes)
              then Some (length (node_deps nodes declared v)) else dir_get deg v))
    \<and> (\<forall>u v. count_list (dependents_of ds' u) v
              = count_list (dependents_of ds u) v + count_list (node_deps nodes declared v) u)"
  using assms
proof (induction nodes arbitrary: deg ds)
  case Nil
  then show ?case by (simp add: node_deps_def)
next
  case (Cons n nodes)
  define deps where "deps = resolvable_deps declared n"
  define deg1 where "deg1 = dir_put (wi_work_id n) (length deps) deg"
  define ds1 where
    "ds1 = foldl (\<lambda>ds d. dir_put d (dependents_of ds d @ [wi_work_id n]) ds) ds deps"
  have keys1: "map fst deg1 = map fst deg @ [wi_work_id n]"
    using Cons.prems(1) unfolding deg1_def by (intro dir_put_fst_new) auto
  have "foldl (table_step declared) (deg1, ds1) nodes = (deg', ds')"
    using Cons.prems(2) by (simp add: table_step_def deps_def deg1_def ds1_def Let_def)
  moreover have "distinct (map fst deg1 @ map wi_work_id nodes)"
    using Cons.prems(1) keys1 by auto
  ultimately have IH: "map fst deg' = map fst deg1 @ map wi_work_id nodes"
    "\<And>v. dir_get deg' v = (if v \<in> set (map wi_work_id nodes)
       then Some (length (node_deps nodes declared v)) else dir_get deg1 v)"
    "\<And>u v. count_list (dependents_of ds' u) v
       = count_list (dependents_of ds1 u) v + count_list (node_deps nodes declared v) u"
    using Cons.IH by blast+
  have nd: "node_deps (n # nodes) declared v
      = (if v = wi_work_id n then deps @ node_deps nodes declared v
         else node_deps nodes declared v)" for v
    by (auto simp: node_deps_def deps_def)
  have "\<forall>m \<in> set nodes. wi_work_id m \<noteq> wi_work_id n"
    using Cons.prems(1) by (auto simp: image_iff)
  then have fresh: "node_deps nodes declared (wi_work_id n) = []"
    by (simp add: node_deps_def)
  have cnt: "count_list (dependents_of ds1 u) v
      = count_list (dependents_of ds u) v + (if v = wi_work_id n then count_list deps u else 0)"
    for u v
    unfolding ds1_def dependents_fold by (simp add: count_list_append count_replicate_same)
  show ?case
    using IH keys1 nd fresh cnt Cons.prems(1)
    by (auto simp: deg1_def count_list_append)
qed

subsection \<open>One round of peeling\<close>

definition degree_of :: "degrees \<Rightarrow> string \<Rightarrow> nat" where
  "degree_of deg v = (case dir_get deg v of None \<Rightarrow> 0 | Some d \<Rightarrow> d)"

lemma degree_of_put [simp]:
  "degree_of (dir_put k d deg) v = (if v = k then d else degree_of deg v)"
  by (simp add: degree_of_def)

lemma relax_fold:
  assumes "set vs \<subseteq> set (map fst deg)"
    and "\<And>v. count_list vs v \<le> degree_of deg v"
    and "foldl relax (deg, ready) vs = (deg', ready')"
  shows "map fst deg' = map fst deg
    \<and> (\<forall>v. degree_of deg' v = degree_of deg v - count_list vs v)
    \<and> (\<exists>fresh. ready' = ready @ fresh \<and> distinct fresh
         \<and> set fresh = {v \<in> set vs. degree_of deg v = count_list vs v})"
  using assms
proof (induction vs arbitrary: deg ready)
  case Nil
  then show ?case by simp
next
  case (Cons v vs)
  define d where "d = degree_of deg v - 1"
  have d: "degree_of deg v = Suc d" "count_list vs v \<le> d"
    using Cons.prems(2) [of v] by (auto simp: d_def)
  define deg1 where "deg1 = dir_put v d deg"
  define ready1 where "ready1 = (if d = 0 then ready @ [v] else ready)"
  have keys: "map fst deg1 = map fst deg"
    using Cons.prems(1) unfolding deg1_def by (intro dir_put_fst_old) auto
  have step: "foldl relax (deg1, ready1) vs = (deg', ready')"
    using Cons.prems(3)
    by (simp add: relax_def degree_of_def deg1_def ready1_def d_def Let_def)
  have le: "count_list vs w \<le> degree_of deg1 w" for w
    using Cons.prems(2) [of w] d by (auto simp: deg1_def split: if_splits)
  from Cons.IH [OF _ le step] keys Cons.prems(1)
  obtain fresh where IH: "map fst deg' = map fst deg1"
    "\<And>w. degree_of deg' w = degree_of deg1 w - count_list vs w"
    "ready' = ready1 @ fresh" "distinct fresh"
    "set fresh = {w \<in> set vs. degree_of deg1 w = count_list vs w}"
    by auto
  have "v \<notin> set vs" if "d = 0" using d that by (simp add: count_list_0_iff)
  then have "ready' = ready @ (if d = 0 then v # fresh else fresh)
      \<and> distinct (if d = 0 then v # fresh else fresh)
      \<and> set (if d = 0 then v # fresh else fresh)
          = {w \<in> set (v # vs). degree_of deg w = count_list (v # vs) w}"
    using IH d by (auto simp: ready1_def deg1_def count_list_0_iff)
  then show ?case using IH keys d by (auto simp: deg1_def)
qed

definition waits :: "string list \<Rightarrow> string set \<Rightarrow> string list" where
  "waits ds peeled = filter (\<lambda>d. d \<notin> peeled) ds"

lemma waits_insert:
  "u \<notin> peeled \<Longrightarrow> length (waits ds (insert u peeled)) + count_list ds u = length (waits ds peeled)"
  by (induction ds) (auto simp: waits_def)

lemma waits_Nil: "waits ds peeled = [] \<longleftrightarrow> set ds \<subseteq> peeled"
  by (auto simp: waits_def filter_empty_conv)

definition peel_inv :: "work_item list \<Rightarrow> string set \<Rightarrow> peel_state \<Rightarrow> bool" where
  "peel_inv nodes declared = (\<lambda>(deg, ready, peeled).
     map fst deg = map wi_work_id nodes
     \<and> (\<forall>v. degree_of deg v = length (waits (node_deps nodes declared v) peeled))
     \<and> distinct ready \<and> peeled \<subseteq> wi_work_id ` set nodes
     \<and> set ready \<subseteq> wi_work_id ` set nodes - peeled
     \<and> (\<forall>v \<in> wi_work_id ` set nodes.
          v \<in> set ready \<union> peeled \<longleftrightarrow> set (node_deps nodes declared v) \<subseteq> peeled)
     \<and> (\<exists>rank :: string \<Rightarrow> nat.
          \<forall>v \<in> peeled. \<forall>d \<in> set (node_deps nodes declared v). rank d < rank v))"

lemma node_deps_id: "d \<in> set (node_deps nodes declared v) \<Longrightarrow> v \<in> wi_work_id ` set nodes"
  by (auto simp: node_deps_def)

lemma rank_extend:
  fixes rank :: "string \<Rightarrow> nat"
  assumes "finite P" "u \<notin> P" "set (deps u) \<subseteq> P"
    and "\<forall>v \<in> P. set (deps v) \<subseteq> P" and "\<forall>v \<in> P. \<forall>d \<in> set (deps v). rank d < rank v"
  shows "\<exists>rank' :: string \<Rightarrow> nat. \<forall>v \<in> insert u P. \<forall>d \<in> set (deps v). rank' d < rank' v"
proof -
  have "rank d < Suc (sum rank P)" if "d \<in> P" for d
    using member_le_sum [of d P rank] assms(1) that by auto
  then have "\<forall>v \<in> insert u P. \<forall>d \<in> set (deps v).
      (rank(u := Suc (sum rank P))) d < (rank(u := Suc (sum rank P))) v"
    using assms by (auto simp: subset_iff)
  then show ?thesis by blast
qed

lemma peel_step_inv:
  assumes inv: "peel_inv nodes declared (deg, u # rest, peeled)"
    and cnt: "\<And>v. count_list (dependents_of ds u) v = count_list (node_deps nodes declared v) u"
  shows "peel_inv nodes declared (peel_step ds (deg, u # rest, peeled))"
proof -
  define deps where "deps = node_deps nodes declared"
  define ids where "ids = wi_work_id ` set nodes"
  define vs where "vs = dependents_of ds u"
  obtain rank :: "string \<Rightarrow> nat" where
    keys: "map fst deg = map wi_work_id nodes"
    and degree: "\<And>v. degree_of deg v = length (waits (deps v) peeled)"
    and dist: "distinct (u # rest)" and sub: "peeled \<subseteq> ids"
    and u: "u \<in> ids" "u \<notin> peeled" and rest: "set rest \<subseteq> ids - peeled"
    and cover: "\<And>v. v \<in> ids \<Longrightarrow> v \<in> set (u # rest) \<union> peeled \<longleftrightarrow> set (deps v) \<subseteq> peeled"
    and rank: "\<forall>v \<in> peeled. \<forall>d \<in> set (deps v). rank d < rank v"
    using inv unfolding peel_inv_def deps_def [symmetric] ids_def [symmetric] by force
  have on: "v \<in> set vs \<longleftrightarrow> u \<in> set (deps v)" for v
    using cnt [of v] by (metis count_list_0_iff deps_def vs_def)
  have drop: "length (waits (deps v) (insert u peeled)) + count_list vs v = degree_of deg v" for v
    using waits_insert [of u peeled "deps v"] u cnt [of v] by (simp add: degree vs_def deps_def)
  have vs_ids: "set vs \<subseteq> ids"
    using on node_deps_id [of u nodes declared] by (auto simp: deps_def ids_def)
  obtain deg' ready' where fold: "foldl relax (deg, rest) vs = (deg', ready')"
    by fastforce
  have "set vs \<subseteq> set (map fst deg)"
    using vs_ids unfolding keys by (simp add: ids_def)
  moreover have "count_list vs v \<le> degree_of deg v" for v using drop [of v] by linarith
  ultimately obtain fresh where keys': "map fst deg' = map fst deg"
    and degree': "\<And>v. degree_of deg' v = degree_of deg v - count_list vs v"
    and ready': "ready' = rest @ fresh" and fresh: "distinct fresh"
      "set fresh = {v \<in> set vs. degree_of deg v = count_list vs v}"
    using relax_fold [OF _ _ fold] by blast
  have fresh_iff: "v \<in> set fresh \<longleftrightarrow> u \<in> set (deps v) \<and> set (deps v) \<subseteq> insert u peeled" for v
  proof -
    have "degree_of deg v = count_list vs v \<longleftrightarrow> waits (deps v) (insert u peeled) = []"
      using drop [of v] by (metis add_0 add_diff_cancel_right' diff_self_eq_0 length_0_conv)
    then show ?thesis using fresh(2) on [of v] by (simp add: waits_Nil)
  qed
  have fresh_new: "set fresh \<inter> (set (u # rest) \<union> peeled) = {}"
    using fresh_iff cover u vs_ids on by blast
  have cover': "v \<in> set ready' \<union> insert u peeled \<longleftrightarrow> set (deps v) \<subseteq> insert u peeled"
    if "v \<in> ids" for v
    using that cover [of v] fresh_iff [of v] u(2) unfolding ready' by auto
  have "set (deps u) \<subseteq> peeled" and "\<forall>v \<in> peeled. set (deps v) \<subseteq> peeled"
    using cover u sub by auto
  then have "\<exists>rank' :: string \<Rightarrow> nat.
      \<forall>v \<in> insert u peeled. \<forall>d \<in> set (deps v). rank' d < rank' v"
    using rank_extend [of peeled u deps rank] rank u finite_subset [OF sub]
    by (simp add: ids_def)
  moreover have "set ready' \<subseteq> ids - insert u peeled" "distinct ready'"
    using ready' fresh fresh_new rest dist vs_ids by auto
  moreover have "degree_of deg' v = length (waits (deps v) (insert u peeled))" for v
    using degree' [of v] drop [of v] by simp
  moreover have "\<forall>v \<in> ids. v \<in> set ready' \<union> insert u peeled \<longleftrightarrow> set (deps v) \<subseteq> insert u peeled"
    using cover' by blast
  moreover have "peel_step ds (deg, u # rest, peeled) = (deg', ready', insert u peeled)"
    using fold by (simp add: peel_step_def vs_def)
  ultimately show ?thesis
    using keys' keys sub u
    unfolding peel_inv_def deps_def [symmetric] ids_def [symmetric] by (simp add: disj_ac)
qed

lemma peel_step_measure:
  assumes "peel_inv nodes declared (deg, u # rest, peeled)"
    and "peel_step ds (deg, u # rest, peeled) = (deg', ready', peeled')"
  shows "card (wi_work_id ` set nodes - peeled') < card (wi_work_id ` set nodes - peeled)"
proof -
  have "peeled' = insert u peeled"
    using assms(2) by (simp add: peel_step_def split: prod.splits)
  moreover have "u \<in> wi_work_id ` set nodes - peeled"
    using assms(1) by (auto simp: peel_inv_def)
  ultimately have "wi_work_id ` set nodes - peeled' \<subset> wi_work_id ` set nodes - peeled"
    by blast
  then show ?thesis by (intro psubset_card_mono) simp_all
qed

definition peel_start :: "degrees \<Rightarrow> peel_state" where
  "peel_start indegree =
     (indegree, filter (\<lambda>v. dir_get indegree v = Some 0) (sort (map fst indegree)), {})"

lemma peel_start_inv:
  assumes "distinct (map wi_work_id nodes)"
    and tables: "foldl (table_step declared) ([], []) nodes = (deg, ds)"
  shows "peel_inv nodes declared (peel_start deg)"
    and "count_list (dependents_of ds u) v = count_list (node_deps nodes declared v) u"
proof -
  note t = tables_fold [OF _ tables]
  have keys: "map fst deg = map wi_work_id nodes"
    and get: "\<And>v. dir_get deg v = (if v \<in> set (map wi_work_id nodes)
           then Some (length (node_deps nodes declared v)) else None)"
    using t assms(1) by auto
  have "node_deps nodes declared v = []" if "v \<notin> wi_work_id ` set nodes" for v
    using that node_deps_id [of _ nodes declared v] by (meson last_in_set)
  then have degree: "degree_of deg v = length (waits (node_deps nodes declared v) {})" for v
    using get [of v] by (auto simp: degree_of_def waits_def)
  have set_keys: "set (map fst deg) = wi_work_id ` set nodes" unfolding keys by simp
  show "peel_inv nodes declared (peel_start deg)"
    using keys degree get set_keys assms(1)
    by (auto simp: peel_inv_def peel_start_def)
  show "count_list (dependents_of ds u) v = count_list (node_deps nodes declared v) u"
    using t assms(1) by (simp add: dependents_of_def)
qed

lemma peel_terminates:
  assumes "distinct (map wi_work_id nodes)"
    and tables: "foldl (table_step declared) ([], []) nodes = (deg, ds)"
  shows "\<exists>deg' peeled. while_option peel_more (peel_step ds) (peel_start deg)
            = Some (deg', [], peeled) \<and> peel_inv nodes declared (deg', [], peeled)"
proof -
  let ?I = "peel_inv nodes declared"
  note start = peel_start_inv [OF assms]
  have step: "?I (peel_step ds s)
      \<and> (case peel_step ds s of (_, _, p') \<Rightarrow> card (wi_work_id ` set nodes - p'))
        < (case s of (_, _, p) \<Rightarrow> card (wi_work_id ` set nodes - p))"
    if I: "?I s" and more: "peel_more s" for s
  proof -
    obtain d u rest p where s: "s = (d, u # rest, p)"
      using more by (cases s) (auto simp: peel_more_def neq_Nil_conv)
    show ?thesis
      using peel_step_inv [OF I [unfolded s] start(2)]
        peel_step_measure [OF I [unfolded s], of ds]
      unfolding s by (auto split: prod.split)
  qed
  obtain t where t: "while_option peel_more (peel_step ds) (peel_start deg) = Some t"
    using measure_while_option_Some [of ?I peel_more "peel_step ds"
        "\<lambda>s. case s of (_, _, p) \<Rightarrow> card (wi_work_id ` set nodes - p)" "peel_start deg"]
      step start(1) by blast
  moreover have "?I t"
    using while_option_rule [OF _ t, of ?I] step start(1) by blast
  moreover have "\<not> peel_more t" using while_option_stop [OF t] .
  ultimately show ?thesis by (cases t) (auto simp: peel_more_def)
qed

subsection \<open>The walk through the residue\<close>

definition closed_walk :: "('a \<times> 'a) set \<Rightarrow> 'a list \<Rightarrow> bool" where
  "closed_walk r c = (2 \<le> length c \<and> hd c = last c \<and> successively (\<lambda>a b. (a, b) \<in> r) c)"

lemma walk_closed:
  assumes "\<And>v. v \<in> region \<Longrightarrow>
      \<exists>w ws. map_of (rev targets) v = Some (w # ws) \<and> w \<in> region \<and> (v, w) \<in> r"
    and "current \<in> region"
    and "successively (\<lambda>a b. (a, b) \<in> r) (path @ [current])"
  shows "\<exists>c. walk targets path current = Some c \<and> closed_walk r c"
  using assms
proof (induction targets path current rule: walk.induct)
  case (1 targets path current)
  show ?case
  proof (cases "current \<in> set path")
    case True
    then obtain pre post where path: "path = pre @ current # post" "current \<notin> set pre"
      by (meson split_list_first)
    then have "dropWhile (\<lambda>v. v \<noteq> current) path = current # post"
      by (induction pre arbitrary: path) auto
    moreover have "closed_walk r (current # post @ [current])"
      using "1.prems"(3) by (auto simp: path closed_walk_def successively_append_iff)
    ultimately show ?thesis using True by (simp add: walk.simps)
  next
    case False
    obtain w ws where w: "map_of (rev targets) current = Some (w # ws)" "w \<in> region"
      "(current, w) \<in> r"
      using "1.prems"(1,2) by blast
    then have "successively (\<lambda>a b. (a, b) \<in> r) ((path @ [current]) @ [w])"
      using "1.prems"(3) by (auto simp: successively_append_iff)
    then show ?thesis
      using "1.IH" [OF False w(1) refl "1.prems"(1) w(2)] False w(1)
      by (simp add: walk.simps [of targets path current])
  qed
qed

lemma node_deps_rel: "d \<in> set (node_deps nodes declared v) \<longleftrightarrow> (v, d) \<in> dep_rel nodes declared"
  by (auto simp: node_deps_def dep_rel_def)

lemma targets_get:
  assumes "distinct (map wi_work_id nodes)" "v \<in> wi_work_id ` set nodes" "v \<in> residue"
  shows "\<exists>ts. map_of (rev (dependency_targets declared residue nodes)) v = Some ts
    \<and> set ts = {d. (v, d) \<in> dep_rel nodes declared \<and> d \<in> residue}"
proof -
  let ?t = "dependency_targets declared residue nodes"
  obtain n where n: "n \<in> set nodes" "v = wi_work_id n" using assms(2) by blast
  have "map fst ?t = map wi_work_id (filter (\<lambda>n. wi_work_id n \<in> residue) nodes)"
    by (simp add: dependency_targets_def comp_def)
  then have dist: "distinct (map fst (rev ?t))"
    using assms(1) by (simp add: distinct_map_filter flip: rev_map)
  have "(v, sort (filter (\<lambda>d. d \<in> residue) (resolvable_deps declared n))) \<in> set (rev ?t)"
    using n assms(3) by (auto simp: dependency_targets_def)
  moreover have "d \<in> set (resolvable_deps declared n) \<longleftrightarrow> (v, d) \<in> dep_rel nodes declared" for d
    using n assms(1) by (auto simp: dep_rel_def distinct_map inj_on_def)
  ultimately show ?thesis
    using map_of_is_SomeI [OF dist] by auto
qed

lemma rank_acyclic:
  assumes "\<And>v d. (v, d) \<in> r \<Longrightarrow> (rank d :: nat) < rank v"
  shows "acyclic r"
proof -
  have "r\<inverse> \<subseteq> measure rank" using assms by auto
  then show ?thesis
    using wf_acyclic wf_measure wf_subset acyclic_converse by metis
qed

lemma closed_walk_cyclic:
  assumes "closed_walk r c" shows "\<not> acyclic r"
proof -
  have "successively (\<lambda>a b. (a, b) \<in> r) (x # xs) \<Longrightarrow> xs \<noteq> [] \<Longrightarrow> (x, last xs) \<in> r\<^sup>+" for x xs
  proof (induction xs arbitrary: x)
    case (Cons y ys)
    then show ?case by (cases "ys = []") (auto intro: trancl_into_trancl2)
  qed simp
  then have "(hd c, last c) \<in> r\<^sup>+"
    using assms by (cases c) (auto simp: closed_walk_def split: if_splits)
  then show ?thesis using assms by (auto simp: closed_walk_def acyclic_def)
qed

lemma peel_done:
  assumes "peel_inv nodes declared (deg, [], peeled)"
  obtains rank :: "string \<Rightarrow> nat" where "map fst deg = map wi_work_id nodes"
    and "peeled \<subseteq> wi_work_id ` set nodes"
    and "\<forall>v \<in> wi_work_id ` set nodes.
           v \<in> peeled \<longleftrightarrow> (\<forall>d. (v, d) \<in> dep_rel nodes declared \<longrightarrow> d \<in> peeled)"
    and "\<forall>v \<in> peeled. \<forall>d. (v, d) \<in> dep_rel nodes declared \<longrightarrow> rank d < rank v"
proof -
  have "set (node_deps nodes declared v) = {d. (v, d) \<in> dep_rel nodes declared}" for v
    using node_deps_rel by auto
  then show thesis
    using assms that unfolding peel_inv_def by (simp add: subset_iff) blast
qed

lemma find_cycle_decides:
  assumes dist: "distinct (map wi_work_id nodes)"
    and declared: "declared = set (map wi_work_id nodes)"
  shows "(find_cycle nodes declared = None \<longleftrightarrow> acyclic (dep_rel nodes declared))
    \<and> (\<forall>c. find_cycle nodes declared = Some c \<longrightarrow> closed_walk (dep_rel nodes declared) c)"
proof -
  let ?r = "dep_rel nodes declared"
  obtain deg ds where tables: "foldl (table_step declared) ([], []) nodes = (deg, ds)"
    by fastforce
  obtain deg' peeled where loop: "while_option peel_more (peel_step ds) (peel_start deg)
      = Some (deg', [], peeled)" and inv: "peel_inv nodes declared (deg', [], peeled)"
    using peel_terminates [OF dist tables] by blast
  have peel: "peel ds deg = (deg', [], peeled)"
    using loop by (simp add: peel_def while_def peel_start_def)
  obtain rank :: "string \<Rightarrow> nat" where keys: "map fst deg' = map wi_work_id nodes"
    and sub: "peeled \<subseteq> declared"
    and cover: "\<And>v. v \<in> declared \<Longrightarrow> v \<in> peeled \<longleftrightarrow> (\<forall>d. (v, d) \<in> ?r \<longrightarrow> d \<in> peeled)"
    and rank: "\<And>v d. v \<in> peeled \<Longrightarrow> (v, d) \<in> ?r \<Longrightarrow> rank d < rank v"
    using peel_done [OF inv] unfolding declared set_map by metis
  have "length deg' = card declared"
    using keys dist by (metis declared distinct_card length_map)
  then have all: "card peeled = length deg' \<longleftrightarrow> peeled = declared"
    using sub declared card_subset_eq [of declared peeled] by auto
  show ?thesis
  proof (cases "peeled = declared")
    case True
    have "(v, d) \<in> ?r \<Longrightarrow> v \<in> peeled" for v d
      unfolding True by (auto simp: dep_rel_def declared)
    then have "acyclic ?r" using rank by (intro rank_acyclic [of ?r rank]) blast
    then show ?thesis using True all by (simp add: find_cycle_def tables peel)
  next
    case False
    define residue where "residue = filter (\<lambda>v. v \<notin> peeled) (sort (map fst deg'))"
    have region: "set residue = declared - peeled"
      unfolding residue_def using keys declared by auto
    then obtain start others where start: "residue = start # others"
      using False sub by (cases residue) auto
    let ?targets = "dependency_targets declared (set residue) nodes"
    have "\<exists>w ws. map_of (rev ?targets) v = Some (w # ws) \<and> w \<in> set residue \<and> (v, w) \<in> ?r"
      if v: "v \<in> set residue" for v
    proof -
      obtain d where d: "(v, d) \<in> ?r" "d \<notin> peeled" using cover v region by blast
      then have "d \<in> set residue" by (auto simp: region dep_rel_def resolvable_deps_def)
      moreover obtain ts where "map_of (rev ?targets) v = Some ts"
        "set ts = {d. (v, d) \<in> ?r \<and> d \<in> set residue}"
        using targets_get [OF dist, of v "set residue" declared] v region declared by auto
      ultimately show ?thesis using d by (cases ts) auto
    qed
    then obtain c where c: "walk ?targets [] start = Some c" "closed_walk ?r c"
      using walk_closed [of "set residue" ?targets ?r start "[]"] start by auto
    then have "find_cycle nodes declared = Some c"
      using False all start by (simp add: find_cycle_def tables peel residue_def [symmetric])
    then show ?thesis using c closed_walk_cyclic by auto
  qed
qed

lemma find_cycle_None_iff:
  assumes "distinct (map wi_work_id nodes)"
  shows "find_cycle nodes (set (map wi_work_id nodes)) = None
    \<longleftrightarrow> acyclic (dep_rel nodes (set (map wi_work_id nodes)))"
  using find_cycle_decides [OF assms] by simp

text \<open>
  C35. The ledger's cycle finder is exact: on a lane with distinct work ids it returns, it
  answers that there is no cycle exactly when the dependency relation is acyclic, and a
  cycle it reports is a real closed walk along declared dependencies.
\<close>

theorem find_cycle_exact:
  assumes "distinct (map wi_work_id nodes)" and "declared = set (map wi_work_id nodes)"
  shows "(find_cycle nodes declared = None \<longleftrightarrow> acyclic (dep_rel nodes declared))
    \<and> (\<forall>c. find_cycle nodes declared = Some c \<longrightarrow> closed_walk (dep_rel nodes declared) c)"
  using find_cycle_decides [OF assms] .

theorem find_cycle_exact_witness:
  "find_cycle [example_item ''a'' [''b''], example_item ''b'' [''a'']] {''a'', ''b''} \<noteq> None"
proof -
  let ?ns = "[example_item ''a'' [''b''], example_item ''b'' [''a'']]"
  have "(''a'', ''b'') \<in> dep_rel ?ns {''a'', ''b''}" "(''b'', ''a'') \<in> dep_rel ?ns {''a'', ''b''}"
    by (simp_all add: node_deps_def resolvable_deps_def flip: node_deps_rel)
  then have "(''a'', ''a'') \<in> (dep_rel ?ns {''a'', ''b''})\<^sup>+"
    by (rule trancl_into_trancl2 [OF _ r_into_trancl])
  then have "\<not> acyclic (dep_rel ?ns {''a'', ''b''})"
    unfolding acyclic_def by blast
  then show ?thesis using find_cycle_exact [of ?ns "{''a'', ''b''}"] by simp
qed

end
