(* ===== verification/Work_Graph.thy ===== *)
theory Work_Graph
  imports Work_Cycle "HOL-Library.Multiset"
begin

section \<open>The work graph of one lane\<close>

text \<open>
  The rest of \<^verbatim>\<open>orchestration/graph.rs\<close>: lanes (session and canonical workspace), the total
  order of the ledger, resolution of dependencies inside a lane, validation of a write
  against the lane's graph, the one admission evaluator, and the redacted projection.
  \<open>workspaces_match\<close> is \<^verbatim>\<open>orchestration/store.rs\<close>; \<open>canonicalize\<close> is the host's.

  \<open>validate_scoped_dependency_graph_ok\<close>: an accepted write leaves the lane acyclic and
  every dependency of the written item resolvable. \<open>lane_isolation\<close>: nothing outside the
  lane influences resolution, validation or projection.
\<close>

subsection \<open>Lanes\<close>

record graph_scope =
  gs_session_id :: uuid
  gs_workspace :: string

definition workspaces_match :: "host \<Rightarrow> string \<Rightarrow> string \<Rightarrow> bool" where
  "workspaces_match h left_ws right_ws =
     (if left_ws = right_ws then True
      else case (canonicalize h left_ws, canonicalize h right_ws) of
             (Some l, Some r) \<Rightarrow> l = r
           | _ \<Rightarrow> False)"

definition scope_of :: "work_item \<Rightarrow> graph_scope" where
  "scope_of i = \<lparr>gs_session_id = wi_session_id i, gs_workspace = wi_workspace i\<rparr>"

definition scope_contains :: "host \<Rightarrow> graph_scope \<Rightarrow> work_item \<Rightarrow> bool" where
  "scope_contains h sc i =
     (wi_session_id i = gs_session_id sc \<and> workspaces_match h (wi_workspace i) (gs_workspace sc))"

subsection \<open>The total order\<close>

datatype ordering = Less | Equal | Greater

definition cmp :: "'a::linorder \<Rightarrow> 'a \<Rightarrow> ordering" where
  "cmp a b = (if a < b then Less else if a = b then Equal else Greater)"

definition then_with :: "ordering \<Rightarrow> ordering \<Rightarrow> ordering" where
  "then_with o1 o2 = (case o1 of Equal \<Rightarrow> o2 | _ \<Rightarrow> o1)"

definition compare_work_order :: "work_item \<Rightarrow> work_item \<Rightarrow> ordering" where
  "compare_work_order l r =
     then_with (then_with (cmp (wi_priority r) (wi_priority l))
                          (cmp (wi_created_at l) (wi_created_at r)))
               (cmp (wi_work_id l) (wi_work_id r))"

text \<open>\<open>sort_by\<close> is a stable sort: insertion from the right, before the first item that is not smaller.\<close>

fun insert_by :: "('a \<Rightarrow> 'a \<Rightarrow> ordering) \<Rightarrow> 'a \<Rightarrow> 'a list \<Rightarrow> 'a list" where
  "insert_by f x [] = [x]"
| "insert_by f x (y # ys) = (if f x y \<noteq> Greater then x # y # ys else y # insert_by f x ys)"

definition sort_by :: "('a \<Rightarrow> 'a \<Rightarrow> ordering) \<Rightarrow> 'a list \<Rightarrow> 'a list" where
  "sort_by f xs = foldr (insert_by f) xs []"

definition order_work :: "work_item list \<Rightarrow> work_item list" where
  "order_work items = sort_by compare_work_order items"

subsection \<open>Resolution and validation\<close>

type_synonym dependency_states = "string \<rightharpoonup> work_state option"

definition visible_states :: "host \<Rightarrow> graph_scope \<Rightarrow> work_item list \<Rightarrow> (string \<rightharpoonup> work_state)" where
  "visible_states h sc items =
     foldl (\<lambda>m i. if scope_contains h sc i then m(wi_work_id i \<mapsto> wi_state i) else m)
       Map.empty items"

definition resolve_dependency_states ::
  "host \<Rightarrow> work_item list \<Rightarrow> work_item \<Rightarrow> graph_scope \<Rightarrow> dependency_states" where
  "resolve_dependency_states h scope_items candidate sc =
     map_of (map (\<lambda>d. (dep_work_id d, visible_states h sc scope_items (dep_work_id d)))
               (rev (wi_dependencies candidate)))"

definition MAX_GRAPH_SCOPE_ITEMS :: nat where "MAX_GRAPH_SCOPE_ITEMS = 4096"
definition MAX_GRAPH_EDGES :: nat where "MAX_GRAPH_EDGES = 16384"

definition exhausted :: "string \<Rightarrow> orch_error" where
  "exhausted m = orch_error_new CapacityExhausted m"

fun lane_nodes ::
  "host \<Rightarrow> graph_scope \<Rightarrow> work_item \<Rightarrow> work_item list \<Rightarrow> work_item list \<Rightarrow> string set
     \<Rightarrow> (work_item list \<times> string set) result" where
  "lane_nodes h sc candidate [] nodes declared =
     (if wi_work_id candidate \<in> declared
      then Inl (invalid ''scope contains duplicate work ids'')
      else Inr (nodes @ [candidate], insert (wi_work_id candidate) declared))"
| "lane_nodes h sc candidate (i # rest) nodes declared =
     (if wi_work_id i = wi_work_id candidate \<or> \<not> scope_contains h sc i
      then lane_nodes h sc candidate rest nodes declared
      else if wi_work_id i \<in> declared
      then Inl (invalid ''scope contains duplicate work ids'')
      else lane_nodes h sc candidate rest (nodes @ [i]) (insert (wi_work_id i) declared))"

fun count_edges :: "work_item list \<Rightarrow> nat \<Rightarrow> unit result" where
  "count_edges [] edges = Inr ()"
| "count_edges (n # ns) edges =
     (let edges' = edges + length (wi_dependencies n) in
      if edges' > MAX_GRAPH_EDGES
      then Inl (exhausted ''scope declares more than 16384 dependency edges; validation is refused rather than unbounded'')
      else count_edges ns edges')"

fun check_candidate_edges ::
  "string \<Rightarrow> string set \<Rightarrow> string set \<Rightarrow> work_dependency list \<Rightarrow> unit result" where
  "check_candidate_edges me declared seen [] = Inr ()"
| "check_candidate_edges me declared seen (d # ds) =
     (let dep_id = dep_work_id d in
      if dep_id = me then Inl (invalid ''work item depends on itself'')
      else if dep_id \<in> seen
      then Inl (invalid (''work item declares dependency '' @ dep_id @ '' more than once''))
      else if dep_id \<notin> declared
      then Inl (invalid (''dependency '' @ dep_id @ '' is not resolvable in this scope''))
      else check_candidate_edges me declared (insert dep_id seen) ds)"

fun join_str :: "string \<Rightarrow> string list \<Rightarrow> string" where
  "join_str sep [] = []"
| "join_str sep [s] = s"
| "join_str sep (s # t # ts) = s @ sep @ join_str sep (t # ts)"

definition validate_scoped_dependency_graph ::
  "host \<Rightarrow> work_item list \<Rightarrow> work_item \<Rightarrow> graph_scope \<Rightarrow> unit result" where
  "validate_scoped_dependency_graph h scope_items candidate sc =
     (if \<not> scope_contains h sc candidate
      then Inl (orch_error_new WorkspaceMismatch ''work item does not belong to the requested scope'')
      else if length scope_items + 1 > MAX_GRAPH_SCOPE_ITEMS
      then Inl (exhausted ''scope holds more than 4096 work items; dependency validation is refused rather than unbounded'')
      else rbind (lane_nodes h sc candidate scope_items [] {}) (\<lambda>(nodes, declared).
           rbind (count_edges nodes 0) (\<lambda>_.
           rbind (check_candidate_edges (wi_work_id candidate) declared {} (wi_dependencies candidate))
             (\<lambda>_. case find_cycle nodes declared of
                    Some cycle \<Rightarrow>
                      Inl (invalid (''work dependency cycle: '' @ join_str '' -> '' cycle))
                  | None \<Rightarrow> Inr ()))))"

subsection \<open>Admission\<close>

datatype admission_block =
    Admissible | DependenciesPending | DependencyUnsatisfiable | DependencyUnresolved
  | AttemptActive | AwaitingInput | AwaitingApproval | UnderReview | AttemptsExhausted
  | DeadlineExceeded | AB_Succeeded | AB_Failed | AB_Cancelled | Container | ManuallyBlocked

definition ab_is_admissible :: "admission_block \<Rightarrow> bool" where
  "ab_is_admissible b = (b = Admissible)"

fun ab_is_terminal :: "admission_block \<Rightarrow> bool" where
  "ab_is_terminal AB_Succeeded = True"
| "ab_is_terminal AB_Failed = True"
| "ab_is_terminal AB_Cancelled = True"
| "ab_is_terminal _ = False"

fun needs_operator_attention :: "admission_block \<Rightarrow> bool" where
  "needs_operator_attention DependencyUnsatisfiable = True"
| "needs_operator_attention DependencyUnresolved = True"
| "needs_operator_attention AttemptsExhausted = True"
| "needs_operator_attention DeadlineExceeded = True"
| "needs_operator_attention ManuallyBlocked = True"
| "needs_operator_attention _ = False"

fun ab_as_str :: "admission_block \<Rightarrow> string" where
  "ab_as_str Admissible = ''admissible''"
| "ab_as_str DependenciesPending = ''dependencies_pending''"
| "ab_as_str DependencyUnsatisfiable = ''dependency_unsatisfiable''"
| "ab_as_str DependencyUnresolved = ''dependency_unresolved''"
| "ab_as_str AttemptActive = ''attempt_active''"
| "ab_as_str AwaitingInput = ''awaiting_input''"
| "ab_as_str AwaitingApproval = ''awaiting_approval''"
| "ab_as_str UnderReview = ''under_review''"
| "ab_as_str AttemptsExhausted = ''attempts_exhausted''"
| "ab_as_str DeadlineExceeded = ''deadline_exceeded''"
| "ab_as_str AB_Succeeded = ''succeeded''"
| "ab_as_str AB_Failed = ''failed''"
| "ab_as_str AB_Cancelled = ''cancelled''"
| "ab_as_str Container = ''container''"
| "ab_as_str ManuallyBlocked = ''manually_blocked''"

definition is_legacy_derived_wait :: "work_item \<Rightarrow> bool" where
  "is_legacy_derived_wait i =
     (wi_state i = W_Blocked \<and> wi_block_provenance i = None \<and> wi_blocked_reason i = None
      \<and> wi_dependencies i \<noteq> [] \<and> \<not> wi_is_container i)"

fun dependency_verdict ::
  "dependency_states \<Rightarrow> work_dependency list \<Rightarrow> bool \<Rightarrow> admission_block option" where
  "dependency_verdict states [] pending = (if pending then Some DependenciesPending else None)"
| "dependency_verdict states (d # ds) pending =
     (case states (dep_work_id d) of
        None \<Rightarrow> Some DependencyUnresolved
      | Some None \<Rightarrow> Some DependencyUnresolved
      | Some (Some st) \<Rightarrow>
          if st = dep_required_state d then dependency_verdict states ds pending
          else if ws_is_terminal st then Some DependencyUnsatisfiable
          else dependency_verdict states ds True)"

definition deadline_passed :: "work_item \<Rightarrow> time \<Rightarrow> bool" where
  "deadline_passed i now = is_some_and (wi_deadline i) (\<lambda>d. d \<le> now)"

definition admission_when_waiting :: "work_item \<Rightarrow> dependency_states \<Rightarrow> time \<Rightarrow> admission_block" where
  "admission_when_waiting i states now =
     (if deadline_passed i now then DeadlineExceeded
      else case dependency_verdict states (wi_dependencies i) False of
             Some b \<Rightarrow> b
           | None \<Rightarrow>
               if wi_attempt_count i \<ge> rp_max_attempts (wp_retry (wi_policy i))
               then AttemptsExhausted else Admissible)"

definition evaluate_admission :: "work_item \<Rightarrow> dependency_states \<Rightarrow> time \<Rightarrow> admission_block" where
  "evaluate_admission i states now =
     (case wi_state i of
        W_Succeeded \<Rightarrow> AB_Succeeded
      | W_Failed \<Rightarrow> if deadline_passed i now then DeadlineExceeded else AB_Failed
      | W_Cancelled \<Rightarrow> AB_Cancelled
      | st \<Rightarrow>
          if st = W_Blocked \<and> is_none_or (wi_block_provenance i) bp_is_manual
             \<and> \<not> is_legacy_derived_wait i
          then ManuallyBlocked
          else if wi_is_container i then Container
          else case st of
                 W_Leased \<Rightarrow> AttemptActive
               | W_Running \<Rightarrow> AttemptActive
               | W_AwaitingInput \<Rightarrow> AwaitingInput
               | W_AwaitingApproval \<Rightarrow> AwaitingApproval
               | W_Review \<Rightarrow> UnderReview
               | _ \<Rightarrow> admission_when_waiting i states now)"

subsection \<open>The redacted projection\<close>

record work_graph_node =
  gn_work_id :: string
  gn_kind :: string
  gn_state :: work_state
  gn_admission :: admission_block
  gn_priority :: int
  gn_revision :: u64
  gn_attempt_count :: nat
  gn_max_attempts :: nat
  gn_is_container :: bool
  gn_deadline :: "time option"
  gn_dependencies :: "string list"
  gn_unresolved_dependencies :: nat
  gn_created_at :: time
  gn_updated_at :: time

definition project_node :: "(string \<rightharpoonup> work_state) \<Rightarrow> time \<Rightarrow> work_item \<Rightarrow> work_graph_node" where
  "project_node visible now i =
     (let states = map_of (map (\<lambda>d. (dep_work_id d, visible (dep_work_id d)))
                             (rev (wi_dependencies i)));
          resolved = (\<lambda>d. case states (dep_work_id d) of Some (Some _) \<Rightarrow> True | _ \<Rightarrow> False)
      in \<lparr>gn_work_id = wi_work_id i, gn_kind = wi_kind i, gn_state = wi_state i,
          gn_admission = evaluate_admission i states now,
          gn_priority = wi_priority i, gn_revision = wi_revision i,
          gn_attempt_count = wi_attempt_count i,
          gn_max_attempts = rp_max_attempts (wp_retry (wi_policy i)),
          gn_is_container = wi_is_container i, gn_deadline = wi_deadline i,
          gn_dependencies = map dep_work_id (filter resolved (wi_dependencies i)),
          gn_unresolved_dependencies = length (filter (\<lambda>d. \<not> resolved d) (wi_dependencies i)),
          gn_created_at = wi_created_at i, gn_updated_at = wi_updated_at i\<rparr>)"

definition project_scoped_graph ::
  "host \<Rightarrow> work_item list \<Rightarrow> graph_scope \<Rightarrow> time \<Rightarrow> work_graph_node list" where
  "project_scoped_graph h scope_items sc now =
     (let lane = order_work (filter (scope_contains h sc) scope_items);
          visible = map_of (map (\<lambda>i. (wi_work_id i, wi_state i)) (rev lane))
      in map (project_node visible now) lane)"

subsection \<open>Lanes are equivalence classes\<close>

text \<open>
  What the ledger relies on when it filters records by lane: the workspace comparison is
  an equivalence, so a lane named through any of its members is the same lane.
\<close>

locale lane_relation =
  fixes matches :: "'w \<Rightarrow> 'w \<Rightarrow> bool"
  assumes matches_refl: "matches a a"
    and matches_sym: "matches a b \<Longrightarrow> matches b a"
    and matches_trans: "matches a b \<Longrightarrow> matches b c \<Longrightarrow> matches a c"
begin

lemma same_class: "matches a b \<Longrightarrow> matches c a \<longleftrightarrow> matches c b"
  using matches_sym matches_trans by blast

lemma filter_class: "matches a b \<Longrightarrow> filter (\<lambda>x. matches (f x) a) xs = filter (\<lambda>x. matches (f x) b) xs"
  using same_class by (intro filter_cong) auto

end

interpretation ws: lane_relation "workspaces_match h" for h
  by unfold_locales (auto simp: workspaces_match_def split: if_splits option.splits)

lemma scope_contains_self [simp]: "scope_contains h (scope_of i) i"
  by (simp add: scope_contains_def scope_of_def ws.matches_refl)

lemma scope_contains_sym:
  "scope_contains h (scope_of i) j \<Longrightarrow> scope_contains h (scope_of j) i"
  by (auto simp: scope_contains_def scope_of_def intro: ws.matches_sym)

lemma scope_contains_same:
  "scope_contains h sc i \<Longrightarrow> scope_contains h (scope_of i) = scope_contains h sc"
  using ws.same_class [of h "wi_workspace i" "gs_workspace sc"]
  by (auto simp: scope_contains_def scope_of_def fun_eq_iff)

subsection \<open>The order is total\<close>

definition work_key :: "work_item \<Rightarrow> int \<times> time \<times> string" where
  "work_key i = (- wi_priority i, wi_created_at i, wi_work_id i)"

lemma compare_work_order_key: "compare_work_order l r = cmp (work_key l) (work_key r)"
  by (auto simp: compare_work_order_def cmp_def then_with_def work_key_def less_prod_def'
        split: ordering.splits)

lemma cmp_not_greater: "cmp a b \<noteq> Greater \<longleftrightarrow> a \<le> b"
  by (auto simp: cmp_def)

lemma insert_by_key: "insert_by (\<lambda>a b. cmp (f a) (f b)) x xs = insort_key f x xs"
  by (induction xs) (auto simp: cmp_not_greater)

lemma order_work_key: "order_work items = sort_key work_key items"
proof -
  have "compare_work_order = (\<lambda>l r. cmp (work_key l) (work_key r))"
    by (simp add: fun_eq_iff compare_work_order_key)
  then have "insert_by compare_work_order = insert_by (\<lambda>l r. cmp (work_key l) (work_key r))"
    by (rule arg_cong)
  also have "\<dots> = insort_key work_key"
    by (simp add: fun_eq_iff insert_by_key)
  finally have "insert_by compare_work_order = insort_key work_key" .
  then show ?thesis by (simp add: order_work_def sort_by_def sort_key_def)
qed

lemma set_order_work [simp]: "set (order_work items) = set items"
  by (simp add: order_work_key)

text \<open>
  The ledger's order of work does not depend on the order in which a directory lists
  its files: two listings of the same records with distinct ids are ordered alike, and the
  order is by descending priority, then creation instant, then id.
\<close>

theorem order_work_deterministic:
  assumes "mset xs = mset ys" and "distinct (map wi_work_id xs)"
  shows "order_work xs = order_work ys
    \<and> sorted (map (\<lambda>i. (- wi_priority i, wi_created_at i, wi_work_id i)) (order_work xs))"
proof -
  have "inj_on work_key (set xs)"
    using assms(2) by (auto simp: work_key_def inj_on_def distinct_map)
  then have "sort_key work_key xs = sort_key work_key ys"
    using assms(1) by (intro sort_key_inj_key_eq) (auto simp: sorted_sort_key)
  then show ?thesis
    using sorted_sort_key [of work_key xs] by (simp add: order_work_key work_key_def [abs_def])
qed

theorem order_work_deterministic_witness:
  "order_work [example_item ''b'' [], example_item ''a'' []]
     = order_work [example_item ''a'' [], example_item ''b'' []]"
  using order_work_deterministic [of "[example_item ''b'' [], example_item ''a'' []]"
      "[example_item ''a'' [], example_item ''b'' []]"] by simp

subsection \<open>What an accepted write means\<close>

definition lane_graph :: "host \<Rightarrow> graph_scope \<Rightarrow> work_item list \<Rightarrow> work_item \<Rightarrow> work_item list" where
  "lane_graph h sc items c =
     filter (\<lambda>i. wi_work_id i \<noteq> wi_work_id c \<and> scope_contains h sc i) items @ [c]"

lemma lane_nodes_ok:
  assumes "distinct (map wi_work_id ns)" "declared = wi_work_id ` set ns"
    "wi_work_id c \<notin> declared"
  shows "lane_nodes h sc c items ns declared =
    (if distinct (map wi_work_id (ns @ lane_graph h sc items c))
     then Inr (ns @ lane_graph h sc items c, wi_work_id ` set (ns @ lane_graph h sc items c))
     else Inl (invalid ''scope contains duplicate work ids''))"
  using assms
proof (induction items arbitrary: ns declared)
  case Nil
  then show ?case by (auto simp: lane_graph_def)
next
  case (Cons i items)
  consider "wi_work_id i = wi_work_id c \<or> \<not> scope_contains h sc i"
    | "scope_contains h sc i" "wi_work_id i \<noteq> wi_work_id c" "wi_work_id i \<in> declared"
    | "scope_contains h sc i" "wi_work_id i \<noteq> wi_work_id c" "wi_work_id i \<notin> declared"
    by blast
  then show ?case
  proof cases
    case 1
    then show ?thesis using Cons by (auto simp: lane_graph_def)
  next
    case 2
    then show ?thesis using Cons.prems by (auto simp: lane_graph_def)
  next
    case 3
    then show ?thesis
      using Cons.IH [of "ns @ [i]" "insert (wi_work_id i) declared"] Cons.prems
      by (simp add: lane_graph_def)
  qed
qed

lemma lane_nodes_start:
  "lane_nodes h sc c items [] {} =
    (if distinct (map wi_work_id (lane_graph h sc items c))
     then Inr (lane_graph h sc items c, wi_work_id ` set (lane_graph h sc items c))
     else Inl (invalid ''scope contains duplicate work ids''))"
  using lane_nodes_ok [of "[]" "{}" c h sc items] by simp

lemma count_edges_ok:
  "ns \<noteq> [] \<Longrightarrow> count_edges ns e = Inr () \<longleftrightarrow>
     e + sum_list (map (\<lambda>n. length (wi_dependencies n)) ns) \<le> MAX_GRAPH_EDGES"
proof (induction ns arbitrary: e)
  case (Cons n ns)
  show ?case
  proof (cases "ns = []")
    case False
    then show ?thesis
      using Cons.IH [OF False, of "e + length (wi_dependencies n)"]
      by (simp add: Let_def add.assoc)
  qed (simp add: Let_def not_less)
qed simp

lemma check_candidate_edges_ok:
  "check_candidate_edges me declared seen ds = Inr () \<longleftrightarrow>
     distinct (map dep_work_id ds)
     \<and> dep_work_id ` set ds \<subseteq> declared - insert me seen"
  by (induction ds arbitrary: seen) (auto simp: Let_def)

lemma lane_graph_nonempty [simp]: "lane_graph h sc items c \<noteq> []"
  by (simp add: lane_graph_def)

text \<open>
  C36. A write is accepted by the graph validator exactly when the item belongs to the lane,
  the lane and its edges are within their bounds, ids are distinct, every dependency of the
  item is another item of its lane and declared once, and the lane's dependency relation
  with the item in place has no cycle.
\<close>

theorem validate_scoped_dependency_graph_iff:
  "validate_scoped_dependency_graph h items c sc = Inr () \<longleftrightarrow>
     (let lane = lane_graph h sc items c; ids = wi_work_id ` set lane in
      scope_contains h sc c \<and> length items < MAX_GRAPH_SCOPE_ITEMS
      \<and> distinct (map wi_work_id lane)
      \<and> (\<Sum>n\<leftarrow>lane. length (wi_dependencies n)) \<le> MAX_GRAPH_EDGES
      \<and> distinct (map dep_work_id (wi_dependencies c))
      \<and> dep_work_id ` set (wi_dependencies c) \<subseteq> ids - {wi_work_id c}
      \<and> acyclic (dep_rel lane ids))"
proof (cases "distinct (map wi_work_id (lane_graph h sc items c))")
  case True
  have "find_cycle (lane_graph h sc items c) (wi_work_id ` set (lane_graph h sc items c)) = None
      \<longleftrightarrow> acyclic (dep_rel (lane_graph h sc items c)
                     (wi_work_id ` set (lane_graph h sc items c)))"
    using find_cycle_None_iff [OF True] by simp
  then show ?thesis
    using True
    by (auto simp: validate_scoped_dependency_graph_def lane_nodes_start rbind_ok count_edges_ok
          check_candidate_edges_ok Let_def split: option.splits)
next
  case False
  then show ?thesis
    by (auto simp: validate_scoped_dependency_graph_def lane_nodes_start Let_def)
qed

subsection \<open>Isolation of lanes\<close>

lemma visible_states_filter:
  "visible_states h sc items = visible_states h sc (filter (scope_contains h sc) items)"
proof -
  have "foldl (\<lambda>m i. if scope_contains h sc i then m(wi_work_id i \<mapsto> wi_state i) else m) m items
      = foldl (\<lambda>m i. if scope_contains h sc i then m(wi_work_id i \<mapsto> wi_state i) else m) m
          (filter (scope_contains h sc) items)" for m
    by (induction items arbitrary: m) auto
  then show ?thesis by (simp add: visible_states_def)
qed

lemma lane_graph_filter:
  "lane_graph h sc items c = lane_graph h sc (filter (scope_contains h sc) items) c"
  by (auto simp: lane_graph_def intro: filter_cong)

text \<open>
  C38. Records of other lanes only count towards the size bound. Two lists of items that agree inside a lane, whatever
  they hold outside it, give the same resolution of dependencies and the same projection for that lane, and,
  when both or neither keep below the bound of 4096 items, in which the validator counts every item it is handed, the same verdict and
  error message on a write. In particular a dependency on another lane's work is answered as one on work that does not exist.
\<close>

theorem lane_isolation:
  assumes "filter (scope_contains h sc) items = filter (scope_contains h sc) items'"
  shows "resolve_dependency_states h items c sc = resolve_dependency_states h items' c sc
    \<and> project_scoped_graph h items sc now = project_scoped_graph h items' sc now
    \<and> ((length items < MAX_GRAPH_SCOPE_ITEMS) = (length items' < MAX_GRAPH_SCOPE_ITEMS) \<longrightarrow>
         validate_scoped_dependency_graph h items c sc
           = validate_scoped_dependency_graph h items' c sc)"
proof -
  have "visible_states h sc items = visible_states h sc items'"
    using assms visible_states_filter by metis
  moreover have "lane_graph h sc items c = lane_graph h sc items' c"
    using assms lane_graph_filter by metis
  ultimately show ?thesis
    using assms
    by (simp add: resolve_dependency_states_def project_scoped_graph_def
          validate_scoped_dependency_graph_def lane_nodes_start)
qed

theorem lane_isolation_witness:
  "validate_scoped_dependency_graph example_host [(example_item ''x'' [])\<lparr>wi_session_id := 8\<rparr>]
       (example_item ''a'' [''x'']) (scope_of (example_item ''a'' []))
   = validate_scoped_dependency_graph example_host [] (example_item ''a'' [''x''])
       (scope_of (example_item ''a'' []))"
  using lane_isolation [of example_host "scope_of (example_item ''a'' [])"
      "[(example_item ''x'' [])\<lparr>wi_session_id := 8\<rparr>]" "[]" "example_item ''a'' [''x'']"]
  by (simp add: scope_contains_def scope_of_def MAX_GRAPH_SCOPE_ITEMS_def)

subsection \<open>Admission\<close>

lemma dependency_verdict_None:
  "dependency_verdict states ds p = None \<longleftrightarrow>
     \<not> p \<and> (\<forall>d \<in> set ds. states (dep_work_id d) = Some (Some (dep_required_state d)))"
proof (induction ds arbitrary: p)
  case (Cons d ds)
  then show ?case by (auto split: option.splits simp flip: not_None_eq)
qed simp

lemma dependency_verdict_not_admissible: "dependency_verdict states ds p \<noteq> Some Admissible"
  by (induction ds arbitrary: p) (auto split: option.splits)

text \<open>A manual hold: blocked, not by reconciliation, and not the legacy shape of a derived wait.\<close>

definition manually_held :: "work_item \<Rightarrow> bool" where
  "manually_held i =
     (wi_state i = W_Blocked \<and> wi_block_provenance i \<noteq> Some Derived \<and> \<not> is_legacy_derived_wait i)"

lemma manual_iff: "is_none_or v bp_is_manual \<longleftrightarrow> v \<noteq> Some Derived"
  by (cases v; cases "the v") auto

lemma admission_ManuallyBlocked: "evaluate_admission i states now = ManuallyBlocked \<longleftrightarrow> manually_held i"
proof -
  have "dependency_verdict states ds p \<noteq> Some ManuallyBlocked" for ds p
    by (induction ds arbitrary: p) (auto split: option.splits)
  then show ?thesis
    by (cases "wi_state i")
       (auto simp: evaluate_admission_def manually_held_def manual_iff admission_when_waiting_def
          is_legacy_derived_wait_def split: option.splits)
qed

lemma admission_Admissible:
  "evaluate_admission i states now = Admissible \<longleftrightarrow>
     (wi_state i = W_Queued \<or> wi_state i = W_Blocked \<and> \<not> manually_held i)
     \<and> \<not> wi_is_container i \<and> \<not> deadline_passed i now
     \<and> (\<forall>d \<in> set (wi_dependencies i).
           states (dep_work_id d) = Some (Some (dep_required_state d)))
     \<and> wi_attempt_count i < rp_max_attempts (wp_retry (wi_policy i))"
  using dependency_verdict_None [of states "wi_dependencies i" False]
    dependency_verdict_not_admissible [of states "wi_dependencies i" False]
  by (cases "wi_state i")
     (auto simp: evaluate_admission_def manually_held_def manual_iff admission_when_waiting_def
        split: option.splits)

lemma admission_terminal:
  "ws_is_terminal (wi_state i) \<longleftrightarrow>
     evaluate_admission i states now \<in> {AB_Succeeded, AB_Failed, AB_Cancelled}
     \<or> wi_state i = W_Failed \<and> evaluate_admission i states now = DeadlineExceeded"
proof -
  have "dependency_verdict states ds p \<notin> {Some AB_Succeeded, Some AB_Failed, Some AB_Cancelled}" for ds p
    by (induction ds arbitrary: p) (auto split: option.splits)
  then show ?thesis
    by (cases "wi_state i") (auto simp: evaluate_admission_def admission_when_waiting_def split: option.splits)
qed

lemma map_of_dep_ids:
  "map_of (map (\<lambda>d. (dep_work_id d, f (dep_work_id d))) ds) k
     = (if k \<in> dep_work_id ` set ds then Some (f k) else None)"
  by (induction ds) auto

lemma resolve_dependency_states_get:
  "d \<in> set (wi_dependencies c) \<Longrightarrow>
     resolve_dependency_states h items c sc (dep_work_id d)
       = Some (visible_states h sc items (dep_work_id d))"
  unfolding resolve_dependency_states_def by (subst map_of_dep_ids) auto

lemma visible_states_get:
  assumes "distinct (map wi_work_id items)"
  shows "visible_states h sc items k = Some st \<longleftrightarrow>
    (\<exists>i \<in> set items. wi_work_id i = k \<and> scope_contains h sc i \<and> wi_state i = st)"
  using assms
proof (induction items rule: rev_induct)
  case Nil
  then show ?case by (simp add: visible_states_def)
next
  case (snoc i items)
  have "visible_states h sc (items @ [i]) =
      (if scope_contains h sc i then (visible_states h sc items)(wi_work_id i \<mapsto> wi_state i)
       else visible_states h sc items)"
    by (simp add: visible_states_def)
  then show ?case using snoc by (auto simp: image_iff)
qed

text \<open>
  C37. Admission is exact: an item may be claimed exactly when it is queued or in a wait
  that reconciliation itself derived, is no container, has not passed its deadline, has an
  attempt left, and every dependency is an item of its own lane in the required state. An
  item a person stopped is never admissible, whatever its dependencies.
\<close>

theorem admission_exact:
  assumes "distinct (map wi_work_id items)"
  shows "evaluate_admission c (resolve_dependency_states h items c sc) now = Admissible \<longleftrightarrow>
    (wi_state c = W_Queued \<or> wi_state c = W_Blocked \<and> \<not> manually_held c)
    \<and> \<not> wi_is_container c \<and> \<not> deadline_passed c now
    \<and> wi_attempt_count c < rp_max_attempts (wp_retry (wi_policy c))
    \<and> (\<forall>d \<in> set (wi_dependencies c). \<exists>i \<in> set items.
          wi_work_id i = dep_work_id d \<and> scope_contains h sc i \<and> wi_state i = dep_required_state d)"
  unfolding admission_Admissible
  by (auto simp: resolve_dependency_states_get visible_states_get [OF assms])

theorem admission_exact_witness:
  "evaluate_admission (example_item ''b'' [''a''])
     (resolve_dependency_states example_host [(example_item ''a'' [])\<lparr>wi_state := W_Succeeded\<rparr>]
        (example_item ''b'' [''a'']) (scope_of (example_item ''b'' []))) 5 = Admissible"
  using admission_exact [of "[(example_item ''a'' [])\<lparr>wi_state := W_Succeeded\<rparr>]"
      "example_item ''b'' [''a'']" example_host "scope_of (example_item ''b'' [])" 5]
  by (simp add: scope_contains_def scope_of_def deadline_passed_def example_item_def
        example_policy_def workspaces_match_def)

text \<open>
  The operator's view and the claim path cannot disagree: for every item of a lane the
  projection reports the verdict of the one admission evaluator on the dependencies
  resolved as the store resolves them, and lists exactly the resolvable dependencies.
\<close>

theorem projection_agrees:
  assumes "distinct (map wi_work_id items)"
  shows "project_scoped_graph h items sc now =
    map (\<lambda>i. \<lparr>gn_work_id = wi_work_id i, gn_kind = wi_kind i, gn_state = wi_state i,
          gn_admission = evaluate_admission i (resolve_dependency_states h items i sc) now,
          gn_priority = wi_priority i, gn_revision = wi_revision i,
          gn_attempt_count = wi_attempt_count i,
          gn_max_attempts = rp_max_attempts (wp_retry (wi_policy i)),
          gn_is_container = wi_is_container i, gn_deadline = wi_deadline i,
          gn_dependencies = filter (\<lambda>k. visible_states h sc items k \<noteq> None)
                              (map dep_work_id (wi_dependencies i)),
          gn_unresolved_dependencies =
            length (filter (\<lambda>d. visible_states h sc items (dep_work_id d) = None) (wi_dependencies i)),
          gn_created_at = wi_created_at i, gn_updated_at = wi_updated_at i\<rparr>)
      (order_work (filter (scope_contains h sc) items))"
proof -
  let ?lane = "order_work (filter (scope_contains h sc) items)"
  have dist: "distinct (map wi_work_id ?lane)"
    using assms by (simp add: order_work_key distinct_map inj_on_def)
  have "map_of (map (\<lambda>i. (wi_work_id i, wi_state i)) (rev ?lane)) k = visible_states h sc items k" for k
  proof -
    have "map_of (map (\<lambda>i. (wi_work_id i, wi_state i)) (rev ?lane)) k = Some st
        \<longleftrightarrow> visible_states h sc items k = Some st" for st
      using dist
      by (auto simp: visible_states_get [OF assms] map_of_eq_Some_iff rev_map [symmetric] comp_def
            image_iff)
    then show ?thesis by (metis option.exhaust)
  qed
  then have visible: "map_of (map (\<lambda>i. (wi_work_id i, wi_state i)) (rev ?lane)) = visible_states h sc items"
    by (rule ext)
  have resolved: "(case resolve_dependency_states h items i sc (dep_work_id d) of
        Some (Some _) \<Rightarrow> True | _ \<Rightarrow> False) \<longleftrightarrow> visible_states h sc items (dep_work_id d) \<noteq> None"
    if "d \<in> set (wi_dependencies i)" for d i
    using resolve_dependency_states_get [OF that] by (auto split: option.splits)
  show ?thesis
    unfolding project_scoped_graph_def Let_def visible
    by (intro map_cong refl)
       (simp add: project_node_def Let_def resolve_dependency_states_def [symmetric]
          filter_map comp_def resolved cong: filter_cong)
qed

theorem projection_agrees_witness:
  "map gn_admission (project_scoped_graph example_host [example_item ''a'' [''x'']]
      (scope_of (example_item ''a'' [])) 5) = [DependencyUnresolved]"
  using projection_agrees [of "[example_item ''a'' [''x'']]" example_host
      "scope_of (example_item ''a'' [])" 5]
  by (simp add: order_work_key scope_contains_def scope_of_def evaluate_admission_def
        admission_when_waiting_def deadline_passed_def resolve_dependency_states_def
        visible_states_def example_item_def workspaces_match_def)

end
