(* ===== verification/Managed_Policy.thy ===== *)
theory Managed_Policy
  imports Workload
begin

section \<open>Managed execution policy\<close>

text \<open>
  The policy part of \<^verbatim>\<open>orchestration/managed.rs\<close>: what the specification of an agent says about work that
  the host may run for it without a person, its validation, and the questions the executor asks.
\<close>

definition MAX_MANAGED_KIND_BYTES :: nat where "MAX_MANAGED_KIND_BYTES = 96"
definition MAX_MANAGED_KINDS :: nat where "MAX_MANAGED_KINDS = 64"
definition MAX_MANAGED_ROUTINE_SOURCES :: nat where "MAX_MANAGED_ROUTINE_SOURCES = 64"
definition DEFAULT_PERSISTENT_AGENT_MAX_TOTAL_TOKENS :: nat where
  "DEFAULT_PERSISTENT_AGENT_MAX_TOTAL_TOKENS = 250000"

datatype managed_executor_kind = ME_NativeRun | ME_GrokBuildIsolatedReview
datatype managed_execution_budget_profile = BP_Economy | BP_Balanced | BP_HighAssurance
datatype run_execution_mode = RM_Shared | RM_IsolatedWorktree
datatype managed_retry_cause = RC_Failed | RC_Interrupted | RC_Expired

record managed_grok_budget_limits =
  gl_max_prompt_bytes :: nat
  gl_max_turns :: nat
  gl_max_duration_ms :: nat
  gl_max_output_bytes :: nat

fun budget_limits :: "managed_execution_budget_profile \<Rightarrow> managed_grok_budget_limits" where
  "budget_limits BP_Economy =
     \<lparr>gl_max_prompt_bytes = 16 * 1024, gl_max_turns = 8, gl_max_duration_ms = 5 * 60 * 1000,
      gl_max_output_bytes = 512 * 1024\<rparr>"
| "budget_limits BP_Balanced =
     \<lparr>gl_max_prompt_bytes = 32 * 1024, gl_max_turns = 16, gl_max_duration_ms = 15 * 60 * 1000,
      gl_max_output_bytes = 2 * 1024 * 1024\<rparr>"
| "budget_limits BP_HighAssurance =
     \<lparr>gl_max_prompt_bytes = 64 * 1024, gl_max_turns = 32, gl_max_duration_ms = 30 * 60 * 1000,
      gl_max_output_bytes = 4 * 1024 * 1024\<rparr>"

record managed_execution_policy =
  me_enabled :: bool
  me_allowed_work_kinds :: "string list"
  me_allowed_source_routine_ids :: "string list"
  me_max_concurrent_runs :: nat
  me_bounds :: run_bounds
  me_retry_eligible :: bool
  me_requires_approval_before_execution :: bool
  me_executor :: managed_executor_kind
  me_native_execution_mode :: run_execution_mode
  me_budget_profile :: "managed_execution_budget_profile option"

definition default_managed_bounds :: run_bounds where
  "default_managed_bounds =
     \<lparr>rb_max_prompt_bytes = 16 * 1024, rb_max_rounds = 8, rb_max_duration_ms = 5 * 60 * 1000,
      rb_max_total_tokens = Some DEFAULT_PERSISTENT_AGENT_MAX_TOTAL_TOKENS\<rparr>"

definition managed_policy_default :: managed_execution_policy where
  "managed_policy_default =
     \<lparr>me_enabled = False, me_allowed_work_kinds = [], me_allowed_source_routine_ids = [],
      me_max_concurrent_runs = 1, me_bounds = default_managed_bounds, me_retry_eligible = False,
      me_requires_approval_before_execution = False, me_executor = ME_NativeRun,
      me_native_execution_mode = RM_Shared, me_budget_profile = None\<rparr>"

definition managed_policy_validate :: "managed_execution_policy \<Rightarrow> unit result" where
  "managed_policy_validate p = first_err
     ([reject (me_max_concurrent_runs p = 0 \<or> me_max_concurrent_runs p > 4)
         (invalid ''managedExecution.maxConcurrentRuns must be between 1 and 4''),
       reject (length (me_allowed_work_kinds p) > MAX_MANAGED_KINDS)
         (invalid ''managedExecution.allowedWorkKinds exceeds its bound'')]
      @ map (\<lambda>k. reject (k = [] \<or> length k > MAX_MANAGED_KIND_BYTES \<or> NUL \<in> set k)
               (invalid ''managedExecution.allowedWorkKinds entry is invalid'')) (me_allowed_work_kinds p)
      @ [reject (length (me_allowed_source_routine_ids p) > MAX_MANAGED_ROUTINE_SOURCES)
           (invalid ''managedExecution.allowedSourceRoutineIds exceeds its bound''),
         run_bounds_validate (me_bounds p),
         reject (me_executor p = ME_NativeRun \<and> me_budget_profile p \<noteq> None)
           (invalid ''managedExecution.budgetProfile requires the Grok Build executor''),
         reject (me_executor p \<noteq> ME_NativeRun \<and> me_native_execution_mode p \<noteq> RM_Shared)
           (invalid ''managedExecution.nativeExecutionMode is available only to the native executor''),
         reject (me_native_execution_mode p = RM_IsolatedWorktree \<and> \<not> me_requires_approval_before_execution p)
           (invalid ''isolated native managed execution requires approval before execution''),
         reject (me_native_execution_mode p = RM_IsolatedWorktree \<and> me_retry_eligible p)
           (invalid ''isolated native managed execution forbids automatic retry'')])"

definition allows_kind :: "managed_execution_policy \<Rightarrow> string \<Rightarrow> bool" where
  "allows_kind p kind \<longleftrightarrow> me_allowed_work_kinds p = [] \<or> kind \<in> set (me_allowed_work_kinds p)"

definition allows_auto_retry :: "managed_execution_policy \<Rightarrow> work_item \<Rightarrow> nat \<Rightarrow> managed_retry_cause \<Rightarrow> bool" where
  "allows_auto_retry p work next_attempt_number cause \<longleftrightarrow>
     me_retry_eligible p
     \<and> \<not> (next_attempt_number = 0 \<or> next_attempt_number > rp_max_attempts (wp_retry (wi_policy work)))
     \<and> (case cause of
          RC_Failed \<Rightarrow> rp_retry_failed (wp_retry (wi_policy work))
        | _ \<Rightarrow> rp_retry_expired (wp_retry (wi_policy work)))"

definition allows_routine_source :: "managed_execution_policy \<Rightarrow> string option \<Rightarrow> bool" where
  "allows_routine_source p source_routine_id \<longleftrightarrow>
     me_allowed_source_routine_ids p = []
     \<or> is_some_and source_routine_id (\<lambda>r. r \<in> set (me_allowed_source_routine_ids p))"

end
