(* ===== verification/Ledger_Store.thy ===== *)
theory Ledger_Store
  imports Work_Graph Managed_Policy
begin

section \<open>The durable ledger: state and record access\<close>

text \<open>
  The part of \<open>OrchStore\<close> (\<^verbatim>\<open>orchestration/store.rs\<close>) that keeps work items, attempts,
  decisions, the two kinds of crash-recovery intents and idempotency receipts, as one
  record \<open>ledger\<close>: one directory per kind of file, the process-local fields that a restart
  clears (\<open>ledger_admission_closed\<close>, \<open>last_run_error\<close>, the request binding of the calling
  thread), and counters for the host's clock, identifiers and durable writes. All methods
  hold the store's mutex, so an operation is one step on this state. A record file is named
  by its id; reading one that exists does not fail, and an id that \<open>safe_id_filename\<close>
  refuses names no file. Runs, agents and check authorities are written by other components; the ledger
  only reads them, and the model keeps the fields it reads.
\<close>

subsection \<open>Requests, receipts and intents\<close>

record idempotency_scope =
  sc_owner_id :: string
  sc_session_id :: uuid
  sc_workspace_digest :: string

record work_request_binding =
  rq_request_id :: string
  rq_owner_id :: string
  rq_tool :: string
  rq_session_id :: uuid
  rq_workspace_digest :: string
  rq_workspace_display :: string
  rq_payload_hash :: string
  rq_shape :: string
  rq_target_work_id :: "string option"
  rq_target_attempt_id :: "string option"
  rq_expected_revision :: "u64 option"

definition binding_bound ::
  "idempotency_scope \<Rightarrow> string \<Rightarrow> string \<Rightarrow> string \<Rightarrow> string \<Rightarrow> string \<Rightarrow> work_request_binding" where
  "binding_bound sc workspace_display request_id tool payload_hash shape =
     \<lparr>rq_request_id = request_id, rq_owner_id = sc_owner_id sc, rq_tool = tool,
      rq_session_id = sc_session_id sc, rq_workspace_digest = sc_workspace_digest sc,
      rq_workspace_display = workspace_display, rq_payload_hash = payload_hash,
      rq_shape = shape, rq_target_work_id = None, rq_target_attempt_id = None,
      rq_expected_revision = None\<rparr>"

text \<open>
  Service responses. The ledger builds the typed ones from an intent; \<open>R_Json\<close> is any
  other JSON text a caller stores through \<open>complete_idempotency\<close>.
\<close>

datatype response =
    R_Null
  | R_Decision work_item work_decision
  | R_DecisionScope work_item work_decision uuid string
  | R_WorkScope work_item uuid string
  | R_Unblock string work_state u64 "block_provenance option" uuid
  | R_WorkAttempt work_item work_attempt_view
  | R_WorkAttempts work_item "work_attempt_view list"
  | R_Claim work_item work_attempt_view uuid string
  | R_LeaseView string work_attempt_view uuid string
  | R_Json string

record idempotency_receipt =
  ir_schema_version :: nat
  ir_owner_id :: string
  ir_session_id :: uuid
  ir_workspace_digest :: string
  ir_request_id :: string
  ir_payload_hash :: string
  ir_run_id :: "string option"
  ir_tool :: string
  ir_response :: response
  ir_error :: "orch_error option"
  ir_created_at :: time
  ir_status :: string
  ir_cleanup_plan_digest :: string

record work_mutation_intent =
  mi_schema_version :: nat
  mi_intent_id :: string
  mi_work_id :: string
  mi_expected_revision :: u64
  mi_prior_item_digest :: string
  mi_next_item_digest :: string
  mi_decision_digest :: string
  mi_item :: work_item
  mi_decision :: work_decision
  mi_request :: "work_request_binding option"

text \<open>
  The operations that the modelled part of the store commits through a lifecycle intent.
  Managed finalisation and the apply, discard and invalidate operations of verified
  changes use the same intents from code that is not modelled.
\<close>

datatype lifecycle_op =
    O_Refresh | O_Expire | O_ExpireTerminal | O_Assign | O_Retry | O_Approve
  | O_ApproveCandidate | O_ParkInput | O_Claim | O_RenewLease | O_LinkRun | O_Progress
  | O_Release | O_Complete | O_Fail | O_Cancel

fun lifecycle_op_str :: "lifecycle_op \<Rightarrow> string" where
  "lifecycle_op_str O_Refresh = ''refresh''"
| "lifecycle_op_str O_Expire = ''expire''"
| "lifecycle_op_str O_ExpireTerminal = ''expire_terminal''"
| "lifecycle_op_str O_Assign = ''assign''"
| "lifecycle_op_str O_Retry = ''retry''"
| "lifecycle_op_str O_Approve = ''approve''"
| "lifecycle_op_str O_ApproveCandidate = ''approve-candidate''"
| "lifecycle_op_str O_ParkInput = ''park_input''"
| "lifecycle_op_str O_Claim = ''claim''"
| "lifecycle_op_str O_RenewLease = ''renew_lease''"
| "lifecycle_op_str O_LinkRun = ''link_run''"
| "lifecycle_op_str O_Progress = ''progress''"
| "lifecycle_op_str O_Release = ''release''"
| "lifecycle_op_str O_Complete = ''complete''"
| "lifecycle_op_str O_Fail = ''fail''"
| "lifecycle_op_str O_Cancel = ''cancel''"

record work_lifecycle_intent =
  li_schema_version :: nat
  li_intent_id :: string
  li_operation :: lifecycle_op
  li_work_id :: string
  li_prior_item :: work_item
  li_item :: work_item
  li_prior_attempts :: "work_attempt list"
  li_attempts :: "work_attempt list"
  li_request :: "work_request_binding option"

subsection \<open>Records of other components that the ledger reads\<close>

datatype run_state =
    Run_Queued | Run_Running | Run_Completed | Run_Failed | Run_Cancelled
  | Run_Interrupted | Run_LimitReached

fun run_is_terminal :: "run_state \<Rightarrow> bool" where
  "run_is_terminal Run_Queued = False"
| "run_is_terminal Run_Running = False"
| "run_is_terminal _ = True"

record run_record =
  rn_run_id :: string
  rn_session_id :: uuid
  rn_workspace :: string
  rn_state :: run_state
  rn_verification :: "completion_evidence option"

datatype agent_state =
  Agent_Active | Agent_Waiting | Agent_Interrupted | Agent_Failed | Agent_Completed

fun is_active_identity :: "agent_state \<Rightarrow> bool" where
  "is_active_identity Agent_Failed = False"
| "is_active_identity Agent_Completed = False"
| "is_active_identity _ = True"

record agent_authority_policy =
  aa_sandbox_profile :: string
  aa_bypass_permissions :: bool
  aa_allowed_tools :: "string list"
  aa_computer_use_allowed :: bool

record agent_model_spec =
  am_selection_key :: string
  am_provider_id :: string
  am_model_id :: string

record agent_spec =
  as_revision :: u64
  as_display_name :: string
  as_source_workspace :: string
  as_model :: agent_model_spec
  as_default_run_bounds :: run_bounds
  as_authority :: agent_authority_policy
  as_managed_execution :: managed_execution_policy

record agent_record =
  ag_agent_id :: string
  ag_session_id :: uuid
  ag_lane_ids :: "uuid list"
  ag_lane_associations :: "(uuid \<times> bool) list"
  ag_workspace :: string
  ag_state :: agent_state
  ag_spec :: "agent_spec option"

definition ag_spec_revision :: "agent_record \<Rightarrow> u64 option" where
  "ag_spec_revision a = map_option as_revision (ag_spec a)"

definition known_lane_ids :: "agent_record \<Rightarrow> uuid list" where
  "known_lane_ids a =
     (if ag_lane_associations a \<noteq> [] then map fst (filter snd (ag_lane_associations a))
      else
        let ids = foldl (\<lambda>ids l. if l \<in> set ids then ids else ids @ [l]) [] (ag_lane_ids a)
        in if ag_session_id a \<in> set ids then ids else ag_session_id a # ids)"

record check_authority =
  ca_profile_id :: string
  ca_profile_revision :: nat
  ca_authority_digest :: string

subsection \<open>The state\<close>

record ledger =
  lg_items :: "(string, work_item) dir"
  lg_attempts :: "(string, work_attempt) dir"
  lg_decisions :: "(string \<times> string, work_decision) dir"
  lg_mutations :: "(string, work_mutation_intent) dir"
  lg_lifecycles :: "(string, work_lifecycle_intent) dir"
  lg_receipts :: "(string \<times> string \<times> string, idempotency_receipt) dir"
  lg_legacy_receipts :: "(string \<times> string, idempotency_receipt) dir"
  lg_tombstones :: "string list"
  lg_runs :: "(string, run_record) dir"
  lg_agents :: "(string, agent_record) dir"
  lg_check_authority :: "(string, check_authority) dir"
  lg_admission_closed :: "string option"
  lg_last_run_error :: "string option"
  lg_operation_request :: "work_request_binding option"
  lg_clock :: nat
  lg_uuids :: nat
  lg_writes :: nat

type_synonym 'a ledger_op = "(ledger, orch_error, 'a) op"
type_synonym 'a store_op = "(ledger, anyhow, 'a) op"

definition now_op :: "host \<Rightarrow> (ledger, 'e, time) op" where
  "now_op h = (\<lambda>s. (Inr (utc_now h (lg_clock s)), s\<lparr>lg_clock := Suc (lg_clock s)\<rparr>))"

definition uuid_op :: "host \<Rightarrow> (ledger, 'e, string) op" where
  "uuid_op h = (\<lambda>s. (Inr (new_uuid h (lg_uuids s)), s\<lparr>lg_uuids := Suc (lg_uuids s)\<rparr>))"

text \<open>
  \<open>atomic_write_json\<close>, \<open>write_json_exclusive\<close> and \<open>remove_file_durable\<close>: change one file,
  with the three outcomes of the host. Losing the write lease is the outcome \<open>NotWritten\<close>.
\<close>

definition durable :: "host \<Rightarrow> (ledger \<Rightarrow> ledger) \<Rightarrow> unit store_op" where
  "durable h f = (\<lambda>s.
     let s' = s\<lparr>lg_writes := Suc (lg_writes s)\<rparr> in
     case durable_outcome h (lg_writes s) of
       Written \<Rightarrow> (Inr (), f s')
     | NotWritten \<Rightarrow> (Inl (Opaque (io_error h)), s')
     | WrittenUnsynced \<Rightarrow> (Inl (Opaque (io_error h)), f s'))"

definition bump :: "host \<Rightarrow> work_item \<Rightarrow> (ledger, 'e, work_item) op" where
  "bump h i = bindE (now_op h) (\<lambda>now. ret (bump_at now i))"

subsection \<open>Loading, saving and listing\<close>

definition file_get :: "(string, 'v) dir \<Rightarrow> string \<Rightarrow> 'v option" where
  "file_get d i = (case safe_id_filename i of Inl _ \<Rightarrow> None | Inr k \<Rightarrow> dir_get d k)"

definition checked :: "('v \<Rightarrow> unit result) \<Rightarrow> 'v option \<Rightarrow> anyhow + 'v option" where
  "checked validate v =
     (case v of
        None \<Rightarrow> Inr None
      | Some x \<Rightarrow> (case validate x of Inl e \<Rightarrow> Inl (opaque_of e) | Inr _ \<Rightarrow> Inr (Some x)))"

definition load_work_item :: "string \<Rightarrow> work_item option store_op" where
  "load_work_item work_id =
     reads (\<lambda>s. checked item_validate (file_get (lg_items s) work_id))"

definition load_work_attempt :: "string \<Rightarrow> work_attempt option store_op" where
  "load_work_attempt attempt_id =
     reads (\<lambda>s. checked attempt_validate (file_get (lg_attempts s) attempt_id))"

definition load_run :: "string \<Rightarrow> run_record option store_op" where
  "load_run run_id = reads (\<lambda>s. Inr (file_get (lg_runs s) run_id))"

definition load_agent :: "string \<Rightarrow> agent_record option store_op" where
  "load_agent agent_id = reads (\<lambda>s. Inr (file_get (lg_agents s) agent_id))"

definition work_path :: "string \<Rightarrow> string store_op" where
  "work_path i = map_err opaque_of (lift (safe_id_filename i))"

definition write_work_item :: "host \<Rightarrow> work_item \<Rightarrow> unit store_op" where
  "write_work_item h item =
     bindE (work_path (wi_work_id item)) (\<lambda>k.
       durable h (\<lambda>s. s\<lparr>lg_items := dir_put k item (lg_items s)\<rparr>))"

definition save_work_attempt :: "host \<Rightarrow> work_attempt \<Rightarrow> unit store_op" where
  "save_work_attempt h attempt =
     thenE (map_err opaque_of (lift (attempt_validate attempt)))
       (bindE (work_path (wa_attempt_id attempt)) (\<lambda>k.
          durable h (\<lambda>s. s\<lparr>lg_attempts := dir_put k attempt (lg_attempts s)\<rparr>)))"

fun validated :: "('v \<Rightarrow> unit result) \<Rightarrow> 'v list \<Rightarrow> anyhow + 'v list" where
  "validated validate [] = Inr []"
| "validated validate (x # xs) =
     (case validate x of
        Inl e \<Rightarrow> Inl (opaque_of e)
      | Inr _ \<Rightarrow> rbind (validated validate xs) (\<lambda>ys. Inr (x # ys)))"

definition list_work_items :: "work_item list store_op" where
  "list_work_items =
     reads (\<lambda>s. rbind (validated item_validate (dir_list (lg_items s))) (\<lambda>items.
       Inr (order_work items)))"

definition list_work_attempts :: "string option \<Rightarrow> work_attempt list store_op" where
  "list_work_attempts work_id =
     reads (\<lambda>s. rbind (validated attempt_validate (dir_list (lg_attempts s))) (\<lambda>attempts.
       Inr (sort_by (\<lambda>a b. cmp (wa_attempt_number a) (wa_attempt_number b))
              (filter (\<lambda>a. is_none_or work_id (\<lambda>w. w = wa_work_id a)) attempts))))"

fun scoped_items :: "host \<Rightarrow> graph_scope \<Rightarrow> work_item list \<Rightarrow> work_item list \<Rightarrow> anyhow + work_item list" where
  "scoped_items h sc [] acc = Inr (order_work acc)"
| "scoped_items h sc (i # is) acc =
     (case item_validate i of
        Inl e \<Rightarrow> Inl (opaque_of e)
      | Inr _ \<Rightarrow>
          if scope_contains h sc i then
            if length (acc @ [i]) > MAX_GRAPH_SCOPE_ITEMS
            then Inl (Typed (orch_error_new CapacityExhausted
                   ''lane contains more than 4096 work items; bounded read refused''))
            else scoped_items h sc is (acc @ [i])
          else scoped_items h sc is acc)"

definition scoped_work_items :: "host \<Rightarrow> graph_scope \<Rightarrow> work_item list store_op" where
  "scoped_work_items h sc = reads (\<lambda>s. scoped_items h sc (dir_list (lg_items s)) [])"

definition work_graph_scoped :: "host \<Rightarrow> uuid \<Rightarrow> string \<Rightarrow> time \<Rightarrow> work_graph_node list store_op" where
  "work_graph_scoped h session_id workspace now =
     (let sc = \<lparr>gs_session_id = session_id, gs_workspace = workspace\<rparr> in
      bindE (scoped_work_items h sc) (\<lambda>items. ret (project_scoped_graph h items sc now)))"

definition validate_work_item_for_save :: "host \<Rightarrow> work_item \<Rightarrow> unit store_op" where
  "validate_work_item_for_save h item =
     thenE (map_err opaque_of (lift (item_validate item)))
     (bindE (load_work_item (wi_work_id item)) (\<lambda>existing.
      thenE
        (if existing = None then
           bindE (scoped_work_items h (scope_of item)) (\<lambda>lane.
             if length lane \<ge> MAX_GRAPH_SCOPE_ITEMS
             then raise (Typed (orch_error_new CapacityExhausted
                    ''scope holds more than 4096 work items; a new item is refused rather than unbounded''))
             else ret ())
         else ret ())
        (if wi_dependencies item \<noteq> [] \<and> map_option wi_dependencies existing \<noteq> Some (wi_dependencies item)
         then bindE (scoped_work_items h (scope_of item)) (\<lambda>lane.
                map_err Typed (lift (validate_scoped_dependency_graph h
                  (filter (\<lambda>e. wi_work_id e \<noteq> wi_work_id item \<and> scope_contains h (scope_of item) e) lane)
                  item (scope_of item))))
         else ret ())))"

definition save_work_item :: "host \<Rightarrow> work_item \<Rightarrow> unit store_op" where
  "save_work_item h item = thenE (validate_work_item_for_save h item) (write_work_item h item)"

definition work_decision_path :: "string \<Rightarrow> string \<Rightarrow> (string \<times> string) ledger_op" where
  "work_decision_path work_id decision_id =
     bindE (lift (safe_id_filename work_id)) (\<lambda>w.
       bindE (lift (safe_id_filename decision_id)) (\<lambda>d. ret (w, d)))"

definition save_work_decision :: "host \<Rightarrow> work_decision \<Rightarrow> unit ledger_op" where
  "save_work_decision h d =
     thenE (lift (decision_validate d))
       (bindE (work_decision_path (wd_work_id d) (wd_decision_id d)) (\<lambda>k.
          map_err internal_of (durable h (\<lambda>s. s\<lparr>lg_decisions := dir_put k d (lg_decisions s)\<rparr>))))"

definition load_work_decision :: "string \<Rightarrow> string \<Rightarrow> work_decision option ledger_op" where
  "load_work_decision work_id decision_id =
     bindE (work_decision_path work_id decision_id) (\<lambda>k.
       bindE (gets (\<lambda>s. dir_get (lg_decisions s) k)) (\<lambda>v.
         case v of
           None \<Rightarrow> ret None
         | Some d \<Rightarrow> thenE (lift (decision_validate d)) (ret (Some d))))"

end
