(* ===== verification/Idempotency.thy ===== *)
theory Idempotency
  imports Ledger_Store
begin

section \<open>Idempotency receipts\<close>

text \<open>
  \<open>IdempotencyScope\<close> and \<open>IdempotencyReceipt\<close> of \<^verbatim>\<open>orchestration/types.rs\<close> and the receipt
  methods of \<^verbatim>\<open>orchestration/store.rs\<close>: a mutation claims its request id with an exclusive
  pending receipt, finishes it once, and every exact retry replays the stored outcome. A
  receipt written before receipts were stored per workspace is adopted or refused. The
  receipt directory is keyed by owner, workspace digest and request id; the code hashes
  owner and request id into the path.
\<close>

definition IDEMPOTENCY_RECEIPT_SCHEMA_VERSION :: nat where
  "IDEMPOTENCY_RECEIPT_SCHEMA_VERSION = 2"
definition MAX_IDEMPOTENCY_RECEIPTS_PER_OWNER :: nat where
  "MAX_IDEMPOTENCY_RECEIPTS_PER_OWNER = 4096"
definition MAX_AGENT_WORKSPACE_BYTES :: nat where "MAX_AGENT_WORKSPACE_BYTES = 4 * 1024"

definition validate_bounded_string :: "string \<Rightarrow> nat \<Rightarrow> string \<Rightarrow> unit result" where
  "validate_bounded_string v max_bytes field =
     reject (v = [] \<or> length v > max_bytes \<or> NUL \<in> set v)
       (invalid (field @ '' is empty or exceeds its bound''))"

definition validate_workspace :: "string \<Rightarrow> unit result" where
  "validate_workspace v = first_err
     [validate_bounded_string v MAX_AGENT_WORKSPACE_BYTES ''workspace'',
      reject (trim v = []) (invalid ''workspace must not be empty'')]"

definition idempotency_scope_new :: "host \<Rightarrow> string \<Rightarrow> uuid \<Rightarrow> string \<Rightarrow> idempotency_scope result" where
  "idempotency_scope_new h owner_id session_id canonical_workspace =
     rbind (first_err
       [validate_bounded_string owner_id 256 ''owner_id'',
        validate_workspace canonical_workspace])
     (\<lambda>_. Inr \<lparr>sc_owner_id = owner_id, sc_session_id = session_id,
              sc_workspace_digest =
                domain_digest h ''grokptah-idempotency-workspace-v2'' canonical_workspace\<rparr>)"

definition valid_workspace_digest :: "string \<Rightarrow> bool" where
  "valid_workspace_digest d = (length d = 64 \<and> list_all is_ascii_hexdigit d)"

definition receipt_scope :: "idempotency_receipt \<Rightarrow> idempotency_scope result" where
  "receipt_scope r =
     rbind (first_err
       [reject (ir_schema_version r \<noteq> IDEMPOTENCY_RECEIPT_SCHEMA_VERSION)
          (orch_error_new Internal ''unsupported idempotency receipt schema''),
        validate_bounded_string (ir_owner_id r) 256 ''owner_id'',
        reject (\<not> valid_workspace_digest (ir_workspace_digest r))
          (orch_error_new Internal ''idempotency receipt workspace scope is invalid'')])
     (\<lambda>_. Inr \<lparr>sc_owner_id = ir_owner_id r, sc_session_id = ir_session_id r,
              sc_workspace_digest = ir_workspace_digest r\<rparr>)"

definition is_in_scope :: "idempotency_receipt \<Rightarrow> idempotency_scope \<Rightarrow> bool" where
  "is_in_scope r sc =
     (ir_schema_version r = IDEMPOTENCY_RECEIPT_SCHEMA_VERSION
      \<and> ir_owner_id r = sc_owner_id sc \<and> ir_session_id r = sc_session_id sc
      \<and> ir_workspace_digest r = sc_workspace_digest sc)"

definition legacy_owner_v2_path :: "idempotency_scope \<Rightarrow> string \<Rightarrow> (string \<times> string) result" where
  "legacy_owner_v2_path sc request_id =
     rbind (safe_id_filename request_id) (\<lambda>k. Inr (sc_owner_id sc, k))"

definition idemp_path :: "idempotency_scope \<Rightarrow> string \<Rightarrow> (string \<times> string \<times> string) result" where
  "idemp_path sc request_id =
     rbind (safe_id_filename request_id) (\<lambda>k.
       if \<not> valid_workspace_digest (sc_workspace_digest sc)
       then Inl (orch_error_new Internal ''idempotency workspace scope is invalid'')
       else Inr (sc_owner_id sc, sc_workspace_digest sc, k))"

definition receipts_outcomes_compatible :: "idempotency_receipt \<Rightarrow> idempotency_receipt \<Rightarrow> bool" where
  "receipts_outcomes_compatible l r =
     (ir_schema_version l = ir_schema_version r \<and> ir_owner_id l = ir_owner_id r
      \<and> ir_session_id l = ir_session_id r \<and> ir_workspace_digest l = ir_workspace_digest r
      \<and> ir_request_id l = ir_request_id r \<and> ir_tool l = ir_tool r
      \<and> ir_payload_hash l = ir_payload_hash r \<and> ir_run_id l = ir_run_id r
      \<and> ir_status l = ir_status r \<and> ir_response l = ir_response r
      \<and> ir_cleanup_plan_digest l = ir_cleanup_plan_digest r
      \<and> (case (ir_error l, ir_error r) of
           (None, None) \<Rightarrow> True
         | (Some le, Some re) \<Rightarrow> err_code le = err_code re \<and> err_message le = err_message re
         | _ \<Rightarrow> False))"

text \<open>A \<open>remove_file_durable\<close> whose result is discarded.\<close>

definition ignore_err :: "(ledger, 'e, unit) op \<Rightarrow> (ledger, 'f, unit) op" where
  "ignore_err m = (\<lambda>s. (Inr (), snd (m s)))"

definition put_receipt :: "host \<Rightarrow> string \<times> string \<times> string \<Rightarrow> idempotency_receipt \<Rightarrow> unit ledger_op" where
  "put_receipt h k r =
     map_err internal_of (durable h (\<lambda>s. s\<lparr>lg_receipts := dir_put k r (lg_receipts s)\<rparr>))"

definition drop_legacy :: "host \<Rightarrow> string \<times> string \<Rightarrow> unit store_op" where
  "drop_legacy h k = durable h (\<lambda>s. s\<lparr>lg_legacy_receipts := dir_del k (lg_legacy_receipts s)\<rparr>)"

definition converge_legacy_owner_receipt ::
  "host \<Rightarrow> string \<times> string \<Rightarrow> string \<times> string \<times> string \<Rightarrow> idempotency_receipt \<Rightarrow> unit ledger_op" where
  "converge_legacy_owner_receipt h legacy_key new_key legacy =
     bindE (gets (\<lambda>s. dir_get (lg_receipts s) new_key)) (\<lambda>current.
       case current of
         Some cur \<Rightarrow>
           if cur \<noteq> legacy \<and> \<not> receipts_outcomes_compatible legacy cur
           then raise (orch_error_new Conflict
                  ''idempotency receipt evidence conflicts; both records were preserved'')
           else ignore_err (drop_legacy h legacy_key)
       | None \<Rightarrow>
           thenE (put_receipt h new_key legacy) (ignore_err (drop_legacy h legacy_key)))"

definition adopt_legacy_owner_receipt ::
  "host \<Rightarrow> idempotency_scope \<Rightarrow> string \<Rightarrow> (string \<times> string) option \<Rightarrow> unit ledger_op" where
  "adopt_legacy_owner_receipt h sc request_id claim =
     bindE (lift (legacy_owner_v2_path sc request_id)) (\<lambda>lk.
     bindE (gets (\<lambda>s. dir_get (lg_legacy_receipts s) lk)) (\<lambda>found.
       case found of
         None \<Rightarrow> ret ()
       | Some legacy \<Rightarrow>
           if ir_request_id legacy \<noteq> request_id \<or> ir_owner_id legacy \<noteq> sc_owner_id sc
              \<or> ir_schema_version legacy \<noteq> IDEMPOTENCY_RECEIPT_SCHEMA_VERSION
           then raise (orch_error_new Conflict ''legacy idempotency receipt cannot be reused'')
           else if ir_workspace_digest legacy \<noteq> sc_workspace_digest sc then ret ()
           else
             (case claim of
                Some (tool, payload_hash) \<Rightarrow>
                  if ir_session_id legacy \<noteq> sc_session_id sc \<or> ir_tool legacy \<noteq> tool
                     \<or> ir_payload_hash legacy \<noteq> payload_hash
                  then raise (orch_error_new Conflict ''request_id reused with different payload'')
                  else bindE (lift (idemp_path sc request_id)) (\<lambda>nk.
                         converge_legacy_owner_receipt h lk nk legacy)
              | None \<Rightarrow>
                  bindE (lift (idemp_path sc request_id)) (\<lambda>nk.
                  bindE (gets (\<lambda>s. dir_get (lg_receipts s) nk)) (\<lambda>current.
                    if ir_session_id legacy \<noteq> sc_session_id sc \<and> current = None then ret ()
                    else converge_legacy_owner_receipt h lk nk legacy)))))"

definition load_idempotency :: "host \<Rightarrow> idempotency_scope \<Rightarrow> string \<Rightarrow> idempotency_receipt option store_op" where
  "load_idempotency h sc request_id =
     thenE (map_err opaque_of (adopt_legacy_owner_receipt h sc request_id None))
       (reads (\<lambda>s.
          case idemp_path sc request_id of
            Inl _ \<Rightarrow> Inr None
          | Inr k \<Rightarrow>
              (case dir_get (lg_receipts s) k of
                 None \<Rightarrow> Inr None
               | Some r \<Rightarrow>
                   if is_in_scope r sc \<and> ir_request_id r = request_id then Inr (Some r)
                   else Inl (Opaque ''idempotency receipt scope does not match its durable path''))))"

subsection \<open>Capacity\<close>

definition owner_idempotency_entry_count :: "ledger \<Rightarrow> idempotency_scope \<Rightarrow> nat \<Rightarrow> nat" where
  "owner_idempotency_entry_count s sc stop_at =
     min stop_at
       (length (filter (\<lambda>(owner, _, _). owner = sc_owner_id sc) (map fst (lg_receipts s)))
        + length (filter (\<lambda>(owner, _). owner = sc_owner_id sc) (map fst (lg_legacy_receipts s))))"

definition prunable :: "ledger \<Rightarrow> idempotency_scope \<Rightarrow> string \<Rightarrow> idempotency_receipt \<Rightarrow> bool" where
  "prunable s sc key_request r =
     (is_ok (receipt_scope r) \<and> ir_owner_id r = sc_owner_id sc
      \<and> safe_id_filename (ir_request_id r) = Inr key_request
      \<and> ir_status r \<in> {''complete'', ''failed''}
      \<and> \<not> is_some_and (ir_run_id r) (\<lambda>run_id.
            is_some_and (file_get (lg_runs s) run_id) (\<lambda>run. \<not> run_is_terminal (rn_state run))))"

definition eligible_receipts ::
  "ledger \<Rightarrow> idempotency_scope \<Rightarrow> ((string \<times> string \<times> string + string \<times> string) \<times> time) list" where
  "eligible_receipts s sc =
     map (\<lambda>(k, r). (Inl k, ir_created_at r))
       (filter (\<lambda>((owner, digest, req), r). owner = sc_owner_id sc
                  \<and> digest = ir_workspace_digest r \<and> prunable s sc req r) (lg_receipts s))
     @ map (\<lambda>(k, r). (Inr k, ir_created_at r))
       (filter (\<lambda>((owner, req), r). owner = sc_owner_id sc \<and> prunable s sc req r)
          (lg_legacy_receipts s))"

definition prune_one_owner_receipt :: "host \<Rightarrow> idempotency_scope \<Rightarrow> unit ledger_op" where
  "prune_one_owner_receipt h sc =
     bindE (gets (\<lambda>s. sort_key snd (eligible_receipts s sc))) (\<lambda>eligible.
       case eligible of
         [] \<Rightarrow> ret ()
       | (Inl k, _) # _ \<Rightarrow>
           map_err internal_of (durable h (\<lambda>s. s\<lparr>lg_receipts := dir_del k (lg_receipts s)\<rparr>))
       | (Inr k, _) # _ \<Rightarrow> map_err internal_of (drop_legacy h k))"

subsection \<open>Claiming and finishing\<close>

datatype idempotency_claim = Perform | Pending | Replay "response result"

definition pending_receipt ::
  "idempotency_scope \<Rightarrow> string \<Rightarrow> string \<Rightarrow> string \<Rightarrow> time \<Rightarrow> idempotency_receipt" where
  "pending_receipt sc tool request_id payload_hash now =
     \<lparr>ir_schema_version = IDEMPOTENCY_RECEIPT_SCHEMA_VERSION, ir_owner_id = sc_owner_id sc,
      ir_session_id = sc_session_id sc, ir_workspace_digest = sc_workspace_digest sc,
      ir_request_id = request_id, ir_payload_hash = payload_hash, ir_run_id = None,
      ir_tool = tool, ir_response = R_Null, ir_error = None, ir_created_at = now,
      ir_status = ''pending'', ir_cleanup_plan_digest = []\<rparr>"

definition replay_of :: "idempotency_receipt \<Rightarrow> idempotency_claim" where
  "replay_of r =
     (if ir_status r = ''complete'' then Replay (Inr (ir_response r))
      else if ir_status r = ''failed'' then
        Replay (Inl (case ir_error r of
                       Some e \<Rightarrow> e
                     | None \<Rightarrow> orch_error_new Internal ''idempotent mutation failed''))
      else Pending)"

definition same_request :: "idempotency_receipt \<Rightarrow> idempotency_scope \<Rightarrow> string \<Rightarrow> string \<Rightarrow> string \<Rightarrow> bool" where
  "same_request r sc tool request_id payload_hash =
     (is_in_scope r sc \<and> ir_request_id r = request_id \<and> ir_tool r = tool
      \<and> ir_payload_hash r = payload_hash)"

definition claim_idempotency ::
  "host \<Rightarrow> idempotency_scope \<Rightarrow> string \<Rightarrow> string \<Rightarrow> string \<Rightarrow> idempotency_claim ledger_op" where
  "claim_idempotency h sc tool request_id payload_hash =
     bindE (lift (idemp_path sc request_id)) (\<lambda>k.
     thenE (adopt_legacy_owner_receipt h sc request_id (Some (tool, payload_hash)))
     (thenE
       (bindE (gets (\<lambda>s. dir_get (lg_receipts s) k = None
            \<and> owner_idempotency_entry_count s sc MAX_IDEMPOTENCY_RECEIPTS_PER_OWNER
                \<ge> MAX_IDEMPOTENCY_RECEIPTS_PER_OWNER)) (\<lambda>full.
          if full then prune_one_owner_receipt h sc else ret ()))
     (bindE (gets (\<lambda>s. dir_get (lg_receipts s) k)) (\<lambda>found.
        case found of
          None \<Rightarrow>
            bindE (gets (\<lambda>s. request_id \<in> set (lg_tombstones s))) (\<lambda>dead.
            if dead then
              raise (orch_error_new Conflict
                ''request_id belongs to an unscoped legacy receipt; use a new request_id'')
            else
            bindE (gets (\<lambda>s. length (filter (\<lambda>(owner, digest, _).
                      owner = sc_owner_id sc \<and> digest = sc_workspace_digest sc)
                    (map fst (lg_receipts s))))) (\<lambda>shard.
            if shard \<ge> MAX_IDEMPOTENCY_RECEIPTS_PER_OWNER then
              raise (orch_error_new CapacityExhausted
                ''principal idempotency receipt capacity is exhausted'')
            else
            bindE (now_op h) (\<lambda>now.
            thenE (put_receipt h k (pending_receipt sc tool request_id payload_hash now))
              (ret Perform))))
        | Some prev \<Rightarrow>
            if \<not> same_request prev sc tool request_id payload_hash
            then raise (orch_error_new Conflict ''request_id reused with different payload'')
            else ret (replay_of prev)))))"

definition finish_idempotency ::
  "host \<Rightarrow> idempotency_scope \<Rightarrow> string \<Rightarrow> string \<Rightarrow> string \<Rightarrow> string option \<Rightarrow> response
     \<Rightarrow> orch_error option \<Rightarrow> string \<Rightarrow> unit ledger_op" where
  "finish_idempotency h sc tool request_id payload_hash run_id response error status =
     bindE (lift (idemp_path sc request_id)) (\<lambda>k.
     bindE (gets (\<lambda>s. dir_get (lg_receipts s) k)) (\<lambda>found.
       case found of
         None \<Rightarrow> raise (orch_error_new Conflict ''idempotency claim is missing'')
       | Some previous \<Rightarrow>
           if \<not> same_request previous sc tool request_id payload_hash
           then raise (orch_error_new Conflict ''request_id reused with different payload'')
           else if ir_status previous = ''complete'' \<and> status = ''complete''
                   \<and> ir_response previous = response \<and> ir_error previous = None
           then ret ()
           else if ir_status previous \<noteq> ''pending''
           then raise (orch_error_new Conflict
                  (''idempotency claim is already '' @ ir_status previous))
           else put_receipt h k
             \<lparr>ir_schema_version = IDEMPOTENCY_RECEIPT_SCHEMA_VERSION, ir_owner_id = sc_owner_id sc,
              ir_session_id = sc_session_id sc, ir_workspace_digest = sc_workspace_digest sc,
              ir_request_id = request_id, ir_payload_hash = payload_hash, ir_run_id = run_id,
              ir_tool = tool, ir_response = response, ir_error = error,
              ir_created_at = ir_created_at previous, ir_status = status,
              ir_cleanup_plan_digest = ir_cleanup_plan_digest previous\<rparr>))"

definition complete_idempotency ::
  "host \<Rightarrow> idempotency_scope \<Rightarrow> string \<Rightarrow> string \<Rightarrow> string \<Rightarrow> string option \<Rightarrow> response \<Rightarrow> unit ledger_op" where
  "complete_idempotency h sc tool request_id payload_hash run_id response =
     finish_idempotency h sc tool request_id payload_hash run_id response None ''complete''"

definition fail_idempotency ::
  "host \<Rightarrow> idempotency_scope \<Rightarrow> string \<Rightarrow> string \<Rightarrow> string \<Rightarrow> string option \<Rightarrow> orch_error \<Rightarrow> unit ledger_op" where
  "fail_idempotency h sc tool request_id payload_hash run_id error =
     finish_idempotency h sc tool request_id payload_hash run_id R_Null (Some error) ''failed''"

end
