(* ===== verification/Ledger_Intents.thy ===== *)
theory Ledger_Intents
  imports Idempotency
begin

section \<open>Write-ahead intents\<close>

text \<open>
  \<open>WorkMutationIntent\<close> and \<open>WorkLifecycleIntent\<close> of \<^verbatim>\<open>orchestration/store.rs\<close>: a change that
  spans several record files is first written as one intent file, then applied file by
  file, then the intent is removed. Reopening the store applies the intents it finds, and
  refuses one whose records match neither the state before the change nor the state after.
  The request binding of the calling thread is settled in the same commit.
\<close>

subsection \<open>Building and checking intents\<close>

definition WORK_LIFECYCLE_INTENT_SCHEMA_VERSION :: nat where
  "WORK_LIFECYCLE_INTENT_SCHEMA_VERSION = 1"

fun validate_attempt_set :: "string \<Rightarrow> string set \<Rightarrow> work_attempt list \<Rightarrow> unit result" where
  "validate_attempt_set work_id ids [] = Inr ()"
| "validate_attempt_set work_id ids (a # as) =
     rbind (attempt_validate a) (\<lambda>_.
       if wa_work_id a \<noteq> work_id \<or> wa_attempt_id a \<in> ids
       then Inl (invalid ''work lifecycle intent has a duplicate or foreign attempt'')
       else validate_attempt_set work_id (insert (wa_attempt_id a) ids) as)"

definition validate_work_attempt_set :: "string \<Rightarrow> work_attempt list \<Rightarrow> unit result" where
  "validate_work_attempt_set work_id attempts = validate_attempt_set work_id {} attempts"

definition lifecycle_validate :: "work_lifecycle_intent \<Rightarrow> unit result" where
  "lifecycle_validate i = first_err
     [reject (li_schema_version i \<noteq> WORK_LIFECYCLE_INTENT_SCHEMA_VERSION
              \<or> li_intent_id i = [] \<or> trim (lifecycle_op_str (li_operation i)) = []
              \<or> li_work_id i = [] \<or> wi_work_id (li_prior_item i) \<noteq> li_work_id i
              \<or> wi_work_id (li_item i) \<noteq> li_work_id i
              \<or> wi_session_id (li_prior_item i) \<noteq> wi_session_id (li_item i)
              \<or> wi_workspace (li_prior_item i) \<noteq> wi_workspace (li_item i)
              \<or> wi_created_by (li_prior_item i) \<noteq> wi_created_by (li_item i))
        (invalid ''work lifecycle intent schema or lane identity is invalid''),
      item_validate (li_prior_item i),
      item_validate (li_item i),
      validate_work_attempt_set (li_work_id i) (li_prior_attempts i),
      validate_work_attempt_set (li_work_id i) (li_attempts i)]"

definition lifecycle_new_with_id ::
  "string \<Rightarrow> lifecycle_op \<Rightarrow> work_item \<Rightarrow> work_item \<Rightarrow> work_attempt list \<Rightarrow> work_attempt list
     \<Rightarrow> work_lifecycle_intent result" where
  "lifecycle_new_with_id intent_id operation prior_item item prior_attempts attempts =
     (let i = \<lparr>li_schema_version = WORK_LIFECYCLE_INTENT_SCHEMA_VERSION, li_intent_id = intent_id,
               li_operation = operation, li_work_id = wi_work_id item,
               li_prior_item = prior_item, li_item = item,
               li_prior_attempts = prior_attempts, li_attempts = attempts, li_request = None\<rparr>
      in rbind (lifecycle_validate i) (\<lambda>_. Inr i))"

definition mutation_validate :: "host \<Rightarrow> work_mutation_intent \<Rightarrow> unit result" where
  "mutation_validate h i = first_err
     [reject (mi_schema_version i \<noteq> WORKLOAD_SCHEMA_VERSION \<or> mi_intent_id i = []
              \<or> mi_work_id i = [] \<or> mi_expected_revision i = 0)
        (invalid ''work mutation intent schema or identity is invalid''),
      item_validate (mi_item i),
      decision_validate (mi_decision i),
      reject (wi_work_id (mi_item i) \<noteq> mi_work_id i \<or> wd_work_id (mi_decision i) \<noteq> mi_work_id i
              \<or> mi_intent_id i \<noteq> wd_decision_id (mi_decision i)
              \<or> wi_last_decision_id (mi_item i) \<noteq> Some (mi_intent_id i)
              \<or> wd_work_revision (mi_decision i) \<noteq> Some (mi_expected_revision i)
              \<or> Option.bind (wd_work_revision (mi_decision i)) checked_succ
                  \<noteq> Some (wi_revision (mi_item i)))
        (invalid ''work mutation intent records do not agree''),
      reject (hash_payload h (P_Item (mi_item i)) \<noteq> mi_next_item_digest i
              \<or> hash_payload h (P_Decision (mi_decision i)) \<noteq> mi_decision_digest i)
        (invalid ''work mutation intent digest is invalid'')]"

definition mutation_new :: "host \<Rightarrow> work_item \<Rightarrow> work_item \<Rightarrow> work_decision \<Rightarrow> work_mutation_intent result" where
  "mutation_new h prior item decision =
     (let i = \<lparr>mi_schema_version = WORKLOAD_SCHEMA_VERSION,
               mi_intent_id = wd_decision_id decision, mi_work_id = wi_work_id item,
               mi_expected_revision = wi_revision prior,
               mi_prior_item_digest = hash_payload h (P_Item prior),
               mi_next_item_digest = hash_payload h (P_Item item),
               mi_decision_digest = hash_payload h (P_Decision decision),
               mi_item = item, mi_decision = decision, mi_request = None\<rparr>
      in rbind (mutation_validate h i) (\<lambda>_. Inr i))"

subsection \<open>The request binding of a commit\<close>

definition bind_work_request :: "work_request_binding \<Rightarrow> unit ledger_op" where
  "bind_work_request b =
     bindE (gets lg_operation_request) (\<lambda>slot.
       if slot \<noteq> None
       then raise (orch_error_new Conflict ''a work request binding is already active on this operation'')
       else modify (\<lambda>s. s\<lparr>lg_operation_request := Some b\<rparr>))"

definition drop_bound_work_request :: "ledger \<Rightarrow> ledger" where
  "drop_bound_work_request s = s\<lparr>lg_operation_request := None\<rparr>"

definition adopt_operation_request :: "(ledger, 'e, work_request_binding option) op" where
  "adopt_operation_request =
     (\<lambda>s. (Inr (lg_operation_request s), s\<lparr>lg_operation_request := None\<rparr>))"

definition request_shapes :: "string list" where
  "request_shapes = [''work_attempt'', ''work_attempts'', ''work_scope'', ''decision'',
     ''decision_scope'', ''claim'', ''lease_view'', ''unblock'']"

definition bound_request_workspace_matches :: "host \<Rightarrow> work_request_binding \<Rightarrow> string \<Rightarrow> bool" where
  "bound_request_workspace_matches h request item_workspace =
     (if workspaces_match h item_workspace (rq_workspace_display request) then True
      else case idempotency_scope_new h (rq_owner_id request) (rq_session_id request) item_workspace of
             Inl _ \<Rightarrow> False
           | Inr sc \<Rightarrow> sc_workspace_digest sc = rq_workspace_digest request)"

definition request_scope :: "work_request_binding \<Rightarrow> idempotency_scope" where
  "request_scope r =
     \<lparr>sc_owner_id = rq_owner_id r, sc_session_id = rq_session_id r,
      sc_workspace_digest = rq_workspace_digest r\<rparr>"

definition validate_bound_request ::
  "host \<Rightarrow> work_request_binding \<Rightarrow> work_item \<Rightarrow> work_attempt list \<Rightarrow> work_attempt list \<Rightarrow> unit ledger_op" where
  "validate_bound_request h request prior_item prior_attempts next_attempts =
     thenE (lift (first_err
       [reject (rq_shape request \<notin> set request_shapes)
          (orch_error_new Conflict ''work request binding has an unknown response shape''),
        reject (rq_session_id request \<noteq> wi_session_id prior_item)
          (orch_error_new ForbiddenScope ''work request binding does not match the work session''),
        reject (\<not> bound_request_workspace_matches h request (wi_workspace prior_item))
          (orch_error_new ForbiddenScope ''work request binding does not match the work workspace''),
        reject (is_some_and (rq_target_work_id request) (\<lambda>w. w \<noteq> wi_work_id prior_item))
          (orch_error_new Conflict ''work request binding names a different work item''),
        reject (is_some_and (rq_expected_revision request) (\<lambda>r. r \<noteq> wi_revision prior_item))
          (orch_error_new Conflict ''work request binding expected a different revision''),
        reject (is_some_and (rq_target_attempt_id request)
                  (\<lambda>a. a \<notin> wa_attempt_id ` set (prior_attempts @ next_attempts)))
          (orch_error_new Conflict ''work request binding names a missing attempt'')]))
     (bindE (map_err internal_of (load_idempotency h (request_scope request) (rq_request_id request)))
       (\<lambda>found.
         bindE (some_or (orch_error_new Conflict ''idempotency claim is missing'') found) (\<lambda>receipt.
           if ir_owner_id receipt \<noteq> rq_owner_id request
              \<or> ir_session_id receipt \<noteq> rq_session_id request
              \<or> ir_workspace_digest receipt \<noteq> rq_workspace_digest request
              \<or> ir_tool receipt \<noteq> rq_tool request
              \<or> ir_payload_hash receipt \<noteq> rq_payload_hash request
              \<or> ir_request_id receipt \<noteq> rq_request_id request
           then raise (orch_error_new Conflict
                  ''work request binding does not match its idempotency receipt'')
           else if ir_status receipt \<noteq> ''pending''
           then raise (orch_error_new Conflict
                  (''idempotency claim is already '' @ ir_status receipt))
           else ret ())))"

definition ADMISSION_CLOSED :: string where
  "ADMISSION_CLOSED = ''ledger admission is closed until the store is reopened''"

definition note_partial_commit :: "orch_error \<Rightarrow> ledger \<Rightarrow> ledger" where
  "note_partial_commit e s =
     (if err_code e = Internal
      then s\<lparr>lg_admission_closed := Some ADMISSION_CLOSED, lg_last_run_error := Some ADMISSION_CLOSED\<rparr>
      else s)"

definition refuse_closed_admission :: "unit ledger_op" where
  "refuse_closed_admission =
     bindE (gets lg_admission_closed) (\<lambda>closed.
       case closed of None \<Rightarrow> ret () | Some m \<Rightarrow> raise (orch_error_new Conflict m))"

definition lifecycle_settles_service_receipt :: "work_lifecycle_intent \<Rightarrow> bool" where
  "lifecycle_settles_service_receipt i =
     (case map_option rq_tool (li_request i) of
        None \<Rightarrow> True
      | Some tool \<Rightarrow>
          if tool = ''ptah_apply_verified_change'' then False
          else if tool = ''ptah_discard_verified_change''
          then lifecycle_op_str (li_operation i) = ''discard-candidate''
          else True)"

definition complete_bound_request :: "host \<Rightarrow> work_request_binding option \<Rightarrow> response \<Rightarrow> unit ledger_op" where
  "complete_bound_request h request response =
     (case request of
        None \<Rightarrow> ret ()
      | Some r \<Rightarrow>
          if response = R_Null then ret ()
          else on_err note_partial_commit
            (finish_idempotency h (request_scope r) (rq_tool r) (rq_request_id r) (rq_payload_hash r)
               None response None ''complete''))"

definition mutation_response_value :: "work_mutation_intent \<Rightarrow> response" where
  "mutation_response_value i =
     (case mi_request i of
        None \<Rightarrow> R_Null
      | Some r \<Rightarrow>
          if rq_shape r = ''decision'' then R_Decision (mi_item i) (mi_decision i)
          else if rq_shape r = ''decision_scope'' then
            R_DecisionScope (mi_item i) (mi_decision i) (rq_session_id r) (rq_workspace_display r)
          else if rq_shape r = ''work_scope'' then
            R_WorkScope (mi_item i) (rq_session_id r) (rq_workspace_display r)
          else if rq_shape r = ''unblock'' then
            R_Unblock (wi_work_id (mi_item i)) (wi_state (mi_item i)) (wi_revision (mi_item i))
              (wi_block_provenance (mi_item i)) (rq_session_id r)
          else R_Null)"

definition attempt_digest :: "host \<Rightarrow> work_attempt \<Rightarrow> string" where
  "attempt_digest h a = hash_payload h (P_Attempt a)"

definition work_digest :: "host \<Rightarrow> work_item \<Rightarrow> string" where
  "work_digest h i = hash_payload h (P_Item i)"

definition changed_lifecycle_attempt :: "host \<Rightarrow> work_lifecycle_intent \<Rightarrow> work_attempt result" where
  "changed_lifecycle_attempt h i =
     (case find (\<lambda>a. case find (\<lambda>p. wa_attempt_id p = wa_attempt_id a) (li_prior_attempts i) of
                       None \<Rightarrow> True
                     | Some p \<Rightarrow> attempt_digest h p \<noteq> attempt_digest h a) (li_attempts i) of
        Some a \<Rightarrow> Inr a
      | None \<Rightarrow>
          (case li_attempts i of
             a # _ \<Rightarrow> Inr a
           | [] \<Rightarrow> Inl (orch_error_new Internal ''work attempt response has no attempt'')))"

definition lifecycle_response_value :: "host \<Rightarrow> work_lifecycle_intent \<Rightarrow> response result" where
  "lifecycle_response_value h i =
     (case li_request i of
        None \<Rightarrow> Inr R_Null
      | Some r \<Rightarrow>
          if rq_shape r = ''work_attempt'' then
            rbind (changed_lifecycle_attempt h i) (\<lambda>a. Inr (R_WorkAttempt (li_item i) (attempt_view a)))
          else if rq_shape r = ''work_attempts'' then
            Inr (R_WorkAttempts (li_item i) (map attempt_view (li_attempts i)))
          else if rq_shape r = ''work_scope'' then
            Inr (R_WorkScope (li_item i) (rq_session_id r) (rq_workspace_display r))
          else if rq_shape r = ''claim'' then
            rbind (changed_lifecycle_attempt h i) (\<lambda>a.
              Inr (R_Claim (li_item i) (attempt_view a) (rq_session_id r) (rq_workspace_display r)))
          else if rq_shape r = ''lease_view'' then
            rbind (changed_lifecycle_attempt h i) (\<lambda>a.
              Inr (R_LeaseView (li_work_id i) (attempt_view a) (rq_session_id r)
                     (rq_workspace_display r)))
          else Inr R_Null)"

subsection \<open>Mutation intents\<close>

definition persist_work_mutation_intent :: "host \<Rightarrow> work_mutation_intent \<Rightarrow> unit ledger_op" where
  "persist_work_mutation_intent h i =
     thenE (lift (mutation_validate h i))
       (bindE (lift (safe_id_filename (mi_intent_id i))) (\<lambda>k.
          map_err internal_of (durable h (\<lambda>s. s\<lparr>lg_mutations := dir_put k i (lg_mutations s)\<rparr>))))"

definition clear_work_mutation_intent :: "host \<Rightarrow> string \<Rightarrow> unit ledger_op" where
  "clear_work_mutation_intent h intent_id =
     bindE (lift (safe_id_filename intent_id)) (\<lambda>k.
       map_err internal_of (durable h (\<lambda>s. s\<lparr>lg_mutations := dir_del k (lg_mutations s)\<rparr>)))"

definition commit_work_mutation_intent :: "host \<Rightarrow> work_mutation_intent \<Rightarrow> unit ledger_op" where
  "commit_work_mutation_intent h i =
     thenE (lift (mutation_validate h i))
     (bindE (map_err internal_of (load_work_item (mi_work_id i))) (\<lambda>current.
      let current_digest = map_option (work_digest h) current in
      if current_digest \<noteq> Some (mi_prior_item_digest i) \<and> current_digest \<noteq> Some (mi_next_item_digest i)
      then raise (orch_error_new Conflict ''work mutation recovery found an unexpected prior revision'')
      else if current_digest = Some (mi_prior_item_digest i)
              \<and> is_none_or current (\<lambda>item. wi_revision item \<noteq> mi_expected_revision i)
      then raise (orch_error_new Conflict ''work mutation recovery found an unexpected expected_revision'')
      else
      bindE (load_work_decision (mi_work_id i) (wd_decision_id (mi_decision i))) (\<lambda>stored.
      thenE
        (case stored of
           Some d \<Rightarrow>
             if hash_payload h (P_Decision d) \<noteq> mi_decision_digest i \<or> d \<noteq> mi_decision i
             then raise (orch_error_new Conflict ''work mutation recovery found a conflicting decision receipt'')
             else ret ()
         | None \<Rightarrow> on_err note_partial_commit (save_work_decision h (mi_decision i)))
      (thenE
        (if current_digest \<noteq> Some (mi_next_item_digest i)
         then on_err note_partial_commit (map_err internal_of (save_work_item h (mi_item i)))
         else ret ())
      (thenE (complete_bound_request h (mi_request i) (mutation_response_value i))
             (clear_work_mutation_intent h (mi_intent_id i)))))))"

definition recover_work_mutation_intents :: "host \<Rightarrow> unit ledger_op" where
  "recover_work_mutation_intents h =
     bindE (gets (\<lambda>s. dir_list (lg_mutations s))) (\<lambda>intents.
       for_each intents (commit_work_mutation_intent h))"

subsection \<open>Lifecycle intents\<close>

definition persist_work_lifecycle_intent :: "host \<Rightarrow> work_lifecycle_intent \<Rightarrow> unit ledger_op" where
  "persist_work_lifecycle_intent h i =
     thenE (lift (lifecycle_validate i))
       (bindE (lift (safe_id_filename (li_intent_id i))) (\<lambda>k.
          map_err internal_of (durable h (\<lambda>s. s\<lparr>lg_lifecycles := dir_put k i (lg_lifecycles s)\<rparr>))))"

definition clear_work_lifecycle_intent :: "host \<Rightarrow> string \<Rightarrow> unit ledger_op" where
  "clear_work_lifecycle_intent h intent_id =
     bindE (lift (safe_id_filename intent_id)) (\<lambda>k.
       map_err internal_of (durable h (\<lambda>s. s\<lparr>lg_lifecycles := dir_del k (lg_lifecycles s)\<rparr>)))"

text \<open>The attempts a preflight finds, by id, as the code's hash maps do: the last of two wins.\<close>

definition by_id :: "work_attempt list \<Rightarrow> (string \<rightharpoonup> work_attempt)" where
  "by_id as = map_of (map (\<lambda>a. (wa_attempt_id a, a)) (rev as))"

fun preflight_attempts ::
  "host \<Rightarrow> (string \<rightharpoonup> work_attempt) \<Rightarrow> work_attempt list \<Rightarrow> (string \<rightharpoonup> work_attempt)
     \<Rightarrow> (string \<rightharpoonup> work_attempt) result" where
  "preflight_attempts h next_by_id [] current_by_id = Inr current_by_id"
| "preflight_attempts h next_by_id (a # as) current_by_id =
     (case current_by_id (wa_attempt_id a) of
        None \<Rightarrow> Inl (orch_error_new Conflict ''work lifecycle recovery found a missing attempt'')
      | Some current \<Rightarrow>
          (case next_by_id (wa_attempt_id a) of
             None \<Rightarrow> Inl (invalid ''work lifecycle intent removed an existing attempt'')
           | Some nxt \<Rightarrow>
               if attempt_digest h current \<noteq> attempt_digest h a
                  \<and> attempt_digest h current \<noteq> attempt_digest h nxt
               then Inl (orch_error_new Conflict
                      ''work lifecycle recovery found an unexpected attempt revision'')
               else preflight_attempts h next_by_id as
                      (current_by_id(wa_attempt_id a := None))))"

definition preflight_work_lifecycle_intent ::
  "host \<Rightarrow> work_lifecycle_intent \<Rightarrow> (string \<times> work_attempt list) ledger_op" where
  "preflight_work_lifecycle_intent h i =
     thenE (lift (lifecycle_validate i))
     (bindE (map_err internal_of (load_work_item (li_work_id i))) (\<lambda>found.
      bindE (some_or (orch_error_new Conflict ''work item disappeared during lifecycle recovery'') found)
        (\<lambda>current_item.
      let current_item_digest = work_digest h current_item in
      if current_item_digest \<noteq> work_digest h (li_prior_item i)
         \<and> current_item_digest \<noteq> work_digest h (li_item i)
      then raise (orch_error_new Conflict
             (''work lifecycle recovery found an unexpected prior revision for ''
              @ lifecycle_op_str (li_operation i)))
      else
      bindE (map_err internal_of (list_work_attempts (Some (li_work_id i)))) (\<lambda>current_attempts.
      bindE (lift (preflight_attempts h (by_id (li_attempts i)) (li_prior_attempts i)
                     (by_id current_attempts))) (\<lambda>left_over.
      if list_ex (\<lambda>a. left_over (wa_attempt_id a) \<noteq> None
                     \<and> by_id (li_attempts i) (wa_attempt_id a) = None) current_attempts
      then raise (orch_error_new Conflict ''work lifecycle recovery found an unexpected attempt'')
      else ret (current_item_digest, current_attempts))))))"

fun lifecycle_updates ::
  "host \<Rightarrow> work_attempt list \<Rightarrow> work_attempt list \<Rightarrow> work_attempt list \<Rightarrow> work_attempt list result" where
  "lifecycle_updates h prior_attempts current_attempts [] = Inr []"
| "lifecycle_updates h prior_attempts current_attempts (a # as) =
     (case find (\<lambda>c. wa_attempt_id c = wa_attempt_id a) current_attempts of
        Some current \<Rightarrow>
          if attempt_digest h current \<noteq> attempt_digest h a then
            if \<not> list_ex (\<lambda>p. wa_attempt_id p = wa_attempt_id a) prior_attempts
            then Inl (orch_error_new Conflict
                   ''work lifecycle recovery found an unexpected next-only attempt revision'')
            else rbind (lifecycle_updates h prior_attempts current_attempts as) (\<lambda>rest. Inr (a # rest))
          else lifecycle_updates h prior_attempts current_attempts as
      | None \<Rightarrow> rbind (lifecycle_updates h prior_attempts current_attempts as) (\<lambda>rest. Inr (a # rest)))"

definition work_lifecycle_attempt_updates ::
  "host \<Rightarrow> work_lifecycle_intent \<Rightarrow> work_attempt list \<Rightarrow> work_attempt list result" where
  "work_lifecycle_attempt_updates h i current_attempts =
     lifecycle_updates h (li_prior_attempts i) current_attempts (li_attempts i)"

definition write_work_lifecycle_attempt_updates ::
  "host \<Rightarrow> work_lifecycle_intent \<Rightarrow> work_attempt list \<Rightarrow> unit ledger_op" where
  "write_work_lifecycle_attempt_updates h i current_attempts =
     bindE (lift (work_lifecycle_attempt_updates h i current_attempts)) (\<lambda>updates.
       for_each updates (\<lambda>a. map_err internal_of (save_work_attempt h a)))"

definition write_work_lifecycle_item_update ::
  "host \<Rightarrow> work_lifecycle_intent \<Rightarrow> string \<Rightarrow> unit ledger_op" where
  "write_work_lifecycle_item_update h i current_item_digest =
     (if current_item_digest \<noteq> work_digest h (li_item i)
      then map_err internal_of (save_work_item h (li_item i))
      else ret ())"

definition commit_work_lifecycle_intent :: "host \<Rightarrow> work_lifecycle_intent \<Rightarrow> unit ledger_op" where
  "commit_work_lifecycle_intent h i =
     bindE (preflight_work_lifecycle_intent h i) (\<lambda>(current_item_digest, current_attempts).
     thenE (on_err note_partial_commit (write_work_lifecycle_attempt_updates h i current_attempts))
     (thenE (on_err note_partial_commit (write_work_lifecycle_item_update h i current_item_digest))
     (thenE
       (if lifecycle_settles_service_receipt i
        then bindE (lift (lifecycle_response_value h i)) (complete_bound_request h (li_request i))
        else ret ())
       (clear_work_lifecycle_intent h (li_intent_id i)))))"

definition recovery_order :: "work_lifecycle_intent \<Rightarrow> work_lifecycle_intent \<Rightarrow> ordering" where
  "recovery_order l r =
     then_with (cmp (wi_revision (li_prior_item l)) (wi_revision (li_prior_item r)))
               (cmp (li_intent_id l) (li_intent_id r))"

definition recover_work_lifecycle_intents :: "host \<Rightarrow> unit ledger_op" where
  "recover_work_lifecycle_intents h =
     bindE (gets (\<lambda>s. sort_by recovery_order (dir_list (lg_lifecycles s)))) (\<lambda>intents.
       for_each intents (commit_work_lifecycle_intent h))"

definition commit_lifecycle_with_request ::
  "host \<Rightarrow> lifecycle_op \<Rightarrow> work_item \<Rightarrow> work_item \<Rightarrow> work_attempt list \<Rightarrow> work_attempt list
     \<Rightarrow> work_request_binding option \<Rightarrow> unit ledger_op" where
  "commit_lifecycle_with_request h operation prior_item item prior_attempts attempts request =
     bindE (uuid_op h) (\<lambda>intent_id.
     bindE (lift (lifecycle_new_with_id intent_id operation prior_item item prior_attempts attempts))
       (\<lambda>intent.
     thenE
       (case request of
          None \<Rightarrow> ret ()
        | Some r \<Rightarrow> validate_bound_request h r prior_item prior_attempts attempts)
     (let intent' = intent\<lparr>li_request := request\<rparr> in
      thenE (persist_work_lifecycle_intent h intent') (commit_work_lifecycle_intent h intent'))))"

definition commit_work_lifecycle_snapshots ::
  "host \<Rightarrow> lifecycle_op \<Rightarrow> work_item \<Rightarrow> work_item \<Rightarrow> work_attempt list \<Rightarrow> work_attempt list
     \<Rightarrow> unit ledger_op" where
  "commit_work_lifecycle_snapshots h operation prior_item item prior_attempts attempts =
     commit_lifecycle_with_request h operation prior_item item prior_attempts attempts None"

fun replace_attempt_snapshot :: "work_attempt list \<Rightarrow> work_attempt \<Rightarrow> work_attempt list result" where
  "replace_attempt_snapshot [] updated =
     Inl (orch_error_new Conflict ''work attempt disappeared during lifecycle mutation'')"
| "replace_attempt_snapshot (a # as) updated =
     (if wa_attempt_id a = wa_attempt_id updated then Inr (updated # as)
      else rbind (replace_attempt_snapshot as updated) (\<lambda>rest. Inr (a # rest)))"

end
