(* ===== verification/Work_Reconcile.thy ===== *)
theory Work_Reconcile
  imports Ledger_Intents
begin

section \<open>Reconciliation and the authority to succeed\<close>

text \<open>
  \<^verbatim>\<open>orchestration/store.rs\<close>: when a result may finish a work item
  (\<open>success_is_authorized_unlocked\<close>, \<open>assign_work_succeeded_unlocked\<close>), the refresh of one
  item against its dependencies and deadline, the expiry of dead leases, and
  \<open>reconcile_workloads_at\<close>, which runs them over the whole ledger.
\<close>

subsection \<open>Who may mark work as succeeded\<close>

definition work_failure_result :: "string \<Rightarrow> time \<Rightarrow> work_result" where
  "work_failure_result summary now =
     \<lparr>wr_summary = summary, wr_evidence = [], wr_artifacts = [], wr_failure = Some summary,
      wr_cancellation_reason = None, wr_completed_at = now, wr_verification = None,
      wr_candidate_verification = None\<rparr>"

definition bound_completion_evidence ::
  "completion_evidence option \<Rightarrow> string \<Rightarrow> string \<Rightarrow> string list \<Rightarrow> string option
     \<Rightarrow> completion_evidence option result" where
  "bound_completion_evidence evidence work_id attempt_id linked_run_ids extra_run_id =
     (case evidence of
        None \<Rightarrow> Inr None
      | Some e \<Rightarrow>
          let has_any = ce_work_id e \<noteq> None \<or> ce_run_id e \<noteq> None \<or> ce_attempt_id e \<noteq> None;
              has_all = ce_work_id e \<noteq> None \<and> ce_run_id e \<noteq> None \<and> ce_attempt_id e \<noteq> None;
              run_id = (case ce_run_id e of Some r \<Rightarrow> r | None \<Rightarrow> []);
              run_allowed = run_id \<in> set linked_run_ids \<or> extra_run_id = Some run_id
          in if has_any \<and> \<not> has_all then
               Inl (invalid ''completion evidence must bind work, run, and attempt together'')
             else if \<not> has_all then Inr None
             else if ce_work_id e \<noteq> Some work_id \<or> ce_attempt_id e \<noteq> Some attempt_id \<or> \<not> run_allowed
             then Inl (orch_error_new ForbiddenScope
                    ''completion evidence is not bound to this work/run/attempt'')
             else Inr (Some e))"

definition same_observation :: "completion_evidence \<Rightarrow> completion_evidence \<Rightarrow> bool" where
  "same_observation e r =
     (ce_status e = ce_status r \<and> ce_stop_reason e = ce_stop_reason r
      \<and> ce_interrupted e = ce_interrupted r \<and> ce_claims e = ce_claims r
      \<and> ce_observations e = ce_observations r \<and> ce_usage e = ce_usage r)"

definition required_checks_authorize :: "ledger \<Rightarrow> work_item \<Rightarrow> bool" where
  "required_checks_authorize s item =
     (let approval = wi_approval item;
          authority = file_get (lg_check_authority s) (wi_work_id item)
      in is_some_and (Option.bind (wi_result item) wr_candidate_verification) (\<lambda>v.
           authorizes_applied_success v
             (Option.bind approval ap_candidate_digest)
             (Option.bind approval ap_target_revision)
             (case authority of Some a \<Rightarrow> ca_profile_id a | None \<Rightarrow> [])
             (case authority of Some a \<Rightarrow> ca_profile_revision a | None \<Rightarrow> 0)
             (case authority of Some a \<Rightarrow> ca_authority_digest a | None \<Rightarrow> [])
             (Option.bind approval ap_apply_bundle_digest)))"

definition evidence_matches_run :: "host \<Rightarrow> ledger \<Rightarrow> work_item \<Rightarrow> completion_evidence \<Rightarrow> bool result" where
  "evidence_matches_run h s item evidence =
     (case file_get (lg_runs s) (case ce_run_id evidence of Some r \<Rightarrow> r | None \<Rightarrow> []) of
        None \<Rightarrow> Inl (orch_error_new ForbiddenScope ''completion evidence run does not exist'')
      | Some run \<Rightarrow>
          if rn_session_id run \<noteq> wi_session_id item
             \<or> \<not> workspaces_match h (rn_workspace run) (wi_workspace item)
          then Inl (orch_error_new ForbiddenScope ''completion evidence run is outside this work lane'')
          else
            (case rn_verification run of
               None \<Rightarrow> Inr False
             | Some run_evidence \<Rightarrow>
                 if \<not> evidence_authorizes_success run_evidence then Inr False
                 else if \<not> same_observation evidence run_evidence
                 then Inl (orch_error_new ForbiddenScope
                        ''completion evidence does not match the durable Run observation'')
                 else Inr True))"

definition success_is_authorized ::
  "host \<Rightarrow> ledger \<Rightarrow> work_item \<Rightarrow> work_attempt option \<Rightarrow> work_result option \<Rightarrow> string option \<Rightarrow> bool result" where
  "success_is_authorized h s item attempt result extra_run_id =
     (if wp_required_checks (wi_policy item) \<noteq> [] then Inr (required_checks_authorize s item)
      else if wi_approval item \<noteq> None then Inr True
      else case (case result of Some r \<Rightarrow> Some r | None \<Rightarrow> wi_result item) of
             None \<Rightarrow> Inr False
           | Some r \<Rightarrow>
               if wr_failure r \<noteq> None \<or> wr_cancellation_reason r \<noteq> None then Inr False
               else case attempt of
                      None \<Rightarrow> Inr False
                    | Some a \<Rightarrow>
                        if wa_work_id a \<noteq> wi_work_id item
                        then Inl (orch_error_new ForbiddenScope
                               ''completion attempt does not belong to this work item'')
                        else rbind (bound_completion_evidence (wr_verification r) (wi_work_id item)
                                      (wa_attempt_id a) (wa_linked_run_ids a) extra_run_id)
                          (\<lambda>bound. case bound of
                             None \<Rightarrow> Inr False
                           | Some evidence \<Rightarrow>
                               if \<not> evidence_authorizes_success evidence then Inr False
                               else evidence_matches_run h s item evidence))"

definition ordinary_completion_states :: "work_item \<Rightarrow> attempt_state \<times> work_state" where
  "ordinary_completion_states item =
     (if wp_requires_approval (wi_policy item) then (A_AwaitingApproval, W_AwaitingApproval)
      else (A_Review, W_Review))"

definition completion_result_replays :: "work_result \<Rightarrow> work_result \<Rightarrow> bool" where
  "completion_result_replays stored incoming =
     (wr_summary stored = wr_summary incoming \<and> wr_evidence stored = wr_evidence incoming
      \<and> wr_artifacts stored = wr_artifacts incoming \<and> wr_failure stored = wr_failure incoming
      \<and> wr_cancellation_reason stored = wr_cancellation_reason incoming
      \<and> wr_verification stored = wr_verification incoming
      \<and> wr_candidate_verification stored = wr_candidate_verification incoming)"

definition assign_work_succeeded ::
  "host \<Rightarrow> work_item \<Rightarrow> work_attempt \<Rightarrow> string option \<Rightarrow> (work_item \<times> work_attempt) ledger_op" where
  "assign_work_succeeded h item attempt extra_run_id =
     bindE (reads (\<lambda>s. success_is_authorized h s item (Some attempt) (wi_result item) extra_run_id)) (\<lambda>ok.
       if \<not> ok then
         raise (orch_error_new Conflict
           ''work item cannot enter succeeded without verified completion evidence or durable approval'')
       else ret (item\<lparr>wi_state := W_Succeeded\<rparr>, attempt\<lparr>wa_state := A_Succeeded\<rparr>))"

subsection \<open>Refresh\<close>

definition resolve_dependencies :: "host \<Rightarrow> work_item \<Rightarrow> dependency_states store_op" where
  "resolve_dependencies h item =
     reads (\<lambda>s. Inr (map_of (map (\<lambda>d.
       (dep_work_id d,
        case checked item_validate (file_get (lg_items s) (dep_work_id d)) of
          Inl _ \<Rightarrow> None
        | Inr None \<Rightarrow> None
        | Inr (Some c) \<Rightarrow> if scope_contains h (scope_of item) c then Some (wi_state c) else None))
       (rev (wi_dependencies item)))))"

definition commit_refreshed_work_item :: "host \<Rightarrow> work_item \<Rightarrow> work_item \<Rightarrow> unit store_op" where
  "commit_refreshed_work_item h prior_item item =
     bindE (list_work_attempts (Some (wi_work_id item))) (\<lambda>attempts.
       map_err opaque_of (commit_work_lifecycle_snapshots h O_Refresh prior_item item attempts attempts))"

definition refreshed :: "host \<Rightarrow> work_item \<Rightarrow> work_item \<Rightarrow> work_item store_op" where
  "refreshed h prior_item changed =
     bindE (bump h changed) (\<lambda>item.
       thenE (commit_refreshed_work_item h prior_item item) (ret item))"

definition ab_is_waiting :: "admission_block \<Rightarrow> bool" where
  "ab_is_waiting b = (b \<in> {DependenciesPending, DependencyUnsatisfiable, DependencyUnresolved})"

definition refresh_wait :: "host \<Rightarrow> admission_block \<Rightarrow> work_item \<Rightarrow> work_item store_op" where
  "refresh_wait h admission item =
     (let waiting = admission \<noteq> ManuallyBlocked \<and> ab_is_waiting admission;
          reason = Some (ab_as_str admission)
      in if waiting \<and> wi_state item = W_Queued then
           refreshed h item
             (item\<lparr>wi_state := W_Blocked, wi_block_provenance := Some Derived, wi_blocked_reason := reason\<rparr>)
         else if \<not> waiting \<and> admission \<noteq> ManuallyBlocked \<and> wi_state item = W_Blocked then
           refreshed h item
             (item\<lparr>wi_state := W_Queued, wi_block_provenance := None, wi_blocked_reason := None\<rparr>)
         else if waiting \<and> wi_state item = W_Blocked
                 \<and> (wi_blocked_reason item \<noteq> reason \<or> wi_block_provenance item \<noteq> Some Derived) then
           refreshed h item
             (item\<lparr>wi_block_provenance := Some Derived, wi_blocked_reason := reason\<rparr>)
         else ret item)"

definition refresh_deadline :: "host \<Rightarrow> admission_block \<Rightarrow> time \<Rightarrow> work_item \<Rightarrow> work_item store_op" where
  "refresh_deadline h admission now item =
     (if wi_is_container item \<or> admission = Container then ret item
      else if deadline_passed item now \<and> \<not> ws_is_terminal (wi_state item)
              \<and> \<not> ws_is_review_gate (wi_state item) then
        refreshed h item
          (item\<lparr>wi_state := W_Failed, wi_block_provenance := None,
                wi_result := Some (work_failure_result ''work item deadline exceeded'' now)\<rparr>)
      else ret item)"

definition refresh_work_item_at :: "host \<Rightarrow> work_item \<Rightarrow> time \<Rightarrow> work_item store_op" where
  "refresh_work_item_at h item now =
     (if ws_is_terminal (wi_state item) then ret item
      else bindE (resolve_dependencies h item) (\<lambda>states.
        let admission = evaluate_admission item states now in
        bindE (refresh_wait h admission item) (refresh_deadline h admission now)))"

definition refresh_work_item :: "host \<Rightarrow> work_item \<Rightarrow> work_item store_op" where
  "refresh_work_item h item = bindE (now_op h) (refresh_work_item_at h item)"

subsection \<open>Expiry\<close>

definition expired :: "work_attempt \<Rightarrow> time \<Rightarrow> work_attempt" where
  "expired a now = a\<lparr>wa_state := A_Expired, wa_terminal_reason := Some ''lease expired'', wa_updated_at := now\<rparr>"

definition commit_expired_attempt_lifecycle ::
  "host \<Rightarrow> lifecycle_op \<Rightarrow> work_item \<Rightarrow> work_item \<Rightarrow> work_attempt \<Rightarrow> unit store_op" where
  "commit_expired_attempt_lifecycle h operation prior_item item attempt =
     bindE (list_work_attempts (Some (wi_work_id item))) (\<lambda>prior_attempts.
     bindE (map_err opaque_of (lift (replace_attempt_snapshot prior_attempts attempt))) (\<lambda>attempts.
       map_err opaque_of
         (commit_work_lifecycle_snapshots h operation prior_item item prior_attempts attempts)))"

definition expire_attempt :: "host \<Rightarrow> work_item \<Rightarrow> work_attempt \<Rightarrow> time \<Rightarrow> work_item store_op" where
  "expire_attempt h item attempt now =
     (let attempt' = expired attempt now;
          item' =
            (if rp_retry_expired (wp_retry (wi_policy item))
                \<and> wa_attempt_number attempt < rp_max_attempts (wp_retry (wi_policy item))
             then item\<lparr>wi_state := W_Queued\<rparr>
             else item\<lparr>wi_state := W_Failed,
                       wi_result := Some (work_failure_result
                         ''work item lease expired and retry budget was exhausted'' now)\<rparr>)
      in bindE (bump h item') (\<lambda>item''.
         thenE (commit_expired_attempt_lifecycle h O_Expire item item'' attempt') (ret item'')))"

definition expire_terminal_attempt :: "host \<Rightarrow> work_item \<Rightarrow> work_attempt \<Rightarrow> time \<Rightarrow> unit store_op" where
  "expire_terminal_attempt h item attempt now =
     commit_expired_attempt_lifecycle h O_ExpireTerminal item item (expired attempt now)"

definition active_attempt :: "string \<Rightarrow> time \<Rightarrow> work_attempt option store_op" where
  "active_attempt work_id now =
     bindE (list_work_attempts (Some work_id)) (\<lambda>attempts.
       ret (find (\<lambda>a. lease_active_at a now) attempts))"

definition require_work_revision :: "work_item \<Rightarrow> u64 option \<Rightarrow> unit result" where
  "require_work_revision item expected_revision =
     on_some expected_revision (\<lambda>expected.
       reject (expected \<noteq> wi_revision item)
         (orch_error_new StaleVersion
            (''work item revision is '' @ decimal (unat (wi_revision item))
             @ '', expected '' @ decimal (unat expected))))"

subsection \<open>Reconciling the whole ledger\<close>

record workload_reconciliation_report =
  rr_scanned_items :: nat
  rr_expired_attempts :: nat
  rr_retried_items :: nat
  rr_failed_items :: nat
  rr_blocked_items :: nat
  rr_unblocked_items :: nat
  rr_deadline_failed_items :: nat

definition empty_report :: workload_reconciliation_report where
  "empty_report = \<lparr>rr_scanned_items = 0, rr_expired_attempts = 0, rr_retried_items = 0,
     rr_failed_items = 0, rr_blocked_items = 0, rr_unblocked_items = 0, rr_deadline_failed_items = 0\<rparr>"

definition report_refresh ::
  "work_state \<Rightarrow> work_item \<Rightarrow> time \<Rightarrow> workload_reconciliation_report \<Rightarrow> workload_reconciliation_report" where
  "report_refresh previous item now r =
     (let r1 = (if previous = W_Blocked \<and> wi_state item = W_Queued
                then r\<lparr>rr_unblocked_items := Suc (rr_unblocked_items r)\<rparr>
                else if previous = W_Queued \<and> wi_state item = W_Blocked
                then r\<lparr>rr_blocked_items := Suc (rr_blocked_items r)\<rparr> else r)
      in if previous \<noteq> W_Failed \<and> wi_state item = W_Failed \<and> deadline_passed item now
         then r1\<lparr>rr_failed_items := Suc (rr_failed_items r1),
                 rr_deadline_failed_items := Suc (rr_deadline_failed_items r1)\<rparr>
         else r1)"

definition report_expiry ::
  "work_state \<Rightarrow> work_item \<Rightarrow> workload_reconciliation_report \<Rightarrow> workload_reconciliation_report" where
  "report_expiry previous item r =
     (let r1 = (if previous \<noteq> W_Queued \<and> wi_state item = W_Queued
                then r\<lparr>rr_retried_items := Suc (rr_retried_items r)\<rparr> else r)
      in if previous \<noteq> W_Failed \<and> wi_state item = W_Failed
         then r1\<lparr>rr_failed_items := Suc (rr_failed_items r1)\<rparr> else r1)"

definition reconcile_attempt ::
  "host \<Rightarrow> time \<Rightarrow> work_attempt \<Rightarrow> work_item \<times> workload_reconciliation_report
     \<Rightarrow> (work_item \<times> workload_reconciliation_report) store_op" where
  "reconcile_attempt h now attempt = (\<lambda>(item, report).
     if \<not> requires_lease_heartbeat (wa_state attempt) \<or> now < wa_lease_expires_at attempt
     then ret (item, report)
     else
       let report' = report\<lparr>rr_expired_attempts := Suc (rr_expired_attempts report)\<rparr> in
       if ws_is_terminal (wi_state item)
       then thenE (expire_terminal_attempt h item attempt now) (ret (item, report'))
       else bindE (expire_attempt h item attempt now) (\<lambda>item'.
              ret (item', report_expiry (wi_state item) item' report')))"

definition reconcile_item ::
  "host \<Rightarrow> time \<Rightarrow> work_item \<Rightarrow> workload_reconciliation_report \<Rightarrow> workload_reconciliation_report store_op" where
  "reconcile_item h now item report =
     bindE (refresh_work_item_at h item now) (\<lambda>item'.
     bindE (list_work_attempts (Some (wi_work_id item'))) (\<lambda>attempts.
     bindE (fold_op (reconcile_attempt h now) attempts
              (item', report_refresh (wi_state item) item' now
                        (report\<lparr>rr_scanned_items := Suc (rr_scanned_items report)\<rparr>)))
       (\<lambda>(_, report'). ret report')))"

definition reconcile_workloads_at :: "host \<Rightarrow> time \<Rightarrow> workload_reconciliation_report store_op" where
  "reconcile_workloads_at h now =
     bindE list_work_items (\<lambda>items. fold_op (reconcile_item h now) items empty_report)"

definition reconcile_workloads :: "host \<Rightarrow> workload_reconciliation_report store_op" where
  "reconcile_workloads h = bindE (now_op h) (reconcile_workloads_at h)"

end
