(* ===== verification/Work_Decisions.thy ===== *)
theory Work_Decisions
  imports Work_Reconcile
begin

section \<open>Decisions on work\<close>

text \<open>
  \<^verbatim>\<open>orchestration/store.rs\<close>: the operations of a person or coordinator. Those that leave an
  attributable \<open>WorkDecision\<close> share \<open>mutate_assignment\<close>, which commits decision and item
  through one mutation intent; \<open>assign_work\<close>, \<open>retry_work\<close> and \<open>approve_work\<close> commit item and
  attempts through a lifecycle intent.
\<close>

definition not_found :: orch_error where
  "not_found = orch_error_new Conflict ''work item not found''"

definition require_work_item :: "string \<Rightarrow> work_item ledger_op" where
  "require_work_item work_id =
     bindE (map_err internal_of (load_work_item work_id)) (some_or not_found)"

definition list_attempts_of :: "string \<Rightarrow> work_attempt list ledger_op" where
  "list_attempts_of work_id = map_err internal_of (list_work_attempts (Some work_id))"

definition conflict :: "string \<Rightarrow> orch_error" where
  "conflict m = orch_error_new Conflict m"

definition check :: "bool \<Rightarrow> 'e \<Rightarrow> ('s, 'e, unit) op" where
  "check bad e = (if bad then raise e else ret ())"

subsection \<open>Agents\<close>

definition require_agent_in_scope :: "host \<Rightarrow> string \<Rightarrow> uuid \<Rightarrow> string \<Rightarrow> agent_record ledger_op" where
  "require_agent_in_scope h agent_id session_id workspace =
     bindE (map_err internal_of (load_agent agent_id)) (\<lambda>found.
     bindE (some_or (invalid ''unknown agent identity'') found) (\<lambda>agent.
       if session_id \<notin> set (known_lane_ids agent) \<or> \<not> workspaces_match h (ag_workspace agent) workspace
       then raise (orch_error_new ForbiddenScope ''agent is outside the requested session workspace'')
       else if \<not> is_active_identity (ag_state agent)
       then raise (conflict ''agent identity is inactive'')
       else ret agent))"

definition agent_op :: "host \<Rightarrow> work_item \<Rightarrow> string option \<Rightarrow> agent_record option ledger_op" where
  "agent_op h item agent_id =
     (case agent_id of
        None \<Rightarrow> ret None
      | Some a \<Rightarrow> bindE (require_agent_in_scope h a (wi_session_id item) (wi_workspace item))
                    (\<lambda>agent. ret (Some agent)))"

definition resolve_assignment_agents ::
  "host \<Rightarrow> work_item \<Rightarrow> string option \<Rightarrow> string option \<Rightarrow> (string option \<times> u64 option) ledger_op" where
  "resolve_assignment_agents h item actor_agent_id assigned_agent_id =
     bindE (agent_op h item actor_agent_id) (\<lambda>actor.
     let wanted = (case assigned_agent_id of Some a \<Rightarrow> Some a | None \<Rightarrow> wi_assigned_agent_id item) in
     bindE (if map_option ag_agent_id actor = wanted then ret actor else agent_op h item wanted)
       (\<lambda>assigned.
     let speaker = (case actor of Some a \<Rightarrow> Some a | None \<Rightarrow> assigned) in
     ret (map_option ag_agent_id actor, Option.bind speaker ag_spec_revision)))"

subsection \<open>The shared decision transaction\<close>

record assignment_mutation =
  am_work_id :: string
  am_action :: work_decision_action
  am_actor_id :: string
  am_actor_agent_id :: "string option"
  am_assigned_agent_id :: "string option"
  am_reason :: string
  am_expected_revision :: "u64 option"
  am_now :: time

definition assignment_decision ::
  "assignment_mutation \<Rightarrow> string \<Rightarrow> string option \<Rightarrow> u64 option \<Rightarrow> work_item \<Rightarrow> work_decision" where
  "assignment_decision request decision_id actor_agent_id policy_revision item =
     \<lparr>wd_schema_version = WORKLOAD_SCHEMA_VERSION, wd_decision_id = decision_id,
      wd_work_id = am_work_id request, wd_action = am_action request,
      wd_actor_id = am_actor_id request, wd_actor_agent_id = actor_agent_id,
      wd_assigned_agent_id =
        (case am_assigned_agent_id request of Some a \<Rightarrow> Some a | None \<Rightarrow> wi_assigned_agent_id item),
      wd_policy_revision = policy_revision, wd_work_revision = Some (wi_revision item),
      wd_reason = am_reason request, wd_created_at = am_now request\<rparr>"

definition mutate_assignment ::
  "host \<Rightarrow> assignment_mutation \<Rightarrow> (work_item \<Rightarrow> work_item result) \<Rightarrow> (work_item \<times> work_decision) ledger_op" where
  "mutate_assignment h request mutate =
     thenE (check (trim (am_reason request) = []) (invalid ''decision reason is required''))
     (bindE adopt_operation_request (\<lambda>binding.
      bindE (require_work_item (am_work_id request)) (\<lambda>prior_item.
      thenE (lift (require_work_revision prior_item (am_expected_revision request)))
      (bindE (resolve_assignment_agents h prior_item (am_actor_agent_id request)
                (am_assigned_agent_id request)) (\<lambda>(actor_agent_id, policy_revision).
      bindE (lift (mutate prior_item)) (\<lambda>mutated.
      bindE (uuid_op h) (\<lambda>decision_id.
      let decision = assignment_decision request decision_id actor_agent_id policy_revision mutated;
          item = bump_at (am_now request) (mutated\<lparr>wi_last_decision_id := Some decision_id\<rparr>)
      in
      thenE (lift (item_validate item))
      (bindE (lift (mutation_new h prior_item item decision)) (\<lambda>intent.
      thenE
        (case binding of
           None \<Rightarrow> ret ()
         | Some r \<Rightarrow> validate_bound_request h r prior_item [] [])
      (let intent' = intent\<lparr>mi_request := binding\<rparr> in
       thenE (persist_work_mutation_intent h intent')
       (thenE (commit_work_mutation_intent h intent')
              (ret (item, decision)))))))))))))"

subsection \<open>Operations that leave a decision\<close>

definition offer_change :: "string \<Rightarrow> work_item \<Rightarrow> work_item result" where
  "offer_change agent_id item =
     (if ws_is_terminal (wi_state item) then Inl (conflict ''terminal work items cannot be offered'')
      else Inr (item\<lparr>wi_assigned_agent_id := Some agent_id, wi_assignment_status := Offered\<rparr>))"

definition offer_work ::
  "host \<Rightarrow> string \<Rightarrow> string \<Rightarrow> string \<Rightarrow> string option \<Rightarrow> string \<Rightarrow> u64 option \<Rightarrow> time
     \<Rightarrow> (work_item \<times> work_decision) ledger_op" where
  "offer_work h work_id agent_id actor_id actor_agent_id reason expected_revision now =
     mutate_assignment h
       \<lparr>am_work_id = work_id, am_action = D_Offer, am_actor_id = actor_id,
        am_actor_agent_id = actor_agent_id, am_assigned_agent_id = Some agent_id,
        am_reason = reason, am_expected_revision = expected_revision, am_now = now\<rparr>
       (offer_change agent_id)"

definition offer_pending :: "work_item \<Rightarrow> string \<Rightarrow> bool" where
  "offer_pending item agent_id =
     (wi_assignment_status item = Offered \<and> wi_assigned_agent_id item = Some agent_id)"

definition accept_change :: "string \<Rightarrow> work_item \<Rightarrow> work_item result" where
  "accept_change agent_id item =
     (if \<not> offer_pending item agent_id then Inl (conflict ''work offer is not pending for this worker'')
      else Inr (item\<lparr>wi_assignment_status := Accepted\<rparr>))"

definition accept_work ::
  "host \<Rightarrow> string \<Rightarrow> string \<Rightarrow> string \<Rightarrow> string \<Rightarrow> u64 option \<Rightarrow> time
     \<Rightarrow> (work_item \<times> work_decision) ledger_op" where
  "accept_work h work_id agent_id actor_id reason expected_revision now =
     mutate_assignment h
       \<lparr>am_work_id = work_id, am_action = D_Accept, am_actor_id = actor_id,
        am_actor_agent_id = Some agent_id, am_assigned_agent_id = Some agent_id,
        am_reason = reason, am_expected_revision = expected_revision, am_now = now\<rparr>
       (accept_change agent_id)"

definition decline_change :: "string \<Rightarrow> work_item \<Rightarrow> work_item result" where
  "decline_change agent_id item =
     (if \<not> offer_pending item agent_id then Inl (conflict ''work offer is not pending for this worker'')
      else Inr (item\<lparr>wi_assigned_agent_id := None, wi_assignment_status := Declined\<rparr>))"

definition decline_work ::
  "host \<Rightarrow> string \<Rightarrow> string \<Rightarrow> string \<Rightarrow> string \<Rightarrow> u64 option \<Rightarrow> time
     \<Rightarrow> (work_item \<times> work_decision) ledger_op" where
  "decline_work h work_id agent_id actor_id reason expected_revision now =
     mutate_assignment h
       \<lparr>am_work_id = work_id, am_action = D_Decline, am_actor_id = actor_id,
        am_actor_agent_id = Some agent_id, am_assigned_agent_id = Some agent_id,
        am_reason = reason, am_expected_revision = expected_revision, am_now = now\<rparr>
       (decline_change agent_id)"

definition reassign_change :: "string \<Rightarrow> work_item \<Rightarrow> work_item result" where
  "reassign_change agent_id item =
     (if ws_is_terminal (wi_state item) \<or> wi_state item = W_Leased \<or> wi_state item = W_Running
      then Inl (conflict ''active or terminal work cannot be reassigned'')
      else Inr (item\<lparr>wi_assigned_agent_id := Some agent_id, wi_assignment_status := Accepted\<rparr>))"

definition reassign_work ::
  "host \<Rightarrow> string \<Rightarrow> string \<Rightarrow> string \<Rightarrow> string option \<Rightarrow> string \<Rightarrow> u64 option \<Rightarrow> time
     \<Rightarrow> (work_item \<times> work_decision) ledger_op" where
  "reassign_work h work_id agent_id actor_id actor_agent_id reason expected_revision now =
     mutate_assignment h
       \<lparr>am_work_id = work_id, am_action = D_Reassign, am_actor_id = actor_id,
        am_actor_agent_id = actor_agent_id, am_assigned_agent_id = Some agent_id,
        am_reason = reason, am_expected_revision = expected_revision, am_now = now\<rparr>
       (reassign_change agent_id)"

text \<open>The six operations below name no agent of their own.\<close>

definition plain_mutation ::
  "string \<Rightarrow> work_decision_action \<Rightarrow> string \<Rightarrow> string \<Rightarrow> u64 option \<Rightarrow> time \<Rightarrow> assignment_mutation" where
  "plain_mutation work_id action actor_id reason expected_revision now =
     \<lparr>am_work_id = work_id, am_action = action, am_actor_id = actor_id,
      am_actor_agent_id = None, am_assigned_agent_id = None,
      am_reason = reason, am_expected_revision = expected_revision, am_now = now\<rparr>"

definition reprioritize_change :: "int \<Rightarrow> work_item \<Rightarrow> work_item result" where
  "reprioritize_change priority item =
     (if ws_is_terminal (wi_state item) then Inl (conflict ''terminal work cannot be reprioritized'')
      else Inr (item\<lparr>wi_priority := priority\<rparr>))"

definition reprioritize_work ::
  "host \<Rightarrow> string \<Rightarrow> int \<Rightarrow> string \<Rightarrow> string \<Rightarrow> u64 option \<Rightarrow> time \<Rightarrow> (work_item \<times> work_decision) ledger_op" where
  "reprioritize_work h work_id priority actor_id reason expected_revision now =
     mutate_assignment h (plain_mutation work_id D_Reprioritize actor_id reason expected_revision now)
       (reprioritize_change priority)"

definition block_change :: "string \<Rightarrow> work_item \<Rightarrow> work_item result" where
  "block_change reason item =
     (if ws_is_terminal (wi_state item) then Inl (conflict ''terminal work cannot be blocked'')
      else if wi_state item = W_Leased \<or> wi_state item = W_Running
      then Inl (conflict ''leased work cannot be blocked'')
      else Inr (item\<lparr>wi_state := W_Blocked, wi_block_provenance := Some Manual,
                     wi_blocked_reason := Some reason\<rparr>))"

definition block_work ::
  "host \<Rightarrow> string \<Rightarrow> string \<Rightarrow> string \<Rightarrow> u64 option \<Rightarrow> time \<Rightarrow> (work_item \<times> work_decision) ledger_op" where
  "block_work h work_id actor_id reason expected_revision now =
     mutate_assignment h (plain_mutation work_id D_Block actor_id reason expected_revision now)
       (block_change reason)"

definition unblock_change :: "work_item \<Rightarrow> work_item result" where
  "unblock_change item =
     (if wi_state item \<noteq> W_Blocked then Inl (conflict ''work item is not blocked'')
      else if wi_block_provenance item = Some Derived \<or> is_legacy_derived_wait item
      then Inl (conflict ''a dependency block is released by reconciliation, not by an operator'')
      else Inr (item\<lparr>wi_state := W_Queued, wi_block_provenance := None, wi_blocked_reason := None\<rparr>))"

definition unblock_work ::
  "host \<Rightarrow> string \<Rightarrow> string \<Rightarrow> string \<Rightarrow> u64 option \<Rightarrow> time \<Rightarrow> (work_item \<times> work_decision) ledger_op" where
  "unblock_work h work_id actor_id reason expected_revision now =
     mutate_assignment h (plain_mutation work_id D_Unblock actor_id reason expected_revision now)
       unblock_change"

definition review_change :: "work_item \<Rightarrow> work_item result" where
  "review_change item =
     (if wi_state item \<notin> {W_Succeeded, W_AwaitingApproval, W_Review}
      then Inl (conflict ''review can be requested only for completed or approval-gated work'')
      else Inr (item\<lparr>wi_state := W_Review\<rparr>))"

definition request_work_review ::
  "host \<Rightarrow> string \<Rightarrow> string \<Rightarrow> string \<Rightarrow> u64 option \<Rightarrow> time \<Rightarrow> (work_item \<times> work_decision) ledger_op" where
  "request_work_review h work_id actor_id reason expected_revision now =
     mutate_assignment h (plain_mutation work_id D_RequestReview actor_id reason expected_revision now)
       review_change"

definition authorize_work_execution ::
  "host \<Rightarrow> string \<Rightarrow> string \<Rightarrow> string option \<Rightarrow> string \<Rightarrow> u64 option \<Rightarrow> time
     \<Rightarrow> (work_item \<times> work_decision) ledger_op" where
  "authorize_work_execution h work_id actor_id actor_agent_id reason expected_revision now =
     mutate_assignment h
       \<lparr>am_work_id = work_id, am_action = D_AuthorizeExecution, am_actor_id = actor_id,
        am_actor_agent_id = actor_agent_id, am_assigned_agent_id = None,
        am_reason = reason, am_expected_revision = expected_revision, am_now = now\<rparr>
       Inr"

subsection \<open>Assignment, retry and approval\<close>

definition assign_work ::
  "host \<Rightarrow> string \<Rightarrow> string option \<Rightarrow> u64 option \<Rightarrow> work_item ledger_op" where
  "assign_work h work_id assigned_agent_id expected_revision =
     bindE adopt_operation_request (\<lambda>request.
     bindE (require_work_item work_id) (\<lambda>prior_item.
     bindE (list_attempts_of work_id) (\<lambda>prior_attempts.
     thenE (lift (require_work_revision prior_item expected_revision))
     (thenE (check (ws_is_terminal (wi_state prior_item)) (conflict ''terminal work items cannot be reassigned''))
     (let changed = prior_item\<lparr>wi_assigned_agent_id := assigned_agent_id,
            wi_assignment_status := (if assigned_agent_id \<noteq> None then Accepted else Unassigned)\<rparr> in
      thenE (lift (item_validate changed))
      (bindE (bump h changed) (\<lambda>item.
       thenE (commit_lifecycle_with_request h O_Assign prior_item item prior_attempts prior_attempts request)
             (ret item))))))))"

definition retry_work :: "host \<Rightarrow> string \<Rightarrow> string \<Rightarrow> u64 option \<Rightarrow> work_item ledger_op" where
  "retry_work h work_id reason expected_revision =
     bindE adopt_operation_request (\<lambda>request.
     bindE (require_work_item work_id) (\<lambda>prior_item.
     bindE (list_attempts_of work_id) (\<lambda>prior_attempts.
     thenE (lift (require_work_revision prior_item expected_revision))
     (thenE (check (wi_state prior_item \<noteq> W_Failed) (conflict ''only failed work items can be retried''))
     (thenE (check (wi_attempt_count prior_item \<ge> rp_max_attempts (wp_retry (wi_policy prior_item)))
               (conflict ''work item retry budget is exhausted''))
     (thenE (check (trim reason = []) (invalid ''retry reason is required''))
     (bindE (bump h (prior_item\<lparr>wi_state := W_Queued, wi_result := None, wi_approval := None\<rparr>)) (\<lambda>item.
      thenE (commit_lifecycle_with_request h O_Retry prior_item item prior_attempts prior_attempts request)
            (ret item))))))))) "

definition approval_of :: "string \<Rightarrow> string option \<Rightarrow> time \<Rightarrow> work_approval" where
  "approval_of reviewer_id message now =
     \<lparr>ap_reviewer_id = reviewer_id, ap_note = message, ap_approved_at = now,
      ap_candidate_digest = None, ap_target_revision = None, ap_apply_bundle_digest = None\<rparr>"

text \<open>\<open>iter().rev().find\<close>: the last attempt with the wanted states, and its replacement in place.\<close>

definition last_attempt :: "attempt_state set \<Rightarrow> work_attempt list \<Rightarrow> work_attempt option" where
  "last_attempt states attempts = find (\<lambda>a. wa_state a \<in> states) (rev attempts)"

fun replace_first :: "('a \<Rightarrow> bool) \<Rightarrow> 'a \<Rightarrow> 'a list \<Rightarrow> 'a list" where
  "replace_first p y [] = []"
| "replace_first p y (x # xs) = (if p x then y # xs else x # replace_first p y xs)"

definition replace_awaiting :: "work_attempt \<Rightarrow> work_attempt list \<Rightarrow> work_attempt list" where
  "replace_awaiting updated attempts =
     rev (replace_first (\<lambda>a. wa_state a = A_AwaitingApproval) updated (rev attempts))"

definition bind_candidate ::
  "host \<Rightarrow> work_item \<Rightarrow> work_approval \<Rightarrow> work_approval result" where
  "bind_candidate h item approval =
     (case Option.bind (wi_result item) wr_candidate_verification of
        None \<Rightarrow> Inl (conflict ''required checks have no candidate verification to approve'')
      | Some v \<Rightarrow>
          if \<not> cv_checks_passed v \<or> cv_invalidated v \<or> cv_applied v
          then Inl (conflict ''candidate verification is not eligible for approval'')
          else case source_revision h (wi_workspace item) of
            Inl m \<Rightarrow> Inl (conflict m)
          | Inr revision \<Rightarrow>
              if revision \<noteq> cv_source_revision v
              then Inl (conflict ''target revision changed after verification'')
              else rbind (rbind (safe_id_filename (wi_work_id item)) (\<lambda>dir.
                     case retained_matches h dir (cv_content_digest v) (cv_files v) of
                       Inl m \<Rightarrow> Inl (conflict m)
                     | Inr same \<Rightarrow>
                         if \<not> same then Inl (conflict ''candidate content changed after verification'')
                         else case recompute_candidate_apply_bundle h dir v
                                     (wp_allowed_files (wi_policy item)) of
                                Inl m \<Rightarrow> Inl (conflict m)
                              | Inr bundle \<Rightarrow> Inr bundle))
                   (\<lambda>bundle.
                      if cv_apply_bundle_digest v = [] \<or> bundle \<noteq> cv_apply_bundle_digest v
                      then Inl (conflict ''the candidate bundle changed after verification'')
                      else Inr (approval\<lparr>ap_candidate_digest := Some (cv_content_digest v),
                                  ap_apply_bundle_digest := Some bundle,
                                  ap_target_revision := Some revision\<rparr>)))"

definition approve_candidate ::
  "host \<Rightarrow> work_approval \<Rightarrow> work_item \<Rightarrow> work_attempt list \<Rightarrow> work_attempt
     \<Rightarrow> work_request_binding option \<Rightarrow> (work_item \<times> work_attempt) ledger_op" where
  "approve_candidate h approval prior_item prior_attempts attempt request =
     (if is_some_and (wi_approval prior_item) (\<lambda>e.
           ap_reviewer_id e = ap_reviewer_id approval \<and> ap_candidate_digest e \<noteq> None)
      then ret (prior_item, attempt)
      else
        bindE (lift (bind_candidate h prior_item approval)) (\<lambda>bound.
        let digest = (case ap_candidate_digest bound of Some d \<Rightarrow> d | None \<Rightarrow> []);
            attempt' = attempt\<lparr>wa_terminal_reason :=
              Some (''approved candidate '' @ digest @ '' by '' @ ap_reviewer_id approval)\<rparr>
        in
        bindE (bump h (prior_item\<lparr>wi_approval := Some bound\<rparr>)) (\<lambda>item.
        thenE (commit_lifecycle_with_request h O_ApproveCandidate prior_item item prior_attempts
                 (replace_awaiting attempt' prior_attempts) request)
              (ret (item, attempt')))))"

definition approve_ordinary ::
  "host \<Rightarrow> work_approval \<Rightarrow> work_item \<Rightarrow> work_attempt list \<Rightarrow> work_attempt
     \<Rightarrow> work_request_binding option \<Rightarrow> (work_item \<times> work_attempt) ledger_op" where
  "approve_ordinary h approval prior_item prior_attempts attempt request =
     bindE (assign_work_succeeded h (prior_item\<lparr>wi_approval := Some approval\<rparr>) attempt None)
       (\<lambda>(approved, attempt').
     bindE (bump h approved) (\<lambda>item.
     thenE (commit_lifecycle_with_request h O_Approve prior_item item prior_attempts
              (replace_awaiting attempt' prior_attempts) request)
           (ret (item, attempt'))))"

definition approve_work ::
  "host \<Rightarrow> string \<Rightarrow> string \<Rightarrow> string option \<Rightarrow> u64 option \<Rightarrow> (work_item \<times> work_attempt) ledger_op" where
  "approve_work h work_id reviewer_id message expected_revision =
     bindE (now_op h) (\<lambda>approved_at.
     let approval = approval_of reviewer_id message approved_at in
     thenE (lift (approval_validate approval))
     (bindE adopt_operation_request (\<lambda>request.
      bindE (require_work_item work_id) (\<lambda>prior_item.
      if wi_state prior_item = W_Succeeded
         \<and> is_some_and (wi_approval prior_item) (\<lambda>e. ap_reviewer_id e = reviewer_id)
      then
        bindE (list_attempts_of work_id) (\<lambda>attempts.
        bindE (some_or (conflict ''approved work item has no succeeded attempt'')
                 (last_attempt {A_Succeeded, A_AwaitingApproval} attempts)) (\<lambda>attempt.
        ret (prior_item, attempt)))
      else if is_some_and (wi_approval prior_item) (\<lambda>e. ap_reviewer_id e \<noteq> reviewer_id)
      then raise (conflict ''work item is already approved by a different actor'')
      else
        thenE (lift (require_work_revision prior_item expected_revision))
        (thenE (check (wi_state prior_item \<noteq> W_AwaitingApproval)
                  (conflict ''work item is not awaiting approval''))
        (bindE (list_attempts_of work_id) (\<lambda>prior_attempts.
         bindE (some_or (conflict ''approval-gated work item has no awaiting attempt'')
                  (last_attempt {A_AwaitingApproval} prior_attempts)) (\<lambda>awaiting.
         let attempt = awaiting\<lparr>wa_terminal_reason := Some (''approved by '' @ reviewer_id),
                                wa_updated_at := approved_at\<rparr>
         in if wp_required_checks (wi_policy prior_item) \<noteq> []
            then approve_candidate h approval prior_item prior_attempts attempt request
            else approve_ordinary h approval prior_item prior_attempts attempt request))))))))"

end
