(* ===== verification/Work_Leases.thy ===== *)
theory Work_Leases
  imports Work_Decisions
begin

section \<open>Leases\<close>

text \<open>
  \<^verbatim>\<open>orchestration/store.rs\<close>: the operations of a worker. \<open>claim_work\<close> hands out a lease on an
  admissible item; the holder of its token renews it, links runs, reports progress, parks
  for input, releases, completes or fails the attempt; \<open>cancel_work\<close> closes every attempt.
\<close>

subsection \<open>Claiming\<close>

record managed_grok_claim_fence =
  mf_expected_work_revision :: u64
  mf_expected_decision_id :: string
  mf_expected_agent_spec_revision :: u64
  mf_expected_allowed_files :: "string list"

definition require_managed_grok_claim_fence ::
  "host \<Rightarrow> work_item \<Rightarrow> string \<Rightarrow> managed_grok_claim_fence \<Rightarrow> unit ledger_op" where
  "require_managed_grok_claim_fence h item claimant_id fence =
     thenE (check (wi_revision item \<noteq> mf_expected_work_revision fence
               \<or> wi_last_decision_id item \<noteq> Some (mf_expected_decision_id fence)
               \<or> wi_assigned_agent_id item \<noteq> Some claimant_id)
              (conflict ''managed Grok Work authority changed before claim''))
     (bindE (lift (normalize_allowed_files (wp_allowed_files (wi_policy item)))) (\<lambda>current_allowed.
      bindE (lift (normalize_allowed_files (mf_expected_allowed_files fence))) (\<lambda>expected_allowed.
      thenE (check (current_allowed \<noteq> expected_allowed)
               (conflict ''managed Grok mutable-file authority changed before claim''))
      (bindE (require_agent_in_scope h claimant_id (wi_session_id item) (wi_workspace item)) (\<lambda>agent.
       bindE (some_or (conflict (orch_error_fmt (invalid ''agent specification has not been migrated'')))
                (ag_spec_revision agent)) (\<lambda>spec_revision.
       thenE (check (spec_revision \<noteq> mf_expected_agent_spec_revision fence)
                (conflict ''managed Grok Agent authority changed before claim''))
       (bindE (work_decision_path (wi_work_id item) (mf_expected_decision_id fence)) (\<lambda>k.
        bindE (gets (\<lambda>s. dir_get (lg_decisions s) k)) (\<lambda>found.
        bindE (some_or (orch_error_new Internal (io_error h)) found) (\<lambda>decision.
        check (\<not> (wd_schema_version decision = WORKLOAD_SCHEMA_VERSION
                   \<and> wd_decision_id decision = mf_expected_decision_id fence
                   \<and> wd_work_id decision = wi_work_id item
                   \<and> wd_action decision = D_AuthorizeExecution
                   \<and> wd_assigned_agent_id decision = wi_assigned_agent_id item
                   \<and> wd_policy_revision decision = Some (mf_expected_agent_spec_revision fence)
                   \<and> Option.bind (wd_work_revision decision) checked_succ = Some (wi_revision item)))
          (conflict ''managed Grok execution decision changed before claim'')))))))))))"

text \<open>The loop of \<open>claim_work_inner\<close> that closes dead leases before a claim.\<close>

definition claim_expire :: "host \<Rightarrow> time \<Rightarrow> work_attempt \<Rightarrow> work_item \<Rightarrow> work_item ledger_op" where
  "claim_expire h now attempt item =
     (if requires_lease_heartbeat (wa_state attempt) \<and> \<not> lease_active_at attempt now
      then map_err internal_of (expire_attempt h item attempt now)
      else ret item)"

definition leased_attempt :: "work_attempt \<Rightarrow> time \<Rightarrow> time \<Rightarrow> work_attempt" where
  "leased_attempt a now lease =
     a\<lparr>wa_acquired_at := now, wa_last_heartbeat_at := now, wa_lease_expires_at := now + lease,
       wa_updated_at := now\<rparr>"

text \<open>
  A new attempt and its token: derived from the secret, or a fresh identifier. The
  constructor of the attempt reads the clock for its creation instant.
\<close>

definition new_attempt ::
  "host \<Rightarrow> work_item \<Rightarrow> string \<Rightarrow> string option \<Rightarrow> (work_attempt \<times> string) ledger_op" where
  "new_attempt h item claimant_id lease_secret =
     (let number = wi_attempt_count item + 1 in
      case lease_secret of
        Some secret \<Rightarrow>
          bindE (now_op h) (\<lambda>created. bindE (uuid_op h) (\<lambda>fresh.
            let a = new_with_lease_secret h fresh created (wi_work_id item) number claimant_id secret
            in ret (a, lease_token_for_secret h a secret)))
      | None \<Rightarrow>
          bindE (uuid_op h) (\<lambda>lease_token. bindE (now_op h) (\<lambda>created. bindE (uuid_op h) (\<lambda>fresh.
            ret (attempt_new h fresh created (wi_work_id item) number claimant_id lease_token,
                 lease_token)))))"

definition claim_checked ::
  "host \<Rightarrow> string \<Rightarrow> string \<Rightarrow> time \<Rightarrow> string option \<Rightarrow> work_request_binding option \<Rightarrow> time \<Rightarrow> work_item
     \<Rightarrow> work_claim ledger_op" where
  "claim_checked h work_id claimant_id lease lease_secret request now item =
     thenE (check (wi_state item \<noteq> W_Queued)
              (conflict (''work item is not claimable in state '' @ work_state_debug (wi_state item))))
     (bindE (map_err internal_of (resolve_dependencies h item)) (\<lambda>states.
      let admission = evaluate_admission item states now in
      thenE (check (\<not> ab_is_admissible admission)
               (conflict (''work item is not admissible: '' @ ab_as_str admission)))
      (thenE (lift (is_claimable_by (wi_assignment_status item) (wi_assigned_agent_id item) claimant_id))
      (bindE (new_attempt h item claimant_id lease_secret) (\<lambda>(fresh, lease_token).
       let attempt = leased_attempt fresh now lease in
       bindE (list_attempts_of work_id) (\<lambda>prior_attempts.
       bindE (bump h (item\<lparr>wi_attempt_count := wa_attempt_number attempt, wi_state := W_Leased\<rparr>))
         (\<lambda>leased.
       thenE (commit_lifecycle_with_request h O_Claim item leased prior_attempts
                (prior_attempts @ [attempt]) request)
             (ret \<lparr>cl_work = leased, cl_attempt = attempt, cl_lease_token = lease_token\<rparr>)))))))) "

definition claim_refreshed ::
  "host \<Rightarrow> string \<Rightarrow> string \<Rightarrow> time \<Rightarrow> string option \<Rightarrow> work_request_binding option \<Rightarrow> work_item
     \<Rightarrow> work_claim ledger_op" where
  "claim_refreshed h work_id claimant_id lease lease_secret request item =
     bindE (now_op h) (\<lambda>now.
     bindE (map_err internal_of (active_attempt work_id now)) (\<lambda>active.
     thenE (check (active \<noteq> None) (conflict ''work item is already leased by an active attempt''))
     (bindE (list_attempts_of work_id) (\<lambda>attempts.
      bindE (fold_op (claim_expire h now) attempts item)
        (claim_checked h work_id claimant_id lease lease_secret request now)))))"

definition claim_work_inner ::
  "host \<Rightarrow> string \<Rightarrow> string \<Rightarrow> nat option \<Rightarrow> string option \<Rightarrow> managed_grok_claim_fence option
     \<Rightarrow> work_claim ledger_op" where
  "claim_work_inner h work_id claimant_id lease_ms lease_secret fence =
     bindE adopt_operation_request (\<lambda>request.
     thenE refuse_closed_admission
     (bindE (lift (lease_duration lease_ms)) (\<lambda>lease.
      thenE (check (trim claimant_id = [] \<or> length claimant_id > 256)
               (invalid ''claimant_id is empty or exceeds its bound''))
      (bindE (require_work_item work_id) (\<lambda>stored.
       thenE (check (wi_is_container stored) (conflict ''coordination container Work is not executable''))
       (bindE (map_err internal_of (refresh_work_item h stored)) (\<lambda>item.
        thenE (case fence of
                 None \<Rightarrow> ret ()
               | Some f \<Rightarrow> require_managed_grok_claim_fence h item claimant_id f)
          (claim_refreshed h work_id claimant_id lease lease_secret request item))))))))"

definition claim_work :: "host \<Rightarrow> string \<Rightarrow> string \<Rightarrow> nat option \<Rightarrow> work_claim ledger_op" where
  "claim_work h work_id claimant_id lease_ms = claim_work_inner h work_id claimant_id lease_ms None None"

definition claim_work_with_lease_secret ::
  "host \<Rightarrow> string \<Rightarrow> string \<Rightarrow> nat option \<Rightarrow> string \<Rightarrow> work_claim ledger_op" where
  "claim_work_with_lease_secret h work_id claimant_id lease_ms lease_secret =
     thenE (check (lease_secret = []) (invalid ''lease_secret is required''))
       (claim_work_inner h work_id claimant_id lease_ms (Some lease_secret) None)"

definition claim_managed_grok_work_with_lease_secret ::
  "host \<Rightarrow> string \<Rightarrow> string \<Rightarrow> nat option \<Rightarrow> string \<Rightarrow> managed_grok_claim_fence \<Rightarrow> work_claim ledger_op" where
  "claim_managed_grok_work_with_lease_secret h work_id claimant_id lease_ms lease_secret fence =
     thenE (check (lease_secret = []) (invalid ''lease_secret is required''))
       (claim_work_inner h work_id claimant_id lease_ms (Some lease_secret) (Some fence))"

subsection \<open>Holding a lease\<close>

definition require_work_attempt :: "string \<Rightarrow> work_attempt ledger_op" where
  "require_work_attempt attempt_id =
     bindE (map_err internal_of (load_work_attempt attempt_id))
       (some_or (conflict ''work attempt not found''))"

definition check_token :: "host \<Rightarrow> work_item \<Rightarrow> work_attempt \<Rightarrow> string \<Rightarrow> unit ledger_op" where
  "check_token h item attempt lease_token =
     thenE (check (wa_work_id attempt \<noteq> wi_work_id item)
              (orch_error_new ForbiddenScope ''work attempt does not belong to the work item''))
       (check (\<not> token_matches h attempt lease_token)
              (orch_error_new ForbiddenScope ''invalid work lease token''))"

definition check_live :: "work_attempt \<Rightarrow> time \<Rightarrow> unit ledger_op" where
  "check_live attempt now =
     check (\<not> as_is_active (wa_state attempt) \<or> now \<ge> wa_lease_expires_at attempt)
       (conflict ''work lease is no longer active'')"

definition load_active_attempt_for_token ::
  "host \<Rightarrow> work_item \<Rightarrow> string \<Rightarrow> string \<Rightarrow> time \<Rightarrow> work_attempt ledger_op" where
  "load_active_attempt_for_token h item attempt_id lease_token now =
     bindE (require_work_attempt attempt_id) (\<lambda>attempt.
       thenE (check_token h item attempt lease_token)
         (thenE (check_live attempt now) (ret attempt)))"

text \<open>
  The holder's operations begin alike: load the item and its attempts, read the clock,
  and load the live attempt the token opens.
\<close>

definition with_lease ::
  "host \<Rightarrow> string \<Rightarrow> string \<Rightarrow> string
     \<Rightarrow> (work_item \<Rightarrow> work_attempt list \<Rightarrow> time \<Rightarrow> work_attempt \<Rightarrow> 'a ledger_op) \<Rightarrow> 'a ledger_op" where
  "with_lease h work_id attempt_id lease_token body =
     bindE (require_work_item work_id) (\<lambda>item.
     bindE (list_attempts_of work_id) (\<lambda>prior_attempts.
     bindE (now_op h) (\<lambda>now.
     bindE (load_active_attempt_for_token h item attempt_id lease_token now)
       (body item prior_attempts now))))"

definition commit_attempt ::
  "host \<Rightarrow> lifecycle_op \<Rightarrow> work_item \<Rightarrow> work_item \<Rightarrow> work_attempt list \<Rightarrow> work_attempt
     \<Rightarrow> work_request_binding option \<Rightarrow> unit ledger_op" where
  "commit_attempt h operation prior_item item prior_attempts attempt request =
     bindE (lift (replace_attempt_snapshot prior_attempts attempt)) (\<lambda>attempts.
       commit_lifecycle_with_request h operation prior_item item prior_attempts attempts request)"

definition renew_work_lease ::
  "host \<Rightarrow> string \<Rightarrow> string \<Rightarrow> string \<Rightarrow> nat option \<Rightarrow> work_attempt ledger_op" where
  "renew_work_lease h work_id attempt_id lease_token lease_ms =
     bindE (lift (lease_duration lease_ms)) (\<lambda>lease.
     bindE adopt_operation_request (\<lambda>request.
     with_lease h work_id attempt_id lease_token (\<lambda>item prior_attempts now held.
       let attempt = held\<lparr>wa_last_heartbeat_at := now, wa_lease_expires_at := now + lease,
                          wa_updated_at := now\<rparr> in
       thenE (commit_attempt h O_RenewLease item item prior_attempts attempt request)
             (ret attempt))))"

definition link_run :: "string \<Rightarrow> work_attempt \<Rightarrow> work_attempt result" where
  "link_run run_id attempt =
     (if run_id \<in> set (wa_linked_run_ids attempt) then Inr attempt
      else if length (wa_linked_run_ids attempt) \<ge> 16
      then Inl (invalid ''work attempt cannot link more than 16 runs'')
      else Inr (attempt\<lparr>wa_linked_run_ids := wa_linked_run_ids attempt @ [run_id]\<rparr>))"

definition link_work_run ::
  "host \<Rightarrow> string \<Rightarrow> string \<Rightarrow> string \<Rightarrow> string \<Rightarrow> work_attempt ledger_op" where
  "link_work_run h work_id attempt_id lease_token run_id =
     bindE adopt_operation_request (\<lambda>request.
     with_lease h work_id attempt_id lease_token (\<lambda>item prior_attempts now held.
       bindE (lift (link_run run_id held)) (\<lambda>linked.
       let attempt = linked\<lparr>wa_state := (if wa_state linked = A_Leased then A_Running else wa_state linked),
                            wa_updated_at := now\<rparr> in
       thenE (commit_attempt h O_LinkRun item item prior_attempts attempt request)
             (ret attempt))))"

definition report_work_progress ::
  "host \<Rightarrow> string \<Rightarrow> string \<Rightarrow> string \<Rightarrow> work_progress \<Rightarrow> (work_item \<times> work_attempt) ledger_op" where
  "report_work_progress h work_id attempt_id lease_token progress =
     bindE adopt_operation_request (\<lambda>request.
     with_lease h work_id attempt_id lease_token (\<lambda>prior_item prior_attempts now held.
       bindE (bump h (prior_item\<lparr>wi_progress := Some progress, wi_state := W_Running\<rparr>)) (\<lambda>item.
       let attempt = held\<lparr>wa_progress := Some progress, wa_state := A_Running,
                          wa_last_heartbeat_at := now, wa_updated_at := now\<rparr> in
       thenE (commit_attempt h O_Progress prior_item item prior_attempts attempt request)
             (ret (item, attempt)))))"

definition park_work_input ::
  "host \<Rightarrow> string \<Rightarrow> string \<Rightarrow> string \<Rightarrow> string \<Rightarrow> (work_item \<times> work_attempt) ledger_op" where
  "park_work_input h work_id attempt_id lease_token reason =
     with_lease h work_id attempt_id lease_token (\<lambda>prior_item prior_attempts now held.
       bindE (bump h (prior_item\<lparr>wi_state := W_AwaitingInput, wi_blocked_reason := Some reason\<rparr>)) (\<lambda>item.
       let attempt = held\<lparr>wa_state := A_AwaitingInput, wa_last_heartbeat_at := now, wa_updated_at := now\<rparr> in
       thenE (commit_attempt h O_ParkInput prior_item item prior_attempts attempt None)
             (ret (item, attempt))))"

definition release_work ::
  "host \<Rightarrow> string \<Rightarrow> string \<Rightarrow> string \<Rightarrow> string \<Rightarrow> (work_item \<times> work_attempt) ledger_op" where
  "release_work h work_id attempt_id lease_token reason =
     bindE adopt_operation_request (\<lambda>request.
     with_lease h work_id attempt_id lease_token (\<lambda>prior_item prior_attempts now held.
       let attempt = held\<lparr>wa_state := A_Released, wa_terminal_reason := Some reason, wa_updated_at := now\<rparr> in
       bindE (bump h (prior_item\<lparr>wi_state := W_Queued\<rparr>)) (\<lambda>item.
       thenE (commit_attempt h O_Release prior_item item prior_attempts attempt request)
             (ret (item, attempt)))))"

subsection \<open>Finishing\<close>

definition complete_live ::
  "host \<Rightarrow> work_item \<Rightarrow> work_attempt \<Rightarrow> (work_item \<times> work_attempt) ledger_op" where
  "complete_live h item attempt =
     bindE (reads (\<lambda>s. success_is_authorized h s item (Some attempt) (wi_result item) None)) (\<lambda>authorized.
       if authorized \<and> \<not> wp_requires_approval (wi_policy item)
       then assign_work_succeeded h item attempt None
       else
         let (attempt_state, work_state) = ordinary_completion_states item in
         ret (item\<lparr>wi_state := work_state\<rparr>, attempt\<lparr>wa_state := attempt_state\<rparr>))"

definition already_completed :: "work_item \<Rightarrow> work_attempt \<Rightarrow> bool" where
  "already_completed item attempt =
     (wa_state attempt \<in> {A_Succeeded, A_Review, A_AwaitingApproval}
      \<and> wi_state item \<in> {W_Succeeded, W_Review, W_AwaitingApproval})"

definition complete_held ::
  "host \<Rightarrow> string \<Rightarrow> work_result \<Rightarrow> work_request_binding option \<Rightarrow> work_item \<Rightarrow> work_attempt list \<Rightarrow> time
     \<Rightarrow> work_attempt \<Rightarrow> (work_item \<times> work_attempt) ledger_op" where
  "complete_held h lease_token result request prior_item prior_attempts now held =
     thenE (check_token h prior_item held lease_token)
     (if already_completed prior_item held then
        if \<not> is_some_and (wa_result held) (\<lambda>stored. completion_result_replays stored result)
        then raise (conflict ''work attempt already completed'')
        else if wi_state prior_item \<noteq> W_Succeeded \<and> now \<ge> wa_lease_expires_at held
        then raise (conflict ''work lease is no longer active'')
        else ret (prior_item, held)
      else
        thenE (check_live held now)
        (bindE (complete_live h (prior_item\<lparr>wi_result := Some result\<rparr>)
                  (held\<lparr>wa_result := Some result, wa_updated_at := now\<rparr>)) (\<lambda>(finished, attempt).
         bindE (bump h finished) (\<lambda>item.
         thenE (commit_attempt h O_Complete prior_item item prior_attempts attempt request)
               (ret (item, attempt))))))"

definition complete_work ::
  "host \<Rightarrow> string \<Rightarrow> string \<Rightarrow> string \<Rightarrow> work_result \<Rightarrow> (work_item \<times> work_attempt) ledger_op" where
  "complete_work h work_id attempt_id lease_token result =
     thenE (lift (result_validate result))
     (bindE adopt_operation_request (\<lambda>request.
      bindE (require_work_item work_id) (\<lambda>prior_item.
      bindE (list_attempts_of work_id) (\<lambda>prior_attempts.
      bindE (now_op h) (\<lambda>now.
      bindE (require_work_attempt attempt_id)
        (complete_held h lease_token result request prior_item prior_attempts now))))))"

definition fail_work ::
  "host \<Rightarrow> string \<Rightarrow> string \<Rightarrow> string \<Rightarrow> work_result \<Rightarrow> (work_item \<times> work_attempt) ledger_op" where
  "fail_work h work_id attempt_id lease_token result =
     thenE (lift (result_validate result))
     (bindE adopt_operation_request (\<lambda>request.
      with_lease h work_id attempt_id lease_token (\<lambda>prior_item prior_attempts now held.
        let attempt = held\<lparr>wa_result := Some result, wa_state := A_Failed,
                           wa_terminal_reason := wr_failure result, wa_updated_at := now\<rparr>;
            retry = rp_retry_failed (wp_retry (wi_policy prior_item))
                    \<and> wa_attempt_number held < rp_max_attempts (wp_retry (wi_policy prior_item))
        in
        bindE (bump h (prior_item\<lparr>wi_result := Some result,
                  wi_state := (if retry then W_Queued else W_Failed)\<rparr>)) (\<lambda>item.
        thenE (commit_attempt h O_Fail prior_item item prior_attempts attempt request)
              (ret (item, attempt))))))"

definition cancelled_attempt :: "string \<Rightarrow> time \<Rightarrow> work_attempt \<Rightarrow> work_attempt" where
  "cancelled_attempt reason now a =
     (if as_is_active (wa_state a)
      then a\<lparr>wa_state := A_Cancelled, wa_terminal_reason := Some reason, wa_updated_at := now\<rparr>
      else a)"

definition cancellation_result :: "string \<Rightarrow> time \<Rightarrow> work_result" where
  "cancellation_result reason now =
     \<lparr>wr_summary = ''work item cancelled'', wr_evidence = [], wr_artifacts = [], wr_failure = None,
      wr_cancellation_reason = Some reason, wr_completed_at = now, wr_verification = None,
      wr_candidate_verification = None\<rparr>"

definition cancel_work_checked ::
  "host \<Rightarrow> string \<Rightarrow> string \<Rightarrow> u64 option \<Rightarrow> (work_item \<times> work_attempt list) ledger_op" where
  "cancel_work_checked h work_id reason expected_revision =
     bindE adopt_operation_request (\<lambda>request.
     bindE (require_work_item work_id) (\<lambda>prior_item.
     thenE (lift (require_work_revision prior_item expected_revision))
     (if ws_is_terminal (wi_state prior_item)
      then bindE (list_attempts_of work_id) (\<lambda>attempts. ret (prior_item, attempts))
      else
        bindE (now_op h) (\<lambda>now.
        bindE (list_attempts_of work_id) (\<lambda>prior_attempts.
        let attempts = map (cancelled_attempt reason now) prior_attempts in
        bindE (bump h (prior_item\<lparr>wi_state := W_Cancelled,
                  wi_result := Some (cancellation_result reason now)\<rparr>)) (\<lambda>item.
        thenE (commit_lifecycle_with_request h O_Cancel prior_item item prior_attempts attempts request)
              (ret (item, attempts))))))))"

definition cancel_work :: "host \<Rightarrow> string \<Rightarrow> string \<Rightarrow> (work_item \<times> work_attempt list) ledger_op" where
  "cancel_work h work_id reason = cancel_work_checked h work_id reason None"

end
