(* ===== verification/Ledger_Records.thy ===== *)
theory Ledger_Records
  imports Work_Leases
begin

section \<open>What every operation keeps of the stored records\<close>

text \<open>
  The invariant of the ledger and the proof that every write keeps it.
  \<open>records_ok\<close>: each file holds a valid record under its own id. \<open>holders_ok\<close>: among a
  set of attempts, at most one per work item holds a live lease at a given instant. The
  invariant \<open>ledger_ok h t\<close> says both of the stored attempts and, for every intent that a
  restart would still apply, of the attempts before and after it together, so that no mix
  of applied and unapplied files can have two holders. \<open>stays h t P\<close> adds that every stored
  attempt satisfies \<open>P\<close>.

  What the proofs need of the host is the locale \<open>sound_host\<close>: the clock does not run
  backwards, and two different records do not have the same digest.
\<close>

locale sound_host =
  fixes h :: host
  assumes utc_mono: "m \<le> n \<Longrightarrow> utc_now h m \<le> utc_now h n"
    and attempt_digest_inj: "attempt_digest h a = attempt_digest h b \<Longrightarrow> a = b"
    and work_digest_inj: "work_digest h i = work_digest h j \<Longrightarrow> i = j"

definition attempts_set :: "ledger \<Rightarrow> work_attempt set" where
  "attempts_set s = set (dir_list (lg_attempts s))"

definition records_ok :: "ledger \<Rightarrow> bool" where
  "records_ok s \<longleftrightarrow>
     dir_ok wi_work_id (lg_items s) \<and> (\<forall>i \<in> set (dir_list (lg_items s)). item_validate i = Inr ())
     \<and> dir_ok wa_attempt_id (lg_attempts s) \<and> (\<forall>a \<in> attempts_set s. attempt_validate a = Inr ())"

definition holders_ok :: "time \<Rightarrow> work_attempt set \<Rightarrow> bool" where
  "holders_ok t A \<longleftrightarrow>
     (\<forall>a \<in> A. \<forall>b \<in> A. wa_work_id a = wa_work_id b \<longrightarrow> lease_active_at a t \<longrightarrow> lease_active_at b t
        \<longrightarrow> wa_attempt_id a = wa_attempt_id b)"

definition ledger_ok :: "host \<Rightarrow> time \<Rightarrow> ledger \<Rightarrow> bool" where
  "ledger_ok h t s \<longleftrightarrow>
     t \<le> utc_now h (lg_clock s) \<and> records_ok s \<and> holders_ok t (attempts_set s)
     \<and> (\<forall>i \<in> set (dir_list (lg_lifecycles s)). holders_ok t (set (li_prior_attempts i @ li_attempts i)))"

definition stays :: "host \<Rightarrow> time \<Rightarrow> (work_attempt \<Rightarrow> bool) \<Rightarrow> ledger \<Rightarrow> bool" where
  "stays h t P s \<longleftrightarrow> ledger_ok h t s \<and> (\<forall>a \<in> attempts_set s. P a)"

subsection \<open>Sets of holders\<close>

lemma holders_ok_later:
  assumes "holders_ok t A" and "t \<le> t'"
  shows "holders_ok t' A"
proof -
  have "lease_active_at a t' \<Longrightarrow> lease_active_at a t" for a
    using assms(2) by (simp add: lease_active_at_def)
  then show ?thesis using assms(1) unfolding holders_ok_def by blast
qed

lemma holders_ok_subset: "holders_ok t A \<Longrightarrow> B \<subseteq> A \<Longrightarrow> holders_ok t B"
  unfolding holders_ok_def by auto

lemma holders_ok_double: "holders_ok t (set xs) \<Longrightarrow> holders_ok t (set (xs @ xs))"
  by simp

lemma holders_ok_update:
  assumes "holders_ok t A" and "held \<in> A" and "lease_active_at upd t \<Longrightarrow> lease_active_at held t"
    and "wa_attempt_id upd = wa_attempt_id held" "wa_work_id upd = wa_work_id held"
    and "B \<subseteq> insert upd A"
  shows "holders_ok t (A \<union> B)"
proof -
  have other: "lease_active_at upd t \<Longrightarrow> b \<in> A \<Longrightarrow> wa_work_id b = wa_work_id upd
      \<Longrightarrow> lease_active_at b t \<Longrightarrow> wa_attempt_id b = wa_attempt_id upd" for b
    using assms(1-5) unfolding holders_ok_def by metis
  show ?thesis
    unfolding holders_ok_def
  proof (intro ballI impI)
    fix a b
    assume ab: "a \<in> A \<union> B" "b \<in> A \<union> B" "wa_work_id a = wa_work_id b"
      "lease_active_at a t" "lease_active_at b t"
    then have "a \<in> insert upd A" "b \<in> insert upd A" using assms(6) by auto
    then show "wa_attempt_id a = wa_attempt_id b"
      using ab(3-5) other assms(1) unfolding holders_ok_def by (metis insert_iff)
  qed
qed

lemma holders_ok_first:
  assumes "\<And>a. a \<in> A \<Longrightarrow> wa_work_id a = wa_work_id new \<Longrightarrow> \<not> lease_active_at a t"
    and "holders_ok t A"
  shows "holders_ok t (insert new A)"
  using assms unfolding holders_ok_def by (metis insert_iff)

lemma holders_ok_closed:
  assumes "\<And>b. b \<in> B \<Longrightarrow> b \<in> A \<or> \<not> lease_active_at b t" and "holders_ok t A"
  shows "holders_ok t (A \<union> B)"
  using assms unfolding holders_ok_def by auto

subsection \<open>Primitives\<close>

lemma wp_now_op [wp]:
  "wp (now_op h) Q E s = Q (utc_now h (lg_clock s)) (s\<lparr>lg_clock := Suc (lg_clock s)\<rparr>)"
  by (simp add: wp_def now_op_def)

lemma wp_uuid_op [wp]:
  "wp (uuid_op h) Q E s = Q (new_uuid h (lg_uuids s)) (s\<lparr>lg_uuids := Suc (lg_uuids s)\<rparr>)"
  by (simp add: wp_def uuid_op_def)

lemma wp_adopt [wp]:
  "wp adopt_operation_request Q E s = Q (lg_operation_request s) (s\<lparr>lg_operation_request := None\<rparr>)"
  by (simp add: wp_def adopt_operation_request_def)

lemma wp_check [wp]: "wp (check c e) Q E s = (if c then E e s else Q () s)"
  by (simp add: check_def wp)

lemma wp_durable:
  assumes "Q () (f (s\<lparr>lg_writes := Suc (lg_writes s)\<rparr>))"
    and "\<And>e. E e (s\<lparr>lg_writes := Suc (lg_writes s)\<rparr>)"
    and "\<And>e. E e (f (s\<lparr>lg_writes := Suc (lg_writes s)\<rparr>))"
  shows "wp (durable h f) Q E s"
  using assms by (auto simp: wp_def durable_def Let_def split: write_outcome.splits)

lemma wp_ignore_err: "wp m (\<lambda>_. I) (\<lambda>_. I) s \<Longrightarrow> wp (ignore_err m) (\<lambda>_. I) E s"
  by (cases "m s") (auto simp: wp_def ignore_err_def split: sum.splits)

lemma attempts_set_simps [simp]:
  "attempts_set (s\<lparr>lg_items := x1\<rparr>) = attempts_set s"
  "attempts_set (s\<lparr>lg_decisions := x2\<rparr>) = attempts_set s"
  "attempts_set (s\<lparr>lg_mutations := x3\<rparr>) = attempts_set s"
  "attempts_set (s\<lparr>lg_lifecycles := x4\<rparr>) = attempts_set s"
  "attempts_set (s\<lparr>lg_receipts := x5\<rparr>) = attempts_set s"
  "attempts_set (s\<lparr>lg_legacy_receipts := x6\<rparr>) = attempts_set s"
  "attempts_set (s\<lparr>lg_admission_closed := x7\<rparr>) = attempts_set s"
  "attempts_set (s\<lparr>lg_last_run_error := x8\<rparr>) = attempts_set s"
  "attempts_set (s\<lparr>lg_operation_request := x9\<rparr>) = attempts_set s"
  "attempts_set (s\<lparr>lg_clock := x10\<rparr>) = attempts_set s"
  "attempts_set (s\<lparr>lg_uuids := x11\<rparr>) = attempts_set s"
  "attempts_set (s\<lparr>lg_writes := x12\<rparr>) = attempts_set s"
  by (simp_all add: attempts_set_def)

lemma stays_frame [simp]:
  "stays h t P (s\<lparr>lg_decisions := x2\<rparr>) = stays h t P s"
  "stays h t P (s\<lparr>lg_mutations := x3\<rparr>) = stays h t P s"
  "stays h t P (s\<lparr>lg_receipts := x5\<rparr>) = stays h t P s"
  "stays h t P (s\<lparr>lg_legacy_receipts := x6\<rparr>) = stays h t P s"
  "stays h t P (s\<lparr>lg_admission_closed := x7\<rparr>) = stays h t P s"
  "stays h t P (s\<lparr>lg_last_run_error := x8\<rparr>) = stays h t P s"
  "stays h t P (s\<lparr>lg_operation_request := x9\<rparr>) = stays h t P s"
  "stays h t P (s\<lparr>lg_uuids := x11\<rparr>) = stays h t P s"
  "stays h t P (s\<lparr>lg_writes := x12\<rparr>) = stays h t P s"
  by (simp_all add: stays_def ledger_ok_def records_ok_def)

lemma stays_note [simp]: "stays h t P (note_partial_commit e s) = stays h t P s"
  by (simp add: note_partial_commit_def)

subsection \<open>Operations that keep an invariant\<close>

lemma keepsD: "keeps I m \<Longrightarrow> I s \<Longrightarrow> wp m (\<lambda>_. I) (\<lambda>_. I) s"
  by (simp add: keeps_wp)

lemma wp_then_keeps:
  "wp m (\<lambda>_. I) (\<lambda>_. I) s \<Longrightarrow> keeps I k \<Longrightarrow> wp (thenE m k) (\<lambda>_. I) (\<lambda>_. I) s"
  unfolding wp_thenE by (erule wp_mono) (auto intro: keepsD)

lemma wp_bind_keeps:
  "keeps I m \<Longrightarrow> I s \<Longrightarrow> (\<And>x u. I u \<Longrightarrow> wp (f x) (\<lambda>_. J) (\<lambda>_. J) u) \<Longrightarrow> (\<And>u. I u \<Longrightarrow> J u)
     \<Longrightarrow> wp (bindE m f) (\<lambda>_. J) (\<lambda>_. J) s"
  unfolding wp_bindE by (rule wp_mono [OF keepsD [of I m s]]) auto

lemma wp_thenE_keeps:
  "keeps I m \<Longrightarrow> I s \<Longrightarrow> (\<And>u. I u \<Longrightarrow> wp k (\<lambda>_. J) (\<lambda>_. J) u) \<Longrightarrow> (\<And>u. I u \<Longrightarrow> J u)
     \<Longrightarrow> wp (thenE m k) (\<lambda>_. J) (\<lambda>_. J) s"
  unfolding thenE_def by (rule wp_bind_keeps)

lemma keeps_simple [ledger_intro]:
  "keeps I (ret x)" "keeps I (raise e)" "keeps I (lift r)" "keeps I (reads g)" "keeps I (gets k)"
  "keeps I (some_or e v)" "keeps I (check c e)"
  by (auto simp: keeps_wp wp split: sum.splits option.splits)

lemma keeps_thenE [ledger_intro]: "keeps I m \<Longrightarrow> keeps I k \<Longrightarrow> keeps I (thenE m k)"
  by (auto simp: thenE_def intro: keeps_bindE)

lemma keeps_map_err [ledger_intro]: "keeps I m \<Longrightarrow> keeps I (map_err g m)"
  by (simp add: keeps_wp wp_map_err)

lemma keeps_if [ledger_intro]: "(c \<Longrightarrow> keeps I m) \<Longrightarrow> (\<not> c \<Longrightarrow> keeps I n) \<Longrightarrow> keeps I (if c then m else n)"
  by simp

lemma keeps_option [ledger_intro]:
  "(v = None \<Longrightarrow> keeps I m) \<Longrightarrow> (\<And>x. v = Some x \<Longrightarrow> keeps I (f x))
     \<Longrightarrow> keeps I (case v of None \<Rightarrow> m | Some x \<Rightarrow> f x)"
  by (simp split: option.split)

lemma keeps_prod [ledger_intro]: "(\<And>x y. p = (x, y) \<Longrightarrow> keeps I (f x y)) \<Longrightarrow> keeps I (case p of (x, y) \<Rightarrow> f x y)"
  by (simp split: prod.split)

lemma keeps_for_each [ledger_intro]: "(\<And>x. x \<in> set xs \<Longrightarrow> keeps I (f x)) \<Longrightarrow> keeps I (for_each xs f)"
  unfolding keeps_wp by (auto intro: wp_for_each)

lemma keeps_fold_op [ledger_intro]: "(\<And>x acc. x \<in> set xs \<Longrightarrow> keeps I (f x acc)) \<Longrightarrow> keeps I (fold_op f xs acc)"
  unfolding keeps_wp by (auto intro!: wp_fold_op [where I = "\<lambda>_. I"])

lemma keeps_durable:
  "(\<And>s n. I s \<Longrightarrow> I (s\<lparr>lg_writes := n\<rparr>)) \<Longrightarrow> (\<And>s. I s \<Longrightarrow> I (f s)) \<Longrightarrow> keeps I (durable h f)"
  unfolding keeps_wp by (auto intro!: wp_durable)

lemma keeps_note [ledger_intro]:
  "keeps (stays h t P) m \<Longrightarrow> keeps (stays h t P) (on_err note_partial_commit m)"
  by (simp add: keeps_wp wp_on_err)

lemma keeps_ignore_err [ledger_intro]: "keeps I m \<Longrightarrow> keeps I (ignore_err m)"
  by (simp add: keeps_def ignore_err_def)

lemma keeps_uuid [ledger_intro]: "keeps (stays h t P) (uuid_op h')"
  by (simp add: keeps_wp wp)

lemma keeps_adopt [ledger_intro]: "keeps (stays h t P) adopt_operation_request"
  by (simp add: keeps_wp wp)

subsection \<open>Writes that do not touch attempts\<close>

lemma keeps_let [ledger_intro]: "(\<And>x. x = e \<Longrightarrow> keeps I (f x)) \<Longrightarrow> keeps I (let x = e in f x)"
  by simp

lemma keeps_put_receipt [ledger_intro]: "keeps (stays h t P) (put_receipt g k r)"
  unfolding put_receipt_def by (intro ledger_intro keeps_durable) auto

lemma keeps_drop_legacy [ledger_intro]: "keeps (stays h t P) (drop_legacy g k)"
  unfolding drop_legacy_def by (intro keeps_durable) auto

lemma keeps_converge [ledger_intro]: "keeps (stays h t P) (converge_legacy_owner_receipt g lk nk r)"
  unfolding converge_legacy_owner_receipt_def by (intro ledger_intro)

lemma keeps_adopt_legacy [ledger_intro]: "keeps (stays h t P) (adopt_legacy_owner_receipt g sc r c)"
  unfolding adopt_legacy_owner_receipt_def by (intro ledger_intro)

lemma keeps_load_idempotency [ledger_intro]: "keeps (stays h t P) (load_idempotency g sc r)"
  unfolding load_idempotency_def by (intro ledger_intro)

lemma keeps_prune [ledger_intro]: "keeps (stays h t P) (prune_one_owner_receipt g sc)"
proof -
  have "keeps (stays h t P) (map_err internal_of
      (durable g (\<lambda>s. s\<lparr>lg_receipts := dir_del k (lg_receipts s)\<rparr>)))" for k
    by (intro ledger_intro keeps_durable) auto
  then show ?thesis
    unfolding prune_one_owner_receipt_def
    by (intro keeps_bindE) (auto intro!: ledger_intro split: list.split sum.split prod.split)
qed

lemma keeps_claim_idempotency [ledger_intro]:
  "keeps (stays h t P) (now_op g :: time ledger_op) \<Longrightarrow> keeps (stays h t P) (claim_idempotency g sc tool r p)"
  unfolding claim_idempotency_def by (intro ledger_intro) assumption

lemma keeps_finish_idempotency [ledger_intro]:
  "keeps (stays h t P) (finish_idempotency g sc tool r p run resp err status)"
  unfolding finish_idempotency_def by (intro ledger_intro)

lemma keeps_complete_bound_request [ledger_intro]:
  "keeps (stays h t P) (complete_bound_request g req resp)"
  unfolding complete_bound_request_def by (intro ledger_intro)

lemma keeps_validate_bound_request [ledger_intro]:
  "keeps (stays h t P) (validate_bound_request g r i pa na)"
  unfolding validate_bound_request_def by (intro ledger_intro)

lemma keeps_bind_request [ledger_intro]: "keeps (stays h t P) (bind_work_request b)"
  by (auto simp: keeps_wp bind_work_request_def wp)

lemma keeps_refuse [ledger_intro]: "keeps (stays h t P) refuse_closed_admission"
  unfolding refuse_closed_admission_def by (intro ledger_intro)

lemma keeps_loads [ledger_intro]:
  "keeps I (load_work_item w)" "keeps I (load_work_attempt a)" "keeps I (load_run r)"
  "keeps I (load_agent g)" "keeps I (work_path p)" "keeps I list_work_items"
  "keeps I (list_work_attempts ow)" "keeps I (scoped_work_items h sc)"
  "keeps I (work_decision_path w d)" "keeps I (resolve_dependencies h i)"
  "keeps I (load_work_decision w d)" "keeps I (require_work_item w)" "keeps I (list_attempts_of w)"
  "keeps I (require_agent_in_scope h ag sid wsp)" "keeps I (active_attempt w now)"
  by (simp_all add: load_work_item_def load_work_attempt_def load_run_def load_agent_def
        work_path_def list_work_items_def list_work_attempts_def scoped_work_items_def
        work_decision_path_def resolve_dependencies_def load_work_decision_def require_work_item_def
        list_attempts_of_def require_agent_in_scope_def active_attempt_def)
     (intro ledger_intro; simp)+

lemma keeps_agent_op [ledger_intro]: "keeps I (agent_op h i a)"
  unfolding agent_op_def by (intro ledger_intro)

lemma keeps_agents [ledger_intro]: "keeps I (resolve_assignment_agents h i x y)"
  unfolding resolve_assignment_agents_def by (intro ledger_intro)

lemma keeps_save_work_decision [ledger_intro]: "keeps (stays h t P) (save_work_decision g d)"
  unfolding save_work_decision_def by (intro ledger_intro keeps_durable) auto

lemma keeps_mutation_files [ledger_intro]:
  "keeps (stays h t P) (persist_work_mutation_intent g i)"
  "keeps (stays h t P) (clear_work_mutation_intent g k)"
  unfolding persist_work_mutation_intent_def clear_work_mutation_intent_def
  by (intro ledger_intro keeps_durable; simp)+

subsection \<open>Saving an item\<close>

lemma dir_list_put: "set (dir_list (dir_put k v d)) \<subseteq> insert v (set (dir_list d))"
  using set_update_subset [of k v d] by (force simp: dir_list_def dir_put_def)

lemma dir_list_del: "set (dir_list (dir_del k d)) \<subseteq> set (dir_list d)"
  by (auto simp: dir_list_def dir_del_def AList.delete_eq)

lemma stays_put_item:
  assumes "stays h t P s" "item_validate i = Inr ()" "k = wi_work_id i"
  shows "stays h t P (s\<lparr>lg_items := dir_put k i (lg_items s)\<rparr>)"
  using assms dir_list_put [of k i "lg_items s"]
  by (auto simp: stays_def ledger_ok_def records_ok_def)

lemma keeps_write_work_item: "item_validate i = Inr () \<Longrightarrow> keeps (stays h t P) (write_work_item g i)"
proof -
  assume i: "item_validate i = Inr ()"
  have "keeps (stays h t P) (durable g (\<lambda>s. s\<lparr>lg_items := dir_put k i (lg_items s)\<rparr>))"
    if "safe_id_filename (wi_work_id i) = Inr k" for k
    using safe_id_filename_same [OF that] i by (intro keeps_durable) (simp_all add: stays_put_item)
  then show ?thesis
    unfolding keeps_wp write_work_item_def work_path_def
    by (auto simp: wp split: sum.split)
qed

lemma keeps_validate_for_save [ledger_intro]: "keeps I (validate_work_item_for_save g i)"
  unfolding validate_work_item_for_save_def by (intro ledger_intro)

lemma wp_validate_for_save:
  assumes "I s" shows "wp (validate_work_item_for_save g i) (\<lambda>_ u. I u \<and> item_validate i = Inr ()) (\<lambda>_. I) s"
proof (cases "item_validate i")
  case (Inl e)
  then show ?thesis using assms by (simp add: validate_work_item_for_save_def wp)
next
  case (Inr u)
  then show ?thesis using keepsD [OF keeps_validate_for_save, of I s g i] assms by simp
qed

lemma keeps_save_work_item [ledger_intro]: "keeps (stays h t P) (save_work_item g i)"
  unfolding keeps_wp save_work_item_def wp_thenE
  by (auto intro!: wp_mono [OF wp_validate_for_save] keepsD [OF keeps_write_work_item])

lemma keeps_commit_mutation [ledger_intro]: "keeps (stays h t P) (commit_work_mutation_intent g i)"
  unfolding commit_work_mutation_intent_def by (intro ledger_intro)

lemma keeps_recover_mutations [ledger_intro]: "keeps (stays h t P) (recover_work_mutation_intents g)"
  unfolding recover_work_mutation_intents_def by (intro ledger_intro)

lemma keeps_mutate_assignment [ledger_intro]: "keeps (stays h t P) (mutate_assignment g r f)"
  unfolding mutate_assignment_def by (intro ledger_intro)

end
