(* ===== verification/Lease_Commit.thy ===== *)
theory Lease_Commit
  imports Ledger_Records
begin

section \<open>Committing a lifecycle intent keeps leases exclusive\<close>

text \<open>
  Whatever the stored attempts are when a lifecycle intent is committed, by the operation
  that created it or by a later recovery: the commit is refused, or every stored attempt
  of the work item is one the intent recorded before or after the change. Together with
  \<open>holders_ok\<close> of the intent this keeps at most one live lease per item through every
  partial application.
\<close>

subsection \<open>Lists of attempts\<close>

lemma mset_insert_by [simp]: "mset (insert_by f x xs) = add_mset x (mset xs)"
  by (induction xs) auto

lemma mset_sort_by [simp]: "mset (sort_by f xs) = mset xs"
proof -
  have "mset (foldr (insert_by f) xs ys) = mset xs + mset ys" for ys
    by (induction xs) auto
  then show ?thesis by (simp add: sort_by_def)
qed

lemma set_sort_by [simp]: "set (sort_by f xs) = set xs"
  using mset_sort_by by (metis set_mset_mset)

lemma distinct_map_mset: "mset xs = mset ys \<Longrightarrow> distinct (map f xs) \<longleftrightarrow> distinct (map f ys)"
  by (metis mset_eq_imp_distinct_iff mset_map)

definition attempts_of :: "ledger \<Rightarrow> string \<Rightarrow> work_attempt list" where
  "attempts_of s w =
     sort_by (\<lambda>a b. cmp (wa_attempt_number a) (wa_attempt_number b))
       (filter (\<lambda>a. w = wa_work_id a) (dir_list (lg_attempts s)))"

lemma set_attempts_of: "set (attempts_of s w) = {a \<in> attempts_set s. wa_work_id a = w}"
  by (auto simp: attempts_of_def attempts_set_def)

lemma attempts_of_distinct: "records_ok s \<Longrightarrow> distinct (map wa_attempt_id (attempts_of s w))"
proof -
  assume "records_ok s"
  then have "distinct (map wa_attempt_id (dir_list (lg_attempts s)))"
    by (simp add: records_ok_def dir_ok_distinct)
  then have "distinct (map wa_attempt_id (filter (\<lambda>a. w = wa_work_id a) (dir_list (lg_attempts s))))"
    by (simp add: distinct_map_filter)
  then show ?thesis
    unfolding attempts_of_def by (subst distinct_map_mset [OF mset_sort_by]) simp
qed

lemma validated_all: "(\<And>x. x \<in> set xs \<Longrightarrow> v x = Inr ()) \<Longrightarrow> validated v xs = Inr xs"
  by (induction xs) auto

lemma list_attempts_run: "records_ok s \<Longrightarrow> list_work_attempts (Some w) s = (Inr (attempts_of s w), s)"
  by (simp add: list_work_attempts_def reads_def validated_all records_ok_def attempts_set_def
        attempts_of_def)

lemma wp_list_attempts:
  "records_ok s \<Longrightarrow> wp (list_work_attempts (Some w)) Q E s = Q (attempts_of s w) s"
  by (simp add: wp_def list_attempts_run)

lemma wp_list_attempts_of:
  "records_ok s \<Longrightarrow> wp (list_attempts_of w) Q E s = Q (attempts_of s w) s"
  by (simp add: list_attempts_of_def wp wp_list_attempts)

lemma stays_records: "stays h t P s \<Longrightarrow> records_ok s"
  by (simp add: stays_def ledger_ok_def)

lemma stays_holders: "stays h t P s \<Longrightarrow> holders_ok t (attempts_set s)"
  by (simp add: stays_def ledger_ok_def)

subsection \<open>What a valid intent and a passed preflight say\<close>

lemma validate_attempt_set_ok:
  "validate_attempt_set w ids as = Inr () \<Longrightarrow>
     (\<forall>a \<in> set as. attempt_validate a = Inr () \<and> wa_work_id a = w)
     \<and> distinct (map wa_attempt_id as) \<and> wa_attempt_id ` set as \<inter> ids = {}"
proof (induction as arbitrary: ids)
  case (Cons a as)
  then have "attempt_validate a = Inr ()" "wa_work_id a = w" "wa_attempt_id a \<notin> ids"
    "validate_attempt_set w (insert (wa_attempt_id a) ids) as = Inr ()"
    by (auto simp: rbind_ok split: if_splits)
  then show ?case using Cons.IH [of "insert (wa_attempt_id a) ids"] by auto
qed simp

lemma lifecycle_validate_ok:
  assumes "lifecycle_validate i = Inr ()"
  shows "wi_work_id (li_item i) = li_work_id i" "item_validate (li_item i) = Inr ()"
    "\<And>a. a \<in> set (li_prior_attempts i @ li_attempts i) \<Longrightarrow>
       attempt_validate a = Inr () \<and> wa_work_id a = li_work_id i"
    "distinct (map wa_attempt_id (li_prior_attempts i))"
    "distinct (map wa_attempt_id (li_attempts i))"
    "wi_session_id (li_item i) = wi_session_id (li_prior_item i)"
    "wi_workspace (li_item i) = wi_workspace (li_prior_item i)"
    "wi_work_id (li_prior_item i) = li_work_id i"
    "item_validate (li_prior_item i) = Inr ()"
  using assms
    validate_attempt_set_ok [of "li_work_id i" "{}" "li_prior_attempts i"]
    validate_attempt_set_ok [of "li_work_id i" "{}" "li_attempts i"]
  by (auto simp: lifecycle_validate_def validate_work_attempt_set_def)

lemma by_id_get:
  assumes "distinct (map wa_attempt_id as)"
  shows "by_id as k = Some a \<longleftrightarrow> a \<in> set as \<and> wa_attempt_id a = k"
proof -
  have "distinct (map fst (map (\<lambda>a. (wa_attempt_id a, a)) (rev as)))"
    using assms by (simp add: comp_def flip: rev_map)
  then show ?thesis
    unfolding by_id_def by (subst map_of_eq_Some_iff) auto
qed

lemma preflight_attempts_ok:
  assumes "preflight_attempts h next_by (prior) cur = Inr rest"
    and "distinct (map wa_attempt_id prior)"
  shows "(\<forall>a \<in> set prior. \<exists>c n. cur (wa_attempt_id a) = Some c \<and> next_by (wa_attempt_id a) = Some n
            \<and> (attempt_digest h c = attempt_digest h a \<or> attempt_digest h c = attempt_digest h n))
    \<and> (\<forall>k. k \<notin> wa_attempt_id ` set prior \<longrightarrow> rest k = cur k)"
  using assms
proof (induction prior arbitrary: cur)
  case (Cons a prior)
  obtain c n where c: "cur (wa_attempt_id a) = Some c" "next_by (wa_attempt_id a) = Some n"
    "attempt_digest h c = attempt_digest h a \<or> attempt_digest h c = attempt_digest h n"
    and rec: "preflight_attempts h next_by prior (cur(wa_attempt_id a := None)) = Inr rest"
    using Cons.prems(1) by (auto split: option.splits if_splits)
  have other: "(cur(wa_attempt_id a := None)) (wa_attempt_id x) = cur (wa_attempt_id x)"
    if "x \<in> set prior" for x
    using Cons.prems(2) that by (metis distinct.simps(2) fun_upd_apply image_eqI list.simps(9) set_map)
  show ?case
    using c Cons.IH [OF rec] Cons.prems(2) other by (simp add: ball_Un cong: ball_cong)
qed simp

lemma lifecycle_updates_ok:
  assumes "lifecycle_updates h prior cur nexts = Inr ups"
  shows "set ups \<subseteq> set nexts
    \<and> (\<forall>n \<in> set nexts. \<forall>c. find (\<lambda>c. wa_attempt_id c = wa_attempt_id n) cur = Some c \<longrightarrow>
         attempt_digest h c = attempt_digest h n \<or> wa_attempt_id n \<in> wa_attempt_id ` set prior)"
  using assms
proof (induction nexts arbitrary: ups)
  case (Cons n nexts)
  let ?found = "find (\<lambda>c. wa_attempt_id c = wa_attempt_id n) cur"
  obtain ups' where rec: "lifecycle_updates h prior cur nexts = Inr ups'"
    and sub: "set ups \<subseteq> insert n (set ups')"
    using Cons.prems by (auto simp: rbind_ok split: option.splits if_splits)
  have "attempt_digest h c = attempt_digest h n \<or> wa_attempt_id n \<in> wa_attempt_id ` set prior"
    if "?found = Some c" for c
  proof (rule disjCI)
    assume "wa_attempt_id n \<notin> wa_attempt_id ` set prior"
    then have "\<not> list_ex (\<lambda>p. wa_attempt_id p = wa_attempt_id n) prior"
      unfolding list_ex_iff by (metis imageI)
    then show "attempt_digest h c = attempt_digest h n"
      using Cons.prems that by (simp split: if_splits)
  qed
  then show ?case using Cons.IH [OF rec] sub by auto
qed simp

lemma find_id:
  assumes "distinct (map wa_attempt_id as)" "c \<in> set as"
  shows "find (\<lambda>x. wa_attempt_id x = wa_attempt_id c) as = Some c"
  using assms by (induction as) (auto simp: image_iff)

subsection \<open>The commit\<close>

context sound_host
begin

lemma preflight_covers:
  assumes valid: "lifecycle_validate i = Inr ()"
    and dist: "distinct (map wa_attempt_id cur)"
    and pre: "preflight_attempts h (by_id (li_attempts i)) (li_prior_attempts i) (by_id cur) = Inr rest"
    and left: "\<not> list_ex (\<lambda>a. rest (wa_attempt_id a) \<noteq> None
                 \<and> by_id (li_attempts i) (wa_attempt_id a) = None) cur"
    and ups: "lifecycle_updates h (li_prior_attempts i) cur (li_attempts i) = Inr ups"
    and c: "c \<in> set cur"
  shows "c \<in> set (li_prior_attempts i @ li_attempts i)"
proof (cases "wa_attempt_id c \<in> wa_attempt_id ` set (li_prior_attempts i)")
  case True
  then obtain a where a: "a \<in> set (li_prior_attempts i)" "wa_attempt_id a = wa_attempt_id c"
    by (metis imageE)
  from preflight_attempts_ok [OF pre lifecycle_validate_ok(4) [OF valid]] a
  obtain c' n where "by_id cur (wa_attempt_id c) = Some c'"
    "by_id (li_attempts i) (wa_attempt_id c) = Some n"
    "attempt_digest h c' = attempt_digest h a \<or> attempt_digest h c' = attempt_digest h n"
    by metis
  moreover have "by_id cur (wa_attempt_id c) = Some c" using by_id_get [OF dist] c by blast
  ultimately have "c = a \<or> c = n" "n \<in> set (li_attempts i)"
    using attempt_digest_inj by_id_get [OF lifecycle_validate_ok(5) [OF valid]] by auto
  then show ?thesis using a by auto
next
  case False
  then have "rest (wa_attempt_id c) = Some c"
    using preflight_attempts_ok [OF pre lifecycle_validate_ok(4) [OF valid]]
      by_id_get [OF dist] c by metis
  then obtain n where "by_id (li_attempts i) (wa_attempt_id c) = Some n"
    using left c by (auto simp: list_ex_iff)
  then have n: "n \<in> set (li_attempts i)" "wa_attempt_id n = wa_attempt_id c"
    using by_id_get [OF lifecycle_validate_ok(5) [OF valid]] by auto
  have "find (\<lambda>x. wa_attempt_id x = wa_attempt_id n) cur = Some c"
    using find_id [OF dist c] n(2) by simp
  then have "c = n"
    using lifecycle_updates_ok [OF ups] n False attempt_digest_inj by metis
  then show ?thesis using n by simp
qed

lemma wp_preflight:
  assumes "records_ok s"
    and "\<And>d. lifecycle_validate i = Inr ()
      \<Longrightarrow> (\<And>ups. lifecycle_updates h (li_prior_attempts i) (attempts_of s (li_work_id i)) (li_attempts i) = Inr ups
             \<Longrightarrow> \<forall>c \<in> attempts_set s. wa_work_id c = li_work_id i
                   \<longrightarrow> c \<in> set (li_prior_attempts i @ li_attempts i))
      \<Longrightarrow> Q (d, attempts_of s (li_work_id i)) s"
    and "\<And>e. E e s"
  shows "wp (preflight_work_lifecycle_intent h i) Q E s"
proof (cases "lifecycle_validate i")
  case (Inl e)
  then show ?thesis using assms(3) by (simp add: preflight_work_lifecycle_intent_def wp)
next
  case (Inr u)
  then have valid: "lifecycle_validate i = Inr ()" by simp
  let ?cur = "attempts_of s (li_work_id i)"
  have covers: "\<forall>c \<in> attempts_set s. wa_work_id c = li_work_id i
        \<longrightarrow> c \<in> set (li_prior_attempts i @ li_attempts i)"
    if "preflight_attempts h (by_id (li_attempts i)) (li_prior_attempts i) (by_id ?cur) = Inr rest"
      "\<not> list_ex (\<lambda>a. rest (wa_attempt_id a) \<noteq> None
            \<and> by_id (li_attempts i) (wa_attempt_id a) = None) ?cur"
      "lifecycle_updates h (li_prior_attempts i) ?cur (li_attempts i) = Inr ups" for rest ups
    using preflight_covers [OF valid attempts_of_distinct [OF assms(1)] that] set_attempts_of
    by blast
  show ?thesis
    using valid assms(3) assms(2) [OF valid] covers
    by (simp add: preflight_work_lifecycle_intent_def load_work_item_def wp Let_def
          wp_list_attempts [OF assms(1)] split: sum.split option.split)
qed

lemma wp_save_attempt:
  assumes inv: "stays h t P s" "\<forall>c \<in> attempts_set s. wa_work_id c = wa_work_id a \<longrightarrow> c \<in> M"
    and a: "a \<in> M" "P a" and M: "holders_ok t M"
  defines "I \<equiv> \<lambda>u. stays h t P u \<and> (\<forall>c \<in> attempts_set u. wa_work_id c = wa_work_id a \<longrightarrow> c \<in> M)"
  shows "wp (save_work_attempt h a) (\<lambda>_. I) (\<lambda>_. I) s"
proof (cases "attempt_validate a = Inr () \<and> safe_id_filename (wa_attempt_id a) = Inr (wa_attempt_id a)")
  case False
  then have "(\<exists>e. attempt_validate a = Inl e) \<or> (\<exists>e. safe_id_filename (wa_attempt_id a) = Inl e)"
    using safe_id_filename_same [of "wa_attempt_id a"]
    by (cases "attempt_validate a"; cases "safe_id_filename (wa_attempt_id a)") auto
  then show ?thesis
    using inv by (auto simp: save_work_attempt_def work_path_def wp I_def split: sum.split)
next
  case True
  let ?put = "\<lambda>u. u\<lparr>lg_attempts := dir_put (wa_attempt_id a) a (lg_attempts u)\<rparr>"
  have put: "I (?put u)" if "I u" for u
  proof -
    have sub: "attempts_set (?put u) \<subseteq> insert a (attempts_set u)"
      using dir_list_put [of "wa_attempt_id a" a "lg_attempts u"] by (simp add: attempts_set_def)
    have "holders_ok t (attempts_set (?put u))"
      unfolding holders_ok_def
    proof (intro ballI impI)
      fix x y
      assume xy: "x \<in> attempts_set (?put u)" "y \<in> attempts_set (?put u)" "wa_work_id x = wa_work_id y"
        "lease_active_at x t" "lease_active_at y t"
      show "wa_attempt_id x = wa_attempt_id y"
      proof (cases "wa_work_id x = wa_work_id a")
        case True
        then have "x \<in> M" "y \<in> M" using xy sub that a by (auto simp: I_def)
        then show ?thesis using M xy unfolding holders_ok_def by metis
      next
        case False
        then have "x \<in> attempts_set u" "y \<in> attempts_set u" using xy sub by auto
        then show ?thesis using that xy unfolding I_def stays_def ledger_ok_def holders_ok_def by metis
      qed
    qed
    then show ?thesis
      using that sub a True
      by (auto simp: I_def stays_def ledger_ok_def records_ok_def)
  qed
  have "I (s\<lparr>lg_writes := n\<rparr>)" for n using inv by (simp add: I_def)
  then have "wp (durable h ?put) (\<lambda>_. I) (\<lambda>_. I) s"
    by (intro wp_durable put)
  then show ?thesis
    using True by (simp add: save_work_attempt_def work_path_def wp)
qed

lemma wp_commit_lifecycle:
  assumes inv: "stays h t P s"
    and M: "holders_ok t (set (li_prior_attempts i @ li_attempts i))"
    and P: "\<And>a. a \<in> set (li_attempts i) \<Longrightarrow> P a"
  shows "wp (commit_work_lifecycle_intent h i) (\<lambda>_. stays h t P) (\<lambda>_. stays h t P) s"
proof -
  let ?M = "set (li_prior_attempts i @ li_attempts i)"
  let ?rest = "\<lambda>d. thenE (on_err note_partial_commit (write_work_lifecycle_item_update h i d))
     (thenE
       (if lifecycle_settles_service_receipt i
        then bindE (lift (lifecycle_response_value h i)) (complete_bound_request h (li_request i))
        else ret ())
       (clear_work_lifecycle_intent h (li_intent_id i)))"
  have clear: "keeps (stays h t P) (clear_work_lifecycle_intent h k)" for k
  proof -
    have "stays h t P (u\<lparr>lg_lifecycles := dir_del n (lg_lifecycles u)\<rparr>)" if "stays h t P u" for u n
      using that dir_list_del [of n "lg_lifecycles u"]
      by (auto simp: stays_def ledger_ok_def records_ok_def)
    then show ?thesis
      unfolding clear_work_lifecycle_intent_def by (intro ledger_intro keeps_durable) simp_all
  qed
  have rest: "keeps (stays h t P) (?rest d)" for d
    unfolding write_work_lifecycle_item_update_def by (intro ledger_intro clear)
  have writes: "wp (write_work_lifecycle_attempt_updates h i (attempts_of s (li_work_id i)))
      (\<lambda>_. stays h t P) (\<lambda>_. stays h t P) s"
    if valid: "lifecycle_validate i = Inr ()"
      and covers: "\<And>ups. lifecycle_updates h (li_prior_attempts i) (attempts_of s (li_work_id i)) (li_attempts i) = Inr ups
        \<Longrightarrow> \<forall>c \<in> attempts_set s. wa_work_id c = li_work_id i \<longrightarrow> c \<in> ?M"
  proof (cases "lifecycle_updates h (li_prior_attempts i) (attempts_of s (li_work_id i)) (li_attempts i)")
    case (Inl e)
    then show ?thesis
      using inv by (simp add: write_work_lifecycle_attempt_updates_def work_lifecycle_attempt_updates_def wp)
  next
    case (Inr ups)
    let ?I = "\<lambda>u. stays h t P u \<and> (\<forall>c \<in> attempts_set u. wa_work_id c = li_work_id i \<longrightarrow> c \<in> ?M)"
    have step: "wp (map_err internal_of (save_work_attempt h a)) (\<lambda>_. ?I) (\<lambda>_. ?I) u"
      if "a \<in> set ups" "?I u" for a u
    proof -
      have a: "a \<in> set (li_attempts i)" "wa_work_id a = li_work_id i"
        using that lifecycle_updates_ok [OF Inr] lifecycle_validate_ok(3) [OF valid] by auto
      then show ?thesis
        using wp_save_attempt [of t P u a ?M] that M P by (simp add: wp)
    qed
    have "wp (for_each ups (\<lambda>a. map_err internal_of (save_work_attempt h a))) (\<lambda>_. ?I) (\<lambda>_. ?I) s"
      by (rule wp_for_each) (use inv covers [OF Inr] step in auto)
    then show ?thesis
      unfolding write_work_lifecycle_attempt_updates_def work_lifecycle_attempt_updates_def
      using Inr by (auto simp: wp elim: wp_mono)
  qed
  show ?thesis
    unfolding commit_work_lifecycle_intent_def wp_bindE
  proof (rule wp_preflight [OF stays_records [OF inv]])
    fix d
    assume "lifecycle_validate i = Inr ()"
      and "\<And>ups. lifecycle_updates h (li_prior_attempts i) (attempts_of s (li_work_id i)) (li_attempts i) = Inr ups
        \<Longrightarrow> \<forall>c \<in> attempts_set s. wa_work_id c = li_work_id i \<longrightarrow> c \<in> ?M"
    then have "wp (on_err note_partial_commit
        (write_work_lifecycle_attempt_updates h i (attempts_of s (li_work_id i))))
        (\<lambda>_. stays h t P) (\<lambda>_. stays h t P) s"
      unfolding wp_on_err stays_note by (rule writes)
    then show "wp (case (d, attempts_of s (li_work_id i)) of (current_item_digest, current_attempts) \<Rightarrow>
        thenE (on_err note_partial_commit (write_work_lifecycle_attempt_updates h i current_attempts))
          (?rest current_item_digest)) (\<lambda>_. stays h t P) (\<lambda>_. stays h t P) s"
      unfolding prod.case by (rule wp_then_keeps [OF _ rest])
  qed (use inv in simp)
qed

lemma keeps_commit_lifecycle:
  assumes "holders_ok t (set (li_prior_attempts i @ li_attempts i))"
    and "\<And>a. a \<in> set (li_attempts i) \<Longrightarrow> P a"
  shows "keeps (stays h t P) (commit_work_lifecycle_intent h i)"
  unfolding keeps_wp using wp_commit_lifecycle assms by blast

lemma keeps_commit_request [ledger_intro]:
  assumes M: "holders_ok t (set (pa @ na))" and P: "\<And>a. a \<in> set na \<Longrightarrow> P a"
  shows "keeps (stays h t P) (commit_lifecycle_with_request h op pi it pa na req)"
proof -
  have new: "li_prior_attempts i = pa \<and> li_attempts i = na"
    if "lifecycle_new_with_id k op pi it pa na = Inr i" for k i
    using that by (auto simp: lifecycle_new_with_id_def Let_def rbind_ok)
  have put: "stays h t P (u\<lparr>lg_lifecycles := dir_put k i (lg_lifecycles u)\<rparr>)"
    if "stays h t P u" "li_prior_attempts i = pa" "li_attempts i = na" for u k i
    using that M dir_list_put [of k i "lg_lifecycles u"]
    by (auto simp: stays_def ledger_ok_def records_ok_def)
  have persist: "keeps (stays h t P) (persist_work_lifecycle_intent h i)"
    if "li_prior_attempts i = pa" "li_attempts i = na" for i
    unfolding persist_work_lifecycle_intent_def
    by (intro ledger_intro keeps_durable) (use that put in auto)
  have commit: "keeps (stays h t P) (commit_work_lifecycle_intent h i)"
    if "li_prior_attempts i = pa" "li_attempts i = na" for i
    using that M P by (intro keeps_commit_lifecycle) simp_all
  have new_bind: "keeps (stays h t P) (bindE (lift (lifecycle_new_with_id k op pi it pa na)) f)"
    if "\<And>i. li_prior_attempts i = pa \<Longrightarrow> li_attempts i = na \<Longrightarrow> keeps (stays h t P) (f i)" for k f
    using that new by (cases "lifecycle_new_with_id k op pi it pa na") (auto simp: keeps_wp wp)
  show ?thesis
    unfolding commit_lifecycle_with_request_def
    by (rule keeps_bindE [OF keeps_uuid], rule new_bind, unfold Let_def, intro ledger_intro persist commit)
       simp_all
qed

lemma keeps_now [ledger_intro]: "keeps (stays h t P) (now_op h)"
proof -
  have "utc_now h n \<le> utc_now h (Suc n)" for n by (simp add: utc_mono)
  then show ?thesis
    by (auto simp: keeps_wp wp stays_def ledger_ok_def records_ok_def intro: order_trans)
qed

lemma stays_now:
  "stays h t P s \<Longrightarrow> stays h (utc_now h (lg_clock s)) P (s\<lparr>lg_clock := Suc (lg_clock s)\<rparr>)"
proof -
  assume s: "stays h t P s"
  then have "t \<le> utc_now h (lg_clock s)" by (simp add: stays_def ledger_ok_def)
  moreover have "utc_now h (lg_clock s) \<le> utc_now h (Suc (lg_clock s))" by (simp add: utc_mono)
  ultimately show ?thesis
    using s holders_ok_later by (auto simp: stays_def ledger_ok_def records_ok_def)
qed

lemma keeps_bump [ledger_intro]: "keeps (stays h t P) (bump h i)"
  unfolding bump_def by (intro ledger_intro)

lemma keeps_bind_attempts:
  assumes "\<And>as. holders_ok t (set as) \<Longrightarrow> (\<And>a. a \<in> set as \<Longrightarrow> P a \<and> wa_work_id a = w)
    \<Longrightarrow> keeps (stays h t P) (f as)"
  shows "keeps (stays h t P) (bindE (map_err g (list_work_attempts (Some w))) f)"
proof -
  have "keeps (stays h t P) (f (attempts_of s w))" if "stays h t P s" for s
  proof (rule assms)
    show "holders_ok t (set (attempts_of s w))"
      using stays_holders [OF that] by (rule holders_ok_subset) (auto simp: set_attempts_of)
    show "P a \<and> wa_work_id a = w" if "a \<in> set (attempts_of s w)" for a
      using that \<open>stays h t P s\<close> by (auto simp: set_attempts_of stays_def)
  qed
  then show "keeps (stays h t P) (bindE (map_err g (list_work_attempts (Some w))) f)"
    unfolding keeps_wp by (auto simp: wp wp_list_attempts [OF stays_records])
qed

lemma map_err_id: "map_err (\<lambda>e. e) m = m"
  by (auto simp: map_err_def fun_eq_iff split: prod.split sum.split)

lemmas keeps_bind_attempts_plain = keeps_bind_attempts [where g = "\<lambda>e. e", unfolded map_err_id]

lemma replace_attempt_snapshot_ok:
  "replace_attempt_snapshot as upd = Inr bs \<Longrightarrow> set bs \<subseteq> insert upd (set as)"
  by (induction as arbitrary: bs) (auto simp: rbind_ok split: if_splits)

end

subsection \<open>Refreshing and expiring\<close>

context sound_host
begin

lemma keeps_commit_refreshed [ledger_intro]: "keeps (stays h t P) (commit_refreshed_work_item h pi it)"
  unfolding commit_refreshed_work_item_def commit_work_lifecycle_snapshots_def
  by (intro keeps_bind_attempts_plain ledger_intro) auto

lemma keeps_refreshed [ledger_intro]: "keeps (stays h t P) (refreshed h pi it)"
  unfolding refreshed_def by (intro ledger_intro)

lemma keeps_refresh_at [ledger_intro]: "keeps (stays h t P) (refresh_work_item_at h i now)"
  unfolding refresh_work_item_at_def refresh_wait_def refresh_deadline_def by (intro ledger_intro)

lemma keeps_refresh [ledger_intro]: "keeps (stays h t P) (refresh_work_item h i)"
  unfolding refresh_work_item_def by (intro ledger_intro)

lemma expired_inactive [simp]: "\<not> lease_active_at (expired a now) t"
  by (simp add: expired_def lease_active_at_def)

lemma keeps_commit_expired:
  assumes "P (expired a now)"
  shows "keeps (stays h t P) (commit_expired_attempt_lifecycle h op pi it (expired a now))"
  unfolding commit_expired_attempt_lifecycle_def commit_work_lifecycle_snapshots_def
proof (rule keeps_bind_attempts_plain)
  fix as
  assume as: "holders_ok t (set as)" "\<And>a. a \<in> set as \<Longrightarrow> P a \<and> wa_work_id a = wi_work_id it"
  have "keeps (stays h t P) (map_err opaque_of (commit_lifecycle_with_request h op pi it as bs None))"
    if "replace_attempt_snapshot as (expired a now) = Inr bs" for bs
  proof (intro ledger_intro)
    note bs = replace_attempt_snapshot_ok [OF that]
    show "holders_ok t (set (as @ bs))"
      unfolding set_append using as(1) bs by (intro holders_ok_closed) auto
    show "P b" if "b \<in> set bs" for b using that bs as(2) assms by auto
  qed
  then show "keeps (stays h t P)
      (bindE (map_err opaque_of (lift (replace_attempt_snapshot as (expired a now))))
        (\<lambda>bs. map_err opaque_of (commit_lifecycle_with_request h op pi it as bs None)))"
    by (cases "replace_attempt_snapshot as (expired a now)") (auto simp: keeps_wp wp)
qed

lemma keeps_expire:
  assumes "P (expired a now)"
  shows "keeps (stays h t P) (expire_attempt h i a now)"
    and "keeps (stays h t P) (expire_terminal_attempt h i a now)"
  unfolding expire_attempt_def expire_terminal_attempt_def Let_def
  using assms by (auto intro!: ledger_intro keeps_commit_expired)

lemma keeps_reconcile [ledger_intro]: "keeps (stays h t (\<lambda>_. True)) (reconcile_workloads_at h now)"
  unfolding reconcile_workloads_at_def reconcile_item_def reconcile_attempt_def
  by (intro ledger_intro keeps_expire) simp_all

lemma keeps_reconcile_now [ledger_intro]: "keeps (stays h t (\<lambda>_. True)) (reconcile_workloads h)"
  unfolding reconcile_workloads_def by (intro ledger_intro)

lemma keeps_recover_lifecycles [ledger_intro]:
  "keeps (stays h t (\<lambda>_. True)) (recover_work_lifecycle_intents h)"
proof -
  have "keeps (stays h t (\<lambda>_. True)) (for_each (sort_by recovery_order (dir_list (lg_lifecycles s)))
      (commit_work_lifecycle_intent h))" if "stays h t (\<lambda>_. True) s" for s
    using that by (intro ledger_intro keeps_commit_lifecycle) (auto simp: stays_def ledger_ok_def)
  then show ?thesis
    unfolding recover_work_lifecycle_intents_def keeps_wp by (simp add: wp)
qed

end

end
