(* ===== verification/Lease_Safety.thy ===== *)
theory Lease_Safety
  imports Lease_Commit
begin

section \<open>Every operation keeps leases exclusive\<close>

text \<open>
  \<open>safe\<close> is the invariant \<open>ledger_ok\<close> at some instant the clock has passed. Each operation
  of the ledger keeps it whether it succeeds or fails, at whatever point a durable write
  fails.
\<close>

definition safe :: "host \<Rightarrow> ledger \<Rightarrow> bool" where
  "safe h s = (\<exists>t. stays h t (\<lambda>_. True) s)"

lemma safe_stays: "stays h t P s \<Longrightarrow> safe h s"
  unfolding safe_def stays_def by blast

lemma keeps_safe:
  assumes "\<And>t. keeps (stays h t (\<lambda>_. True)) m"
  shows "keeps (safe h) m"
  using assms unfolding keeps_def safe_def by blast

lemma wp_safe: "keeps (stays h t P) m \<Longrightarrow> stays h t P s \<Longrightarrow> wp m (\<lambda>_. safe h) (\<lambda>_. safe h) s"
  by (rule wp_mono [OF keepsD [where I = "stays h t P"]]) (auto intro: safe_stays)

lemma stays_weaken: "stays h t P s \<Longrightarrow> (\<And>a. P a \<Longrightarrow> Q a) \<Longrightarrow> stays h t Q s"
  by (auto simp: stays_def)

lemma file_get_key: "dir_ok key d \<Longrightarrow> file_get d k = Some v \<Longrightarrow> key v = k \<and> v \<in> set (dir_list d)"
proof -
  assume d: "dir_ok key d" and "file_get d k = Some v"
  then have "dir_get d k = Some v"
    by (auto simp: file_get_def split: sum.splits dest: safe_id_filename_same)
  then show ?thesis using dir_ok_key [OF d] dir_list_get [OF d] by auto
qed

lemma replace_awaiting_subset: "set (replace_awaiting upd as) \<subseteq> insert upd (set as)"
proof -
  have "set (replace_first p y xs) \<subseteq> insert y (set xs)" for p y and xs :: "work_attempt list"
    by (induction xs) auto
  then show ?thesis unfolding replace_awaiting_def by (metis set_rev)
qed

lemma wp_require_work_item:
  assumes "records_ok s"
    and "\<And>item. wi_work_id item = w \<Longrightarrow> item \<in> set (dir_list (lg_items s)) \<Longrightarrow> Q item s" and "\<And>e. E e s"
  shows "wp (require_work_item w) Q E s"
proof (cases "file_get (lg_items s) w")
  case None
  then show ?thesis
    using assms(3) by (simp add: require_work_item_def load_work_item_def checked_def wp)
next
  case (Some item)
  then show ?thesis
    using assms file_get_key [of wi_work_id "lg_items s" w item]
    by (auto simp: require_work_item_def load_work_item_def checked_def records_ok_def wp split: sum.split)
qed

lemma wp_require_work_attempt:
  assumes "records_ok s"
    and "\<And>a. a \<in> attempts_set s \<Longrightarrow> wa_attempt_id a = k \<Longrightarrow> Q a s" and "\<And>e. E e s"
  shows "wp (require_work_attempt k) Q E s"
proof (cases "file_get (lg_attempts s) k")
  case None
  then show ?thesis
    using assms(3) by (simp add: require_work_attempt_def load_work_attempt_def checked_def wp)
next
  case (Some a)
  then show ?thesis
    using assms file_get_key [of wa_attempt_id "lg_attempts s" k a]
    by (auto simp: require_work_attempt_def load_work_attempt_def checked_def records_ok_def
          attempts_set_def wp split: sum.split)
qed

lemma find_in_set: "find p xs = Some x \<Longrightarrow> x \<in> set xs \<and> p x"
  by (induction xs) (auto split: if_splits)

lemma wp_guard:
  "(r = Inr () \<Longrightarrow> wp k Q E s) \<Longrightarrow> (\<And>e. E e s) \<Longrightarrow> wp (thenE (lift r) k) Q E s"
  by (cases r) (auto simp: wp)

lemma wp_bind_item:
  "records_ok s \<Longrightarrow> (\<And>item. wi_work_id item = w \<Longrightarrow> wp (f item) Q E s) \<Longrightarrow> (\<And>e. E e s)
     \<Longrightarrow> wp (bindE (require_work_item w) f) Q E s"
  unfolding wp_bindE by (rule wp_require_work_item) auto

context sound_host
begin

lemmas keeps_bind_attempts_of =
  keeps_bind_attempts [where g = internal_of, folded list_attempts_of_def]

lemma keeps_commit_attempt:
  assumes "holders_ok t (set pa)" and "held \<in> set pa"
    and "lease_active_at upd t \<Longrightarrow> lease_active_at held t"
    and "wa_attempt_id upd = wa_attempt_id held" "wa_work_id upd = wa_work_id held"
  shows "keeps (stays h t (\<lambda>_. True)) (commit_attempt h op pi it pa upd req)"
proof -
  have "keeps (stays h t (\<lambda>_. True)) (commit_lifecycle_with_request h op pi it pa na req)"
    if "replace_attempt_snapshot pa upd = Inr na" for na
    using holders_ok_update [OF assms replace_attempt_snapshot_ok [OF that]]
    by (intro keeps_commit_request) simp_all
  then show ?thesis
    unfolding commit_attempt_def
    by (cases "replace_attempt_snapshot pa upd") (auto simp: keeps_wp wp)
qed

lemma wp_with_lease:
  assumes s: "stays h t (\<lambda>_. True) s"
    and body: "\<And>item pa now held. holders_ok now (set pa) \<Longrightarrow> held \<in> set pa \<Longrightarrow> lease_active_at held now
      \<Longrightarrow> keeps (stays h now (\<lambda>_. True)) (body item pa now held)"
  shows "wp (with_lease h w k tok body) (\<lambda>_. safe h) (\<lambda>_. safe h) s"
proof -
  let ?u = "s\<lparr>lg_clock := Suc (lg_clock s)\<rparr>" and ?now = "utc_now h (lg_clock s)"
  have u: "stays h ?now (\<lambda>_. True) ?u" by (rule stays_now [OF s])
  have "wp (load_active_attempt_for_token h item k tok ?now)
      (\<lambda>held. wp (body item (attempts_of s w) ?now held) (\<lambda>_. safe h) (\<lambda>_. safe h)) (\<lambda>_. safe h) ?u"
    if "wi_work_id item = w" for item
    unfolding load_active_attempt_for_token_def wp_bindE
  proof (rule wp_require_work_attempt)
    show "records_ok ?u" by (rule stays_records [OF u])
    fix held
    assume held: "held \<in> attempts_set ?u"
    have "wp (body item (attempts_of s w) ?now held) (\<lambda>_. safe h) (\<lambda>_. safe h) ?u"
      if "wa_work_id held = w" "lease_active_at held ?now"
    proof (rule wp_safe [OF body u])
      show "holders_ok ?now (set (attempts_of s w))"
        using stays_holders [OF u] by (rule holders_ok_subset) (auto simp: set_attempts_of)
    qed (use held that in \<open>auto simp: set_attempts_of\<close>)
    then show "wp (thenE (check_token h item held tok) (thenE (check_live held ?now) (ret held)))
        (\<lambda>held. wp (body item (attempts_of s w) ?now held) (\<lambda>_. safe h) (\<lambda>_. safe h))
        (\<lambda>_. safe h) ?u"
      using \<open>wi_work_id item = w\<close> safe_stays [OF u]
      by (simp add: check_token_def check_live_def wp lease_active_at_def)
  qed (rule safe_stays [OF u])
  then show ?thesis
    unfolding with_lease_def wp_bindE
    using safe_stays [OF s]
    by (intro wp_require_work_item [OF stays_records [OF s]])
       (simp_all add: wp wp_list_attempts_of [OF stays_records [OF s]])
qed

lemma keeps_safeI:
  assumes "\<And>t s. stays h t (\<lambda>_. True) s \<Longrightarrow> wp m (\<lambda>_. safe h) (\<lambda>_. safe h) s"
  shows "keeps (safe h) m"
  using assms unfolding keeps_wp safe_def by blast

lemma wp_after_adopt:
  "stays h t P s \<Longrightarrow> (\<And>r u. stays h t P u \<Longrightarrow> wp (f r) Q E u) \<Longrightarrow> wp (bindE adopt_operation_request f) Q E s"
  by (simp add: wp)

subsection \<open>The holder of a lease\<close>

lemma safe_renew: "keeps (safe h) (renew_work_lease h w k tok ms)"
proof (rule keeps_safeI)
  fix t s assume s: "stays h t (\<lambda>_. True) s"
  show "wp (renew_work_lease h w k tok ms) (\<lambda>_. safe h) (\<lambda>_. safe h) s"
  proof (cases "lease_duration ms")
    case (Inl e)
    then show ?thesis using safe_stays [OF s] by (simp add: renew_work_lease_def wp)
  next
    case (Inr lease)
    then show ?thesis
      unfolding renew_work_lease_def wp_bindE wp_lift Inr sum.case
      by (subst wp_bindE [symmetric], intro wp_after_adopt [OF s] wp_with_lease)
         (auto simp: Let_def intro!: ledger_intro keeps_commit_attempt)
  qed
qed

lemma link_run_same:
  "link_run r a = Inr b \<Longrightarrow> wa_attempt_id b = wa_attempt_id a \<and> wa_work_id b = wa_work_id a
     \<and> wa_state b = wa_state a \<and> wa_lease_expires_at b = wa_lease_expires_at a"
  by (auto simp: link_run_def split: if_splits)

lemma keeps_bind_lift: "(\<And>x. r = Inr x \<Longrightarrow> keeps I (f x)) \<Longrightarrow> keeps I (bindE (lift r) f)"
  by (cases r) (auto simp: keeps_wp wp)

lemma safe_link_run: "keeps (safe h) (link_work_run h w k tok run)"
proof (rule keeps_safeI)
  fix t s assume s: "stays h t (\<lambda>_. True) s"
  show "wp (link_work_run h w k tok run) (\<lambda>_. safe h) (\<lambda>_. safe h) s"
    unfolding link_work_run_def
    by (intro wp_after_adopt [OF s] wp_with_lease keeps_bind_lift)
       (auto simp: Let_def dest!: link_run_same intro!: ledger_intro keeps_commit_attempt)
qed

lemma safe_progress: "keeps (safe h) (report_work_progress h w k tok pg)"
proof (rule keeps_safeI)
  fix t s assume s: "stays h t (\<lambda>_. True) s"
  show "wp (report_work_progress h w k tok pg) (\<lambda>_. safe h) (\<lambda>_. safe h) s"
    unfolding report_work_progress_def
    by (intro wp_after_adopt [OF s] wp_with_lease)
       (auto simp: Let_def intro!: ledger_intro keeps_commit_attempt)
qed

lemma safe_park: "keeps (safe h) (park_work_input h w k tok reason)"
proof (rule keeps_safeI)
  fix t s assume s: "stays h t (\<lambda>_. True) s"
  show "wp (park_work_input h w k tok reason) (\<lambda>_. safe h) (\<lambda>_. safe h) s"
    unfolding park_work_input_def
    by (intro wp_with_lease [OF s]) (auto simp: Let_def intro!: ledger_intro keeps_commit_attempt)
qed

lemma safe_release: "keeps (safe h) (release_work h w k tok reason)"
proof (rule keeps_safeI)
  fix t s assume s: "stays h t (\<lambda>_. True) s"
  show "wp (release_work h w k tok reason) (\<lambda>_. safe h) (\<lambda>_. safe h) s"
    unfolding release_work_def
    by (intro wp_after_adopt [OF s] wp_with_lease)
       (auto simp: Let_def lease_active_at_def intro!: ledger_intro keeps_commit_attempt)
qed

lemma safe_fail: "keeps (safe h) (fail_work h w k tok r)"
proof (rule keeps_safeI)
  fix t s assume s: "stays h t (\<lambda>_. True) s"
  show "wp (fail_work h w k tok r) (\<lambda>_. safe h) (\<lambda>_. safe h) s"
    unfolding fail_work_def
    by (intro wp_guard wp_after_adopt [OF s] wp_with_lease)
       (auto simp: Let_def lease_active_at_def safe_stays [OF s] intro!: ledger_intro keeps_commit_attempt)
qed

lemma keeps_complete_live [ledger_intro]: "keeps I (complete_live h i a)"
  unfolding complete_live_def assign_work_succeeded_def by (intro ledger_intro)

lemma wp_complete_live:
  assumes "\<And>i' a'. wa_attempt_id a' = wa_attempt_id a \<Longrightarrow> wa_work_id a' = wa_work_id a
      \<Longrightarrow> wa_lease_expires_at a' = wa_lease_expires_at a \<Longrightarrow> Q (i', a') s"
    and "\<And>e. E e s"
  shows "wp (complete_live h i a) Q E s"
  using assms
  by (simp add: complete_live_def assign_work_succeeded_def wp split: sum.split prod.split)

lemma wp_complete_held:
  assumes u: "stays h now (\<lambda>_. True) u" and held: "held \<in> attempts_set u" and item: "wi_work_id item = w"
  shows "wp (complete_held h tok r req item (attempts_of u w) now held) (\<lambda>_. safe h) (\<lambda>_. safe h) u"
proof -
  let ?held = "held\<lparr>wa_result := Some r, wa_updated_at := now\<rparr>"
  have "wp (bindE (complete_live h i ?held) (\<lambda>(finished, attempt). bindE (bump h finished) (\<lambda>i'.
      thenE (commit_attempt h O_Complete item i' (attempts_of u w) attempt req) (ret (i', attempt)))))
      (\<lambda>_. safe h) (\<lambda>_. safe h) u"
    if live: "wa_work_id held = w" "lease_active_at held now" for i
    unfolding wp_bindE
  proof (rule wp_complete_live)
    fix i' and a' :: work_attempt
    assume a': "wa_attempt_id a' = wa_attempt_id ?held" "wa_work_id a' = wa_work_id ?held"
    have "holders_ok now (set (attempts_of u w))"
      using stays_holders [OF u] by (rule holders_ok_subset) (auto simp: set_attempts_of)
    then have "keeps (stays h now (\<lambda>_. True)) (bindE (bump h i') (\<lambda>i''.
          thenE (commit_attempt h O_Complete item i'' (attempts_of u w) a' req) (ret (i'', a'))))"
      using held live a'
      by (intro ledger_intro keeps_commit_attempt [where held = held]) (auto simp: set_attempts_of)
    from wp_safe [OF this u]
    show "wp (case (i', a') of (finished, attempt) \<Rightarrow> bindE (bump h finished) (\<lambda>i''.
          thenE (commit_attempt h O_Complete item i'' (attempts_of u w) attempt req) (ret (i'', attempt))))
        (\<lambda>_. safe h) (\<lambda>_. safe h) u" by simp
  qed (rule safe_stays [OF u])
  then show ?thesis
    using safe_stays [OF u] item
    by (simp add: complete_held_def check_token_def check_live_def wp_thenE wp_check wp_ret wp_raise
          lease_active_at_def)
qed

lemma safe_complete: "keeps (safe h) (complete_work h w k tok r)"
proof (rule keeps_safeI)
  fix t s assume s: "stays h t (\<lambda>_. True) s"
  show "wp (complete_work h w k tok r) (\<lambda>_. safe h) (\<lambda>_. safe h) s"
    unfolding complete_work_def
  proof (intro wp_guard wp_after_adopt [OF s] wp_bind_item)
    fix req u and item :: work_item
    assume u: "stays h t (\<lambda>_. True) u" and item: "wi_work_id item = w"
    let ?now = "utc_now h (lg_clock u)" and ?v = "u\<lparr>lg_clock := Suc (lg_clock u)\<rparr>"
    have v: "stays h ?now (\<lambda>_. True) ?v" by (rule stays_now [OF u])
    have same: "attempts_of u w = attempts_of ?v w" by (simp add: attempts_of_def)
    show "wp (bindE (list_attempts_of w) (\<lambda>pa. bindE (now_op h) (\<lambda>now.
        bindE (require_work_attempt k) (complete_held h tok r req item pa now))))
      (\<lambda>_. safe h) (\<lambda>_. safe h) u"
      unfolding wp_bindE wp_list_attempts_of [OF stays_records [OF u]] wp_now_op same
      by (rule wp_require_work_attempt [OF stays_records [OF v]])
         (auto intro: wp_complete_held [OF v _ item] safe_stays [OF v])
  qed (simp_all add: safe_stays [OF s] safe_stays stays_records)
qed

subsection \<open>Coordinators\<close>

lemma keeps_cancel_commit:
  assumes "holders_ok t (set pa)"
  shows "keeps (stays h t (\<lambda>_. True))
    (commit_lifecycle_with_request h op pi it pa (map (cancelled_attempt reason now) pa) req)"
proof (rule keeps_commit_request)
  show "holders_ok t (set (pa @ map (cancelled_attempt reason now) pa))"
    unfolding set_append set_map using assms
    by (intro holders_ok_closed) (auto simp: cancelled_attempt_def lease_active_at_def)
qed simp

lemma keeps_stays_cancel: "keeps (stays h t (\<lambda>_. True)) (cancel_work_checked h w reason er)"
  unfolding cancel_work_checked_def Let_def
  by (intro ledger_intro keeps_bind_attempts_of keeps_cancel_commit) auto

lemma keeps_stays_assign: "keeps (stays h t (\<lambda>_. True)) (assign_work h w ag er)"
  unfolding assign_work_def Let_def
  by (intro keeps_bindE [OF keeps_adopt] keeps_bindE [OF keeps_loads(12)] keeps_bind_attempts_of ledger_intro)
     auto

lemma keeps_stays_retry: "keeps (stays h t (\<lambda>_. True)) (retry_work h w reason er)"
  unfolding retry_work_def
  by (intro keeps_bindE [OF keeps_adopt] keeps_bindE [OF keeps_loads(12)] keeps_bind_attempts_of ledger_intro)
     auto

lemma keeps_approve_commit:
  assumes "holders_ok t (set pa)" "last_attempt states pa = Some held"
    and "wa_attempt_id upd = wa_attempt_id held" "wa_work_id upd = wa_work_id held"
    and "lease_active_at upd t \<Longrightarrow> lease_active_at held t"
  shows "keeps (stays h t (\<lambda>_. True))
    (commit_lifecycle_with_request h op pi it pa (replace_awaiting upd pa) req)"
proof (rule keeps_commit_request)
  have "held \<in> set pa"
    using find_in_set [of _ "rev pa" held] assms(2) by (simp add: last_attempt_def)
  then show "holders_ok t (set (pa @ replace_awaiting upd pa))"
    unfolding set_append
    using assms by (intro holders_ok_update [where held = held and upd = upd] replace_awaiting_subset) auto
qed simp

lemma keeps_approve_parts:
  assumes "holders_ok t (set pa)" "last_attempt {A_AwaitingApproval} pa = Some awaiting"
    and "a = awaiting\<lparr>wa_terminal_reason := x, wa_updated_at := y\<rparr>"
  shows "keeps (stays h t (\<lambda>_. True)) (approve_candidate h ap pi pa a req)"
    and "keeps (stays h t (\<lambda>_. True)) (approve_ordinary h ap pi pa a req)"
proof -
  show "keeps (stays h t (\<lambda>_. True)) (approve_candidate h ap pi pa a req)"
    unfolding approve_candidate_def Let_def
    by (intro ledger_intro keeps_approve_commit [OF assms(1,2)])
       (auto simp: assms(3) lease_active_at_def)
  have "keeps (stays h t (\<lambda>_. True)) (bindE (bump h i) (\<lambda>item.
      thenE (commit_lifecycle_with_request h O_Approve pi item pa (replace_awaiting (a\<lparr>wa_state := A_Succeeded\<rparr>) pa) req)
        (ret (item, a\<lparr>wa_state := A_Succeeded\<rparr>))))" for i
    by (intro ledger_intro keeps_approve_commit [OF assms(1,2)])
       (auto simp: assms(3) lease_active_at_def)
  then show "keeps (stays h t (\<lambda>_. True)) (approve_ordinary h ap pi pa a req)"
    unfolding approve_ordinary_def assign_work_succeeded_def keeps_wp
    by (auto simp: wp split: sum.split)
qed

lemma keeps_stays_approve: "keeps (stays h t (\<lambda>_. True)) (approve_work h w rid msg er)"
proof -
  have gate: "keeps (stays h t (\<lambda>_. True)) (bindE (some_or e (last_attempt {A_AwaitingApproval} pa)) f)"
    if "\<And>a. last_attempt {A_AwaitingApproval} pa = Some a \<Longrightarrow> keeps (stays h t (\<lambda>_. True)) (f a)"
    for e pa and f :: "work_attempt \<Rightarrow> (work_item \<times> work_attempt) ledger_op"
    using that by (cases "last_attempt {A_AwaitingApproval} pa") (auto simp: keeps_wp wp)
  have list: "keeps (stays h t (\<lambda>_. True)) (bindE (list_attempts_of w) (\<lambda>pa.
      bindE (some_or e (last_attempt {A_AwaitingApproval} pa)) (\<lambda>aw.
        let a = aw\<lparr>wa_terminal_reason := Some (''approved by '' @ rid), wa_updated_at := at\<rparr>
        in if c then approve_candidate h ap pi pa a req else approve_ordinary h ap pi pa a req)))"
    for e c ap pi req at
    unfolding Let_def
    by (intro keeps_bind_attempts_of gate keeps_if keeps_approve_parts) auto
  show ?thesis
    unfolding approve_work_def
    by (unfold Let_def [of "approval_of _ _ _"], intro keeps_bindE [OF keeps_now] keeps_thenE
          keeps_simple(3) keeps_bindE [OF keeps_adopt] keeps_bindE [OF keeps_loads(12)] keeps_if list)
       (intro ledger_intro)+
qed

subsection \<open>Claiming\<close>

definition idle :: "string \<Rightarrow> time \<Rightarrow> work_attempt \<Rightarrow> bool" where
  "idle w now a = (wa_work_id a = w \<longrightarrow> \<not> lease_active_at a now)"

lemma keeps_claim_expire: "keeps (stays h t (idle w now)) (claim_expire h now a i)"
proof -
  have "idle w now (expired a now)" by (simp add: idle_def)
  then show ?thesis unfolding claim_expire_def by (intro ledger_intro keeps_expire)
qed

lemma keeps_claim_commit:
  assumes "holders_ok t (set pa)" "\<And>a. a \<in> set pa \<Longrightarrow> \<not> lease_active_at a t"
  shows "keeps (stays h t (\<lambda>_. True)) (commit_lifecycle_with_request h op pi it pa (pa @ [new]) req)"
proof (rule keeps_commit_request)
  have "holders_ok t (insert new (set pa))"
    using assms by (intro holders_ok_first) auto
  then show "holders_ok t (set (pa @ pa @ [new]))" by (simp add: insert_absorb)
qed simp

lemma keeps_new_attempt [ledger_intro]: "keeps (stays h t P) (new_attempt h i c sec)"
  unfolding new_attempt_def by (intro ledger_intro)

lemma wp_claim_checked:
  assumes s: "stays h now (idle w now) s"
  shows "wp (claim_checked h w c lease sec req now item) (\<lambda>_. safe h) (\<lambda>_. safe h) s"
proof -
  have commit: "wp (bindE (list_attempts_of w) (\<lambda>pa.
        bindE (bump h i) (\<lambda>leased.
        thenE (commit_lifecycle_with_request h O_Claim item leased pa (pa @ [a]) req)
          (ret \<lparr>cl_work = leased, cl_attempt = a, cl_lease_token = tok\<rparr>))))
      (\<lambda>_. safe h) (\<lambda>_. safe h) u"
    if u: "stays h now (idle w now) u" for u a tok i
  proof -
    let ?pa = "attempts_of u w"
    have pa: "holders_ok now (set ?pa)"
      using stays_holders [OF u] by (rule holders_ok_subset) (auto simp: set_attempts_of)
    have quiet: "\<not> lease_active_at x now" if "x \<in> set ?pa" for x
      using u that by (auto simp: stays_def set_attempts_of idle_def)
    have "keeps (stays h now (\<lambda>_. True)) (bindE (bump h i) (\<lambda>leased.
        thenE (commit_lifecycle_with_request h O_Claim item leased ?pa (?pa @ [a]) req)
          (ret \<lparr>cl_work = leased, cl_attempt = a, cl_lease_token = tok\<rparr>)))"
      by (intro keeps_bindE keeps_bump keeps_thenE keeps_simple keeps_claim_commit [OF pa quiet])
    from wp_safe [OF this stays_weaken [OF u]] show ?thesis
      by (simp add: wp_bindE wp_list_attempts_of [OF stays_records [OF u]])
  qed
  note chain = wp_bind_keeps [where I = "stays h now (idle w now)" and J = "safe h"]
    wp_thenE_keeps [where I = "stays h now (idle w now)" and J = "safe h"]
  show ?thesis
    unfolding claim_checked_def Let_def
    by (rule chain, rule ledger_intro, rule s)
       (auto intro!: chain ledger_intro commit safe_stays split: prod.split)
qed

lemma wp_claim_refreshed:
  assumes u: "stays h t (\<lambda>_. True) u"
  shows "wp (claim_refreshed h w c lease sec req item) (\<lambda>_. safe h) (\<lambda>_. safe h) u"
proof -
  let ?now = "utc_now h (lg_clock u)" and ?v = "u\<lparr>lg_clock := Suc (lg_clock u)\<rparr>"
  have v: "stays h ?now (\<lambda>_. True) ?v" by (rule stays_now [OF u])
  have "stays h ?now (idle w ?now) ?v"
    if "find (\<lambda>a. lease_active_at a ?now) (attempts_of ?v w) = None"
    using v that by (auto simp: stays_def idle_def find_None_iff set_attempts_of)
  moreover have "wp (bindE (fold_op (claim_expire h ?now) as item)
      (claim_checked h w c lease sec req ?now)) (\<lambda>_. safe h) (\<lambda>_. safe h) ?v"
    if "stays h ?now (idle w ?now) ?v" for as
    by (rule wp_bind_keeps [where I = "stays h ?now (idle w ?now)"])
       (auto intro: that safe_stays keeps_fold_op keeps_claim_expire wp_claim_checked)
  ultimately show ?thesis
    using safe_stays [OF v]
    by (simp add: claim_refreshed_def wp_bindE wp_thenE wp_now_op wp_map_err active_attempt_def wp_check
          wp_ret wp_list_attempts [OF stays_records [OF v]] wp_list_attempts_of [OF stays_records [OF v]])
qed

lemma safe_claim_inner: "keeps (safe h) (claim_work_inner h w c ms sec fence)"
proof (rule keeps_safeI)
  fix t s assume s: "stays h t (\<lambda>_. True) s"
  let ?I = "stays h t (\<lambda>_. True)"
  note chain = wp_bind_keeps [where I = ?I and J = "safe h"] wp_thenE_keeps [where I = ?I and J = "safe h"]
  have fence: "keeps ?I (require_managed_grok_claim_fence h i c f)" for i f
    unfolding require_managed_grok_claim_fence_def by (intro ledger_intro)
  show "wp (claim_work_inner h w c ms sec fence) (\<lambda>_. safe h) (\<lambda>_. safe h) s"
    unfolding claim_work_inner_def
    by (rule chain, rule keeps_adopt, rule s)
       (auto intro!: chain ledger_intro fence wp_claim_refreshed safe_stays)
qed

lemma safe_claims:
  "keeps (safe h) (claim_work h w c ms)"
  "keeps (safe h) (claim_work_with_lease_secret h w c ms secret)"
  "keeps (safe h) (claim_managed_grok_work_with_lease_secret h w c ms secret f)"
  unfolding claim_work_def claim_work_with_lease_secret_def claim_managed_grok_work_with_lease_secret_def
  by (intro safe_claim_inner keeps_thenE keeps_simple)+

end

end
