(* ===== verification/Ledger_Machine.thy ===== *)
theory Ledger_Machine
  imports Lease_Safety
begin

section \<open>The ledger as a state machine\<close>

text \<open>
  Every public operation of the modelled part of the store as one transition, with a
  restart that loses the process-local fields, the part of \<open>OrchStore::open\<close> that recovers
  and reconciles the ledger, and writes of runs, agents and check authorities by other
  components. An operation that fails, at whatever durable write, is a transition too: its
  partial effects stay. \<open>save_work_item_unchecked\<close>, which imports records for migration, is
  not a transition.
\<close>

subsection \<open>Opening the store\<close>

definition restart :: "ledger \<Rightarrow> ledger" where
  "restart s = s\<lparr>lg_admission_closed := None, lg_last_run_error := None, lg_operation_request := None\<rparr>"

definition orphaned :: "idempotency_receipt \<Rightarrow> idempotency_receipt" where
  "orphaned r = r\<lparr>ir_status := ''failed'',
     ir_error := Some (orch_error_new Internal
       ''mutation was interrupted before its durable receipt completed; use a new request_id'')\<rparr>"

text \<open>
  \<open>fail_orphaned_idempotency_claims\<close> without the receipts that unresolved apply intents
  guard: apply intents belong to the part of the store that is not modelled.
\<close>

definition fail_orphaned_idempotency_claims :: "host \<Rightarrow> unit store_op" where
  "fail_orphaned_idempotency_claims h =
     bindE (gets (\<lambda>s. (lg_receipts s, lg_legacy_receipts s))) (\<lambda>(receipts, legacy).
     thenE
       (for_each (filter (\<lambda>(k, r). ir_status r = ''pending'') receipts) (\<lambda>(k, r).
          durable h (\<lambda>s. s\<lparr>lg_receipts := dir_put k (orphaned r) (lg_receipts s)\<rparr>)))
       (for_each (filter (\<lambda>((owner, req), r). ir_status r = ''pending''
              \<and> \<not> (is_ok (receipt_scope r) \<and> safe_id_filename (ir_request_id r) = Inr req
                   \<and> ir_owner_id r = owner)) legacy) (\<lambda>(k, r).
          durable h (\<lambda>s. s\<lparr>lg_legacy_receipts := dir_put k (orphaned r) (lg_legacy_receipts s)\<rparr>))))"

definition open_ledger :: "host \<Rightarrow> unit store_op" where
  "open_ledger h =
     thenE (modify restart)
     (thenE (map_err Typed (recover_work_mutation_intents h))
     (thenE (map_err Typed (recover_work_lifecycle_intents h))
     (thenE (fail_orphaned_idempotency_claims h)
     (bindE (reconcile_workloads h) (\<lambda>_. ret ())))))"

subsection \<open>Calls\<close>

datatype ledger_call =
    C_SaveItem work_item
  | C_Claim string string "nat option" "string option"
  | C_ClaimManaged string string "nat option" string managed_grok_claim_fence
  | C_Renew string string string "nat option"
  | C_LinkRun string string string string
  | C_Progress string string string work_progress
  | C_Park string string string string
  | C_Release string string string string
  | C_Complete string string string work_result
  | C_Fail string string string work_result
  | C_Cancel string string "u64 option"
  | C_Assign string "string option" "u64 option"
  | C_Offer string string string "string option" string "u64 option" time
  | C_Accept string string string string "u64 option" time
  | C_Decline string string string string "u64 option" time
  | C_Reassign string string string "string option" string "u64 option" time
  | C_Reprioritize string int string string "u64 option" time
  | C_Block string string string "u64 option" time
  | C_Unblock string string string "u64 option" time
  | C_RequestReview string string string "u64 option" time
  | C_Authorize string string "string option" string "u64 option" time
  | C_Retry string string "u64 option"
  | C_Approve string string "string option" "u64 option"
  | C_Reconcile time
  | C_BindRequest work_request_binding
  | C_DropRequest
  | C_ClaimReceipt idempotency_scope string string string
  | C_CompleteReceipt idempotency_scope string string string "string option" response
  | C_FailReceipt idempotency_scope string string string "string option" orch_error
  | C_Restart
  | C_Open

fun run_call :: "host \<Rightarrow> ledger_call \<Rightarrow> ledger \<Rightarrow> ledger" where
  "run_call h (C_SaveItem i) s = snd (save_work_item h i s)"
| "run_call h (C_Claim w c ms None) s = snd (claim_work h w c ms s)"
| "run_call h (C_Claim w c ms (Some sec)) s = snd (claim_work_with_lease_secret h w c ms sec s)"
| "run_call h (C_ClaimManaged w c ms sec f) s =
     snd (claim_managed_grok_work_with_lease_secret h w c ms sec f s)"
| "run_call h (C_Renew w a tok ms) s = snd (renew_work_lease h w a tok ms s)"
| "run_call h (C_LinkRun w a tok r) s = snd (link_work_run h w a tok r s)"
| "run_call h (C_Progress w a tok p) s = snd (report_work_progress h w a tok p s)"
| "run_call h (C_Park w a tok r) s = snd (park_work_input h w a tok r s)"
| "run_call h (C_Release w a tok r) s = snd (release_work h w a tok r s)"
| "run_call h (C_Complete w a tok r) s = snd (complete_work h w a tok r s)"
| "run_call h (C_Fail w a tok r) s = snd (fail_work h w a tok r s)"
| "run_call h (C_Cancel w r e) s = snd (cancel_work_checked h w r e s)"
| "run_call h (C_Assign w a e) s = snd (assign_work h w a e s)"
| "run_call h (C_Offer w ag ac aa r e t) s = snd (offer_work h w ag ac aa r e t s)"
| "run_call h (C_Accept w ag ac r e t) s = snd (accept_work h w ag ac r e t s)"
| "run_call h (C_Decline w ag ac r e t) s = snd (decline_work h w ag ac r e t s)"
| "run_call h (C_Reassign w ag ac aa r e t) s = snd (reassign_work h w ag ac aa r e t s)"
| "run_call h (C_Reprioritize w p ac r e t) s = snd (reprioritize_work h w p ac r e t s)"
| "run_call h (C_Block w ac r e t) s = snd (block_work h w ac r e t s)"
| "run_call h (C_Unblock w ac r e t) s = snd (unblock_work h w ac r e t s)"
| "run_call h (C_RequestReview w ac r e t) s = snd (request_work_review h w ac r e t s)"
| "run_call h (C_Authorize w ac aa r e t) s = snd (authorize_work_execution h w ac aa r e t s)"
| "run_call h (C_Retry w r e) s = snd (retry_work h w r e s)"
| "run_call h (C_Approve w r n e) s = snd (approve_work h w r n e s)"
| "run_call h (C_Reconcile t) s = snd (reconcile_workloads_at h t s)"
| "run_call h (C_BindRequest b) s = snd (bind_work_request b s)"
| "run_call h C_DropRequest s = drop_bound_work_request s"
| "run_call h (C_ClaimReceipt sc tool r p) s = snd (claim_idempotency h sc tool r p s)"
| "run_call h (C_CompleteReceipt sc tool r p run resp) s = snd (complete_idempotency h sc tool r p run resp s)"
| "run_call h (C_FailReceipt sc tool r p run e) s = snd (fail_idempotency h sc tool r p run e s)"
| "run_call h C_Restart s = restart s"
| "run_call h C_Open s = snd (open_ledger h s)"

inductive ledger_step :: "host \<Rightarrow> ledger \<Rightarrow> ledger \<Rightarrow> bool" for h where
  call: "ledger_step h s (run_call h c s)"
| runs_written: "ledger_step h s (s\<lparr>lg_runs := r\<rparr>)"
| agents_written: "ledger_step h s (s\<lparr>lg_agents := g\<rparr>)"
| authority_written: "ledger_step h s (s\<lparr>lg_check_authority := c\<rparr>)"

inductive_cases ledger_stepE: "ledger_step h s t"

definition ledger_start :: "ledger \<Rightarrow> bool" where
  "ledger_start s \<longleftrightarrow>
     lg_items s = [] \<and> lg_attempts s = [] \<and> lg_decisions s = [] \<and> lg_mutations s = []
     \<and> lg_lifecycles s = [] \<and> lg_receipts s = [] \<and> lg_legacy_receipts s = []"

subsection \<open>Exclusive leases in every reachable state\<close>

lemma stays_env [simp]:
  "stays h t P (s\<lparr>lg_runs := x1\<rparr>) = stays h t P s"
  "stays h t P (s\<lparr>lg_agents := x2\<rparr>) = stays h t P s"
  "stays h t P (s\<lparr>lg_check_authority := x3\<rparr>) = stays h t P s"
  by (simp_all add: stays_def ledger_ok_def records_ok_def attempts_set_def)

lemma stays_restart [simp]: "stays h t P (restart s) = stays h t P s"
  by (simp add: restart_def)

lemma keeps_modify: "(\<And>s. I s \<Longrightarrow> I (f s)) \<Longrightarrow> keeps I (modify f)"
  by (simp add: keeps_wp wp)

lemma keeps_fail_orphaned [ledger_intro]: "keeps (stays h t P) (fail_orphaned_idempotency_claims g)"
  unfolding fail_orphaned_idempotency_claims_def
  by (intro ledger_intro keeps_durable) auto

lemmas decision_ops = offer_work_def accept_work_def decline_work_def reassign_work_def
  reprioritize_work_def block_work_def unblock_work_def request_work_review_def
  authorize_work_execution_def

context sound_host
begin

lemma keeps_open: "keeps (stays h t (\<lambda>_. True)) (open_ledger h)"
  unfolding open_ledger_def by (intro ledger_intro keeps_modify) simp_all

lemma run_call_safe: "safe h s \<Longrightarrow> safe h (run_call h c s)"
proof -
  assume s: "safe h s"
  have k: "keeps (safe h) m \<Longrightarrow> safe h (snd (m s))" for m :: "(ledger, 'e, 'a) op"
    using s by (simp add: keeps_def)
  have st: "(\<And>t. keeps (stays h t (\<lambda>_. True)) m) \<Longrightarrow> safe h (snd (m s))" for m :: "(ledger, 'e, 'a) op"
    by (rule k [OF keeps_safe])
  have "safe h (snd (save_work_item h i s))" for i by (intro st ledger_intro)
  moreover have "safe h (snd (mutate_assignment h r f s))" for r f by (intro st ledger_intro)
  moreover have "safe h (snd (claim_idempotency h sc tool r p s))"
    "safe h (snd (finish_idempotency h sc tool r p run resp err status s))"
    "safe h (snd (bind_work_request b s))" for sc tool r p run resp err status b
    by (intro st ledger_intro)+
  moreover have "safe h (snd (reconcile_workloads_at h t s))" for t by (intro st ledger_intro)
  moreover have "safe h (restart s)" "safe h (drop_bound_work_request s)"
    using s by (auto simp: safe_def drop_bound_work_request_def)
  ultimately show ?thesis
    by (cases "(h, c, s)" rule: run_call.cases)
       (auto simp: decision_ops complete_idempotency_def fail_idempotency_def
          intro!: k [OF safe_renew] k [OF safe_link_run] k [OF safe_progress] k [OF safe_park]
            k [OF safe_release] k [OF safe_complete] k [OF safe_fail] k [OF safe_claims(1)]
            k [OF safe_claims(2)] k [OF safe_claims(3)] st [OF keeps_stays_cancel]
            st [OF keeps_stays_assign] st [OF keeps_stays_retry] st [OF keeps_stays_approve]
            st [OF keeps_open])
qed

lemma step_safe: "ledger_step h s t \<Longrightarrow> safe h s \<Longrightarrow> safe h t"
proof (erule ledger_stepE)
  show "t = run_call h c s \<Longrightarrow> safe h s \<Longrightarrow> safe h t" for c by (simp add: run_call_safe)
qed (auto simp: safe_def)

lemma start_safe: "ledger_start s \<Longrightarrow> safe h s"
  by (auto simp: ledger_start_def safe_def stays_def ledger_ok_def records_ok_def attempts_set_def
        dir_list_def holders_ok_def intro!: exI [of _ "utc_now h (lg_clock s)"])

end

sublocale sound_host \<subseteq> lease: invariant_machine ledger_start "ledger_step h" "safe h"
  by unfold_locales (auto intro: start_safe step_safe)

context sound_host
begin

lemma reachable_safe: "ledger_start s \<Longrightarrow> (ledger_step h)\<^sup>*\<^sup>* s t \<Longrightarrow> safe h t"
  by (rule lease.reach_inv)

end

end
