(* ===== verification/Canonical_Encoding.thy ===== *)
theory Canonical_Encoding
  imports Workload
begin

section \<open>An injective encoding of work records\<close>

text \<open>
  \<open>hash_payload\<close> serialises a record and takes its SHA-256 digest. The safety theorems rely
  on it only through one named hypothesis: two different items, and two different attempts,
  have different digests. This theory shows that the hypothesis can hold. It writes out a
  prefix-free serialisation of every field of the work item and the attempt, and proves it
  injective; \<open>exact_host\<close> uses the serialisation itself as the digest. The witnesses run the
  ledger on that host.
\<close>

subsection \<open>Base types\<close>

function enc_nat :: "nat \<Rightarrow> string" where
  "enc_nat n =
     (if n = 0 then ''.'' else (if even n then ''0'' else ''1'') @ enc_nat (n div 2))"
  by pat_completeness auto
termination by (relation "measure id") auto

declare enc_nat.simps [simp del]

lemma enc_nat_iff [simp]: "enc_nat m @ r = enc_nat n @ s \<longleftrightarrow> m = n \<and> r = s"
proof (induction m arbitrary: n rule: less_induct)
  case (less m)
  show ?case
  proof (cases "m = 0 \<or> n = 0")
    case True
    then show ?thesis
      by (auto simp: enc_nat.simps [of m] enc_nat.simps [of n] enc_nat.simps [of 0])
  next
    case False
    then have "enc_nat (m div 2) @ r = enc_nat (n div 2) @ s \<longleftrightarrow> m div 2 = n div 2 \<and> r = s"
      by (intro less) simp
    moreover have "m = n \<longleftrightarrow> (even m \<longleftrightarrow> even n) \<and> m div 2 = n div 2"
      by (metis even_two_times_div_two odd_two_times_div_two_succ)
    ultimately show ?thesis
      using False by (auto simp: enc_nat.simps [of m] enc_nat.simps [of n])
  qed
qed

definition enc_int :: "int \<Rightarrow> string" where
  "enc_int i = (if i < 0 then ''-'' else ''+'') @ enc_nat (nat \<bar>i\<bar>)"

lemma enc_int_iff [simp]: "enc_int i @ r = enc_int j @ s \<longleftrightarrow> i = j \<and> r = s"
  by (auto simp: enc_int_def)

definition enc_u64 :: "u64 \<Rightarrow> string" where
  "enc_u64 w = enc_nat (unat w)"

lemma enc_u64_iff [simp]: "enc_u64 v @ r = enc_u64 w @ s \<longleftrightarrow> v = w \<and> r = s"
  by (simp add: enc_u64_def word_unat_eq_iff)

definition enc_bool :: "bool \<Rightarrow> string" where
  "enc_bool b = (if b then ''t'' else ''f'')"

lemma enc_bool_iff [simp]: "enc_bool b @ r = enc_bool c @ s \<longleftrightarrow> b = c \<and> r = s"
  by (auto simp: enc_bool_def)

fun enc_list :: "('a \<Rightarrow> string) \<Rightarrow> 'a list \<Rightarrow> string" where
  "enc_list e [] = '']''"
| "enc_list e (x # xs) = '','' @ e x @ enc_list e xs"

lemma enc_list_iff [simp]:
  assumes "\<And>x y r s. e x @ r = e y @ s \<longleftrightarrow> x = y \<and> r = s"
  shows "enc_list e xs @ r = enc_list e ys @ s \<longleftrightarrow> xs = ys \<and> r = s"
proof (induction xs arbitrary: ys)
  case Nil
  then show ?case by (cases ys) auto
next
  case (Cons x xs)
  then show ?case by (cases ys) (auto simp: assms)
qed

fun enc_option :: "('a \<Rightarrow> string) \<Rightarrow> 'a option \<Rightarrow> string" where
  "enc_option e None = ''n''"
| "enc_option e (Some x) = ''s'' @ e x"

lemma enc_option_iff [simp]:
  assumes "\<And>x y r s. e x @ r = e y @ s \<longleftrightarrow> x = y \<and> r = s"
  shows "enc_option e v @ r = enc_option e w @ s \<longleftrightarrow> v = w \<and> r = s"
  by (cases v; cases w) (auto simp: assms)

definition enc_string :: "string \<Rightarrow> string" where
  "enc_string = enc_list (\<lambda>c. [c])"

lemma enc_string_iff [simp]: "enc_string v @ r = enc_string w @ s \<longleftrightarrow> v = w \<and> r = s"
  by (simp add: enc_string_def)

subsection \<open>Enumerations and records\<close>

fun enc_work_state :: "work_state \<Rightarrow> string" where
  "enc_work_state W_Queued = ''a''"
| "enc_work_state W_Blocked = ''b''"
| "enc_work_state W_Leased = ''c''"
| "enc_work_state W_Running = ''d''"
| "enc_work_state W_AwaitingInput = ''e''"
| "enc_work_state W_AwaitingApproval = ''f''"
| "enc_work_state W_Review = ''g''"
| "enc_work_state W_Succeeded = ''h''"
| "enc_work_state W_Failed = ''i''"
| "enc_work_state W_Cancelled = ''j''"

lemma enc_work_state_iff [simp]: "enc_work_state x @ r = enc_work_state y @ s \<longleftrightarrow> x = y \<and> r = s"
  by (cases x; cases y) simp_all

fun enc_assignment_status :: "assignment_status \<Rightarrow> string" where
  "enc_assignment_status Unassigned = ''a''"
| "enc_assignment_status Offered = ''b''"
| "enc_assignment_status Accepted = ''c''"
| "enc_assignment_status Declined = ''d''"

lemma enc_assignment_status_iff [simp]: "enc_assignment_status x @ r = enc_assignment_status y @ s \<longleftrightarrow> x = y \<and> r = s"
  by (cases x; cases y) simp_all

fun enc_attempt_state :: "attempt_state \<Rightarrow> string" where
  "enc_attempt_state A_Leased = ''a''"
| "enc_attempt_state A_Running = ''b''"
| "enc_attempt_state A_AwaitingInput = ''c''"
| "enc_attempt_state A_AwaitingApproval = ''d''"
| "enc_attempt_state A_Review = ''e''"
| "enc_attempt_state A_Released = ''f''"
| "enc_attempt_state A_Expired = ''g''"
| "enc_attempt_state A_Succeeded = ''h''"
| "enc_attempt_state A_Failed = ''i''"
| "enc_attempt_state A_Cancelled = ''j''"

lemma enc_attempt_state_iff [simp]: "enc_attempt_state x @ r = enc_attempt_state y @ s \<longleftrightarrow> x = y \<and> r = s"
  by (cases x; cases y) simp_all

fun enc_block_provenance :: "block_provenance \<Rightarrow> string" where
  "enc_block_provenance Derived = ''a''"
| "enc_block_provenance Manual = ''b''"

lemma enc_block_provenance_iff [simp]: "enc_block_provenance x @ r = enc_block_provenance y @ s \<longleftrightarrow> x = y \<and> r = s"
  by (cases x; cases y) simp_all

fun enc_required_check_cwd :: "required_check_cwd \<Rightarrow> string" where
  "enc_required_check_cwd Candidate = ''a''"
| "enc_required_check_cwd Oracle = ''b''"

lemma enc_required_check_cwd_iff [simp]: "enc_required_check_cwd x @ r = enc_required_check_cwd y @ s \<longleftrightarrow> x = y \<and> r = s"
  by (cases x; cases y) simp_all

fun enc_managed_work_mode :: "managed_work_mode \<Rightarrow> string" where
  "enc_managed_work_mode MM_Inherit = ''a''"
| "enc_managed_work_mode MM_Forbid = ''b''"

lemma enc_managed_work_mode_iff [simp]: "enc_managed_work_mode x @ r = enc_managed_work_mode y @ s \<longleftrightarrow> x = y \<and> r = s"
  by (cases x; cases y) simp_all

definition enc_completion_claims :: "completion_claims \<Rightarrow> string" where
  "enc_completion_claims r =
     enc_bool (cc_present r) @ enc_bool (cc_mentions_changes r)
      @ enc_bool (cc_mentions_tests r) @ enc_bool (cc_mentions_verification r)"

lemma enc_completion_claims_iff [simp]:
  "enc_completion_claims x @ r = enc_completion_claims y @ s \<longleftrightarrow> x = y \<and> r = s"
  for x y :: completion_claims
  by (cases x; cases y) (auto simp: enc_completion_claims_def)

definition enc_completion_observations :: "completion_observations \<Rightarrow> string" where
  "enc_completion_observations r =
     enc_nat (co_changed_files r) @ enc_nat (co_tests_observed r) @ enc_nat (co_tests_passed r)
      @ enc_nat (co_tests_failed r) @ enc_nat (co_tests_incomplete r)
      @ enc_nat (co_permissions_requested r) @ enc_nat (co_permissions_granted r)
      @ enc_nat (co_permissions_denied r) @ enc_nat (co_permissions_unresolved r)"

lemma enc_completion_observations_iff [simp]:
  "enc_completion_observations x @ r = enc_completion_observations y @ s \<longleftrightarrow> x = y \<and> r = s"
  for x y :: completion_observations
  by (cases x; cases y) (auto simp: enc_completion_observations_def)

definition enc_completion_usage :: "completion_usage \<Rightarrow> string" where
  "enc_completion_usage r =
     enc_nat (cu_prompt_tokens r) @ enc_nat (cu_completion_tokens r)
      @ enc_nat (cu_total_tokens r) @ enc_nat (cu_requests r)"

lemma enc_completion_usage_iff [simp]:
  "enc_completion_usage x @ r = enc_completion_usage y @ s \<longleftrightarrow> x = y \<and> r = s"
  for x y :: completion_usage
  by (cases x; cases y) (auto simp: enc_completion_usage_def)

definition enc_completion_evidence :: "completion_evidence \<Rightarrow> string" where
  "enc_completion_evidence r =
     enc_string (ce_status r) @ enc_string (ce_stop_reason r) @ enc_bool (ce_interrupted r)
      @ enc_completion_claims (ce_claims r) @ enc_completion_observations (ce_observations r)
      @ enc_completion_usage (ce_usage r) @ enc_option enc_string (ce_work_id r)
      @ enc_option enc_string (ce_run_id r) @ enc_option enc_string (ce_attempt_id r)"

lemma enc_completion_evidence_iff [simp]:
  "enc_completion_evidence x @ r = enc_completion_evidence y @ s \<longleftrightarrow> x = y \<and> r = s"
  for x y :: completion_evidence
  by (cases x; cases y) (auto simp: enc_completion_evidence_def)

definition enc_required_check_env :: "required_check_env \<Rightarrow> string" where
  "enc_required_check_env r =
     enc_string (env_key r) @ enc_string (env_value r)"

lemma enc_required_check_env_iff [simp]:
  "enc_required_check_env x @ r = enc_required_check_env y @ s \<longleftrightarrow> x = y \<and> r = s"
  for x y :: required_check_env
  by (cases x; cases y) (auto simp: enc_required_check_env_def)

definition enc_required_check_spec :: "required_check_spec \<Rightarrow> string" where
  "enc_required_check_spec r =
     enc_string (rc_check_id r) @ enc_string (rc_executable r)
      @ enc_list enc_string (rc_args r) @ enc_required_check_cwd (rc_cwd r)
      @ enc_list enc_required_check_env (rc_env r) @ enc_nat (rc_timeout_ms r)
      @ enc_nat (rc_max_output_bytes r)"

lemma enc_required_check_spec_iff [simp]:
  "enc_required_check_spec x @ r = enc_required_check_spec y @ s \<longleftrightarrow> x = y \<and> r = s"
  for x y :: required_check_spec
  by (cases x; cases y) (auto simp: enc_required_check_spec_def)

definition enc_candidate_file_record :: "candidate_file_record \<Rightarrow> string" where
  "enc_candidate_file_record r =
     enc_string (cf_path r) @ enc_string (cf_digest r) @ enc_string (cf_kind r)"

lemma enc_candidate_file_record_iff [simp]:
  "enc_candidate_file_record x @ r = enc_candidate_file_record y @ s \<longleftrightarrow> x = y \<and> r = s"
  for x y :: candidate_file_record
  by (cases x; cases y) (auto simp: enc_candidate_file_record_def)

definition enc_required_check_execution :: "required_check_execution \<Rightarrow> string" where
  "enc_required_check_execution r =
     enc_string (rx_check_id r) @ enc_string (rx_outcome r)
      @ enc_option enc_int (rx_exit_code r) @ enc_string (rx_output_digest r)
      @ enc_bool (rx_output_truncated r) @ enc_nat (rx_duration_ms r)
      @ enc_string (rx_spec_digest r)"

lemma enc_required_check_execution_iff [simp]:
  "enc_required_check_execution x @ r = enc_required_check_execution y @ s \<longleftrightarrow> x = y \<and> r = s"
  for x y :: required_check_execution
  by (cases x; cases y) (auto simp: enc_required_check_execution_def)

definition enc_candidate_verification :: "candidate_verification \<Rightarrow> string" where
  "enc_candidate_verification r =
     enc_nat (cv_schema_version r) @ enc_string (cv_work_id r)
      @ enc_option enc_string (cv_run_id r) @ enc_option enc_string (cv_attempt_id r)
      @ enc_string (cv_source_revision r) @ enc_string (cv_source_fingerprint r)
      @ enc_string (cv_content_digest r) @ enc_string (cv_spec_digest r)
      @ enc_list enc_candidate_file_record (cv_files r)
      @ enc_list enc_required_check_execution (cv_checks r) @ enc_bool (cv_worker_stopped r)
      @ enc_bool (cv_change_proposed r) @ enc_bool (cv_checks_passed r)
      @ enc_bool (cv_invalidated r) @ enc_bool (cv_applied r)
      @ enc_option enc_string (cv_diff_digest r) @ enc_list enc_string (cv_changed_paths r)
      @ enc_string (cv_bounded_diff r) @ enc_bool (cv_diff_truncated r)
      @ enc_bool (cv_reconciliation_required r) @ enc_string (cv_check_profile_id r)
      @ enc_nat (cv_check_profile_revision r) @ enc_string (cv_check_authority_digest r)
      @ enc_string (cv_apply_bundle_digest r) @ enc_string (cv_execution_envelope_digest r)"

lemma enc_candidate_verification_iff [simp]:
  "enc_candidate_verification x @ r = enc_candidate_verification y @ s \<longleftrightarrow> x = y \<and> r = s"
  for x y :: candidate_verification
  by (cases x; cases y) (auto simp: enc_candidate_verification_def)

definition enc_run_bounds :: "run_bounds \<Rightarrow> string" where
  "enc_run_bounds r =
     enc_nat (rb_max_prompt_bytes r) @ enc_nat (rb_max_rounds r)
      @ enc_nat (rb_max_duration_ms r) @ enc_option enc_nat (rb_max_total_tokens r)"

lemma enc_run_bounds_iff [simp]:
  "enc_run_bounds x @ r = enc_run_bounds y @ s \<longleftrightarrow> x = y \<and> r = s"
  for x y :: run_bounds
  by (cases x; cases y) (auto simp: enc_run_bounds_def)

definition enc_work_retry_policy :: "work_retry_policy \<Rightarrow> string" where
  "enc_work_retry_policy r =
     enc_nat (rp_max_attempts r) @ enc_bool (rp_retry_failed r) @ enc_bool (rp_retry_expired r)
      @ enc_nat (rp_backoff_ms r)"

lemma enc_work_retry_policy_iff [simp]:
  "enc_work_retry_policy x @ r = enc_work_retry_policy y @ s \<longleftrightarrow> x = y \<and> r = s"
  for x y :: work_retry_policy
  by (cases x; cases y) (auto simp: enc_work_retry_policy_def)

definition enc_work_policy :: "work_policy \<Rightarrow> string" where
  "enc_work_policy r =
     enc_run_bounds (wp_bounds r) @ enc_work_retry_policy (wp_retry r)
      @ enc_bool (wp_requires_approval r) @ enc_nat (wp_max_concurrent_attempts r)
      @ enc_managed_work_mode (wp_managed_execution r)
      @ enc_list enc_string (wp_allowed_files r)
      @ enc_list enc_required_check_spec (wp_required_checks r)"

lemma enc_work_policy_iff [simp]:
  "enc_work_policy x @ r = enc_work_policy y @ s \<longleftrightarrow> x = y \<and> r = s"
  for x y :: work_policy
  by (cases x; cases y) (auto simp: enc_work_policy_def)

definition enc_work_dependency :: "work_dependency \<Rightarrow> string" where
  "enc_work_dependency r =
     enc_string (dep_work_id r) @ enc_work_state (dep_required_state r)"

lemma enc_work_dependency_iff [simp]:
  "enc_work_dependency x @ r = enc_work_dependency y @ s \<longleftrightarrow> x = y \<and> r = s"
  for x y :: work_dependency
  by (cases x; cases y) (auto simp: enc_work_dependency_def)

definition enc_work_progress :: "work_progress \<Rightarrow> string" where
  "enc_work_progress r =
     enc_string (pg_summary r) @ enc_option enc_nat (pg_percent r) @ enc_int (pg_updated_at r)"

lemma enc_work_progress_iff [simp]:
  "enc_work_progress x @ r = enc_work_progress y @ s \<longleftrightarrow> x = y \<and> r = s"
  for x y :: work_progress
  by (cases x; cases y) (auto simp: enc_work_progress_def)

definition enc_work_artifact_ref :: "work_artifact_ref \<Rightarrow> string" where
  "enc_work_artifact_ref r =
     enc_string (ar_artifact_id r) @ enc_string (ar_kind r) @ enc_string (ar_label r)
      @ enc_option enc_string (ar_digest r) @ enc_option enc_int (ar_retained_until r)"

lemma enc_work_artifact_ref_iff [simp]:
  "enc_work_artifact_ref x @ r = enc_work_artifact_ref y @ s \<longleftrightarrow> x = y \<and> r = s"
  for x y :: work_artifact_ref
  by (cases x; cases y) (auto simp: enc_work_artifact_ref_def)

definition enc_work_result :: "work_result \<Rightarrow> string" where
  "enc_work_result r =
     enc_string (wr_summary r) @ enc_list enc_string (wr_evidence r)
      @ enc_list enc_work_artifact_ref (wr_artifacts r) @ enc_option enc_string (wr_failure r)
      @ enc_option enc_string (wr_cancellation_reason r) @ enc_int (wr_completed_at r)
      @ enc_option enc_completion_evidence (wr_verification r)
      @ enc_option enc_candidate_verification (wr_candidate_verification r)"

lemma enc_work_result_iff [simp]:
  "enc_work_result x @ r = enc_work_result y @ s \<longleftrightarrow> x = y \<and> r = s"
  for x y :: work_result
  by (cases x; cases y) (auto simp: enc_work_result_def)

definition enc_work_approval :: "work_approval \<Rightarrow> string" where
  "enc_work_approval r =
     enc_string (ap_reviewer_id r) @ enc_option enc_string (ap_note r)
      @ enc_int (ap_approved_at r) @ enc_option enc_string (ap_candidate_digest r)
      @ enc_option enc_string (ap_target_revision r)
      @ enc_option enc_string (ap_apply_bundle_digest r)"

lemma enc_work_approval_iff [simp]:
  "enc_work_approval x @ r = enc_work_approval y @ s \<longleftrightarrow> x = y \<and> r = s"
  for x y :: work_approval
  by (cases x; cases y) (auto simp: enc_work_approval_def)

definition enc_work_item :: "work_item \<Rightarrow> string" where
  "enc_work_item r =
     enc_nat (wi_schema_version r) @ enc_string (wi_work_id r) @ enc_string (wi_kind r)
      @ enc_string (wi_objective r) @ enc_nat (wi_session_id r) @ enc_string (wi_workspace r)
      @ enc_string (wi_created_by r) @ enc_option enc_string (wi_assigned_agent_id r)
      @ enc_int (wi_priority r) @ enc_option enc_int (wi_deadline r)
      @ enc_option enc_string (wi_parent_work_id r)
      @ enc_list enc_work_dependency (wi_dependencies r) @ enc_work_policy (wi_policy r)
      @ enc_work_state (wi_state r) @ enc_u64 (wi_revision r) @ enc_nat (wi_attempt_count r)
      @ enc_option enc_work_progress (wi_progress r) @ enc_option enc_work_result (wi_result r)
      @ enc_bool (wi_is_container r) @ enc_option enc_work_approval (wi_approval r)
      @ enc_option enc_string (wi_source_routine_id r)
      @ enc_option enc_string (wi_source_activation_id r)
      @ enc_option enc_string (wi_source_manager_plan_id r)
      @ enc_option enc_string (wi_source_manager_step_id r)
      @ enc_assignment_status (wi_assignment_status r)
      @ enc_option enc_string (wi_blocked_reason r)
      @ enc_option enc_block_provenance (wi_block_provenance r)
      @ enc_option enc_string (wi_last_decision_id r) @ enc_int (wi_created_at r)
      @ enc_int (wi_updated_at r)"

lemma enc_work_item_iff [simp]:
  "enc_work_item x @ r = enc_work_item y @ s \<longleftrightarrow> x = y \<and> r = s"
  for x y :: work_item
  by (cases x; cases y) (auto simp: enc_work_item_def)

definition enc_work_attempt :: "work_attempt \<Rightarrow> string" where
  "enc_work_attempt r =
     enc_nat (wa_schema_version r) @ enc_string (wa_attempt_id r) @ enc_string (wa_work_id r)
      @ enc_nat (wa_attempt_number r) @ enc_string (wa_claimant_id r)
      @ enc_string (wa_lease_token_hash r) @ enc_int (wa_acquired_at r)
      @ enc_int (wa_lease_expires_at r) @ enc_int (wa_last_heartbeat_at r)
      @ enc_attempt_state (wa_state r) @ enc_list enc_string (wa_linked_run_ids r)
      @ enc_option enc_work_progress (wa_progress r) @ enc_option enc_work_result (wa_result r)
      @ enc_option enc_string (wa_terminal_reason r) @ enc_int (wa_created_at r)
      @ enc_int (wa_updated_at r)"

lemma enc_work_attempt_iff [simp]:
  "enc_work_attempt x @ r = enc_work_attempt y @ s \<longleftrightarrow> x = y \<and> r = s"
  for x y :: work_attempt
  by (cases x; cases y) (auto simp: enc_work_attempt_def)

lemma enc_work_item_inj: "enc_work_item i = enc_work_item j \<longleftrightarrow> i = j"
  using enc_work_item_iff [of i "[]" j "[]"] by simp

lemma enc_work_attempt_inj: "enc_work_attempt a = enc_work_attempt b \<longleftrightarrow> a = b"
  using enc_work_attempt_iff [of a "[]" b "[]"] by simp

subsection \<open>The host of the examples\<close>

fun canonical :: "payload \<Rightarrow> string" where
  "canonical (P_LeaseToken t) = ''t'' @ take 100 t"
| "canonical (P_LeaseSecret secret work attempt n) = ''s'' @ take 100 secret"
| "canonical (P_Item i) = ''i'' @ enc_work_item i"
| "canonical (P_Attempt a) = ''a'' @ enc_work_attempt a"
| "canonical (P_Decision d) = ''d'' @ wd_decision_id d"

definition exact_host :: host where
  "exact_host = example_host\<lparr>hash_payload := canonical\<rparr>"

end
