(* ===== verification/Example_Run.thy ===== *)
theory Example_Run
  imports Ledger_Machine Canonical_Encoding
begin

section \<open>A run of the ledger\<close>

text \<open>
  The runs that the witnesses apply the theorems to, on the host \<open>exact_host\<close>: a new item
  is saved, then claimed by a worker. Every intermediate ledger is evaluated by the
  simplifier. The interpretation \<open>exact\<close> shows that \<open>exact_host\<close> meets the hypotheses of
  \<open>sound_host\<close>.
\<close>

interpretation exact: sound_host exact_host
  by unfold_locales
    (simp_all add: exact_host_def example_host_def attempt_digest_def work_digest_def
      enc_work_item_inj enc_work_attempt_inj)

subsection \<open>Evaluation rules\<close>

lemmas op_simps = bindE_def thenE_def ret_def raise_def lift_def reads_def gets_def modify_def
  map_err_def on_err_def some_or_def check_def first_err.simps(2) reject_def

lemmas bound_simps = MAX_WORK_KIND_BYTES_def MAX_WORK_OBJECTIVE_BYTES_def MAX_WORK_ACTOR_BYTES_def
  MAX_WORK_DEPENDENCIES_def WORKLOAD_SCHEMA_VERSION_def NUL_def BACKSLASH_def
  MAX_WORK_ARTIFACTS_def MAX_WORK_ARTIFACT_BYTES_def MAX_WORK_APPROVAL_NOTE_BYTES_def

lemmas load_simps = load_work_item_def load_work_attempt_def checked_def file_get_def work_path_def
  durable_def Let_def dir_put_def dir_list_def dir_get_def dir_del_def now_op_def uuid_op_def

lemmas commit_simps = commit_lifecycle_with_request_def lifecycle_new_with_id_def lifecycle_validate_def
  validate_work_attempt_set_def persist_work_lifecycle_intent_def commit_work_lifecycle_intent_def
  preflight_work_lifecycle_intent_def by_id_def write_work_lifecycle_attempt_updates_def
  work_lifecycle_attempt_updates_def write_work_lifecycle_item_update_def save_work_attempt_def
  save_work_item_def validate_work_item_for_save_def write_work_item_def
  lifecycle_settles_service_receipt_def lifecycle_response_value_def complete_bound_request_def
  clear_work_lifecycle_intent_def list_work_attempts_def sort_by_def
  WORK_LIFECYCLE_INTENT_SCHEMA_VERSION_def work_digest_def attempt_digest_def enc_work_item_inj
  enc_work_attempt_inj

lemma exact_host_simps [simp]:
  "utc_now exact_host n = int n * 1000000"
  "new_uuid exact_host n = replicate (Suc n) (CHR ''u'')"
  "durable_outcome exact_host n = Written"
  "canonicalize exact_host p = Some p"
  "hash_payload exact_host = canonical"
  by (simp_all add: exact_host_def example_host_def)

lemma replicate_numeral_Cons [simp]: "replicate (numeral k) x = x # replicate (pred_numeral k) x"
  by (simp add: numeral_eq_Suc)

lemma str_contains_simps [simp]:
  "\<not> str_contains [] (a # as)"
  "str_contains (x # xs) [a, b] \<longleftrightarrow> (x = a \<and> (\<exists>ys. xs = b # ys)) \<or> str_contains xs [a, b]"
  by (auto simp: str_contains_def sublist_Cons_right prefix_def)

lemma example_files:
  "safe_id_filename ''w'' = Inr ''w''" "safe_id_filename ''u'' = Inr ''u''"
  "safe_id_filename ''uu'' = Inr ''uu''" "safe_id_filename ''uuu'' = Inr ''uuu''"
  by (simp_all add: safe_id_filename_def rbind_ok NUL_def BACKSLASH_def)

lemma example_policy_valid: "work_policy_validate example_policy = Inr ()"
  by (simp add: work_policy_validate_def example_policy_def run_bounds_validate_def
        retry_policy_validate_def normalize_allowed_files_def validate_required_checks_def)

lemma example_attempts [simp]: "rp_max_attempts (wp_retry example_policy) = 3"
  by (simp add: example_policy_def)

lemma op_not_blank: "trim (lifecycle_op_str op) \<noteq> []"
  by (cases op) (simp_all add: trim_def trim_end_def trim_start_def strip_seqs.simps ws_seqs_def)

lemma list_none: "lg_attempts s = [] \<Longrightarrow> list_work_attempts w s = (Inr [], s)"
  by (simp add: list_work_attempts_def op_simps dir_list_def rbind_def sort_by_def)

subsection \<open>Saving an item\<close>

definition empty_ledger :: ledger where
  "empty_ledger =
     \<lparr>lg_items = [], lg_attempts = [], lg_decisions = [], lg_mutations = [], lg_lifecycles = [],
      lg_receipts = [], lg_legacy_receipts = [], lg_tombstones = [], lg_runs = [], lg_agents = [],
      lg_check_authority = [], lg_admission_closed = None, lg_last_run_error = None,
      lg_operation_request = None, lg_clock = 0, lg_uuids = 0, lg_writes = 0\<rparr>"

definition saved_ledger :: ledger where
  "saved_ledger = empty_ledger\<lparr>lg_items := [(''w'', example_item ''w'' [])], lg_writes := 1\<rparr>"

lemma empty_ledger_start: "ledger_start empty_ledger"
  by (simp add: ledger_start_def empty_ledger_def)

lemma example_item_valid: "item_validate (example_item ''w'' []) = Inr ()"
  by (simp add: item_validate_def example_item_def validate_id_ok validate_text_def bound_simps
        example_policy_valid)

lemma save_example: "save_work_item exact_host (example_item ''w'' []) empty_ledger = (Inr (), saved_ledger)"
  by (simp add: save_work_item_def validate_work_item_for_save_def op_simps example_item_valid
        load_simps example_files empty_ledger_def scoped_work_items_def order_work_def sort_by_def
        MAX_GRAPH_SCOPE_ITEMS_def write_work_item_def saved_ledger_def)

subsection \<open>Claiming it\<close>

definition claimed_item :: work_item where
  "claimed_item = (example_item ''w'' [])\<lparr>wi_state := W_Leased, wi_attempt_count := 1,
     wi_revision := 2, wi_updated_at := 3000000\<rparr>"

definition claimed_attempt :: work_attempt where
  "claimed_attempt =
     \<lparr>wa_schema_version = 1, wa_attempt_id = ''uu'', wa_work_id = ''w'', wa_attempt_number = 1,
      wa_claimant_id = ''bob'', wa_lease_token_hash = ''tu'', wa_acquired_at = 1000000,
      wa_lease_expires_at = 300001000000, wa_last_heartbeat_at = 1000000, wa_state = A_Leased,
      wa_linked_run_ids = [], wa_progress = None, wa_result = None, wa_terminal_reason = None,
      wa_created_at = 2000000, wa_updated_at = 1000000\<rparr>"

definition before_commit :: ledger where
  "before_commit = saved_ledger\<lparr>lg_clock := 4, lg_uuids := 2\<rparr>"

definition claimed_ledger :: ledger where
  "claimed_ledger = saved_ledger\<lparr>lg_items := [(''w'', claimed_item)],
     lg_attempts := [(''uu'', claimed_attempt)], lg_clock := 4, lg_uuids := 3, lg_writes := 5\<rparr>"

lemma claimed_item_valid: "item_validate claimed_item = Inr ()"
  by (simp add: claimed_item_def item_validate_def example_item_def validate_id_ok
        validate_text_def bound_simps example_policy_valid)

lemma claimed_attempt_valid: "attempt_validate claimed_attempt = Inr ()"
  by (simp add: claimed_attempt_def attempt_validate_def validate_id_ok validate_text_def bound_simps)

lemma claimed_simps [simp]:
  "wi_work_id claimed_item = ''w''" "wi_session_id claimed_item = 7"
  "wi_workspace claimed_item = ''/w''" "wi_created_by claimed_item = ''operator''"
  "wi_dependencies claimed_item = []" "wi_state claimed_item = W_Leased"
  "wi_policy claimed_item = example_policy"
  "wi_created_by (example_item i ds) = ''operator''"
  "wa_attempt_id claimed_attempt = ''uu''" "wa_work_id claimed_attempt = ''w''"
  "wa_attempt_number claimed_attempt = 1" "wa_state claimed_attempt = A_Leased"
  by (simp_all add: claimed_item_def claimed_attempt_def example_item_def)

lemma item_differs: "example_item ''w'' [] \<noteq> claimed_item" "claimed_item \<noteq> example_item ''w'' []"
  by (simp_all add: claimed_item_def example_item_def)

lemma claim_commit_example:
  "commit_lifecycle_with_request exact_host O_Claim (example_item ''w'' []) claimed_item []
     [claimed_attempt] None before_commit = (Inr (), claimed_ledger)"
  by (simp add: commit_simps op_simps load_simps example_item_valid claimed_item_valid
        claimed_attempt_valid example_files op_not_blank before_commit_def claimed_ledger_def
        saved_ledger_def empty_ledger_def item_differs rbind_def)

lemma leased_example:
  "leased_attempt (attempt_new exact_host ''uu'' 2000000 ''w'' 1 ''bob'' ''u'') 1000000 300000000000
     = claimed_attempt"
  by (simp add: leased_attempt_def attempt_new_def claimed_attempt_def WORKLOAD_SCHEMA_VERSION_def)

lemma bump_example:
  "bump_at 3000000 ((example_item ''w'' [])\<lparr>wi_attempt_count := 1, wi_state := W_Leased\<rparr>) = claimed_item"
  by (simp add: bump_at_def claimed_item_def example_item_def saturating_succ_def)

lemma example_admission: "evaluate_admission (example_item ''w'' []) states now = Admissible"
  by (simp add: evaluate_admission_def admission_when_waiting_def example_item_def deadline_passed_def)

lemma refresh_example:
  "refresh_work_item exact_host (example_item ''w'' []) saved_ledger
     = (Inr (example_item ''w'' []), saved_ledger\<lparr>lg_clock := 1\<rparr>)"
  by (simp add: refresh_work_item_def refresh_work_item_at_def op_simps load_simps
        resolve_dependencies_def saved_ledger_def empty_ledger_def example_admission
        refresh_wait_def refresh_deadline_def deadline_passed_def ab_is_waiting_def)
     (simp add: example_item_def)

lemma new_attempt_example:
  "new_attempt exact_host (example_item ''w'' []) ''bob'' None (saved_ledger\<lparr>lg_clock := 2\<rparr>)
     = (Inr (attempt_new exact_host ''uu'' 2000000 ''w'' 1 ''bob'' ''u'', ''u''),
        saved_ledger\<lparr>lg_clock := 3, lg_uuids := 2\<rparr>)"
  by (simp add: new_attempt_def op_simps load_simps saved_ledger_def empty_ledger_def)
     (simp add: example_item_def)

lemma claim_checked_example:
  "claim_checked exact_host ''w'' ''bob'' 300000000000 None None 1000000 (example_item ''w'' [])
       (saved_ledger\<lparr>lg_clock := 2\<rparr>)
     = (Inr \<lparr>cl_work = claimed_item, cl_attempt = claimed_attempt, cl_lease_token = ''u''\<rparr>, claimed_ledger)"
proof -
  have b: "bump exact_host i (saved_ledger\<lparr>lg_clock := 3, lg_uuids := 2\<rparr>)
      = (Inr (bump_at 3000000 i), before_commit)" for i
    by (simp add: bump_def op_simps load_simps before_commit_def)
  have c: "is_claimable_by (wi_assignment_status (example_item ''w'' [])) a b = Inr ()" for a b
    by (simp add: example_item_def)
  have l: "list_work_attempts w (saved_ledger\<lparr>lg_clock := 3, lg_uuids := 2\<rparr>)
      = (Inr [], saved_ledger\<lparr>lg_clock := 3, lg_uuids := 2\<rparr>)" for w
    by (simp add: list_none saved_ledger_def empty_ledger_def)
  show ?thesis
    by (simp add: claim_checked_def op_simps resolve_dependencies_def example_admission Let_def
          ab_is_admissible_def new_attempt_example c l leased_example [simplified] b
          bump_example [simplified] list_attempts_of_def claim_commit_example)
qed

lemma claim_example:
  "claim_work exact_host ''w'' ''bob'' None saved_ledger
     = (Inr \<lparr>cl_work = claimed_item, cl_attempt = claimed_attempt, cl_lease_token = ''u''\<rparr>, claimed_ledger)"
proof -
  have c: "lg_operation_request saved_ledger = None" "lg_admission_closed saved_ledger = None"
    "saved_ledger\<lparr>lg_operation_request := None\<rparr> = saved_ledger" "lg_attempts saved_ledger = []"
    by (simp_all add: saved_ledger_def empty_ledger_def)
  have l: "require_work_item ''w'' saved_ledger = (Inr (example_item ''w'' []), saved_ledger)"
    by (simp add: require_work_item_def op_simps load_simps example_files example_item_valid saved_ledger_def)
  have p: "wi_is_container (example_item ''w'' []) = False" by (simp add: example_item_def)
  have t: "trim ''bob'' \<noteq> []"
    by (simp add: trim_def trim_end_def trim_start_def strip_seqs.simps ws_seqs_def)
  show ?thesis
    by (simp add: claim_work_def claim_work_inner_def adopt_operation_request_def
          refuse_closed_admission_def p now_op_def op_simps t refresh_example c l
          lease_duration_def DEFAULT_WORK_LEASE_MS_def MAX_WORK_LEASE_MS_def milliseconds_def
          claim_refreshed_def active_attempt_def list_attempts_of_def list_none
          claim_checked_example [simplified numeral_2_eq_2])
qed

lemma claimed_reachable: "(ledger_step exact_host)\<^sup>*\<^sup>* empty_ledger claimed_ledger"
proof -
  have "ledger_step exact_host empty_ledger saved_ledger"
    using ledger_step.call [of exact_host empty_ledger "C_SaveItem (example_item ''w'' [])"]
    by (simp add: save_example)
  moreover have "ledger_step exact_host saved_ledger claimed_ledger"
    using ledger_step.call [of exact_host saved_ledger "C_Claim ''w'' ''bob'' None None"]
    by (simp add: claim_example)
  ultimately show ?thesis by (meson converse_rtranclp_into_rtranclp r_into_rtranclp)
qed

subsection \<open>Claiming it with a lease secret\<close>

definition secret_attempt :: work_attempt where
  "secret_attempt = claimed_attempt\<lparr>wa_attempt_id := ''u'', wa_lease_token_hash := ''tsk''\<rparr>"

definition secret_ledger :: ledger where
  "secret_ledger = saved_ledger\<lparr>lg_items := [(''w'', claimed_item)],
     lg_attempts := [(''u'', secret_attempt)], lg_clock := 4, lg_uuids := 2, lg_writes := 5\<rparr>"

lemma secret_attempt_simps [simp]:
  "wa_attempt_id secret_attempt = ''u''" "wa_work_id secret_attempt = ''w''"
  "wa_attempt_number secret_attempt = 1" "wa_state secret_attempt = A_Leased"
  by (simp_all add: secret_attempt_def)

lemma secret_attempt_valid: "attempt_validate secret_attempt = Inr ()"
  by (simp add: secret_attempt_def claimed_attempt_def attempt_validate_def validate_id_ok validate_text_def bound_simps)

lemma secret_commit_example:
  "commit_lifecycle_with_request exact_host O_Claim (example_item ''w'' []) claimed_item []
     [secret_attempt] None (saved_ledger\<lparr>lg_clock := 4, lg_uuids := 1\<rparr>) = (Inr (), secret_ledger)"
  by (simp add: commit_simps op_simps load_simps example_item_valid claimed_item_valid
        secret_attempt_valid example_files op_not_blank secret_ledger_def
        saved_ledger_def empty_ledger_def item_differs rbind_def)

lemma secret_checked_example:
  "claim_checked exact_host ''w'' ''bob'' 300000000000 (Some ''k'') None 1000000 (example_item ''w'' [])
       (saved_ledger\<lparr>lg_clock := 2\<rparr>)
     = (Inr \<lparr>cl_work = claimed_item, cl_attempt = secret_attempt, cl_lease_token = ''sk''\<rparr>, secret_ledger)"
proof -
  let ?a = "new_with_lease_secret exact_host ''u'' 2000000 ''w'' 1 ''bob'' ''k''"
  have n: "new_attempt exact_host (example_item ''w'' []) ''bob'' (Some ''k'') (saved_ledger\<lparr>lg_clock := 2\<rparr>)
      = (Inr (?a, ''sk''), saved_ledger\<lparr>lg_clock := 3, lg_uuids := 1\<rparr>)"
    by (simp add: new_attempt_def op_simps load_simps saved_ledger_def empty_ledger_def lease_token_for_secret_def)
       (simp add: example_item_def)
  have a: "leased_attempt ?a 1000000 300000000000 = secret_attempt"
    by (simp add: leased_attempt_def new_with_lease_secret_def lease_token_for_secret_def attempt_new_def
        secret_attempt_def claimed_attempt_def WORKLOAD_SCHEMA_VERSION_def)
  have b: "bump exact_host i (saved_ledger\<lparr>lg_clock := 3, lg_uuids := 1\<rparr>)
      = (Inr (bump_at 3000000 i), saved_ledger\<lparr>lg_clock := 4, lg_uuids := 1\<rparr>)" for i
    by (simp add: bump_def op_simps load_simps)
  have c: "is_claimable_by (wi_assignment_status (example_item ''w'' [])) a b = Inr ()" for a b
    by (simp add: example_item_def)
  have l: "list_work_attempts w (saved_ledger\<lparr>lg_clock := 3, lg_uuids := 1\<rparr>)
      = (Inr [], saved_ledger\<lparr>lg_clock := 3, lg_uuids := 1\<rparr>)" for w
    by (simp add: list_none saved_ledger_def empty_ledger_def)
  show ?thesis
    by (simp add: claim_checked_def op_simps resolve_dependencies_def example_admission Let_def
          ab_is_admissible_def n [simplified] c l [simplified] a [simplified] b [simplified]
          bump_example [simplified] list_attempts_of_def secret_commit_example [simplified])
qed

lemma secret_claim_example:
  "claim_work_with_lease_secret exact_host ''w'' ''bob'' None ''k'' saved_ledger
     = (Inr \<lparr>cl_work = claimed_item, cl_attempt = secret_attempt, cl_lease_token = ''sk''\<rparr>, secret_ledger)"
proof -
  have c: "lg_operation_request saved_ledger = None" "lg_admission_closed saved_ledger = None"
    "saved_ledger\<lparr>lg_operation_request := None\<rparr> = saved_ledger" "lg_attempts saved_ledger = []"
    by (simp_all add: saved_ledger_def empty_ledger_def)
  have l: "require_work_item ''w'' saved_ledger = (Inr (example_item ''w'' []), saved_ledger)"
    by (simp add: require_work_item_def op_simps load_simps example_files example_item_valid saved_ledger_def)
  have p: "wi_is_container (example_item ''w'' []) = False" by (simp add: example_item_def)
  have t: "trim ''bob'' \<noteq> []"
    by (simp add: trim_def trim_end_def trim_start_def strip_seqs.simps ws_seqs_def)
  show ?thesis
    by (simp add: claim_work_with_lease_secret_def claim_work_inner_def adopt_operation_request_def
          refuse_closed_admission_def p now_op_def op_simps t refresh_example c l
          lease_duration_def DEFAULT_WORK_LEASE_MS_def MAX_WORK_LEASE_MS_def milliseconds_def
          claim_refreshed_def active_attempt_def list_attempts_of_def list_none
          secret_checked_example [simplified numeral_2_eq_2])
qed

end
