(* ===== verification/Example_Completion.thy ===== *)
theory Example_Completion
  imports Example_Run
begin

section \<open>Further runs for the witnesses\<close>

text \<open>
  The operations of the holder of \<open>claimed_attempt\<close> on the claimed ledger of \<open>Example_Run\<close>,
  and a completion whose evidence a linked run stored: the ledgers before and after,
  evaluated by the simplifier.
\<close>

subsection \<open>The holder's operations\<close>

text \<open>Any change of the claimed item and its attempt commits, to the ledger below.\<close>

definition changed_ledger :: "work_item \<Rightarrow> work_attempt \<Rightarrow> nat \<Rightarrow> ledger" where
  "changed_ledger j b n = claimed_ledger\<lparr>lg_items := [(''w'', j)], lg_attempts := [(''uu'', b)],
     lg_clock := n, lg_uuids := 4, lg_writes := (if j = claimed_item then 8 else 9)\<rparr>"

lemma more_files: "safe_id_filename ''r'' = Inr ''r''" "safe_id_filename ''uuuu'' = Inr ''uuuu''"
  by (simp_all add: safe_id_filename_def rbind_ok NUL_def BACKSLASH_def)

lemma claimed_records: "records_ok claimed_ledger"
  by (simp add: records_ok_def attempts_set_def dir_ok_def dir_list_def claimed_ledger_def
        claimed_item_valid claimed_attempt_valid)

lemma change_commit_example:
  assumes "item_validate j = Inr ()" "attempt_validate b = Inr ()" "b \<noteq> claimed_attempt"
    and "wi_work_id j = ''w''" "wi_session_id j = 7" "wi_workspace j = ''/w''"
      "wi_created_by j = ''operator''" "wi_dependencies j = []"
    and "wa_attempt_id b = ''uu''" "wa_work_id b = ''w''"
  shows "commit_lifecycle_with_request exact_host op claimed_item j [claimed_attempt] [b] None
     (claimed_ledger\<lparr>lg_clock := n\<rparr>) = (Inr (), changed_ledger j b n)"
  using assms
  by (cases "j = claimed_item")
     (simp_all add: commit_simps op_simps load_simps claimed_item_valid claimed_attempt_valid
        example_files more_files op_not_blank claimed_ledger_def changed_ledger_def
        saved_ledger_def empty_ledger_def rbind_def not_sym [of b])

lemma holder_example:
  "require_work_item ''w'' claimed_ledger = (Inr claimed_item, claimed_ledger)"
  "list_attempts_of ''w'' claimed_ledger = (Inr [claimed_attempt], claimed_ledger)"
  "load_active_attempt_for_token exact_host claimed_item ''uu'' ''u'' 4000000
     (claimed_ledger\<lparr>lg_clock := n\<rparr>) = (Inr claimed_attempt, claimed_ledger\<lparr>lg_clock := n\<rparr>)"
  "lg_operation_request claimed_ledger = None" "lg_clock claimed_ledger = 4"
  "claimed_ledger\<lparr>lg_operation_request := None\<rparr> = claimed_ledger"
proof -
  have "token_matches exact_host claimed_attempt ''u''" "wa_lease_expires_at claimed_attempt = 300001000000"
    by (simp_all add: token_matches_def claimed_attempt_def)
  then show "load_active_attempt_for_token exact_host claimed_item ''uu'' ''u'' 4000000
     (claimed_ledger\<lparr>lg_clock := n\<rparr>) = (Inr claimed_attempt, claimed_ledger\<lparr>lg_clock := n\<rparr>)"
    by (simp add: load_active_attempt_for_token_def require_work_attempt_def op_simps load_simps
          example_files claimed_attempt_valid claimed_ledger_def check_token_def check_live_def)
qed (simp_all add: require_work_item_def list_attempts_of_def list_work_attempts_def op_simps load_simps
      example_files claimed_item_valid claimed_attempt_valid claimed_ledger_def saved_ledger_def
      empty_ledger_def rbind_def sort_by_def)

definition renewed_attempt :: work_attempt where
  "renewed_attempt = claimed_attempt\<lparr>wa_last_heartbeat_at := 4000000,
     wa_lease_expires_at := 300004000000, wa_updated_at := 4000000\<rparr>"

definition released_attempt :: work_attempt where
  "released_attempt = claimed_attempt\<lparr>wa_state := A_Released, wa_terminal_reason := Some ''stop'',
     wa_updated_at := 4000000\<rparr>"

definition failure_result :: work_result where
  "failure_result = work_failure_result ''broken'' 4000000"

definition failed_attempt :: work_attempt where
  "failed_attempt = claimed_attempt\<lparr>wa_result := Some failure_result, wa_state := A_Failed,
     wa_terminal_reason := Some ''broken'', wa_updated_at := 4000000\<rparr>"

definition closed_attempt :: work_attempt where
  "closed_attempt = cancelled_attempt ''stop'' 4000000 claimed_attempt"

definition moved_item :: "work_state \<Rightarrow> work_result option \<Rightarrow> work_item" where
  "moved_item st r = claimed_item\<lparr>wi_state := st, wi_result := r, wi_revision := 3, wi_updated_at := 5000000\<rparr>"

lemma not_blank [simp]: "trim ''stop'' \<noteq> []" "trim ''broken'' \<noteq> []" "trim ''work item cancelled'' \<noteq> []"
  by (simp_all add: trim_def trim_end_def trim_start_def strip_seqs.simps ws_seqs_def)

lemma holder_attempts_valid:
  "attempt_validate renewed_attempt = Inr ()" "attempt_validate released_attempt = Inr ()"
  "attempt_validate failed_attempt = Inr ()" "attempt_validate closed_attempt = Inr ()"
  "result_validate failure_result = Inr ()" "result_validate (cancellation_result ''stop'' n) = Inr ()"
proof -
  show r: "result_validate failure_result = Inr ()" "result_validate (cancellation_result ''stop'' n) = Inr ()"
    by (simp_all add: result_validate_def failure_result_def work_failure_result_def
          cancellation_result_def validate_text_def bound_simps)
  show "attempt_validate renewed_attempt = Inr ()" "attempt_validate released_attempt = Inr ()"
    "attempt_validate failed_attempt = Inr ()" "attempt_validate closed_attempt = Inr ()"
    by (simp_all add: renewed_attempt_def released_attempt_def failed_attempt_def closed_attempt_def
          cancelled_attempt_def claimed_attempt_def attempt_validate_def validate_id_ok
          validate_text_def bound_simps r)
qed

lemma holder_attempts_simps [simp]:
  "wa_attempt_id renewed_attempt = ''uu''" "wa_attempt_id released_attempt = ''uu''"
  "wa_attempt_id failed_attempt = ''uu''" "wa_attempt_id closed_attempt = ''uu''"
  "wa_work_id renewed_attempt = ''w''" "wa_work_id released_attempt = ''w''"
  "wa_work_id failed_attempt = ''w''" "wa_work_id closed_attempt = ''w''"
  "renewed_attempt \<noteq> claimed_attempt" "released_attempt \<noteq> claimed_attempt"
  "failed_attempt \<noteq> claimed_attempt" "closed_attempt \<noteq> claimed_attempt"
  by (simp_all add: renewed_attempt_def released_attempt_def failed_attempt_def closed_attempt_def
        cancelled_attempt_def claimed_attempt_def)

lemma moved_item_valid:
  "is_none_or r (\<lambda>x. result_validate x = Inr ()) \<Longrightarrow> st \<noteq> W_Blocked \<Longrightarrow> item_validate (moved_item st r) = Inr ()"
  by (cases r; cases st)
     (simp_all add: moved_item_def claimed_item_def item_validate_def example_item_def validate_id_ok
        validate_text_def bound_simps example_policy_valid)

lemma moved_item_simps [simp]:
  "wi_work_id (moved_item st r) = ''w''" "wi_session_id (moved_item st r) = 7"
  "wi_workspace (moved_item st r) = ''/w''" "wi_created_by (moved_item st r) = ''operator''"
  "wi_dependencies (moved_item st r) = []" "wi_state (moved_item st r) = st"
  by (simp_all add: moved_item_def)

lemma bump_moved:
  "bump_at 5000000 (claimed_item\<lparr>wi_state := st\<rparr>) = moved_item st None"
  "bump_at 5000000 (claimed_item\<lparr>wi_result := r, wi_state := st\<rparr>) = moved_item st r"
  "bump_at 5000000 (claimed_item\<lparr>wi_state := st, wi_result := r\<rparr>) = moved_item st r"
  by (simp_all add: bump_at_def moved_item_def claimed_item_def saturating_succ_def example_item_def)

lemmas holder_eval = op_simps adopt_operation_request_def with_lease_def holder_example now_op_def
  commit_attempt_def change_commit_example holder_attempts_valid Let_def bump_def bump_moved moved_item_valid

lemma renew_example:
  "renew_work_lease exact_host ''w'' ''uu'' ''u'' None claimed_ledger
     = (Inr renewed_attempt, changed_ledger claimed_item renewed_attempt 5)"
  by (simp add: renew_work_lease_def holder_eval renewed_attempt_def [symmetric] claimed_item_valid
        lease_duration_def DEFAULT_WORK_LEASE_MS_def MAX_WORK_LEASE_MS_def milliseconds_def)

lemma release_example:
  "release_work exact_host ''w'' ''uu'' ''u'' ''stop'' claimed_ledger
     = (Inr (moved_item W_Queued None, released_attempt), changed_ledger (moved_item W_Queued None) released_attempt 6)"
  by (simp add: release_work_def holder_eval released_attempt_def [symmetric])

lemma fail_example:
  "fail_work exact_host ''w'' ''uu'' ''u'' failure_result claimed_ledger
     = (Inr (moved_item W_Queued (Some failure_result), failed_attempt),
        changed_ledger (moved_item W_Queued (Some failure_result)) failed_attempt 6)"
proof -
  have "wr_failure failure_result = Some ''broken''" "rp_retry_failed (wp_retry example_policy)"
    by (simp_all add: failure_result_def work_failure_result_def example_policy_def)
  then show ?thesis by (simp add: fail_work_def holder_eval failed_attempt_def [symmetric])
qed

lemma cancel_example:
  "cancel_work_checked exact_host ''w'' ''stop'' (Some 2) claimed_ledger
     = (Inr (moved_item W_Cancelled (Some (cancellation_result ''stop'' 4000000)), [closed_attempt]),
        changed_ledger (moved_item W_Cancelled (Some (cancellation_result ''stop'' 4000000))) closed_attempt 6)"
proof -
  have "wi_revision claimed_item = 2" by (simp add: claimed_item_def)
  moreover have "list_attempts_of ''w'' (claimed_ledger\<lparr>lg_clock := n\<rparr>) = (Inr [claimed_attempt], claimed_ledger\<lparr>lg_clock := n\<rparr>)" for n
    by (simp add: list_attempts_of_def list_work_attempts_def op_simps claimed_attempt_valid
          claimed_ledger_def dir_list_def rbind_def sort_by_def)
  ultimately show ?thesis
    by (simp add: cancel_work_checked_def holder_eval require_work_revision_def on_some_def
          closed_attempt_def [symmetric])
qed

subsection \<open>A completion with evidence\<close>

definition example_evidence :: completion_evidence where
  "example_evidence =
     \<lparr>ce_status = ''verified'', ce_stop_reason = ''completed'', ce_interrupted = False,
      ce_claims = \<lparr>cc_present = True, cc_mentions_changes = True, cc_mentions_tests = True,
                   cc_mentions_verification = True\<rparr>,
      ce_observations = \<lparr>co_changed_files = 1, co_tests_observed = 1, co_tests_passed = 1,
        co_tests_failed = 0, co_tests_incomplete = 0, co_permissions_requested = 0,
        co_permissions_granted = 0, co_permissions_denied = 0, co_permissions_unresolved = 0\<rparr>,
      ce_usage = \<lparr>cu_prompt_tokens = 1, cu_completion_tokens = 1, cu_total_tokens = 2, cu_requests = 1\<rparr>,
      ce_work_id = Some ''w'', ce_run_id = Some ''r'', ce_attempt_id = Some ''uu''\<rparr>"

definition example_result :: work_result where
  "example_result =
     \<lparr>wr_summary = ''ok'', wr_evidence = [], wr_artifacts = [], wr_failure = None,
      wr_cancellation_reason = None, wr_completed_at = 4000000,
      wr_verification = Some example_evidence, wr_candidate_verification = None\<rparr>"

definition linked_attempt :: work_attempt where
  "linked_attempt = claimed_attempt\<lparr>wa_linked_run_ids := [''r''], wa_state := A_Running\<rparr>"

definition linked_ledger :: ledger where
  "linked_ledger = claimed_ledger\<lparr>lg_attempts := [(''uu'', linked_attempt)],
     lg_runs := [(''r'', \<lparr>rn_run_id = ''r'', rn_session_id = 7, rn_workspace = ''/w'',
        rn_state = Run_Completed, rn_verification = Some example_evidence\<rparr>)]\<rparr>"

definition finished_item :: work_item where
  "finished_item = claimed_item\<lparr>wi_result := Some example_result, wi_state := W_Succeeded,
     wi_revision := 3, wi_updated_at := 5000000\<rparr>"

definition finished_attempt :: work_attempt where
  "finished_attempt = linked_attempt\<lparr>wa_result := Some example_result, wa_updated_at := 4000000,
     wa_state := A_Succeeded\<rparr>"

definition finished_ledger :: ledger where
  "finished_ledger = linked_ledger\<lparr>lg_items := [(''w'', finished_item)],
     lg_attempts := [(''uu'', finished_attempt)], lg_clock := 6, lg_uuids := 4, lg_writes := 9\<rparr>"

lemma example_result_valid: "result_validate example_result = Inr ()"
  by (simp add: result_validate_def example_result_def example_evidence_def validate_text_def bound_simps
        verification_ids_validate_def validate_id_ok trim_def trim_end_def trim_start_def
        strip_seqs.simps ws_seqs_def)

lemma linked_attempt_valid: "attempt_validate linked_attempt = Inr ()"
  by (simp add: linked_attempt_def claimed_attempt_def attempt_validate_def validate_id_ok
        validate_text_def bound_simps)

lemma finished_attempt_valid: "attempt_validate finished_attempt = Inr ()"
  by (simp add: finished_attempt_def linked_attempt_def claimed_attempt_def attempt_validate_def
        validate_id_ok validate_text_def bound_simps example_result_valid)

lemma finished_item_valid: "item_validate finished_item = Inr ()"
  by (simp add: finished_item_def claimed_item_def item_validate_def example_item_def validate_id_ok
        validate_text_def bound_simps example_policy_valid example_result_valid)

lemma linked_records: "records_ok linked_ledger"
  by (simp add: records_ok_def attempts_set_def dir_ok_def dir_list_def linked_ledger_def
        claimed_ledger_def claimed_item_valid linked_attempt_valid)
     (simp add: linked_attempt_def)

lemma linked_simps [simp]:
  "wa_attempt_id linked_attempt = ''uu''" "wa_work_id linked_attempt = ''w''"
  "wa_state linked_attempt = A_Running" "wa_linked_run_ids linked_attempt = [''r'']"
  "wa_attempt_number linked_attempt = 1"
  "wa_attempt_id finished_attempt = ''uu''" "wa_work_id finished_attempt = ''w''"
  "wa_attempt_number finished_attempt = 1"
  "wi_work_id finished_item = ''w''" "wi_session_id finished_item = 7"
  "wi_workspace finished_item = ''/w''" "wi_created_by finished_item = ''operator''"
  "wi_dependencies finished_item = []"
  by (simp_all add: linked_attempt_def finished_attempt_def finished_item_def)

lemma finished_differs: "claimed_item \<noteq> finished_item" "linked_attempt \<noteq> finished_attempt"
  "finished_item \<noteq> claimed_item" "finished_attempt \<noteq> linked_attempt"
  by (simp_all add: finished_item_def finished_attempt_def claimed_item_def linked_attempt_def
        example_item_def claimed_attempt_def)

lemma complete_commit_example:
  "commit_lifecycle_with_request exact_host O_Complete claimed_item finished_item [linked_attempt]
     [finished_attempt] None (linked_ledger\<lparr>lg_clock := 6\<rparr>) = (Inr (), finished_ledger)"
  by (simp add: commit_simps op_simps load_simps claimed_item_valid finished_item_valid
        linked_attempt_valid finished_attempt_valid example_files more_files
        op_not_blank [of O_Complete, simplified] linked_ledger_def claimed_ledger_def finished_ledger_def
        saved_ledger_def empty_ledger_def finished_differs rbind_def)

lemma example_success:
  "success_is_authorized exact_host (linked_ledger\<lparr>lg_clock := 5\<rparr>)
     (claimed_item\<lparr>wi_result := Some example_result\<rparr>)
     (Some (linked_attempt\<lparr>wa_result := Some example_result, wa_updated_at := 4000000\<rparr>))
     (Some example_result) None = Inr True"
  by (simp add: success_is_authorized_def claimed_item_def example_item_def example_policy_def
        example_result_def example_evidence_def bound_completion_evidence_def evidence_authorizes_success_def
        evidence_matches_run_def same_observation_def workspaces_match_def linked_ledger_def file_get_def
        more_files dir_get_def rbind_def Let_def)

lemma complete_example:
  "complete_work exact_host ''w'' ''uu'' ''u'' example_result linked_ledger
     = (Inr (finished_item, finished_attempt), finished_ledger)"
proof -
  have s: "lg_operation_request linked_ledger = None" "lg_clock linked_ledger = 4"
    "linked_ledger\<lparr>lg_operation_request := None\<rparr> = linked_ledger"
    by (simp_all add: linked_ledger_def claimed_ledger_def saved_ledger_def empty_ledger_def)
  have item: "require_work_item ''w'' linked_ledger = (Inr claimed_item, linked_ledger)"
    by (simp add: require_work_item_def op_simps load_simps example_files claimed_item_valid
          linked_ledger_def claimed_ledger_def)
  have attempt: "require_work_attempt ''uu'' (linked_ledger\<lparr>lg_clock := n\<rparr>)
      = (Inr linked_attempt, linked_ledger\<lparr>lg_clock := n\<rparr>)" for n
    by (simp add: require_work_attempt_def op_simps load_simps example_files linked_attempt_valid
          linked_ledger_def)
  have attempts: "list_attempts_of ''w'' linked_ledger = (Inr [linked_attempt], linked_ledger)"
    by (simp add: list_attempts_of_def list_work_attempts_def op_simps dir_list_def linked_ledger_def
          linked_attempt_valid rbind_def sort_by_def)
  have tok: "token_matches exact_host linked_attempt ''u''"
    by (simp add: token_matches_def linked_attempt_def claimed_attempt_def)
  have live: "wa_lease_expires_at linked_attempt = 300001000000"
    by (simp add: linked_attempt_def claimed_attempt_def)
  have fin: "bump_at 5000000 (claimed_item\<lparr>wi_result := Some example_result, wi_state := W_Succeeded\<rparr>) = finished_item"
    by (simp add: bump_at_def finished_item_def claimed_item_def saturating_succ_def)
  have att: "linked_attempt\<lparr>wa_result := Some example_result, wa_updated_at := 4000000, wa_state := A_Succeeded\<rparr> = finished_attempt"
    by (simp add: finished_attempt_def)
  have no: "\<not> wp_requires_approval example_policy" by (simp add: example_policy_def)
  show ?thesis
    by (simp add: complete_work_def op_simps example_result_valid adopt_operation_request_def s item
          attempts now_op_def attempt complete_held_def check_token_def tok already_completed_def
          check_live_def live complete_live_def example_success [simplified] assign_work_succeeded_def no
          bump_def commit_attempt_def fin att complete_commit_example)
qed

end
