(* ===== verification/Crash_Recovery.thy ===== *)
theory Crash_Recovery
  imports Lease_Commit
begin

section \<open>Recovery of an interrupted lifecycle change\<close>

text \<open>
  A lifecycle change is one intent file, then one file per changed attempt, the item file,
  the receipt of the request, and the removal of the intent. \<open>between h i s\<close> says that the
  ledger \<open>s\<close> holds any part of the change \<open>i\<close>: the item and each attempt are as before or
  as after it, and the receipt is pending or already holds the response of \<open>i\<close>. Every
  interrupted commit stays between, and from every state between, a commit whose writes
  succeed completes the change.
\<close>

definition settled :: "idempotency_receipt \<Rightarrow> response \<Rightarrow> bool" where
  "settled receipt resp \<longleftrightarrow>
     ir_status receipt = ''complete'' \<and> ir_response receipt = resp \<and> ir_error receipt = None"

definition receipt_between :: "host \<Rightarrow> work_lifecycle_intent \<Rightarrow> ledger \<Rightarrow> bool" where
  "receipt_between h i s \<longleftrightarrow>
     (\<forall>r. li_request i = Some r \<longrightarrow>
        lifecycle_settles_service_receipt i
        \<and> (\<exists>k receipt resp. lifecycle_response_value h i = Inr resp
            \<and> idemp_path (request_scope r) (rq_request_id r) = Inr k
            \<and> dir_get (lg_receipts s) k = Some receipt
            \<and> same_request receipt (request_scope r) (rq_tool r) (rq_request_id r) (rq_payload_hash r)
            \<and> (ir_status receipt = ''pending'' \<or> settled receipt resp)))"

definition attempts_between :: "work_lifecycle_intent \<Rightarrow> work_attempt set \<Rightarrow> bool" where
  "attempts_between i A \<longleftrightarrow>
     (\<forall>a \<in> A. wa_work_id a = li_work_id i \<longrightarrow> a \<in> set (li_prior_attempts i @ li_attempts i))
     \<and> wa_attempt_id ` set (li_prior_attempts i) \<subseteq> wa_attempt_id ` A
     \<and> (\<forall>a \<in> A. wa_attempt_id a \<in> wa_attempt_id ` set (li_prior_attempts i @ li_attempts i)
           \<longrightarrow> wa_work_id a = li_work_id i)"

definition between :: "host \<Rightarrow> work_lifecycle_intent \<Rightarrow> ledger \<Rightarrow> bool" where
  "between h i s \<longleftrightarrow>
     records_ok s
     \<and> dir_get (lg_items s) (li_work_id i) \<in> {Some (li_prior_item i), Some (li_item i)}
     \<and> attempts_between i (attempts_set s)
     \<and> receipt_between h i s"

text \<open>The response that a commit records.\<close>

definition responded :: "host \<Rightarrow> work_lifecycle_intent \<Rightarrow> ledger \<Rightarrow> bool" where
  "responded h i u \<longleftrightarrow>
     (\<forall>r k resp. li_request i = Some r \<longrightarrow> lifecycle_response_value h i = Inr resp \<longrightarrow> resp \<noteq> R_Null
          \<longrightarrow> idemp_path (request_scope r) (rq_request_id r) = Inr k
          \<longrightarrow> (\<exists>x. dir_get (lg_receipts u) k = Some x \<and> settled x resp))"

definition written :: "host \<Rightarrow> work_lifecycle_intent \<Rightarrow> ledger \<Rightarrow> bool" where
  "written h i s \<longleftrightarrow>
     dir_get (lg_items s) (li_work_id i) = Some (li_item i)
     \<and> (\<forall>n \<in> set (li_attempts i). dir_get (lg_attempts s) (wa_attempt_id n) = Some n)
     \<and> responded h i s"

definition applied :: "host \<Rightarrow> work_lifecycle_intent \<Rightarrow> ledger \<Rightarrow> bool" where
  "applied h i s \<longleftrightarrow>
     written h i s
     \<and> (\<forall>k. safe_id_filename (li_intent_id i) = Inr k \<longrightarrow> dir_get (lg_lifecycles s) k = None)"

text \<open>The records of every other work item, which a commit leaves alone.\<close>

definition others_same :: "work_lifecycle_intent \<Rightarrow> ledger \<Rightarrow> ledger \<Rightarrow> bool" where
  "others_same i s t \<longleftrightarrow>
     (\<forall>w. w \<noteq> li_work_id i \<longrightarrow> dir_get (lg_items t) w = dir_get (lg_items s) w)
     \<and> (\<forall>k. k \<notin> wa_attempt_id ` set (li_attempts i) \<longrightarrow> dir_get (lg_attempts t) k = dir_get (lg_attempts s) k)"

text \<open>What every lifecycle operation of the store builds.\<close>

definition lifecycle_wf :: "work_lifecycle_intent \<Rightarrow> bool" where
  "lifecycle_wf i \<longleftrightarrow>
     lifecycle_validate i = Inr () \<and> is_ok (safe_id_filename (li_intent_id i))
     \<and> wi_dependencies (li_item i) = wi_dependencies (li_prior_item i)
     \<and> wa_attempt_id ` set (li_prior_attempts i) \<subseteq> wa_attempt_id ` set (li_attempts i)"

subsection \<open>Directories\<close>

lemma dir_list_put_iff:
  assumes "dir_ok key d" "key x = k"
  shows "v \<in> set (dir_list (dir_put k x d)) \<longleftrightarrow> v = x \<or> (v \<in> set (dir_list d) \<and> key v \<noteq> k)"
  using dir_list_get [OF assms(1), of v] dir_list_get [OF dir_ok_put [OF assms(1,2)], of v] assms(2)
  by auto

lemma attempts_set_put:
  "records_ok s \<Longrightarrow> attempts_set (s\<lparr>lg_attempts := dir_put (wa_attempt_id a) a (lg_attempts s)\<rparr>)
     = insert a {x \<in> attempts_set s. wa_attempt_id x \<noteq> wa_attempt_id a}"
  by (auto simp: attempts_set_def records_ok_def dir_list_put_iff)

lemma attempts_between_put:
  assumes A: "attempts_between i A" and n: "n \<in> set (li_attempts i)" "wa_work_id n = li_work_id i"
  shows "attempts_between i (insert n {x \<in> A. wa_attempt_id x \<noteq> wa_attempt_id n})"
proof -
  have "wa_attempt_id ` A \<subseteq> wa_attempt_id ` insert n {x \<in> A. wa_attempt_id x \<noteq> wa_attempt_id n}"
    by auto
  then have "wa_attempt_id ` set (li_prior_attempts i)
      \<subseteq> wa_attempt_id ` insert n {x \<in> A. wa_attempt_id x \<noteq> wa_attempt_id n}"
    using A unfolding attempts_between_def by (meson order_trans)
  then show ?thesis using A n unfolding attempts_between_def by (intro conjI) auto
qed

lemma between_frame [simp]:
  "between h i (s\<lparr>lg_lifecycles := x4\<rparr>) = between h i s"
  "between h i (s\<lparr>lg_writes := n\<rparr>) = between h i s"
  "between h i (note_partial_commit e s) = between h i s"
  "others_same i s (u\<lparr>lg_writes := n\<rparr>) = others_same i s u"
  "others_same i s (u\<lparr>lg_lifecycles := x4\<rparr>) = others_same i s u"
  "others_same i s (u\<lparr>lg_receipts := x5\<rparr>) = others_same i s u"
  "others_same i s (note_partial_commit e u) = others_same i s u"
  by (simp_all add: between_def records_ok_def receipt_between_def note_partial_commit_def
        others_same_def)

lemma others_same_cong:
  "lg_items t = lg_items u \<Longrightarrow> lg_attempts t = lg_attempts u \<Longrightarrow> others_same i s t = others_same i s u"
  by (simp add: others_same_def)

lemma between_hash:
  assumes "hash_payload g = hash_payload h"
  shows "between g i s = between h i s"
proof -
  have d: "attempt_digest g = attempt_digest h"
    using assms by (simp add: attempt_digest_def fun_eq_iff)
  have "lifecycle_response_value g i = lifecycle_response_value h i"
    unfolding lifecycle_response_value_def changed_lifecycle_attempt_def d ..
  then show ?thesis by (simp add: between_def receipt_between_def)
qed

lemma applied_hash:
  assumes "hash_payload g = hash_payload h"
  shows "applied g i s = applied h i s"
proof -
  have d: "attempt_digest g = attempt_digest h"
    using assms by (simp add: attempt_digest_def fun_eq_iff)
  have "lifecycle_response_value g i = lifecycle_response_value h i"
    unfolding lifecycle_response_value_def changed_lifecycle_attempt_def d ..
  then show ?thesis by (simp add: applied_def written_def responded_def)
qed

lemma others_same_trans: "others_same i s t \<Longrightarrow> others_same i t u \<Longrightarrow> others_same i s u"
  by (simp add: others_same_def)

lemma between_put_attempt:
  assumes i: "lifecycle_validate i = Inr ()" and s: "between h i s" and n: "n \<in> set (li_attempts i)"
  shows "between h i (s\<lparr>lg_attempts := dir_put (wa_attempt_id n) n (lg_attempts s)\<rparr>)"
proof -
  let ?t = "s\<lparr>lg_attempts := dir_put (wa_attempt_id n) n (lg_attempts s)\<rparr>"
  have ok: "records_ok s" using s by (simp add: between_def)
  have nv: "attempt_validate n = Inr ()" "wa_work_id n = li_work_id i"
    using lifecycle_validate_ok(3) [OF i] n by auto
  have "attempts_between i (attempts_set ?t)"
    unfolding attempts_set_put [OF ok] using s n nv by (intro attempts_between_put) (auto simp: between_def)
  moreover have "records_ok ?t"
    using ok nv attempts_set_put [OF ok, of n] by (auto simp: records_ok_def)
  ultimately show ?thesis using s by (simp add: between_def receipt_between_def)
qed

lemma between_put_item:
  assumes i: "lifecycle_validate i = Inr ()" and s: "between h i s"
  shows "between h i (s\<lparr>lg_items := dir_put (li_work_id i) (li_item i) (lg_items s)\<rparr>)"
  using s lifecycle_validate_ok(1,2) [OF i]
  by (auto simp: between_def records_ok_def receipt_between_def dir_list_put_iff)

subsection \<open>Writes that may fail\<close>

definition reliable :: "host \<Rightarrow> bool" where
  "reliable h \<longleftrightarrow> (\<forall>n. durable_outcome h n = Written)"

lemma wp_durable_reliable:
  assumes "Q () (f (s\<lparr>lg_writes := Suc (lg_writes s)\<rparr>))"
    and "\<And>e. \<not> reliable h \<Longrightarrow> E e (s\<lparr>lg_writes := Suc (lg_writes s)\<rparr>)"
    and "\<And>e. \<not> reliable h \<Longrightarrow> E e (f (s\<lparr>lg_writes := Suc (lg_writes s)\<rparr>))"
  shows "wp (durable h f) Q E s"
proof -
  have "\<not> reliable h" if "durable_outcome h (lg_writes s) \<noteq> Written"
    using that by (auto simp: reliable_def)
  then show ?thesis using assms by (auto simp: wp_def durable_def Let_def split: write_outcome.splits)
qed

subsection \<open>Every commit stays between\<close>

lemma wp_finish_receipt:
  assumes get: "dir_get (lg_receipts s) k = Some receipt" and path: "idemp_path sc req = Inr k"
    and same: "same_request receipt sc tool req p"
    and state: "ir_status receipt = ''pending'' \<or> settled receipt resp"
    and I: "I s" "\<And>n. I (s\<lparr>lg_writes := n\<rparr>)"
    and put: "\<And>n r. same_request r sc tool req p \<Longrightarrow> settled r resp
      \<Longrightarrow> I (s\<lparr>lg_writes := n, lg_receipts := dir_put k r (lg_receipts s)\<rparr>)"
  shows "wp (finish_idempotency h sc tool req p run resp None ''complete'')
     (\<lambda>_ u. I u \<and> (\<exists>r. dir_get (lg_receipts u) k = Some r \<and> settled r resp))
     (\<lambda>_ u. \<not> reliable h \<and> I u) s"
proof (cases "settled receipt resp")
  case True
  then show ?thesis
    using get path same I by (auto simp: finish_idempotency_def settled_def wp)
next
  case False
  then have pend: "ir_status receipt = ''pending''" using state by simp
  let ?new = "\<lparr>ir_schema_version = IDEMPOTENCY_RECEIPT_SCHEMA_VERSION, ir_owner_id = sc_owner_id sc,
              ir_session_id = sc_session_id sc, ir_workspace_digest = sc_workspace_digest sc,
              ir_request_id = req, ir_payload_hash = p, ir_run_id = run,
              ir_tool = tool, ir_response = resp, ir_error = None,
              ir_created_at = ir_created_at receipt, ir_status = ''complete'',
              ir_cleanup_plan_digest = ir_cleanup_plan_digest receipt\<rparr>"
  have new: "same_request ?new sc tool req p" "settled ?new resp"
    by (simp_all add: same_request_def is_in_scope_def settled_def)
  have "wp (put_receipt h k ?new)
      (\<lambda>_ u. I u \<and> (\<exists>r. dir_get (lg_receipts u) k = Some r \<and> settled r resp))
      (\<lambda>_ u. \<not> reliable h \<and> I u) s"
    unfolding put_receipt_def wp_map_err using I put [OF new] new(2)
    by (intro wp_durable_reliable) auto
  then show ?thesis
    using get path same pend by (simp add: finish_idempotency_def wp)
qed

definition commit_tail :: "host \<Rightarrow> work_lifecycle_intent \<Rightarrow> unit ledger_op" where
  "commit_tail h i = thenE
       (if lifecycle_settles_service_receipt i
        then bindE (lift (lifecycle_response_value h i)) (complete_bound_request h (li_request i))
        else ret ())
       (clear_work_lifecycle_intent h (li_intent_id i))"

text \<open>A commit is its writes followed by the removal of its intent.\<close>

definition commit_settle :: "host \<Rightarrow> work_lifecycle_intent \<Rightarrow> unit ledger_op" where
  "commit_settle h i =
     (if lifecycle_settles_service_receipt i
      then bindE (lift (lifecycle_response_value h i)) (complete_bound_request h (li_request i))
      else ret ())"

definition commit_writes :: "host \<Rightarrow> work_lifecycle_intent \<Rightarrow> unit ledger_op" where
  "commit_writes h i =
     bindE (preflight_work_lifecycle_intent h i) (\<lambda>(current_item_digest, current_attempts).
     thenE (on_err note_partial_commit (write_work_lifecycle_attempt_updates h i current_attempts))
     (thenE (on_err note_partial_commit (write_work_lifecycle_item_update h i current_item_digest)) (commit_settle h i)))"

lemma commit_split:
  "commit_work_lifecycle_intent h i = thenE (commit_writes h i) (clear_work_lifecycle_intent h (li_intent_id i))"
  unfolding commit_work_lifecycle_intent_def commit_writes_def commit_settle_def [symmetric]
  by (rule ext) (auto simp: bindE_def thenE_def split: sum.splits prod.splits)

text \<open>The writes of a commit leave the pending intents alone.\<close>

abbreviation same_intents :: "(string, work_lifecycle_intent) dir \<Rightarrow> ledger \<Rightarrow> bool" where
  "same_intents d u \<equiv> lg_lifecycles u = d"

lemma keeps_intents_note: "keeps (same_intents d) m \<Longrightarrow> keeps (same_intents d) (on_err note_partial_commit m)"
  by (simp add: keeps_wp wp_on_err note_partial_commit_def)

lemma keeps_intents_settle: "keeps (same_intents d) (commit_settle h i)"
proof -
  have "keeps (same_intents d) (put_receipt h k r)" for k r
    unfolding put_receipt_def by (intro ledger_intro keeps_durable; simp)
  then have "keeps (same_intents d) (finish_idempotency h sc tool req p run resp err status)"
    for sc tool req p run resp err status
    unfolding finish_idempotency_def by (intro ledger_intro)
  then show ?thesis
    unfolding commit_settle_def complete_bound_request_def by (intro ledger_intro keeps_intents_note)
qed

lemma keeps_intents_saves:
  "keeps (same_intents d) (save_work_attempt h a)" "keeps (same_intents d) (save_work_item h w)"
  unfolding save_work_attempt_def save_work_item_def write_work_item_def work_path_def
  by (intro ledger_intro keeps_durable; simp)+

lemma commit_writes_intents: "keeps (same_intents d) (commit_writes h i)"
  unfolding commit_writes_def preflight_work_lifecycle_intent_def write_work_lifecycle_attempt_updates_def
    write_work_lifecycle_item_update_def
  by (intro ledger_intro keeps_intents_note keeps_intents_settle keeps_intents_saves)

lemma between_put_receipt:
  assumes s: "between h i s" and r: "li_request i = Some r"
    and k: "idemp_path (request_scope r) (rq_request_id r) = Inr k"
    and resp: "lifecycle_response_value h i = Inr resp"
    and new: "same_request x (request_scope r) (rq_tool r) (rq_request_id r) (rq_payload_hash r)" "settled x resp"
  shows "between h i (s\<lparr>lg_writes := n, lg_receipts := dir_put k x (lg_receipts s)\<rparr>)"
proof -
  have "receipt_between h i (s\<lparr>lg_writes := n, lg_receipts := dir_put k x (lg_receipts s)\<rparr>)"
    using s r k resp new unfolding between_def receipt_between_def by fastforce
  then show ?thesis using s by (simp add: between_def records_ok_def)
qed

lemma wp_clear_intent:
  assumes k: "is_ok (safe_id_filename k)"
    and I: "I s" "\<And>n. I (s\<lparr>lg_writes := n\<rparr>)" "\<And>n x. I (s\<lparr>lg_writes := n, lg_lifecycles := x\<rparr>)"
  shows "wp (clear_work_lifecycle_intent h k)
    (\<lambda>_ u. I u \<and> lg_items u = lg_items s \<and> lg_attempts u = lg_attempts s \<and> lg_receipts u = lg_receipts s
       \<and> (\<forall>f. safe_id_filename k = Inr f \<longrightarrow> dir_get (lg_lifecycles u) f = None))
    (\<lambda>_ u. \<not> reliable h \<and> I u) s"
proof (cases "safe_id_filename k")
  case (Inl e)
  then show ?thesis using k by (simp add: is_ok_def)
next
  case (Inr f)
  then show ?thesis
    using I by (auto simp: clear_work_lifecycle_intent_def wp intro!: wp_durable_reliable)
qed

lemma wp_settle:
  assumes s: "between h i s"
  shows "wp (commit_settle h i)
     (\<lambda>_ u. between h i u \<and> lg_items u = lg_items s \<and> lg_attempts u = lg_attempts s
        \<and> responded h i u)
     (\<lambda>_ u. \<not> reliable h \<and> between h i u \<and> lg_items u = lg_items s \<and> lg_attempts u = lg_attempts s) s"
proof (cases "li_request i")
  case None
  then show ?thesis
    using s by (simp add: commit_settle_def lifecycle_settles_service_receipt_def lifecycle_response_value_def
        complete_bound_request_def responded_def wp)
next
  case (Some r)
  then obtain k receipt resp where settles: "lifecycle_settles_service_receipt i"
    and resp: "lifecycle_response_value h i = Inr resp"
    and k: "idemp_path (request_scope r) (rq_request_id r) = Inr k"
    and get: "dir_get (lg_receipts s) k = Some receipt"
    and same: "same_request receipt (request_scope r) (rq_tool r) (rq_request_id r) (rq_payload_hash r)"
    and state: "ir_status receipt = ''pending'' \<or> settled receipt resp"
    using s unfolding between_def receipt_between_def by blast
  let ?I = "\<lambda>u. between h i u \<and> lg_items u = lg_items s \<and> lg_attempts u = lg_attempts s"
  have "wp (finish_idempotency h (request_scope r) (rq_tool r) (rq_request_id r) (rq_payload_hash r)
       None resp None ''complete'')
     (\<lambda>_ u. ?I u \<and> (\<exists>x. dir_get (lg_receipts u) k = Some x \<and> settled x resp))
     (\<lambda>_ u. \<not> reliable h \<and> ?I u) s"
    by (rule wp_finish_receipt [OF get k same state])
       (use s between_put_receipt [OF s Some k resp] in simp_all)
  then show ?thesis
    using s Some settles resp k
    by (simp add: commit_settle_def complete_bound_request_def wp) (auto elim!: wp_mono simp: note_partial_commit_def responded_def)
qed

subsection \<open>The preflight accepts every state between\<close>

lemma preflight_attempts_accepts:
  assumes "\<And>a. a \<in> set prior \<Longrightarrow> \<exists>c n. cur (wa_attempt_id a) = Some c \<and> nxt (wa_attempt_id a) = Some n
      \<and> (c = a \<or> c = n)"
    and "distinct (map wa_attempt_id prior)"
  shows "\<exists>rest. preflight_attempts h nxt prior cur = Inr rest"
  using assms
proof (induction prior arbitrary: cur)
  case (Cons a prior)
  have "(cur(wa_attempt_id a := None)) (wa_attempt_id x) = cur (wa_attempt_id x)" if "x \<in> set prior" for x
    using Cons.prems(2) that by (metis distinct.simps(2) fun_upd_apply image_eqI list.simps(9) set_map)
  then have "\<exists>rest. preflight_attempts h nxt prior (cur(wa_attempt_id a := None)) = Inr rest"
    using Cons.prems by (intro Cons.IH) auto
  moreover obtain c n where "cur (wa_attempt_id a) = Some c" "nxt (wa_attempt_id a) = Some n" "c = a \<or> c = n"
    using Cons.prems(1) by (meson list.set_intros(1))
  ultimately show ?case by auto
qed simp

lemma lifecycle_updates_accepts:
  assumes "\<And>n c. n \<in> set nexts \<Longrightarrow> c \<in> set cur \<Longrightarrow> wa_attempt_id c = wa_attempt_id n \<Longrightarrow> c \<noteq> n
      \<Longrightarrow> c \<in> set prior"
  shows "\<exists>ups. lifecycle_updates h prior cur nexts = Inr ups \<and> set ups \<subseteq> set nexts
    \<and> (\<forall>n \<in> set nexts. n \<in> set ups
         \<or> (\<exists>c \<in> set cur. wa_attempt_id c = wa_attempt_id n \<and> attempt_digest h c = attempt_digest h n))"
  using assms
proof (induction nexts)
  case (Cons n nexts)
  then obtain ups where ups: "lifecycle_updates h prior cur nexts = Inr ups" "set ups \<subseteq> set nexts"
    "\<forall>n \<in> set nexts. n \<in> set ups
         \<or> (\<exists>c \<in> set cur. wa_attempt_id c = wa_attempt_id n \<and> attempt_digest h c = attempt_digest h n)"
    by (metis list.set_intros(2))
  show ?case
  proof (cases "find (\<lambda>c. wa_attempt_id c = wa_attempt_id n) cur")
    case None
    then show ?thesis using ups by auto
  next
    case (Some c)
    then have c: "c \<in> set cur" "wa_attempt_id c = wa_attempt_id n"
      by (auto simp: find_Some_iff)
    show ?thesis
    proof (cases "attempt_digest h c = attempt_digest h n")
      case True
      then show ?thesis using ups Some c by auto
    next
      case False
      then have "c \<in> set prior" using Cons.prems [of n c] c by auto
      then have "list_ex (\<lambda>p. wa_attempt_id p = wa_attempt_id n) prior" using c by (auto simp: list_ex_iff)
      then show ?thesis using ups Some False by auto
    qed
  qed
qed simp

definition saved_updates :: "work_attempt list \<Rightarrow> ledger \<Rightarrow> ledger \<Rightarrow> bool" where
  "saved_updates ups s u \<longleftrightarrow>
     lg_items u = lg_items s
     \<and> (\<forall>n \<in> set ups. dir_get (lg_attempts u) (wa_attempt_id n) = Some n)
     \<and> (\<forall>k. k \<notin> wa_attempt_id ` set ups \<longrightarrow> dir_get (lg_attempts u) k = dir_get (lg_attempts s) k)"

lemma saved_updates_Cons:
  assumes put: "saved_updates ups (s\<lparr>lg_writes := w, lg_attempts := dir_put (wa_attempt_id n) n (lg_attempts s)\<rparr>) u"
    and inj: "\<And>m. m \<in> set ups \<Longrightarrow> wa_attempt_id m = wa_attempt_id n \<Longrightarrow> m = n"
  shows "saved_updates (n # ups) s u"
proof -
  have "dir_get (lg_attempts u) (wa_attempt_id n) = Some n"
  proof (cases "wa_attempt_id n \<in> wa_attempt_id ` set ups")
    case True
    then obtain m where "m \<in> set ups" "wa_attempt_id m = wa_attempt_id n" by (metis imageE)
    then show ?thesis using put inj unfolding saved_updates_def by metis
  next
    case False
    then show ?thesis using put unfolding saved_updates_def by simp
  qed
  then show ?thesis using put unfolding saved_updates_def by simp
qed

context sound_host
begin

lemma between_current:
  assumes "between h i s" "lifecycle_wf i" "a \<in> set (li_prior_attempts i)"
  shows "\<exists>c n. by_id (attempts_of s (li_work_id i)) (wa_attempt_id a) = Some c
     \<and> by_id (li_attempts i) (wa_attempt_id a) = Some n \<and> (c = a \<or> c = n)"
proof -
  have v: "lifecycle_validate i = Inr ()" and ok: "records_ok s" and A: "attempts_between i (attempts_set s)"
    using assms by (simp_all add: lifecycle_wf_def between_def)
  obtain n where n: "n \<in> set (li_attempts i)" "wa_attempt_id n = wa_attempt_id a"
    using assms(2,3) unfolding lifecycle_wf_def by (metis image_iff subsetD)
  obtain c where c: "c \<in> attempts_set s" "wa_attempt_id c = wa_attempt_id a"
    using A assms(3) unfolding attempts_between_def by (metis image_iff subsetD)
  then have "wa_attempt_id c \<in> wa_attempt_id ` set (li_prior_attempts i @ li_attempts i)"
    using assms(3) by simp
  then have "wa_work_id c = li_work_id i"
    using A c unfolding attempts_between_def by blast
  then have mem: "c \<in> set (attempts_of s (li_work_id i))" "c \<in> set (li_prior_attempts i) \<union> set (li_attempts i)"
    using A c unfolding attempts_between_def by (auto simp: set_attempts_of)
  have "c = a \<or> c = n"
    using mem(2) c n assms(3) lifecycle_validate_ok(4,5) [OF v] by (metis UnE inj_on_eq_iff distinct_map)
  then show ?thesis
    using by_id_get [OF attempts_of_distinct [OF ok]] by_id_get [OF lifecycle_validate_ok(5) [OF v]] mem n c
    by blast
qed

lemma wp_preflight_between:
  assumes s: "between h i s" and i: "lifecycle_wf i"
  shows "wp (preflight_work_lifecycle_intent h i)
    (\<lambda>(d, cur) u. u = s \<and> cur = attempts_of s (li_work_id i)
       \<and> (d = work_digest h (li_item i) \<longrightarrow> dir_get (lg_items s) (li_work_id i) = Some (li_item i)))
    (\<lambda>_ _. False) s"
proof -
  let ?cur = "attempts_of s (li_work_id i)"
  have v: "lifecycle_validate i = Inr ()" and ok: "records_ok s" and A: "attempts_between i (attempts_set s)"
    using s i by (simp_all add: lifecycle_wf_def between_def)
  obtain item where item: "dir_get (lg_items s) (li_work_id i) = Some item" "item = li_prior_item i \<or> item = li_item i"
    using s by (auto simp: between_def)
  then have valid: "item_validate item = Inr ()" using lifecycle_validate_ok(2,9) [OF v] by auto
  have name: "safe_id_filename (li_work_id i) = Inr (li_work_id i)"
    using safe_id_filename_valid item_validate_id [OF lifecycle_validate_ok(2) [OF v]]
      lifecycle_validate_ok(1) [OF v] by metis
  obtain rest where rest: "preflight_attempts h (by_id (li_attempts i)) (li_prior_attempts i) (by_id ?cur) = Inr rest"
    using preflight_attempts_accepts between_current [OF s i] lifecycle_validate_ok(4) [OF v] by blast
  have "by_id (li_attempts i) (wa_attempt_id a) \<noteq> None" if "a \<in> set ?cur" for a
  proof -
    have "wa_attempt_id a \<in> wa_attempt_id ` set (li_attempts i)"
    proof -
      have "a \<in> set (li_prior_attempts i) \<or> a \<in> set (li_attempts i)"
        using that A unfolding set_attempts_of attempts_between_def by auto
      then show ?thesis using i unfolding lifecycle_wf_def by blast
    qed
    then show ?thesis using by_id_get [OF lifecycle_validate_ok(5) [OF v]] by fastforce
  qed
  then have left: "\<not> list_ex (\<lambda>a. rest (wa_attempt_id a) \<noteq> None
      \<and> by_id (li_attempts i) (wa_attempt_id a) = None) ?cur"
    by (auto simp: list_ex_iff)
  show ?thesis
    using v item valid name rest left work_digest_inj
    by (auto simp: preflight_work_lifecycle_intent_def load_work_item_def file_get_def checked_def wp
          Let_def wp_list_attempts [OF ok])
qed

lemma wp_save_updates:
  assumes "between h i s" "lifecycle_validate i = Inr ()" "set ups \<subseteq> set (li_attempts i)" "others_same i s0 s"
  shows "wp (for_each ups (\<lambda>a. map_err internal_of (save_work_attempt h a)))
    (\<lambda>_ u. between h i u \<and> others_same i s0 u \<and> saved_updates ups s u)
    (\<lambda>_ u. \<not> reliable h \<and> between h i u \<and> others_same i s0 u) s"
  using assms
proof (induction ups arbitrary: s)
  case Nil
  then show ?case by (simp add: wp saved_updates_def)
next
  case (Cons n ups)
  let ?put = "\<lambda>u. u\<lparr>lg_attempts := dir_put (wa_attempt_id n) n (lg_attempts u)\<rparr>"
  let ?w = "s\<lparr>lg_writes := Suc (lg_writes s)\<rparr>"
  let ?Q = "\<lambda>_ u. between h i u \<and> others_same i s0 u \<and> saved_updates (n # ups) s u"
  let ?E = "\<lambda>_ u. \<not> reliable h \<and> between h i u \<and> others_same i s0 u"
  have n: "n \<in> set (li_attempts i)" "attempt_validate n = Inr ()"
    using Cons.prems lifecycle_validate_ok(3) [OF Cons.prems(2)] by auto
  have name: "safe_id_filename (wa_attempt_id n) = Inr (wa_attempt_id n)"
    using attempt_validate_ids [OF n(2)] safe_id_filename_valid by blast
  have b: "between h i (?put ?w)" "others_same i s0 (?put ?w)"
    using between_put_attempt [OF Cons.prems(2) _ n(1), of h ?w] Cons.prems(1,4) n(1)
    by (auto simp: others_same_def)
  have uniq: "m = n" if "m \<in> set ups" "wa_attempt_id m = wa_attempt_id n" for m
    using that Cons.prems(3) n(1) lifecycle_validate_ok(5) [OF Cons.prems(2)]
    by (metis inj_on_eq_iff distinct_map list.set_intros(2) subsetD)
  have "set ups \<subseteq> set (li_attempts i)" using Cons.prems(3) by simp
  from Cons.IH [OF b(1) Cons.prems(2) this b(2)]
  have rest: "wp (for_each ups (\<lambda>a. map_err internal_of (save_work_attempt h a))) ?Q ?E (?put ?w)"
    by (rule wp_mono) (auto intro: saved_updates_Cons [OF _ uniq])
  have "wp (durable h ?put)
     (\<lambda>_. wp (for_each ups (\<lambda>a. map_err internal_of (save_work_attempt h a))) ?Q ?E) ?E s"
    by (rule wp_durable_reliable) (use rest b Cons.prems(1,4) in simp_all)
  then show ?case using n name by (simp add: save_work_attempt_def work_path_def wp)
qed

lemma wp_write_updates:
  assumes s: "between h i s" and i: "lifecycle_wf i"
  shows "wp (write_work_lifecycle_attempt_updates h i (attempts_of s (li_work_id i)))
    (\<lambda>_ u. between h i u \<and> others_same i s u \<and> lg_items u = lg_items s
       \<and> (\<forall>n \<in> set (li_attempts i). dir_get (lg_attempts u) (wa_attempt_id n) = Some n))
    (\<lambda>_ u. \<not> reliable h \<and> between h i u \<and> others_same i s u) s"
proof -
  let ?cur = "attempts_of s (li_work_id i)"
  have v: "lifecycle_validate i = Inr ()" and ok: "records_ok s" and A: "attempts_between i (attempts_set s)"
    using s i by (simp_all add: lifecycle_wf_def between_def)
  have prior: "c \<in> set (li_prior_attempts i)"
    if "n \<in> set (li_attempts i)" "c \<in> set ?cur" "wa_attempt_id c = wa_attempt_id n" "c \<noteq> n" for n c
  proof -
    have "c \<in> set (li_prior_attempts i) \<union> set (li_attempts i)"
      using that A unfolding set_attempts_of attempts_between_def by auto
    then show ?thesis using that lifecycle_validate_ok(5) [OF v] by (metis UnE inj_on_eq_iff distinct_map)
  qed
  have "\<exists>ups. lifecycle_updates h (li_prior_attempts i) ?cur (li_attempts i) = Inr ups
      \<and> set ups \<subseteq> set (li_attempts i)
      \<and> (\<forall>n \<in> set (li_attempts i). n \<in> set ups
           \<or> (\<exists>c \<in> set ?cur. wa_attempt_id c = wa_attempt_id n \<and> attempt_digest h c = attempt_digest h n))"
    by (rule lifecycle_updates_accepts) (rule prior)
  then obtain ups where ups: "lifecycle_updates h (li_prior_attempts i) ?cur (li_attempts i) = Inr ups"
    "set ups \<subseteq> set (li_attempts i)"
    and kept: "\<forall>n \<in> set (li_attempts i). n \<in> set ups \<or> n \<in> set ?cur"
    using attempt_digest_inj by metis
  have stored: "dir_get (lg_attempts s) (wa_attempt_id n) = Some n" if "n \<in> set ?cur" for n
    using that ok dir_list_get [of wa_attempt_id "lg_attempts s" n]
    by (simp add: set_attempts_of attempts_set_def records_ok_def)
  have fin: "\<forall>n \<in> set (li_attempts i). dir_get (lg_attempts u) (wa_attempt_id n) = Some n"
    if "saved_updates ups s u" for u
  proof
    fix n assume n: "n \<in> set (li_attempts i)"
    show "dir_get (lg_attempts u) (wa_attempt_id n) = Some n"
    proof (cases "wa_attempt_id n \<in> wa_attempt_id ` set ups")
      case True
      then obtain m where "m \<in> set ups" "wa_attempt_id m = wa_attempt_id n" by (metis imageE)
      moreover then have "m = n"
        using n ups(2) lifecycle_validate_ok(5) [OF v] by (metis inj_on_eq_iff distinct_map subsetD)
      ultimately show ?thesis using that unfolding saved_updates_def by auto
    next
      case False
      then show ?thesis using that n kept stored unfolding saved_updates_def by (metis imageI)
    qed
  qed
  have "others_same i s s" by (simp add: others_same_def)
  from wp_save_updates [OF s v ups(2) this]
  have "wp (for_each ups (\<lambda>a. map_err internal_of (save_work_attempt h a)))
    (\<lambda>_ u. between h i u \<and> others_same i s u \<and> lg_items u = lg_items s
       \<and> (\<forall>n \<in> set (li_attempts i). dir_get (lg_attempts u) (wa_attempt_id n) = Some n))
    (\<lambda>_ u. \<not> reliable h \<and> between h i u \<and> others_same i s u) s"
    by (rule wp_mono) (use fin in \<open>auto simp: saved_updates_def\<close>)
  then show ?thesis
    using ups(1) by (simp add: write_work_lifecycle_attempt_updates_def work_lifecycle_attempt_updates_def wp)
qed

lemma wp_write_item:
  assumes s: "between h i s" and i: "lifecycle_wf i" and o: "others_same i s0 s"
    and d: "d = work_digest h (li_item i) \<Longrightarrow> dir_get (lg_items s) (li_work_id i) = Some (li_item i)"
  shows "wp (write_work_lifecycle_item_update h i d)
    (\<lambda>_ u. between h i u \<and> others_same i s0 u \<and> lg_attempts u = lg_attempts s
       \<and> dir_get (lg_items u) (li_work_id i) = Some (li_item i))
    (\<lambda>_ u. \<not> reliable h \<and> between h i u \<and> others_same i s0 u) s"
proof (cases "d = work_digest h (li_item i)")
  case True
  then show ?thesis using s o d by (simp add: write_work_lifecycle_item_update_def wp)
next
  case False
  let ?put = "\<lambda>u. u\<lparr>lg_items := dir_put (li_work_id i) (li_item i) (lg_items u)\<rparr>"
  have v: "lifecycle_validate i = Inr ()" using i by (simp add: lifecycle_wf_def)
  obtain item where item: "dir_get (lg_items s) (li_work_id i) = Some item"
    "item = li_prior_item i \<or> item = li_item i"
    using s by (auto simp: between_def)
  then have valid: "item_validate item = Inr ()" "wi_dependencies item = wi_dependencies (li_item i)"
    using lifecycle_validate_ok(2,9) [OF v] i by (auto simp: lifecycle_wf_def)
  have name: "safe_id_filename (li_work_id i) = Inr (li_work_id i)"
    using safe_id_filename_valid item_validate_id [OF lifecycle_validate_ok(2) [OF v]]
      lifecycle_validate_ok(1) [OF v] by metis
  have "wp (durable h ?put)
    (\<lambda>_ u. between h i u \<and> others_same i s0 u \<and> lg_attempts u = lg_attempts s
       \<and> dir_get (lg_items u) (li_work_id i) = Some (li_item i))
    (\<lambda>_ u. \<not> reliable h \<and> between h i u \<and> others_same i s0 u) s"
    using s o between_put_item [OF v, of h "s\<lparr>lg_writes := Suc (lg_writes s)\<rparr>"]
    by (intro wp_durable_reliable) (auto simp: others_same_def)
  then show ?thesis
    using False item valid name lifecycle_validate_ok(1,2) [OF v]
    by (simp add: write_work_lifecycle_item_update_def save_work_item_def validate_work_item_for_save_def
          write_work_item_def load_work_item_def file_get_def checked_def work_path_def wp)
qed

lemma wp_commit_stages:
  assumes s: "between h i s" and i: "lifecycle_wf i"
  shows "wp (commit_writes h i)
    (\<lambda>_ u. between h i u \<and> others_same i s u \<and> written h i u)
    (\<lambda>_ u. \<not> reliable h \<and> between h i u \<and> others_same i s u) s"
proof -
  let ?E = "\<lambda>_ u. \<not> reliable h \<and> between h i u \<and> others_same i s u"
  let ?Q = "\<lambda>_ u. between h i u \<and> others_same i s u \<and> written h i u"
  let ?A = "\<lambda>u. \<forall>n \<in> set (li_attempts i). dir_get (lg_attempts u) (wa_attempt_id n) = Some n"
  have settle: "wp (commit_settle h i) ?Q ?E u"
    if "between h i u" "others_same i s u" "?A u"
      "dir_get (lg_items u) (li_work_id i) = Some (li_item i)" for u
  proof -
    have o: "others_same i s t" if "lg_items t = lg_items u" "lg_attempts t = lg_attempts u" for t
      using others_same_cong [OF that] \<open>others_same i s u\<close> by simp
    show ?thesis
      by (rule wp_mono [OF wp_settle [OF that(1)]]) (use that in \<open>auto simp: written_def intro!: o\<close>)
  qed
  have item: "wp (thenE (on_err note_partial_commit (write_work_lifecycle_item_update h i d)) (commit_settle h i)) ?Q ?E u"
    if "between h i u" "others_same i s u" "?A u"
      "d = work_digest h (li_item i) \<longrightarrow> dir_get (lg_items u) (li_work_id i) = Some (li_item i)" for u d
    unfolding wp_thenE wp_on_err
    by (rule wp_mono [OF wp_write_item [OF that(1) i that(2)]]) (use that in \<open>auto intro!: settle\<close>)
  have writes: "wp (thenE (on_err note_partial_commit
        (write_work_lifecycle_attempt_updates h i (attempts_of s (li_work_id i))))
        (thenE (on_err note_partial_commit (write_work_lifecycle_item_update h i d)) (commit_settle h i))) ?Q ?E s"
    if "d = work_digest h (li_item i) \<longrightarrow> dir_get (lg_items s) (li_work_id i) = Some (li_item i)" for d
    unfolding wp_thenE [of "on_err note_partial_commit (write_work_lifecycle_attempt_updates h i
      (attempts_of s (li_work_id i)))"] wp_on_err
    by (rule wp_mono [OF wp_write_updates [OF s i]]) (use that in \<open>auto intro!: item\<close>)
  show ?thesis
    unfolding commit_writes_def wp_bindE
    by (rule wp_mono [OF wp_preflight_between [OF s i]]) (auto intro!: writes)
qed

lemma wp_commit_pending:
  assumes s: "between h i s" and i: "lifecycle_wf i"
    and k: "safe_id_filename (li_intent_id i) = Inr k" and disk: "lg_lifecycles s = [(k, i)]"
  shows "wp (commit_work_lifecycle_intent h i)
    (\<lambda>_ u. between h i u \<and> others_same i s u \<and> applied h i u \<and> lg_lifecycles u = [])
    (\<lambda>_ u. \<not> reliable h \<and> between h i u \<and> others_same i s u
       \<and> (lg_lifecycles u = [(k, i)] \<or> lg_lifecycles u = [] \<and> applied h i u)) s"
proof -
  let ?same = "\<lambda>_ u. lg_lifecycles u = [(k, i)]"
  have clear: "wp (clear_work_lifecycle_intent h (li_intent_id i))
      (\<lambda>_ u. between h i u \<and> others_same i s u \<and> applied h i u \<and> lg_lifecycles u = [])
      (\<lambda>_ u. \<not> reliable h \<and> between h i u \<and> others_same i s u
         \<and> (lg_lifecycles u = [(k, i)] \<or> lg_lifecycles u = [] \<and> applied h i u)) u"
    if "between h i u" "others_same i s u" "written h i u" "lg_lifecycles u = [(k, i)]" for u
    using that k
    by (auto simp: clear_work_lifecycle_intent_def wp applied_def written_def responded_def dir_del_def dir_get_def
        intro!: wp_durable_reliable)
  have "wp (commit_writes h i) ?same ?same s"
    using keepsD [OF commit_writes_intents [of "[(k, i)]" h i] disk] .
  from wp_conj [OF wp_commit_stages [OF s i] this] show ?thesis
    unfolding commit_split wp_thenE by (rule wp_mono) (auto intro!: clear)
qed

end

end
