(* ===== verification/Lease_Contract.thy ===== *)
theory Lease_Contract
  imports Crash_Recovery Lease_Safety
begin

section \<open>What a successful operation leaves in the ledger\<close>

text \<open>
  Functional behaviour of the worker's and coordinator's operations: when one returns
  without an error, the item and the attempt it returns are the stored ones, and the
  conditions its code checks held. \<open>commit_done\<close> is the postcondition of every lifecycle
  commit; the operations follow from it by symbolic execution.
\<close>

definition commit_done :: "work_item \<Rightarrow> work_attempt list \<Rightarrow> ledger \<Rightarrow> ledger \<Rightarrow> bool" where
  "commit_done item attempts s u \<longleftrightarrow>
     records_ok u
     \<and> dir_get (lg_items u) (wi_work_id item) = Some item
     \<and> (\<forall>a \<in> set attempts. dir_get (lg_attempts u) (wa_attempt_id a) = Some a)
     \<and> (\<forall>w. w \<noteq> wi_work_id item \<longrightarrow> dir_get (lg_items u) w = dir_get (lg_items s) w)
     \<and> (\<forall>k. k \<notin> wa_attempt_id ` set attempts \<longrightarrow> dir_get (lg_attempts u) k = dir_get (lg_attempts s) k)
     \<and> lg_clock u = lg_clock s \<and> lg_runs u = lg_runs s"

text \<open>The part of the ledger that receipts, decisions and intents are not.\<close>

definition same_work :: "ledger \<Rightarrow> ledger \<Rightarrow> bool" where
  "same_work s u \<longleftrightarrow> lg_items u = lg_items s \<and> lg_attempts u = lg_attempts s \<and> lg_clock u = lg_clock s
     \<and> lg_runs u = lg_runs s"

lemma same_work_frame [simp]:
  "same_work s s"
  "same_work s (u\<lparr>lg_decisions := x2\<rparr>) = same_work s u"
  "same_work s (u\<lparr>lg_mutations := x3\<rparr>) = same_work s u"
  "same_work s (u\<lparr>lg_lifecycles := x4\<rparr>) = same_work s u"
  "same_work s (u\<lparr>lg_receipts := x5\<rparr>) = same_work s u"
  "same_work s (u\<lparr>lg_legacy_receipts := x6\<rparr>) = same_work s u"
  "same_work s (u\<lparr>lg_operation_request := x7\<rparr>) = same_work s u"
  "same_work s (u\<lparr>lg_uuids := x8\<rparr>) = same_work s u"
  "same_work s (u\<lparr>lg_writes := x9\<rparr>) = same_work s u"
  "same_work s (note_partial_commit e u) = same_work s u"
  by (simp_all add: same_work_def note_partial_commit_def)

lemma same_work_records: "same_work s u \<Longrightarrow> records_ok s \<Longrightarrow> records_ok u"
  by (simp add: same_work_def records_ok_def attempts_set_def)

lemma commit_done_same: "same_work u v \<Longrightarrow> commit_done i as s u \<Longrightarrow> commit_done i as s v"
  using same_work_records [of u v] by (simp add: commit_done_def same_work_def)

lemma commit_done_from: "same_work r s \<Longrightarrow> commit_done i as s u \<Longrightarrow> commit_done i as r u"
  by (simp add: commit_done_def same_work_def)

subsection \<open>Operations that leave items and attempts alone\<close>

lemma keeps_same_note [ledger_intro]:
  "keeps (same_work s) m \<Longrightarrow> keeps (same_work s) (on_err note_partial_commit m)"
  by (simp add: keeps_wp wp_on_err)

lemma keeps_same_receipts [ledger_intro]:
  "keeps (same_work s) (put_receipt h k r)" "keeps (same_work s) (drop_legacy h lk)"
  unfolding put_receipt_def drop_legacy_def by (intro ledger_intro keeps_durable; simp)+

lemma keeps_same_finish [ledger_intro]:
  "keeps (same_work s) (finish_idempotency h sc tool req p run resp err status)"
  unfolding finish_idempotency_def by (intro ledger_intro)

lemma keeps_same_bound [ledger_intro]: "keeps (same_work s) (complete_bound_request h req resp)"
  unfolding complete_bound_request_def by (intro ledger_intro)

lemma keeps_same_load [ledger_intro]: "keeps (same_work s) (load_idempotency h sc req)"
  unfolding load_idempotency_def adopt_legacy_owner_receipt_def converge_legacy_owner_receipt_def
  by (intro ledger_intro)

lemma keeps_same_validate [ledger_intro]: "keeps (same_work s) (validate_bound_request h r i pa na)"
  unfolding validate_bound_request_def by (intro ledger_intro)

lemma keeps_same_tail [ledger_intro]: "keeps (same_work s) (commit_tail h i)"
proof -
  have "keeps (same_work s) (clear_work_lifecycle_intent h k)" for k
    unfolding clear_work_lifecycle_intent_def by (intro ledger_intro keeps_durable) simp_all
  then show ?thesis unfolding commit_tail_def by (intro ledger_intro) auto
qed

lemma keeps_same_persist [ledger_intro]: "keeps (same_work s) (persist_work_lifecycle_intent h i)"
  unfolding persist_work_lifecycle_intent_def by (intro ledger_intro keeps_durable) simp_all

lemma keeps_same_uuid [ledger_intro]: "keeps (same_work s) (uuid_op h)"
  by (simp add: keeps_wp wp)

lemma wp_keeps: "keeps I m \<Longrightarrow> I s \<Longrightarrow> (\<And>x u. I u \<Longrightarrow> Q x u) \<Longrightarrow> wp m Q (\<lambda>_ _. True) s"
  by (rule wp_mono [OF keepsD [of I]]) auto

subsection \<open>The commit\<close>

lemma lifecycle_updates_saved:
  assumes "lifecycle_updates h prior cur nexts = Inr ups" and "n \<in> set nexts"
  shows "n \<in> set ups \<or> (\<exists>c \<in> set cur. wa_attempt_id c = wa_attempt_id n \<and> attempt_digest h c = attempt_digest h n)"
  using assms
proof (induction nexts arbitrary: ups)
  case (Cons m nexts)
  then obtain ups' where rec: "lifecycle_updates h prior cur nexts = Inr ups'"
    and sub: "ups = ups' \<or> ups = m # ups'"
    by (auto simp: rbind_ok split: option.splits if_splits)
  show ?case
  proof (cases "n = m")
    case True
    then show ?thesis
      using Cons.prems(1) by (auto simp: rbind_ok find_Some_iff split: option.splits if_splits)
  next
    case False
    then show ?thesis using Cons.IH [OF rec] Cons.prems(2) sub by auto
  qed
qed simp

lemma lifecycle_updates_distinct:
  "lifecycle_updates h prior cur nexts = Inr ups \<Longrightarrow> distinct (map wa_attempt_id nexts)
     \<Longrightarrow> distinct (map wa_attempt_id ups) \<and> set ups \<subseteq> set nexts"
proof (induction nexts arbitrary: ups)
  case (Cons m nexts)
  then obtain ups' where rec: "lifecycle_updates h prior cur nexts = Inr ups'"
    and "ups = ups' \<or> ups = m # ups'"
    by (auto simp: rbind_ok split: option.splits if_splits)
  moreover have "wa_attempt_id m \<notin> wa_attempt_id ` set ups'"
    using Cons.IH [OF rec] Cons.prems(2) by auto
  ultimately show ?case using Cons.IH [OF rec] Cons.prems(2) by auto
qed simp

lemma wp_save_attempts:
  assumes "records_ok s" and "distinct (map wa_attempt_id ups)"
  shows "wp (for_each ups (\<lambda>a. map_err internal_of (save_work_attempt h a)))
     (\<lambda>_ u. records_ok u \<and> saved_updates ups s u \<and> lg_clock u = lg_clock s \<and> lg_runs u = lg_runs s)
     (\<lambda>_ _. True) s"
  using assms
proof (induction ups arbitrary: s)
  case Nil
  then show ?case by (simp add: wp saved_updates_def)
next
  case (Cons n ups)
  let ?put = "\<lambda>u. u\<lparr>lg_attempts := dir_put (wa_attempt_id n) n (lg_attempts u)\<rparr>"
  let ?w = "s\<lparr>lg_writes := Suc (lg_writes s)\<rparr>"
  let ?Q = "\<lambda>_ u. records_ok u \<and> saved_updates (n # ups) s u \<and> lg_clock u = lg_clock s \<and> lg_runs u = lg_runs s"
  have uniq: "m = n" if "m \<in> set ups" "wa_attempt_id m = wa_attempt_id n" for m
    using that Cons.prems(2) by (metis distinct.simps(2) image_eqI list.simps(9) set_map)
  have "wp (for_each ups (\<lambda>a. map_err internal_of (save_work_attempt h a))) ?Q (\<lambda>_ _. True) (?put ?w)"
    if v: "attempt_validate n = Inr ()"
  proof -
    have w: "records_ok ?w" using Cons.prems(1) by (simp add: records_ok_def)
    then have "records_ok (?put ?w)"
      using v attempts_set_put [OF w, of n] by (auto simp: records_ok_def)
    from Cons.IH [OF this] Cons.prems(2) show ?thesis
      by (auto elim!: wp_mono intro: saved_updates_Cons [OF _ uniq])
  qed
  then have "attempt_validate n = Inr () \<Longrightarrow> wp (durable h ?put)
      (\<lambda>_. wp (for_each ups (\<lambda>a. map_err internal_of (save_work_attempt h a))) ?Q (\<lambda>_ _. True))
      (\<lambda>_ _. True) s"
    by (intro wp_durable) auto
  then show ?case
    by (cases "safe_id_filename (wa_attempt_id n)"; cases "attempt_validate n")
       (auto simp: save_work_attempt_def work_path_def wp dest: safe_id_filename_same)
qed

lemma wp_save_item_done:
  "wp (save_work_item h i)
     (\<lambda>_ u. item_validate i = Inr () \<and> (\<exists>n. u = s\<lparr>lg_writes := n, lg_items := dir_put (wi_work_id i) i (lg_items s)\<rparr>))
     (\<lambda>_ _. True) s"
proof -
  have put: "wp (write_work_item h i)
      (\<lambda>_ u. \<exists>n. u = s\<lparr>lg_writes := n, lg_items := dir_put (wi_work_id i) i (lg_items s)\<rparr>) (\<lambda>_ _. True) s"
    using safe_id_filename_same [of "wi_work_id i"]
    by (auto simp: write_work_item_def work_path_def wp intro!: wp_durable split: sum.split)
  show ?thesis
    unfolding save_work_item_def wp_thenE
    by (rule wp_mono [OF wp_validate_for_save [where I = "\<lambda>u. u = s"]])
       (auto intro: wp_mono [OF put])
qed

context sound_host
begin

lemma wp_preflight_done:
  assumes ok: "records_ok s"
  shows "wp (preflight_work_lifecycle_intent h i)
    (\<lambda>(d, cur) u. u = s \<and> cur = attempts_of s (li_work_id i) \<and> lifecycle_validate i = Inr ()
       \<and> dir_get (lg_items s) (li_work_id i) \<in> {Some (li_prior_item i), Some (li_item i)}
       \<and> (d = work_digest h (li_item i) \<longrightarrow> dir_get (lg_items s) (li_work_id i) = Some (li_item i)))
    (\<lambda>_ _. True) s"
proof (cases "lifecycle_validate i")
  case (Inl e)
  then show ?thesis by (simp add: preflight_work_lifecycle_intent_def wp)
next
  case (Inr u)
  then have v: "lifecycle_validate i = Inr ()" by simp
  have name: "safe_id_filename (li_work_id i) = Inr (li_work_id i)"
    using safe_id_filename_valid item_validate_id [OF lifecycle_validate_ok(2) [OF v]]
      lifecycle_validate_ok(1) [OF v] by metis
  show ?thesis
    using v name work_digest_inj
    by (auto simp: preflight_work_lifecycle_intent_def load_work_item_def file_get_def checked_def wp
          Let_def wp_list_attempts [OF ok] split: sum.split option.split)
qed

lemma wp_commit_writes:
  assumes ok: "records_ok s" and valid: "lifecycle_validate i = Inr ()"
  shows "wp (write_work_lifecycle_attempt_updates h i (attempts_of s (li_work_id i)))
     (\<lambda>_ u. records_ok u \<and> lg_items u = lg_items s \<and> lg_clock u = lg_clock s \<and> lg_runs u = lg_runs s
        \<and> (\<forall>a \<in> set (li_attempts i). dir_get (lg_attempts u) (wa_attempt_id a) = Some a)
        \<and> (\<forall>k. k \<notin> wa_attempt_id ` set (li_attempts i) \<longrightarrow> dir_get (lg_attempts u) k = dir_get (lg_attempts s) k))
     (\<lambda>_ _. True) s"
proof (cases "lifecycle_updates h (li_prior_attempts i) (attempts_of s (li_work_id i)) (li_attempts i)")
  case (Inl e)
  then show ?thesis
    by (simp add: write_work_lifecycle_attempt_updates_def work_lifecycle_attempt_updates_def wp)
next
  case (Inr ups)
  let ?cur = "attempts_of s (li_work_id i)"
  note sub = lifecycle_updates_ok [OF Inr, THEN conjunct1]
  have inj: "inj_on wa_attempt_id (set (li_attempts i))"
    using lifecycle_validate_ok(5) [OF valid] by (simp add: distinct_map)
  have stored: "dir_get (lg_attempts s) (wa_attempt_id n) = Some n" if "n \<in> set ?cur" for n
    using that ok dir_list_get [of wa_attempt_id "lg_attempts s" n]
    by (simp add: set_attempts_of attempts_set_def records_ok_def)
  have fin: "dir_get (lg_attempts u) (wa_attempt_id n) = Some n"
    if u: "saved_updates ups s u" and n: "n \<in> set (li_attempts i)" for u n
  proof (cases "n \<in> set ups")
    case True
    then show ?thesis using u by (simp add: saved_updates_def)
  next
    case False
    then have "n \<in> set ?cur"
      using lifecycle_updates_saved [OF Inr n] attempt_digest_inj by blast
    moreover have "wa_attempt_id n \<notin> wa_attempt_id ` set ups"
      using False inj_on_image_mem_iff [OF inj n sub] by simp
    ultimately show ?thesis using u stored by (simp add: saved_updates_def)
  qed
  have "distinct (map wa_attempt_id ups)"
    using lifecycle_updates_distinct [OF Inr] lifecycle_validate_ok(5) [OF valid] by simp
  from wp_save_attempts [OF ok this]
  have "wp (for_each ups (\<lambda>a. map_err internal_of (save_work_attempt h a)))
     (\<lambda>_ u. records_ok u \<and> lg_items u = lg_items s \<and> lg_clock u = lg_clock s \<and> lg_runs u = lg_runs s
        \<and> (\<forall>a \<in> set (li_attempts i). dir_get (lg_attempts u) (wa_attempt_id a) = Some a)
        \<and> (\<forall>k. k \<notin> wa_attempt_id ` set (li_attempts i) \<longrightarrow> dir_get (lg_attempts u) k = dir_get (lg_attempts s) k))
     (\<lambda>_ _. True) s"
  proof (rule wp_mono)
    fix x u
    assume u: "records_ok u \<and> saved_updates ups s u \<and> lg_clock u = lg_clock s \<and> lg_runs u = lg_runs s"
    moreover have "wa_attempt_id ` set ups \<subseteq> wa_attempt_id ` set (li_attempts i)" using sub by blast
    ultimately show "records_ok u \<and> lg_items u = lg_items s \<and> lg_clock u = lg_clock s \<and> lg_runs u = lg_runs s
        \<and> (\<forall>a \<in> set (li_attempts i). dir_get (lg_attempts u) (wa_attempt_id a) = Some a)
        \<and> (\<forall>k. k \<notin> wa_attempt_id ` set (li_attempts i) \<longrightarrow> dir_get (lg_attempts u) k = dir_get (lg_attempts s) k)"
      using fin unfolding saved_updates_def by blast
  qed
  then show ?thesis
    using Inr by (simp add: write_work_lifecycle_attempt_updates_def work_lifecycle_attempt_updates_def wp)
qed

lemma wp_commit_done:
  assumes ok: "records_ok s"
  shows "wp (commit_work_lifecycle_intent h i)
     (\<lambda>_ u. commit_done (li_item i) (li_attempts i) s u \<and> lifecycle_validate i = Inr ()
        \<and> dir_get (lg_items s) (li_work_id i) \<in> {Some (li_prior_item i), Some (li_item i)}) (\<lambda>_ _. True) s"
proof -
  let ?Q = "\<lambda>_ u. commit_done (li_item i) (li_attempts i) s u"
  let ?W = "\<lambda>u. records_ok u \<and> lg_items u = lg_items s \<and> lg_clock u = lg_clock s \<and> lg_runs u = lg_runs s
        \<and> (\<forall>a \<in> set (li_attempts i). dir_get (lg_attempts u) (wa_attempt_id a) = Some a)
        \<and> (\<forall>k. k \<notin> wa_attempt_id ` set (li_attempts i) \<longrightarrow> dir_get (lg_attempts u) k = dir_get (lg_attempts s) k)"
  have tail: "wp (commit_tail h i) ?Q (\<lambda>_ _. True) u" if "commit_done (li_item i) (li_attempts i) s u" for u
    by (rule wp_keeps [OF keeps_same_tail, of u]) (use that commit_done_same in auto)
  have item: "wp (thenE (on_err note_partial_commit (write_work_lifecycle_item_update h i d)) (commit_tail h i))
      ?Q (\<lambda>_ _. True) u"
    if u: "?W u" and v: "lifecycle_validate i = Inr ()"
      and d: "d = work_digest h (li_item i) \<Longrightarrow> dir_get (lg_items s) (li_work_id i) = Some (li_item i)" for d u
  proof (cases "d = work_digest h (li_item i)")
    case True
    then have "commit_done (li_item i) (li_attempts i) s u"
      using u d lifecycle_validate_ok(1) [OF v] by (simp add: commit_done_def)
    then show ?thesis using True tail by (simp add: write_work_lifecycle_item_update_def wp)
  next
    case False
    have "commit_done (li_item i) (li_attempts i) s
        (u\<lparr>lg_writes := n, lg_items := dir_put (wi_work_id (li_item i)) (li_item i) (lg_items u)\<rparr>)" for n
      using u lifecycle_validate_ok(2) [OF v]
      by (auto simp: commit_done_def records_ok_def dir_list_put_iff)
    then have "wp (save_work_item h (li_item i)) (\<lambda>_. wp (commit_tail h i) ?Q (\<lambda>_ _. True)) (\<lambda>_ _. True) u"
      by (intro wp_mono [OF wp_save_item_done [of h "li_item i" u]]) (auto intro!: tail)
    then show ?thesis
      using False by (simp add: write_work_lifecycle_item_update_def wp_thenE wp_on_err wp_map_err)
  qed
  have writes: "wp (thenE (on_err note_partial_commit
        (write_work_lifecycle_attempt_updates h i (attempts_of s (li_work_id i))))
        (thenE (on_err note_partial_commit (write_work_lifecycle_item_update h i d)) (commit_tail h i)))
      ?Q (\<lambda>_ _. True) s"
    if "lifecycle_validate i = Inr ()"
      and "d = work_digest h (li_item i) \<longrightarrow> dir_get (lg_items s) (li_work_id i) = Some (li_item i)" for d
    unfolding wp_thenE [of "on_err note_partial_commit (write_work_lifecycle_attempt_updates h i
      (attempts_of s (li_work_id i)))"] wp_on_err
    by (rule wp_mono [OF wp_commit_writes [OF ok that(1)]]) (use that in \<open>auto intro!: item\<close>)
  show ?thesis
    unfolding commit_work_lifecycle_intent_def wp_bindE commit_tail_def [symmetric]
    by (rule wp_mono [OF wp_preflight_done [OF ok]])
       (auto intro!: wp_mono [OF writes])
qed

lemma wp_commit_request_done:
  assumes ok: "records_ok s"
  shows "wp (commit_lifecycle_with_request h op pi it pa na req)
     (\<lambda>_ u. commit_done it na s u \<and> item_validate it = Inr () \<and> (\<forall>a \<in> set na. attempt_validate a = Inr ()
          \<and> wa_work_id a = wi_work_id it)
        \<and> dir_get (lg_items s) (wi_work_id it) \<in> {Some pi, Some it}) (\<lambda>_ _. True) s"
proof -
  let ?Q = "\<lambda>_ u. commit_done it na s u \<and> item_validate it = Inr () \<and> (\<forall>a \<in> set na. attempt_validate a = Inr ()
          \<and> wa_work_id a = wi_work_id it)
        \<and> dir_get (lg_items s) (wi_work_id it) \<in> {Some pi, Some it}"
  have commit: "wp (thenE (persist_work_lifecycle_intent h i) (commit_work_lifecycle_intent h i)) ?Q (\<lambda>_ _. True) u"
    if u: "same_work s u" and i: "li_item i = it" "li_attempts i = na" "li_prior_item i = pi" for i u
  proof -
    have "wp (commit_work_lifecycle_intent h i) ?Q (\<lambda>_ _. True) v" if v: "same_work s v" for v
    proof (rule wp_mono [OF wp_commit_done [OF same_work_records [OF v ok]]])
      fix x w
      assume w: "commit_done (li_item i) (li_attempts i) v w \<and> lifecycle_validate i = Inr ()
        \<and> dir_get (lg_items v) (li_work_id i) \<in> {Some (li_prior_item i), Some (li_item i)}"
      then show "?Q x w"
        using commit_done_from [OF v] lifecycle_validate_ok [of i] i v by (auto simp: same_work_def)
    qed simp
    then show ?thesis
      unfolding wp_thenE by (intro wp_keeps [OF keeps_same_persist u]) auto
  qed
  have bound: "keeps (same_work s) (case req of None \<Rightarrow> ret () | Some r \<Rightarrow> validate_bound_request h r pi pa na)"
    by (intro ledger_intro)
  have "wp (thenE (case req of None \<Rightarrow> ret () | Some r \<Rightarrow> validate_bound_request h r pi pa na)
      (thenE (persist_work_lifecycle_intent h (i\<lparr>li_request := req\<rparr>))
         (commit_work_lifecycle_intent h (i\<lparr>li_request := req\<rparr>)))) ?Q (\<lambda>_ _. True) u"
    if "same_work s u" "lifecycle_new_with_id k op pi it pa na = Inr i" for i k u
  proof -
    have "li_item i = it" "li_attempts i = na" "li_prior_item i = pi"
      using that(2) by (auto simp: lifecycle_new_with_id_def rbind_ok Let_def)
    then show ?thesis
      unfolding wp_thenE [of "case req of None \<Rightarrow> ret () | Some r \<Rightarrow> validate_bound_request h r pi pa na"]
      by (intro wp_keeps [OF bound that(1)] commit) simp_all
  qed
  then show ?thesis
    unfolding commit_lifecycle_with_request_def
    by (simp add: wp_bindE wp_uuid_op wp_lift Let_def split: sum.split)
qed

end

subsection \<open>One attempt updated\<close>

definition work_updated :: "work_item \<Rightarrow> work_attempt \<Rightarrow> ledger \<Rightarrow> ledger \<Rightarrow> bool" where
  "work_updated item attempt s u \<longleftrightarrow>
     dir_get (lg_items u) (wi_work_id item) = Some item
     \<and> dir_get (lg_attempts u) (wa_attempt_id attempt) = Some attempt
     \<and> (\<forall>w. w \<noteq> wi_work_id item \<longrightarrow> dir_get (lg_items u) w = dir_get (lg_items s) w)
     \<and> (\<forall>k. k \<noteq> wa_attempt_id attempt \<longrightarrow> dir_get (lg_attempts u) k = dir_get (lg_attempts s) k)"

lemma attempts_of_stored: "records_ok s \<Longrightarrow> a \<in> set (attempts_of s w) \<Longrightarrow> dir_get (lg_attempts s) (wa_attempt_id a) = Some a"
  using dir_list_get [of wa_attempt_id "lg_attempts s" a]
  by (simp add: set_attempts_of attempts_set_def records_ok_def)

lemma replace_attempt_snapshot_mem:
  "replace_attempt_snapshot pa upd = Inr na \<Longrightarrow> distinct (map wa_attempt_id pa)
     \<Longrightarrow> upd \<in> set na \<and> (\<forall>a \<in> set na. a = upd \<or> a \<in> set pa \<and> wa_attempt_id a \<noteq> wa_attempt_id upd)"
proof (induction pa arbitrary: na)
  case (Cons p pa)
  show ?case
  proof (cases "wa_attempt_id p = wa_attempt_id upd")
    case True
    then have "na = upd # pa" using Cons.prems(1) by simp
    moreover have "wa_attempt_id a \<noteq> wa_attempt_id upd" if "a \<in> set pa" for a
      using True Cons.prems(2) that by (metis distinct.simps(2) image_eqI list.simps(9) set_map)
    ultimately show ?thesis by auto
  next
    case False
    then obtain na' where na': "replace_attempt_snapshot pa upd = Inr na'" "na = p # na'"
      using Cons.prems(1) by (auto simp: rbind_ok)
    then show ?thesis using Cons.IH [OF na'(1)] Cons.prems(2) False by auto
  qed
qed simp

lemma commit_done_one:
  assumes u: "commit_done it na s u" and ok: "records_ok s"
    and na: "upd \<in> set na"
    and rest: "\<And>a. a \<in> set na \<Longrightarrow> a = upd \<or> a \<in> set (attempts_of s w) \<and> wa_attempt_id a \<noteq> wa_attempt_id upd"
  shows "work_updated it upd s u"
proof -
  have "dir_get (lg_attempts u) k = dir_get (lg_attempts s) k" if k: "k \<noteq> wa_attempt_id upd" for k
  proof (cases "k \<in> wa_attempt_id ` set na")
    case True
    then obtain a where a: "a \<in> set na" "wa_attempt_id a = k" by auto
    then have "dir_get (lg_attempts s) k = Some a" using rest k attempts_of_stored [OF ok] by metis
    then show ?thesis using a u by (auto simp: commit_done_def)
  qed (use u in \<open>simp add: commit_done_def\<close>)
  then show ?thesis using u na by (auto simp: commit_done_def work_updated_def)
qed

context sound_host
begin

lemma wp_commit_attempt_done:
  assumes ok: "records_ok s"
  shows "wp (commit_attempt h op pi it (attempts_of s w) upd req)
     (\<lambda>_ u. work_updated it upd s u \<and> commit_done it [upd] s u) (\<lambda>_ _. True) s"
proof (cases "replace_attempt_snapshot (attempts_of s w) upd")
  case (Inl e)
  then show ?thesis by (simp add: commit_attempt_def wp)
next
  case (Inr na)
  note na = replace_attempt_snapshot_mem [OF Inr attempts_of_distinct [OF ok]]
  have "work_updated it upd s u \<and> commit_done it [upd] s u" if u: "commit_done it na s u" for u
  proof -
    have "work_updated it upd s u" by (rule commit_done_one [OF u ok]) (use na in auto)
    then show ?thesis using u na by (auto simp: commit_done_def work_updated_def)
  qed
  then show ?thesis
    using Inr wp_mono [OF wp_commit_request_done [OF ok, of op pi it "attempts_of s w" na req]]
    by (auto simp: commit_attempt_def wp)
qed

lemma wp_with_lease_ok:
  assumes ok: "records_ok s"
    and body: "\<And>item held. dir_get (lg_items s) w = Some item \<Longrightarrow> wi_work_id item = w
      \<Longrightarrow> dir_get (lg_attempts s) k = Some held \<Longrightarrow> wa_attempt_id held = k \<Longrightarrow> wa_work_id held = w
      \<Longrightarrow> token_matches h held tok \<Longrightarrow> lease_active_at held (utc_now h (lg_clock s))
      \<Longrightarrow> wp (body item (attempts_of s w) (utc_now h (lg_clock s)) held) Q (\<lambda>_ _. True)
            (s\<lparr>lg_clock := Suc (lg_clock s)\<rparr>)"
  shows "wp (with_lease h w k tok body) Q (\<lambda>_ _. True) s"
proof -
  let ?u = "s\<lparr>lg_clock := Suc (lg_clock s)\<rparr>"
  have u: "records_ok ?u" using ok by (simp add: records_ok_def)
  have get: "dir_get d j = Some v" if "dir_ok key d" "v \<in> set (dir_list d)" "key v = j" for d j v and key :: "'b \<Rightarrow> string"
    using dir_list_get [OF that(1), of v] that by simp
  have "wp (load_active_attempt_for_token h item k tok (utc_now h (lg_clock s)))
      (\<lambda>held. wp (body item (attempts_of s w) (utc_now h (lg_clock s)) held) Q (\<lambda>_ _. True)) (\<lambda>_ _. True) ?u"
    if i: "item \<in> set (dir_list (lg_items s))" "wi_work_id item = w" for item
    unfolding load_active_attempt_for_token_def wp_bindE
  proof (rule wp_require_work_attempt [OF u])
    fix a assume a: "a \<in> attempts_set ?u" "wa_attempt_id a = k"
    have "dir_get (lg_items s) w = Some item" "dir_get (lg_attempts s) k = Some a"
      using get [of wi_work_id "lg_items s" item w] dir_list_get [of wa_attempt_id "lg_attempts s" a] i a ok
      by (auto simp: records_ok_def attempts_set_def dir_list_get)
    then show "wp (thenE (check_token h item a tok) (thenE (check_live a (utc_now h (lg_clock s))) (ret a)))
        (\<lambda>held. wp (body item (attempts_of s w) (utc_now h (lg_clock s)) held) Q (\<lambda>_ _. True))
        (\<lambda>_ _. True) ?u"
      using body [of item a] i a by (auto simp: check_token_def check_live_def wp lease_active_at_def)
  qed simp
  then show ?thesis
    unfolding with_lease_def wp_bindE
    by (intro wp_require_work_item [OF ok]) (simp_all add: wp_list_attempts_of [OF ok] wp_now_op)
qed

end

subsection \<open>The holder's operations\<close>

definition holds_lease :: "host \<Rightarrow> ledger \<Rightarrow> string \<Rightarrow> string \<Rightarrow> string \<Rightarrow> work_item \<Rightarrow> work_attempt \<Rightarrow> bool" where
  "holds_lease h s w k tok item held \<longleftrightarrow>
     dir_get (lg_items s) w = Some item \<and> wi_work_id item = w
     \<and> dir_get (lg_attempts s) k = Some held \<and> wa_attempt_id held = k \<and> wa_work_id held = w
     \<and> token_matches h held tok \<and> lease_active_at held (utc_now h (lg_clock s))"

lemma lease_frame [simp]:
  "attempts_of (s\<lparr>lg_clock := n\<rparr>) w = attempts_of s w"
  "attempts_of (s\<lparr>lg_operation_request := q\<rparr>) w = attempts_of s w"
  "work_updated i a (s\<lparr>lg_clock := n\<rparr>) u = work_updated i a s u"
  "work_updated i a (s\<lparr>lg_operation_request := q\<rparr>) u = work_updated i a s u"
  "holds_lease h (s\<lparr>lg_operation_request := q\<rparr>) w k tok item held = holds_lease h s w k tok item held"
  "records_ok (s\<lparr>lg_clock := n\<rparr>) = records_ok s"
  "records_ok (s\<lparr>lg_operation_request := q\<rparr>) = records_ok s"
  by (simp_all add: attempts_of_def work_updated_def holds_lease_def records_ok_def)

lemma wp_then_ret: "wp (thenE m (ret x)) Q E s = wp m (\<lambda>_ u. Q x u) E s"
  by (simp add: wp_def thenE_def bindE_def ret_def split: prod.split sum.split)

context sound_host
begin

lemma wp_holder:
  assumes ok: "records_ok s"
    and body: "\<And>item held. holds_lease h s w k tok item held
      \<Longrightarrow> wp (body item (attempts_of s w) (utc_now h (lg_clock s)) held) Q (\<lambda>_ _. True)
            (s\<lparr>lg_clock := Suc (lg_clock s)\<rparr>)"
  shows "wp (with_lease h w k tok body) Q (\<lambda>_ _. True) s"
  using body by (intro wp_with_lease_ok [OF ok]) (simp add: holds_lease_def)

lemma wp_commit_attempt_upd:
  assumes "pa = attempts_of s w" and "records_ok s"
    and "\<And>u. work_updated it upd s u \<Longrightarrow> Q x u"
  shows "wp (thenE (commit_attempt h op pi it pa upd req) (ret x)) Q (\<lambda>_ _. True) s"
  unfolding wp_then_ret using assms by (auto intro: wp_mono [OF wp_commit_attempt_done])

lemma wp_renew:
  assumes ok: "records_ok s"
  shows "wp (renew_work_lease h w k tok ms)
     (\<lambda>a t. \<exists>item held lease. holds_lease h s w k tok item held \<and> lease_duration ms = Inr lease
        \<and> a = held\<lparr>wa_last_heartbeat_at := utc_now h (lg_clock s),
                   wa_lease_expires_at := utc_now h (lg_clock s) + lease,
                   wa_updated_at := utc_now h (lg_clock s)\<rparr>
        \<and> work_updated item a s t) (\<lambda>_ _. True) s"
  unfolding renew_work_lease_def wp_bindE wp_lift wp_adopt
  by (cases "lease_duration ms"; simp; intro wp_holder;
      auto simp: ok Let_def intro!: wp_commit_attempt_upd [where w = w];
      intro exI conjI; (assumption | rule refl))

lemma wp_release:
  assumes ok: "records_ok s"
  shows "wp (release_work h w k tok reason)
     (\<lambda>(i, a) t. \<exists>item held. holds_lease h s w k tok item held
        \<and> i = bump_at (utc_now h (Suc (lg_clock s))) (item\<lparr>wi_state := W_Queued\<rparr>)
        \<and> a = held\<lparr>wa_state := A_Released, wa_terminal_reason := Some reason,
                   wa_updated_at := utc_now h (lg_clock s)\<rparr>
        \<and> work_updated i a s t) (\<lambda>_ _. True) s"
  unfolding release_work_def wp_bindE wp_adopt
  by (intro wp_holder;
      auto simp: ok Let_def bump_def wp_bindE wp_now_op wp_ret intro!: wp_commit_attempt_upd [where w = w];
      intro exI conjI; (assumption | rule refl))

lemma wp_fail:
  assumes ok: "records_ok s"
  shows "wp (fail_work h w k tok r)
     (\<lambda>(i, a) t. \<exists>item held. holds_lease h s w k tok item held
        \<and> i = bump_at (utc_now h (Suc (lg_clock s))) (item\<lparr>wi_result := Some r,
                wi_state := (if rp_retry_failed (wp_retry (wi_policy item))
                                \<and> wa_attempt_number held < rp_max_attempts (wp_retry (wi_policy item))
                             then W_Queued else W_Failed)\<rparr>)
        \<and> a = held\<lparr>wa_result := Some r, wa_state := A_Failed, wa_terminal_reason := wr_failure r,
                   wa_updated_at := utc_now h (lg_clock s)\<rparr>
        \<and> work_updated i a s t) (\<lambda>_ _. True) s"
  unfolding fail_work_def wp_thenE wp_bindE wp_lift wp_adopt
  by (cases "result_validate r"; simp split del: if_split; intro wp_holder;
      auto simp: ok Let_def bump_def wp_bindE wp_now_op wp_ret split del: if_split
        intro!: wp_commit_attempt_upd [where w = w];
      intro exI conjI; (assumption | rule refl))

lemma stored_item: "records_ok s \<Longrightarrow> item \<in> set (dir_list (lg_items s)) \<Longrightarrow> dir_get (lg_items s) (wi_work_id item) = Some item"
  using dir_list_get [of wi_work_id "lg_items s" item] by (simp add: records_ok_def)

lemma cancelled_attempt_simps [simp]:
  "wa_attempt_id (cancelled_attempt r n a) = wa_attempt_id a"
  "wa_work_id (cancelled_attempt r n a) = wa_work_id a"
  by (simp_all add: cancelled_attempt_def)

lemma commit_done_all:
  assumes u: "commit_done it (map f (attempts_of s (wi_work_id it))) s u" and ok: "records_ok s"
    and f: "\<And>a. wa_attempt_id (f a) = wa_attempt_id a" "\<And>a. wa_work_id (f a) = wa_work_id a"
    and a: "a \<in> attempts_set u" "wa_work_id a = wi_work_id it"
  shows "\<exists>b \<in> set (attempts_of s (wi_work_id it)). a = f b"
proof -
  have u_ok: "records_ok u" using u by (simp add: commit_done_def)
  then have get: "dir_get (lg_attempts u) (wa_attempt_id a) = Some a"
    using a dir_list_get [of wa_attempt_id "lg_attempts u" a] by (simp add: records_ok_def attempts_set_def)
  show ?thesis
  proof (cases "wa_attempt_id a \<in> wa_attempt_id ` set (attempts_of s (wi_work_id it))")
    case True
    then obtain b where b: "b \<in> set (attempts_of s (wi_work_id it))" "wa_attempt_id b = wa_attempt_id a" by auto
    from b(1) have "dir_get (lg_attempts u) (wa_attempt_id b) = Some (f b)" using u f by (simp add: commit_done_def)
    then show ?thesis using b get by auto
  next
    case False
    then have "dir_get (lg_attempts s) (wa_attempt_id a) = Some a"
      using u get f by (auto simp: commit_done_def image_image)
    then have "a \<in> set (attempts_of s (wi_work_id it))"
      using a ok dir_list_get [of wa_attempt_id "lg_attempts s" a]
      by (simp add: set_attempts_of attempts_set_def records_ok_def)
    then show ?thesis using False by auto
  qed
qed

lemma wp_cancel:
  assumes ok: "records_ok s"
  shows "wp (cancel_work_checked h w reason er)
     (\<lambda>(i, as) t. \<exists>prior. dir_get (lg_items s) w = Some prior
        \<and> (er \<noteq> None \<longrightarrow> er = Some (wi_revision prior)) \<and> dir_get (lg_items t) w = Some i
        \<and> (if ws_is_terminal (wi_state prior) then i = prior
           else wi_state i = W_Cancelled
             \<and> (\<forall>a \<in> attempts_set t. wa_work_id a = w \<longrightarrow> \<not> as_is_active (wa_state a))))
     (\<lambda>_ _. True) s"
  unfolding cancel_work_checked_def wp_bindE wp_adopt
proof (rule wp_require_work_item, goal_cases)
  case (2 item)
  let ?s = "s\<lparr>lg_operation_request := None\<rparr>"
  let ?now = "utc_now h (lg_clock s)" and ?v = "?s\<lparr>lg_clock := Suc (Suc (lg_clock s))\<rparr>"
  let ?it = "bump_at (utc_now h (Suc (lg_clock s))) (item\<lparr>wi_state := W_Cancelled,
                  wi_result := Some (cancellation_result reason ?now)\<rparr>)"
  have stored: "dir_get (lg_items s) w = Some item"
    using 2 stored_item [OF ok, of item] by simp
  have closed: "\<not> as_is_active (wa_state a)"
    if cd: "commit_done ?it (map (cancelled_attempt reason ?now) (attempts_of s w)) ?v t"
      "a \<in> attempts_set t" "wa_work_id a = w" for t a
  proof -
    obtain b where "a = cancelled_attempt reason ?now b"
      using commit_done_all [of ?it "cancelled_attempt reason ?now" ?v t a] cd 2 ok by auto
    then show ?thesis by (simp add: cancelled_attempt_def)
  qed
  have "wp (commit_lifecycle_with_request h O_Cancel item ?it (attempts_of s w)
      (map (cancelled_attempt reason ?now) (attempts_of s w)) (lg_operation_request s))
     (\<lambda>_ t. dir_get (lg_items t) w = Some ?it
        \<and> (\<forall>a \<in> attempts_set t. wa_work_id a = w \<longrightarrow> \<not> as_is_active (wa_state a))) (\<lambda>_ _. True) ?v"
    by (rule wp_mono [OF wp_commit_request_done]) (use 2 ok closed in \<open>auto simp: commit_done_def\<close>)
  then show ?case
    using 2 stored ok
    by (auto simp: wp require_work_revision_def on_some_def reject_def bump_def Let_def wp_list_attempts_of
        elim!: wp_mono split: option.splits)
qed (use ok in simp_all)

end

end
