(* ===== verification/Run_Rules.thy ===== *)
theory Run_Rules
  imports Ledger_Records
begin

section \<open>Taking successful runs apart\<close>

text \<open>
  The converse of the weakest preconditions: when an operation has returned a value, the
  rules \<open>ok_run\<close> say which parts of it ran, in which states, and which guards held.
\<close>

named_theorems ok_run \<open>what a returned value says about the parts of an operation\<close>

lemma bindE_ok [ok_run]:
  "bindE m f s = (Inr y, t) \<longleftrightarrow> (\<exists>x u. m s = (Inr x, u) \<and> f x u = (Inr y, t))"
  by (auto simp: bindE_def split: prod.splits sum.splits)

lemma thenE_ok [ok_run]:
  "thenE m k s = (Inr y, t) \<longleftrightarrow> (\<exists>u. m s = (Inr (), u) \<and> k u = (Inr y, t))"
  by (auto simp: thenE_def bindE_ok)

lemma leaf_ok [ok_run]:
  "ret x s = (Inr y, t) \<longleftrightarrow> y = x \<and> t = s"
  "raise e s = (Inr y, t) \<longleftrightarrow> False"
  "lift r s = (Inr y, t) \<longleftrightarrow> r = Inr y \<and> t = s"
  "reads g s = (Inr y, t) \<longleftrightarrow> g s = Inr y \<and> t = s"
  "gets f s = (Inr y, t) \<longleftrightarrow> y = f s \<and> t = s"
  "map_err g' m s = (Inr y, t) \<longleftrightarrow> m s = (Inr y, t)"
  "some_or e v s = (Inr y, t) \<longleftrightarrow> v = Some y \<and> t = s"
  "check c e s = (Inr u, t) \<longleftrightarrow> \<not> c \<and> t = s"
  "now_op h l = (Inr n, l') \<longleftrightarrow> n = utc_now h (lg_clock l) \<and> l' = l\<lparr>lg_clock := Suc (lg_clock l)\<rparr>"
  "uuid_op h l = (Inr k, l') \<longleftrightarrow> k = new_uuid h (lg_uuids l) \<and> l' = l\<lparr>lg_uuids := Suc (lg_uuids l)\<rparr>"
  "adopt_operation_request l = (Inr q, l') \<longleftrightarrow>
     q = lg_operation_request l \<and> l' = l\<lparr>lg_operation_request := None\<rparr>"
  "bump h i l = (Inr j, l') \<longleftrightarrow>
     j = bump_at (utc_now h (lg_clock l)) i \<and> l' = l\<lparr>lg_clock := Suc (lg_clock l)\<rparr>"
  by (auto simp: ret_def raise_def lift_def reads_def gets_def map_err_def some_or_def check_def
        now_op_def uuid_op_def adopt_operation_request_def bump_def bindE_def
        split: prod.splits sum.splits option.splits)

lemma load_ok [ok_run]:
  "refuse_closed_admission s = (Inr u, t) \<longleftrightarrow> lg_admission_closed s = None \<and> t = s"
  "require_work_item w s = (Inr i, t) \<longleftrightarrow>
     checked item_validate (file_get (lg_items s) w) = Inr (Some i) \<and> t = s"
  "require_work_attempt k s = (Inr a, t) \<longleftrightarrow>
     checked attempt_validate (file_get (lg_attempts s) k) = Inr (Some a) \<and> t = s"
  by (auto simp: refuse_closed_admission_def require_work_item_def require_work_attempt_def
        load_work_item_def load_work_attempt_def bindE_ok leaf_ok split: option.splits)

lemma guard_ok [ok_run]:
  "check_token h i a tok s = (Inr u, t) \<longleftrightarrow> wa_work_id a = wi_work_id i \<and> token_matches h a tok \<and> t = s"
  "check_live a now s = (Inr u, t) \<longleftrightarrow> lease_active_at a now \<and> t = s"
  by (auto simp: check_token_def check_live_def thenE_ok leaf_ok lease_active_at_def)

lemma fold_op_ok:
  assumes "fold_op f xs acc s = (Inr y, t)" and "I acc s"
    and "\<And>x acc s acc' s'. x \<in> set xs \<Longrightarrow> f x acc s = (Inr acc', s') \<Longrightarrow> I acc s \<Longrightarrow> I acc' s'"
  shows "I y t"
  using assms
proof (induction xs arbitrary: acc s)
  case Nil
  then show ?case by (simp add: ok_run)
next
  case (Cons x xs)
  from Cons.prems(1) obtain acc' s' where step: "f x acc s = (Inr acc', s')"
    and rest: "fold_op f xs acc' s' = (Inr y, t)"
    by (auto simp: bindE_ok)
  have "I acc' s'" using Cons.prems(3) [OF _ step] Cons.prems(2) by simp
  then show ?case by (rule Cons.IH [OF rest]) (rule Cons.prems(3), simp_all)
qed

lemma keeps_ok: "keeps I m \<Longrightarrow> m s = (r, t) \<Longrightarrow> I s \<Longrightarrow> I t"
  unfolding keeps_def by (metis snd_conv)

lemma checked_file_ok:
  "checked validate (file_get d k) = Inr (Some x) \<Longrightarrow> dir_get d k = Some x \<and> validate x = Inr ()"
  by (auto simp: checked_def file_get_def split: option.splits sum.splits dest: safe_id_filename_same)

end
