(* ===== verification/Work_Contract.thy ===== *)
theory Work_Contract
  imports Lease_Contract Run_Rules
begin

section \<open>What a claim and a completion guarantee\<close>

text \<open>
  The two operations that hand authority to a worker and take its result: a claim that
  returns has passed the admission evaluator on the stored dependencies, and work reaches
  its succeeded state only with the authority that \<open>success_is_authorized\<close> describes.
  Successful runs are taken apart by the rules \<open>ok_run\<close>.
\<close>

subsection \<open>Identity of refreshed items\<close>

lemma refreshed_id: "refreshed h p c s = (Inr i, t) \<Longrightarrow> wi_work_id i = wi_work_id c"
  by (auto simp: refreshed_def ok_run)

lemma refresh_wait_id: "refresh_wait h ad item s = (Inr i, t) \<Longrightarrow> wi_work_id i = wi_work_id item"
  unfolding refresh_wait_def Let_def by (simp add: ret_def split: if_split_asm) (drule refreshed_id, simp)+

lemma refresh_deadline_id: "refresh_deadline h ad now item s = (Inr i, t) \<Longrightarrow> wi_work_id i = wi_work_id item"
  unfolding refresh_deadline_def by (simp add: ret_def split: if_split_asm) (drule refreshed_id, simp)

lemma refresh_id:
  assumes "refresh_work_item h item s = (Inr i, t)"
  shows "wi_work_id i = wi_work_id item"
  using assms refresh_wait_id refresh_deadline_id
  by (auto simp: refresh_work_item_def refresh_work_item_at_def ok_run Let_def split: if_split_asm)

lemma claim_expire_id:
  "claim_expire h now a item s = (Inr i, t) \<Longrightarrow> wi_work_id i = wi_work_id item \<and> wi_attempt_count i = wi_attempt_count item"
  by (auto simp: claim_expire_def expire_attempt_def ok_run Let_def bump_at_def split: if_splits)

lemma claim_expire_all_id:
  "fold_op (claim_expire h now) as item s = (Inr i, t) \<Longrightarrow> wi_work_id i = wi_work_id item \<and> wi_attempt_count i = wi_attempt_count item"
  by (rule fold_op_ok [where I = "\<lambda>i _. wi_work_id i = wi_work_id item \<and> wi_attempt_count i = wi_attempt_count item"])
     (auto dest: claim_expire_id)

subsection \<open>Claiming\<close>

lemma new_attempt_ok:
  assumes "new_attempt h item c sec s = (Inr (a, tok), t)"
  shows "wa_work_id a = wi_work_id item" "wa_attempt_number a = wi_attempt_count item + 1"
    "wa_claimant_id a = c" "wa_state a = A_Leased" "token_matches h a tok" "same_work s (t\<lparr>lg_clock := lg_clock s\<rparr>)"
  using assms
  by (auto simp: new_attempt_def ok_run Let_def attempt_new_def new_with_lease_secret_def
        lease_token_for_secret_def token_matches_def same_work_def split: option.splits)

lemma leased_attempt_simps [simp]:
  "wa_attempt_id (leased_attempt a now l) = wa_attempt_id a" "wa_work_id (leased_attempt a now l) = wa_work_id a"
  "wa_attempt_number (leased_attempt a now l) = wa_attempt_number a"
  "wa_claimant_id (leased_attempt a now l) = wa_claimant_id a" "wa_state (leased_attempt a now l) = wa_state a"
  "wa_acquired_at (leased_attempt a now l) = now" "wa_lease_expires_at (leased_attempt a now l) = now + l"
  "token_matches h (leased_attempt a now l) tok = token_matches h a tok"
  by (simp_all add: leased_attempt_def token_matches_def)

text \<open>A dependency as the claim sees it: a stored item of the lane in the required state.\<close>

definition dependency_met :: "host \<Rightarrow> ledger \<Rightarrow> work_item \<Rightarrow> work_dependency \<Rightarrow> bool" where
  "dependency_met h s item d \<longleftrightarrow>
     (\<exists>i. dir_get (lg_items s) (dep_work_id d) = Some i \<and> wi_state i = dep_required_state d
        \<and> scope_contains h (scope_of item) i)"

lemma resolve_dependencies_met:
  assumes "resolve_dependencies h item s = (Inr states, t)" and "d \<in> set (wi_dependencies item)"
    and "states (dep_work_id d) = Some (Some (dep_required_state d))"
  shows "dependency_met h s item d"
proof -
  define v where "v k = (case checked item_validate (file_get (lg_items s) k) of
          Inl _ \<Rightarrow> None
        | Inr None \<Rightarrow> None
        | Inr (Some c) \<Rightarrow> if scope_contains h (scope_of item) c then Some (wi_state c) else None)" for k
  have "states = map_of (map (\<lambda>d. (dep_work_id d, v (dep_work_id d))) (rev (wi_dependencies item)))"
    using assms(1) by (auto simp: resolve_dependencies_def ok_run v_def)
  with assms(3) have "v (dep_work_id d) = Some (dep_required_state d)"
    by (auto dest!: map_of_SomeD)
  then show ?thesis
    by (auto simp: v_def dependency_met_def checked_def file_get_def
          split: sum.splits option.splits if_splits dest!: safe_id_filename_same)
qed

text \<open>What a worker holds after a claim, and what was true of the item when it was made.\<close>

definition granted :: "host \<Rightarrow> string \<Rightarrow> string \<Rightarrow> time \<Rightarrow> work_claim \<Rightarrow> ledger \<Rightarrow> bool" where
  "granted h w c lease cl t \<longleftrightarrow>
     (let item = cl_work cl; a = cl_attempt cl in
      dir_get (lg_items t) w = Some item \<and> dir_get (lg_attempts t) (wa_attempt_id a) = Some a
      \<and> wi_state item = W_Leased \<and> wa_state a = A_Leased \<and> wa_work_id a = w \<and> wa_claimant_id a = c
      \<and> wa_attempt_number a = wi_attempt_count item
      \<and> wi_attempt_count item \<le> rp_max_attempts (wp_retry (wi_policy item))
      \<and> token_matches h a (cl_lease_token cl) \<and> wa_lease_expires_at a = wa_acquired_at a + lease
      \<and> \<not> wi_is_container item \<and> \<not> deadline_passed item (wa_acquired_at a)
      \<and> is_claimable_by (wi_assignment_status item) (wi_assigned_agent_id item) c = Inr ()
      \<and> (\<forall>d \<in> set (wi_dependencies item). dependency_met h t item d))"

lemma dependencies_validate_ok:
  "dependencies_validate me seen ds = Inr () \<Longrightarrow> d \<in> set ds
     \<Longrightarrow> dep_work_id d \<noteq> me \<and> dep_required_state d = W_Succeeded"
  by (induction ds arbitrary: seen) (auto simp: rbind_ok dependency_validate_def)

lemma item_validate_dependency:
  "item_validate i = Inr () \<Longrightarrow> d \<in> set (wi_dependencies i)
     \<Longrightarrow> dep_work_id d \<noteq> wi_work_id i \<and> dep_required_state d = W_Succeeded"
  using dependencies_validate_ok [of "wi_work_id i" "{}" "wi_dependencies i" d]
  by (simp add: item_validate_def)

context sound_host
begin

lemma claim_checked_granted:
  assumes run: "claim_checked h w c lease sec req now item s = (Inr cl, t)"
    and ok: "records_ok s" and id: "wi_work_id item = w"
  shows "granted h w c lease cl t \<and> wa_acquired_at (cl_attempt cl) = now
    \<and> wi_attempt_count (cl_work cl) = Suc (wi_attempt_count item)"
proof -
  from run obtain states fresh tok s1 pa where
    queued: "wi_state item = W_Queued"
    and states: "resolve_dependencies h item s = (Inr states, s)"
    and adm: "evaluate_admission item states now = Admissible"
    and claimable: "is_claimable_by (wi_assignment_status item) (wi_assigned_agent_id item) c = Inr ()"
    and fresh: "new_attempt h item c sec s = (Inr (fresh, tok), s1)"
    and pa: "list_attempts_of w s1 = (Inr pa, s1)"
    and cl: "cl = \<lparr>cl_work = bump_at (utc_now h (lg_clock s1)) (item\<lparr>wi_attempt_count := wa_attempt_number fresh,
                 wi_state := W_Leased\<rparr>), cl_attempt = leased_attempt fresh now lease, cl_lease_token = tok\<rparr>"
    and commit: "commit_lifecycle_with_request h O_Claim item (cl_work cl) pa (pa @ [cl_attempt cl]) req
        (s1\<lparr>lg_clock := Suc (lg_clock s1)\<rparr>) = (Inr (), t)"
    by (auto simp: claim_checked_def ok_run Let_def ab_is_admissible_def resolve_dependencies_def
          list_attempts_of_def list_work_attempts_def split: prod.splits)
  note fr = new_attempt_ok [OF fresh]
  let ?u = "s1\<lparr>lg_clock := Suc (lg_clock s1)\<rparr>"
  have "records_ok ?u" using fr(6) ok by (simp add: same_work_def records_ok_def attempts_set_def)
  from wp_result(1) [OF wp_commit_request_done [OF this] commit]
  have fin: "commit_done (cl_work cl) (pa @ [cl_attempt cl]) ?u t" "item_validate (cl_work cl) = Inr ()"
    "dir_get (lg_items ?u) w \<in> {Some item, Some (cl_work cl)}"
    using cl id by auto
  have items: "lg_items ?u = lg_items s" using fr(6) by (simp add: same_work_def)
  have "dependency_met h t (cl_work cl) d" if d: "d \<in> set (wi_dependencies item)" for d
  proof -
    have "dependency_met h s item d"
      using resolve_dependencies_met [OF states d] adm d by (simp add: admission_Admissible)
    then obtain i where i: "dir_get (lg_items s) (dep_work_id d) = Some i"
      "wi_state i = dep_required_state d" "scope_contains h (scope_of item) i"
      by (auto simp: dependency_met_def)
    have "dep_work_id d \<noteq> w"
      using item_validate_dependency [OF fin(2)] d cl id by auto
    then have "dir_get (lg_items t) (dep_work_id d) = Some i"
      using fin(1) i(1) items id cl by (simp add: commit_done_def)
    then show ?thesis using i(2,3) cl by (auto simp: dependency_met_def scope_of_def)
  qed
  then show ?thesis
    using fin adm claimable fr(1-5) id cl item_validate_attempts [OF fin(2)]
    by (auto simp: granted_def commit_done_def admission_Admissible deadline_passed_def bump_at_def Let_def)
qed

text \<open>A refresh writes the item only.\<close>

lemma refreshed_attempts:
  assumes ok: "records_ok s" and run: "refreshed h p ch s = (Inr j, u)"
  shows "records_ok u \<and> attempts_set u = attempts_set s \<and> wi_attempt_count j = wi_attempt_count ch"
proof -
  let ?s = "s\<lparr>lg_clock := Suc (lg_clock s)\<rparr>"
  have ok': "records_ok ?s" using ok by (simp add: records_ok_def attempts_set_def)
  have j: "j = bump_at (utc_now h (lg_clock s)) ch"
    and commit: "commit_refreshed_work_item h p j ?s = (Inr (), u)"
    using run by (auto simp: refreshed_def ok_run)
  let ?as = "attempts_of ?s (wi_work_id j)"
  have "commit_lifecycle_with_request h O_Refresh p j ?as ?as None ?s = (Inr (), u)"
    using commit list_attempts_run [OF ok', of "wi_work_id j"]
    by (auto simp: commit_refreshed_work_item_def commit_work_lifecycle_snapshots_def ok_run)
  from wp_result(1) [OF wp_commit_request_done [OF ok'] this] have fin: "commit_done j ?as ?s u" by blast
  have "dir_get (lg_attempts u) k = dir_get (lg_attempts s) k" for k
  proof (cases "k \<in> wa_attempt_id ` set ?as")
    case True
    then obtain a where a: "a \<in> set ?as" "wa_attempt_id a = k" by blast
    then have "dir_get (lg_attempts s) k = Some a"
      using ok dir_list_get [of wa_attempt_id "lg_attempts s" a]
      by (simp add: set_attempts_of attempts_set_def records_ok_def)
    then show ?thesis using fin a by (auto simp: commit_done_def)
  next
    case False
    then show ?thesis using fin by (simp add: commit_done_def)
  qed
  moreover have "records_ok u" using fin by (simp add: commit_done_def)
  ultimately have "attempts_set u = attempts_set s"
    using ok dir_list_get [of wa_attempt_id "lg_attempts u"] dir_list_get [of wa_attempt_id "lg_attempts s"]
    by (auto simp: attempts_set_def records_ok_def)
  then show ?thesis using \<open>records_ok u\<close> j by (simp add: bump_at_def)
qed

lemma refresh_attempts:
  assumes ok: "records_ok s" and run: "refresh_work_item h item s = (Inr j, u)"
  shows "records_ok u \<and> attempts_set u = attempts_set s \<and> wi_attempt_count j = wi_attempt_count item"
proof -
  have wait: "records_ok b \<and> attempts_set b = attempts_set a \<and> wi_attempt_count i = wi_attempt_count item"
    if "refresh_wait h ad item a = (Inr i, b)" "records_ok a" for ad a b i
    using that(1) refreshed_attempts [OF that(2)] that(2)
    by (fastforce simp: refresh_wait_def Let_def ret_def split: if_split_asm)
  have dead: "records_ok b \<and> attempts_set b = attempts_set a \<and> wi_attempt_count i = wi_attempt_count k"
    if "refresh_deadline h ad now k a = (Inr i, b)" "records_ok a" for ad now a b i k
    using that(1) refreshed_attempts [OF that(2)] that(2)
    by (fastforce simp: refresh_deadline_def ret_def split: if_split_asm)
  have tick: "records_ok (s\<lparr>lg_clock := n\<rparr>)" "attempts_set (s\<lparr>lg_clock := n\<rparr>) = attempts_set s" for n
    using ok by (simp_all add: records_ok_def attempts_set_def)
  show ?thesis
  proof (cases "ws_is_terminal (wi_state item)")
    case True
    then show ?thesis using run tick by (auto simp: refresh_work_item_def refresh_work_item_at_def ok_run)
  next
    case False
    then obtain ad i b where i: "refresh_wait h ad item (s\<lparr>lg_clock := Suc (lg_clock s)\<rparr>) = (Inr i, b)"
      and j: "refresh_deadline h ad (utc_now h (lg_clock s)) i b = (Inr j, u)"
      using run by (auto simp: refresh_work_item_def refresh_work_item_at_def ok_run resolve_dependencies_def Let_def)
    show ?thesis using wait [OF i tick(1)] dead [OF j] tick(2) by simp
  qed
qed

lemma claim_refreshed_granted:
  assumes run: "claim_refreshed h w c lease sec req item s = (Inr cl, t)"
    and s: "stays h t0 (\<lambda>_. True) s" and id: "wi_work_id item = w"
  shows "granted h w c lease cl t \<and> wi_attempt_count (cl_work cl) = Suc (wi_attempt_count item)
    \<and> (\<forall>a \<in> attempts_set s. wa_work_id a = w \<longrightarrow> \<not> lease_active_at a (wa_acquired_at (cl_attempt cl)))"
proof -
  let ?now = "utc_now h (lg_clock s)" and ?v = "s\<lparr>lg_clock := Suc (lg_clock s)\<rparr>"
  have ok: "records_ok ?v" using stays_records [OF s] by (simp add: records_ok_def attempts_set_def)
  from run obtain as item' u where
    idle: "find (\<lambda>a. lease_active_at a ?now) (attempts_of ?v w) = None"
    and expire: "fold_op (claim_expire h ?now) as item ?v = (Inr item', u)"
    and checked: "claim_checked h w c lease sec req ?now item' u = (Inr cl, t)"
    by (auto simp: claim_refreshed_def ok_run active_attempt_def list_attempts_of_def list_attempts_run [OF ok])
  have k: "keeps (stays h ?now (\<lambda>_. True)) (fold_op (claim_expire h ?now) as item)"
    unfolding claim_expire_def by (intro ledger_intro keeps_expire) simp_all
  have "stays h ?now (\<lambda>_. True) u" by (rule keeps_ok [OF k expire stays_now [OF s]])
  then have "granted h w c lease cl t \<and> wa_acquired_at (cl_attempt cl) = ?now
      \<and> wi_attempt_count (cl_work cl) = Suc (wi_attempt_count item)"
    using claim_checked_granted [OF checked] stays_records claim_expire_all_id [OF expire] id by simp
  moreover have "attempts_set ?v = attempts_set s" by (simp add: attempts_set_def)
  ultimately show ?thesis using idle by (auto simp: find_None_iff set_attempts_of)
qed

lemma claim_inner_granted:
  assumes run: "claim_work_inner h w c ms sec fence s = (Inr cl, t)" and s: "safe h s"
  shows "\<exists>lease stored. lease_duration ms = Inr lease \<and> granted h w c lease cl t
    \<and> dir_get (lg_items s) w = Some stored \<and> wi_attempt_count (cl_work cl) = Suc (wi_attempt_count stored)
    \<and> (\<forall>a \<in> attempts_set s. wa_work_id a = w \<longrightarrow> \<not> lease_active_at a (wa_acquired_at (cl_attempt cl)))"
proof -
  let ?s = "s\<lparr>lg_operation_request := None\<rparr>"
  let ?fence = "\<lambda>item. case fence of None \<Rightarrow> ret () | Some f \<Rightarrow> require_managed_grok_claim_fence h item c f"
  obtain t0 where s0: "stays h t0 (\<lambda>_. True) s" using s by (auto simp: safe_def)
  from run obtain lease stored item u v where
    lease: "lease_duration ms = Inr lease"
    and stored: "require_work_item w ?s = (Inr stored, ?s)"
    and fresh: "refresh_work_item h stored ?s = (Inr item, u)"
    and fence: "?fence item u = (Inr (), v)"
    and claim: "claim_refreshed h w c lease sec (lg_operation_request s) item v = (Inr cl, t)"
    by (auto simp: claim_work_inner_def ok_run)
  have "keeps (\<lambda>x. x = u) (?fence item)"
    unfolding require_managed_grok_claim_fence_def by (intro ledger_intro)
  from keeps_ok [OF this fence] have v: "v = u" by simp
  have ok: "records_ok ?s" "attempts_set ?s = attempts_set s"
    using stays_records [OF s0] by (simp_all add: records_ok_def attempts_set_def)
  have "stays h t0 (\<lambda>_. True) u" using keeps_ok [OF keeps_refresh fresh] s0 by simp
  moreover have w: "wi_work_id stored = w \<and> stored \<in> set (dir_list (lg_items s))"
    using wp_result(1) [OF wp_require_work_item [where Q = "\<lambda>i _. wi_work_id i = w \<and> i \<in> set (dir_list (lg_items s))"] stored]
      ok by simp
  ultimately have "granted h w c lease cl t" "wi_attempt_count (cl_work cl) = Suc (wi_attempt_count item)"
    "\<forall>a \<in> attempts_set u. wa_work_id a = w \<longrightarrow> \<not> lease_active_at a (wa_acquired_at (cl_attempt cl))"
    using claim_refreshed_granted [OF claim] refresh_id [OF fresh] v by auto
  moreover have "dir_get (lg_items s) w = Some stored"
    using w stays_records [OF s0] dir_list_get [of wi_work_id "lg_items s" stored] by (simp add: records_ok_def)
  ultimately show ?thesis using lease refresh_attempts [OF ok(1) fresh] ok(2) by auto
qed

end

text \<open>
  A claim with a lease secret hands out the token that the claimed attempt and the secret give; the
  attempt record stores the hash of that token only. Two payloads collide when they differ
  and have the same hash.
\<close>

definition no_collision :: "host \<Rightarrow> payload \<Rightarrow> payload \<Rightarrow> bool" where
  "no_collision h p q \<longleftrightarrow> (hash_payload h p = hash_payload h q \<longrightarrow> p = q)"

lemma leased_token [simp]: "lease_token_for_secret h (leased_attempt a now l) secret = lease_token_for_secret h a secret"
  by (simp add: lease_token_for_secret_def leased_attempt_def)

lemma new_attempt_secret:
  "new_attempt h item c (Some secret) s = (Inr (a, tok), t) \<Longrightarrow> tok = lease_token_for_secret h a secret"
  by (auto simp: new_attempt_def ok_run Let_def)

lemma claim_checked_secret:
  "claim_checked h w c lease (Some secret) req now item s = (Inr cl, t)
     \<Longrightarrow> cl_lease_token cl = lease_token_for_secret h (cl_attempt cl) secret"
  by (auto simp: claim_checked_def ok_run Let_def split: prod.splits dest!: new_attempt_secret)

lemma claim_inner_secret:
  "claim_work_inner h w c ms (Some secret) fence s = (Inr cl, t)
     \<Longrightarrow> cl_lease_token cl = lease_token_for_secret h (cl_attempt cl) secret"
  by (auto simp: claim_work_inner_def claim_refreshed_def ok_run dest!: claim_checked_secret)

subsection \<open>Completing\<close>

text \<open>
  The evidence an ordinary completion needs: the result names this work item, this attempt
  and one of its linked runs; the run's own stored evidence authorizes success and is what
  the result repeats.
\<close>

definition evidenced :: "host \<Rightarrow> ledger \<Rightarrow> work_item \<Rightarrow> work_attempt \<Rightarrow> work_result \<Rightarrow> bool" where
  "evidenced h s item a r \<longleftrightarrow>
     (\<exists>e rid run re. wr_verification r = Some e \<and> wr_failure r = None \<and> wr_cancellation_reason r = None
        \<and> ce_work_id e = Some (wi_work_id item) \<and> ce_attempt_id e = Some (wa_attempt_id a)
        \<and> ce_run_id e = Some rid \<and> rid \<in> set (wa_linked_run_ids a)
        \<and> file_get (lg_runs s) rid = Some run \<and> rn_session_id run = wi_session_id item
        \<and> workspaces_match h (rn_workspace run) (wi_workspace item)
        \<and> rn_verification run = Some re \<and> same_observation e re
        \<and> evidence_authorizes_success re \<and> evidence_authorizes_success e)"

lemma bound_evidence_ok:
  "bound_completion_evidence ev w k runs None = Inr (Some e) \<longleftrightarrow>
     ev = Some e \<and> ce_work_id e = Some w \<and> ce_attempt_id e = Some k
     \<and> (\<exists>r. ce_run_id e = Some r \<and> r \<in> set runs)"
  by (auto simp: bound_completion_evidence_def Let_def split: option.splits if_splits)

lemma evidence_matches_run_ok:
  "evidence_matches_run h s item e = Inr True \<longleftrightarrow>
     (\<exists>run re. file_get (lg_runs s) (case ce_run_id e of Some r \<Rightarrow> r | None \<Rightarrow> []) = Some run
        \<and> rn_session_id run = wi_session_id item \<and> workspaces_match h (rn_workspace run) (wi_workspace item)
        \<and> rn_verification run = Some re \<and> evidence_authorizes_success re \<and> same_observation e re)"
  by (auto simp: evidence_matches_run_def split: option.splits if_splits)

lemma success_is_authorized_ordinary:
  assumes "wp_required_checks (wi_policy item) = []" "wi_approval item = None"
  shows "success_is_authorized h s item (Some a) (Some r) None = Inr True \<longleftrightarrow>
    wa_work_id a = wi_work_id item \<and> evidenced h s item a r"
proof -
  have "success_is_authorized h s item (Some a) (Some r) None = Inr True \<longleftrightarrow>
      wr_failure r = None \<and> wr_cancellation_reason r = None \<and> wa_work_id a = wi_work_id item
      \<and> (\<exists>e. bound_completion_evidence (wr_verification r) (wi_work_id item) (wa_attempt_id a)
                (wa_linked_run_ids a) None = Inr (Some e)
            \<and> evidence_authorizes_success e \<and> evidence_matches_run h s item e = Inr True)"
    using assms by (auto simp: success_is_authorized_def rbind_ok split: option.splits if_splits)
  then show ?thesis
    by (auto simp: evidenced_def bound_evidence_ok evidence_matches_run_ok)
qed

lemma success_is_authorized_cong:
  assumes "lg_runs s = lg_runs u" "lg_check_authority s = lg_check_authority u"
  shows "success_is_authorized h s = success_is_authorized h u"
proof -
  have "evidence_matches_run h s = evidence_matches_run h u"
    "required_checks_authorize s = required_checks_authorize u"
    using assms by (auto simp: evidence_matches_run_def required_checks_authorize_def fun_eq_iff)
  then show ?thesis unfolding success_is_authorized_def by presburger
qed

text \<open>The state a live completion gives the item and the attempt.\<close>

definition completion_states :: "host \<Rightarrow> ledger \<Rightarrow> work_item \<Rightarrow> work_attempt \<Rightarrow> attempt_state \<times> work_state" where
  "completion_states h s item a =
     (if success_is_authorized h s item (Some a) (wi_result item) None = Inr True
         \<and> \<not> wp_requires_approval (wi_policy item)
      then (A_Succeeded, W_Succeeded) else ordinary_completion_states item)"

lemma complete_live_ok:
  "complete_live h item a s = (Inr (i, b), t) \<longleftrightarrow>
     t = s \<and> (\<exists>auth. success_is_authorized h s item (Some a) (wi_result item) None = Inr auth)
     \<and> i = item\<lparr>wi_state := snd (completion_states h s item a)\<rparr>
     \<and> b = a\<lparr>wa_state := fst (completion_states h s item a)\<rparr>"
proof (cases "success_is_authorized h s item (Some a) (wi_result item) None")
  case (Inl e)
  then show ?thesis by (simp add: complete_live_def ok_run)
next
  case (Inr auth)
  obtain x y where "ordinary_completion_states item = (x, y)" by fastforce
  then show ?thesis
    using Inr
    by (cases "auth \<and> \<not> wp_requires_approval (wi_policy item)")
       (auto simp: complete_live_def assign_work_succeeded_def completion_states_def ok_run)
qed

context sound_host
begin

lemma complete_ok:
  assumes run: "complete_work h w k tok r s = (Inr (i, a), t)" and ok: "records_ok s"
  shows "\<exists>prior held. dir_get (lg_items s) w = Some prior \<and> dir_get (lg_attempts s) k = Some held
    \<and> wa_work_id held = w \<and> token_matches h held tok
    \<and> (if already_completed prior held
       then i = prior \<and> a = held \<and> is_some_and (wa_result held) (\<lambda>stored. completion_result_replays stored r)
         \<and> lg_items t = lg_items s \<and> lg_attempts t = lg_attempts s
       else lease_active_at held (utc_now h (lg_clock s)) \<and> work_updated i a s t
         \<and> (let item = prior\<lparr>wi_result := Some r\<rparr>;
                att = held\<lparr>wa_result := Some r, wa_updated_at := utc_now h (lg_clock s)\<rparr> in
            i = bump_at (utc_now h (Suc (lg_clock s))) (item\<lparr>wi_state := snd (completion_states h s item att)\<rparr>)
            \<and> a = att\<lparr>wa_state := fst (completion_states h s item att)\<rparr>))"
proof -
  let ?now = "utc_now h (lg_clock s)"
  let ?u = "s\<lparr>lg_operation_request := None, lg_clock := Suc (lg_clock s)\<rparr>"
  from run obtain prior pa held where
    p: "checked item_validate (file_get (lg_items s) w) = Inr (Some prior)"
    and pa: "list_attempts_of w (s\<lparr>lg_operation_request := None\<rparr>) = (Inr pa, s\<lparr>lg_operation_request := None\<rparr>)"
    and held: "checked attempt_validate (file_get (lg_attempts s) k) = Inr (Some held)"
    and body: "complete_held h tok r (lg_operation_request s) prior pa ?now held ?u = (Inr (i, a), t)"
    by (auto simp: complete_work_def ok_run list_attempts_of_def list_work_attempts_def)
  note stored = checked_file_ok [OF p] checked_file_ok [OF held]
  have id: "wi_work_id prior = w"
    using stored(1) ok dir_ok_key [of wi_work_id "lg_items s"] by (simp add: records_ok_def)
  from body have tok: "wa_work_id held = w" "token_matches h held tok"
    using id by (auto simp: complete_held_def ok_run)
  show ?thesis
  proof (cases "already_completed prior held")
    case True
    then show ?thesis
      using body stored tok by (auto simp: complete_held_def ok_run split: if_splits)
  next
    case False
    let ?item = "prior\<lparr>wi_result := Some r\<rparr>" and ?att = "held\<lparr>wa_result := Some r, wa_updated_at := ?now\<rparr>"
    have cs: "completion_states h ?u ?item ?att = completion_states h s ?item ?att"
      by (simp add: completion_states_def success_is_authorized_cong [of ?u s])
    let ?i = "bump_at (utc_now h (Suc (lg_clock s))) (?item\<lparr>wi_state := snd (completion_states h s ?item ?att)\<rparr>)"
      and ?a = "?att\<lparr>wa_state := fst (completion_states h s ?item ?att)\<rparr>"
    let ?v = "?u\<lparr>lg_clock := Suc (Suc (lg_clock s))\<rparr>"
    have v: "records_ok ?v" using ok by simp
    have "pa = attempts_of ?v w"
      using pa wp_list_attempts_of [of "s\<lparr>lg_operation_request := None\<rparr>" w "\<lambda>as _. as = attempts_of s w"
          "\<lambda>_ _. True"] ok by (simp add: wp_def)
    moreover from body False cs have live: "lease_active_at held ?now" and ia: "i = ?i" "a = ?a"
      and commit: "commit_attempt h O_Complete prior ?i pa ?a (lg_operation_request s) ?v = (Inr (), t)"
      by (auto simp: complete_held_def ok_run complete_live_ok)
    ultimately have "work_updated ?i ?a ?v t"
      using wp_result(1) [OF wp_commit_attempt_done [OF v, of O_Complete prior ?i w ?a]] by blast
    then show ?thesis using False stored tok live ia by (auto simp: Let_def)
  qed
qed

end

end
