(* ===== verification/Receipt_Contract.thy ===== *)
theory Receipt_Contract
  imports Ledger_Machine Run_Rules Crash_Recovery
begin

section \<open>The promise of the idempotency receipts\<close>

text \<open>
  Two views of the receipts of \<open>Idempotency\<close>. First, over the whole state machine: no
  operation rewrites a receipt that is finished, so a retry gets the stored outcome until
  the receipt is pruned for capacity. Second, a refinement: for one request, claiming and
  finishing implement the abstract three-state book \<open>request_state\<close>.
\<close>

subsection \<open>Finished receipts stay\<close>

definition open_slot :: "('k, idempotency_receipt) dir \<Rightarrow> 'k \<Rightarrow> bool" where
  "open_slot d k = is_none_or (dir_get d k) (\<lambda>r. ir_status r = ''pending'')"

definition book :: "((string \<times> string \<times> string, idempotency_receipt) dir \<Rightarrow> bool) \<Rightarrow> ledger \<Rightarrow> bool" where
  "book P s = P (lg_receipts s)"

lemma book_frame [simp]:
  "book P (s\<lparr>lg_items := x1\<rparr>) = book P s" "book P (s\<lparr>lg_attempts := x2\<rparr>) = book P s"
  "book P (s\<lparr>lg_decisions := x3\<rparr>) = book P s" "book P (s\<lparr>lg_mutations := x4\<rparr>) = book P s"
  "book P (s\<lparr>lg_lifecycles := x5\<rparr>) = book P s" "book P (s\<lparr>lg_legacy_receipts := x6\<rparr>) = book P s"
  "book P (s\<lparr>lg_runs := x7\<rparr>) = book P s" "book P (s\<lparr>lg_agents := x8\<rparr>) = book P s"
  "book P (s\<lparr>lg_check_authority := x9\<rparr>) = book P s" "book P (s\<lparr>lg_operation_request := y1\<rparr>) = book P s"
  "book P (s\<lparr>lg_clock := y2\<rparr>) = book P s" "book P (s\<lparr>lg_uuids := y3\<rparr>) = book P s"
  "book P (s\<lparr>lg_writes := y4\<rparr>) = book P s" "book P (s\<lparr>lg_admission_closed := y5\<rparr>) = book P s"
  "book P (s\<lparr>lg_last_run_error := y6\<rparr>) = book P s" "book P (note_partial_commit e s) = book P s"
  by (simp_all add: book_def note_partial_commit_def)

lemma keeps_book_leaves [ledger_intro]:
  "keeps (book P) (now_op h :: (ledger, 'e, time) op)" "keeps (book P) (uuid_op h :: (ledger, 'e, string) op)"
  "keeps (book P) (adopt_operation_request :: (ledger, 'e, work_request_binding option) op)"
  "keeps (book P) (bump h i :: (ledger, 'e, work_item) op)" "keeps (book P) (bind_work_request b)"
  by (simp_all add: keeps_wp wp bump_def bind_work_request_def)

lemma keeps_book_writes [ledger_intro]:
  "keeps (book P) (drop_legacy h lk)" "keeps (book P) refuse_closed_admission"
  "keeps (book P) (write_work_item h i)" "keeps (book P) (save_work_attempt h a)"
  "keeps (book P) (save_work_decision h d)" "keeps (book P) (persist_work_mutation_intent h mi)"
  "keeps (book P) (clear_work_mutation_intent h k)" "keeps (book P) (persist_work_lifecycle_intent h li)"
  "keeps (book P) (clear_work_lifecycle_intent h k)"
  unfolding drop_legacy_def refuse_closed_admission_def write_work_item_def
    save_work_attempt_def save_work_decision_def persist_work_mutation_intent_def
    clear_work_mutation_intent_def persist_work_lifecycle_intent_def clear_work_lifecycle_intent_def
  by (intro ledger_intro keeps_durable; simp)+

lemma keeps_book_note [ledger_intro]:
  "keeps (book P) m \<Longrightarrow> keeps (book P) (on_err note_partial_commit m)"
  by (simp add: keeps_wp wp_on_err)

text \<open>
  A property of the receipts that survives every write into an open slot, one that holds no
  receipt or a pending one: every operation but a claim writes receipts only there.
\<close>

locale receipt_book =
  fixes P :: "(string \<times> string \<times> string, idempotency_receipt) dir \<Rightarrow> bool"
  assumes write_open: "P d \<Longrightarrow> open_slot d k \<Longrightarrow> P (dir_put k r d)"
    and keys: "P d \<Longrightarrow> distinct (map fst d)"
begin

lemma wp_put_open:
  "book P s \<Longrightarrow> open_slot (lg_receipts s) k \<Longrightarrow> wp (put_receipt h k r) (\<lambda>_. book P) (\<lambda>_. book P) s"
  unfolding put_receipt_def wp_map_err
  by (rule wp_durable) (auto simp: book_def intro: write_open)

lemma keeps_converge_book [ledger_intro]: "keeps (book P) (converge_legacy_owner_receipt h lk nk r)"
proof -
  have "wp (thenE (put_receipt h nk r) (ignore_err (drop_legacy h lk))) (\<lambda>_. book P) (\<lambda>_. book P) s"
    if "book P s" "dir_get (lg_receipts s) nk = None" for s
    unfolding wp_thenE
    by (rule wp_mono [OF wp_put_open [OF that(1)]])
       (use that in \<open>auto simp: open_slot_def intro!: keepsD ledger_intro\<close>)
  moreover have "wp (ignore_err (drop_legacy h lk)) (\<lambda>_. book P) (\<lambda>_. book P) s" if "book P s" for s
    using that by (rule keepsD [rotated]) (intro ledger_intro)
  ultimately show ?thesis
    unfolding keeps_wp converge_legacy_owner_receipt_def wp_bindE wp_gets
    by (auto simp: wp_raise split: option.split)
qed

lemma keeps_load_book [ledger_intro]:
  "keeps (book P) (adopt_legacy_owner_receipt h sc req c)" "keeps (book P) (load_idempotency h sc req)"
  unfolding load_idempotency_def adopt_legacy_owner_receipt_def by (intro ledger_intro)+

lemma keeps_finish_book [ledger_intro]:
  "keeps (book P) (finish_idempotency h sc tool req p run resp err status)"
proof -
  have "wp (put_receipt h k r) (\<lambda>_. book P) (\<lambda>_. book P) s"
    if "book P s" "dir_get (lg_receipts s) k = Some x" "ir_status x = ''pending''" for s k x r
    using that by (intro wp_put_open) (simp_all add: open_slot_def)
  then show ?thesis
    unfolding keeps_wp finish_idempotency_def
    by (auto simp: wp split: sum.split option.split)
qed

lemma keeps_bound_book [ledger_intro]:
  "keeps (book P) (complete_bound_request h req resp)" "keeps (book P) (validate_bound_request h q i pa na)"
  unfolding complete_bound_request_def validate_bound_request_def by (intro ledger_intro)+

lemma keeps_save_item_book [ledger_intro]: "keeps (book P) (save_work_item h i)"
  unfolding save_work_item_def by (intro ledger_intro)

lemma keeps_mutation_book [ledger_intro]:
  "keeps (book P) (commit_work_mutation_intent h i)" "keeps (book P) (recover_work_mutation_intents h)"
  "keeps (book P) (mutate_assignment h r f)"
proof -
  show c: "keeps (book P) (commit_work_mutation_intent h i)" for i
    unfolding commit_work_mutation_intent_def by (intro ledger_intro)
  show "keeps (book P) (recover_work_mutation_intents h)"
    unfolding recover_work_mutation_intents_def by (intro ledger_intro c)
  show "keeps (book P) (mutate_assignment h r f)"
    unfolding mutate_assignment_def by (intro ledger_intro c)
qed

lemma keeps_commit_book [ledger_intro]: "keeps (book P) (commit_work_lifecycle_intent h i)"
  unfolding commit_work_lifecycle_intent_def preflight_work_lifecycle_intent_def
    write_work_lifecycle_attempt_updates_def write_work_lifecycle_item_update_def
  by (intro ledger_intro)

lemma keeps_request_book [ledger_intro]:
  "keeps (book P) (commit_lifecycle_with_request h op pi it pa na req)"
  "keeps (book P) (recover_work_lifecycle_intents h)"
  unfolding commit_lifecycle_with_request_def recover_work_lifecycle_intents_def by (intro ledger_intro)+

lemma keeps_snapshots_book [ledger_intro]:
  "keeps (book P) (commit_refreshed_work_item h pi it)"
  "keeps (book P) (commit_expired_attempt_lifecycle h op pi it a)"
  "keeps (book P) (commit_attempt h op pi it pa a req)"
  unfolding commit_refreshed_work_item_def commit_expired_attempt_lifecycle_def
    commit_work_lifecycle_snapshots_def commit_attempt_def
  by (intro ledger_intro)+

lemma keeps_refresh_book [ledger_intro]:
  "keeps (book P) (refresh_work_item_at h i now)" "keeps (book P) (refresh_work_item h i)"
  unfolding refresh_work_item_def refresh_work_item_at_def refresh_wait_def refresh_deadline_def refreshed_def
  by (intro ledger_intro)+

lemma keeps_expire_book [ledger_intro]:
  "keeps (book P) (expire_attempt h i a now)" "keeps (book P) (expire_terminal_attempt h i a now)"
  unfolding expire_attempt_def expire_terminal_attempt_def by (intro ledger_intro)+

lemma keeps_reconcile_book [ledger_intro]:
  "keeps (book P) (reconcile_workloads_at h now)" "keeps (book P) (reconcile_workloads h)"
  unfolding reconcile_workloads_def reconcile_workloads_at_def reconcile_item_def reconcile_attempt_def
  by (intro ledger_intro)+

lemma keeps_lease_book [ledger_intro]:
  "keeps (book P) (load_active_attempt_for_token h i k tok now)" "keeps (book P) (require_work_attempt k)"
  unfolding load_active_attempt_for_token_def require_work_attempt_def check_token_def check_live_def check_def
  by (intro ledger_intro)+

lemma keeps_with_lease_book [ledger_intro]:
  "(\<And>i pa now a. keeps (book P) (body i pa now a)) \<Longrightarrow> keeps (book P) (with_lease h w k tok body)"
  unfolding with_lease_def by (intro ledger_intro)

lemma keeps_holder_book:
  "keeps (book P) (renew_work_lease h w k tok ms)" "keeps (book P) (link_work_run h w k tok r)"
  "keeps (book P) (report_work_progress h w k tok pg)" "keeps (book P) (park_work_input h w k tok reason)"
  "keeps (book P) (release_work h w k tok reason)" "keeps (book P) (fail_work h w k tok res)"
  "keeps (book P) (complete_work h w k tok res)" "keeps (book P) (cancel_work_checked h w reason er)"
  unfolding renew_work_lease_def link_work_run_def report_work_progress_def park_work_input_def
    release_work_def fail_work_def complete_work_def complete_held_def complete_live_def
    assign_work_succeeded_def check_token_def check_live_def check_def cancel_work_checked_def
  by (intro ledger_intro)+

lemma keeps_decision_book:
  "keeps (book P) (assign_work h w ag er)" "keeps (book P) (retry_work h w reason er)"
  "keeps (book P) (approve_work h w rid msg er)"
  unfolding assign_work_def retry_work_def approve_work_def approve_candidate_def approve_ordinary_def
    assign_work_succeeded_def check_def
  by (intro ledger_intro)+

lemma keeps_claim_book: "keeps (book P) (claim_work_inner h w c ms sec fence)"
  unfolding claim_work_inner_def claim_refreshed_def claim_checked_def new_attempt_def claim_expire_def
    require_managed_grok_claim_fence_def check_def
  by (intro ledger_intro)

lemma wp_orphans:
  assumes "book P s" "distinct (map fst xs)" "\<And>k r. (k, r) \<in> set xs \<Longrightarrow> open_slot (lg_receipts s) k"
  shows "wp (for_each xs (\<lambda>(k, r). durable h (\<lambda>s. s\<lparr>lg_receipts := dir_put k (orphaned r) (lg_receipts s)\<rparr>)))
    (\<lambda>_. book P) (\<lambda>_. book P) s"
  using assms
proof (induction xs arbitrary: s)
  case Nil
  then show ?case by (simp add: wp)
next
  case (Cons x xs)
  obtain k r where x: "x = (k, r)" by (cases x)
  let ?s = "s\<lparr>lg_writes := Suc (lg_writes s), lg_receipts := dir_put k (orphaned r) (lg_receipts s)\<rparr>"
  have "open_slot (lg_receipts s) k" using Cons.prems(3) [of k r] x by simp
  then have put: "book P ?s" using Cons.prems(1) by (simp add: book_def write_open)
  have "open_slot (lg_receipts ?s) j" if "(j, q) \<in> set xs" for j q
  proof -
    have "j \<noteq> k" using that Cons.prems(2) x by (auto simp: image_iff)
    then show ?thesis using Cons.prems(3) [of j q] that by (simp add: open_slot_def)
  qed
  then have "wp (for_each xs (\<lambda>(k, r). durable h (\<lambda>s. s\<lparr>lg_receipts := dir_put k (orphaned r) (lg_receipts s)\<rparr>)))
      (\<lambda>_. book P) (\<lambda>_. book P) ?s"
    using Cons.IH [OF put] Cons.prems(2) x by auto
  then show ?case
    using Cons.prems(1) put x by (auto simp: wp_thenE intro!: wp_durable)
qed

lemma keeps_open_book: "keeps (book P) (open_ledger h)"
proof -
  have orphans: "keeps (book P) (fail_orphaned_idempotency_claims h)"
    unfolding keeps_wp
  proof (intro allI impI)
    fix s assume s: "book P s"
    let ?xs = "filter (\<lambda>(k, r). ir_status r = ''pending'') (lg_receipts s)"
    have d: "distinct (map fst (lg_receipts s))" using s keys by (simp add: book_def)
    then have "open_slot (lg_receipts s) k" if "(k, r) \<in> set ?xs" for k r
      using that by (auto simp: open_slot_def dir_get_def map_of_eq_Some_iff)
    moreover have "distinct (map fst ?xs)" using d by (rule distinct_map_filter)
    moreover have "keeps (book P) (for_each ys (\<lambda>(k, r). durable h (\<lambda>s. s\<lparr>lg_legacy_receipts := dir_put k (orphaned r) (lg_legacy_receipts s)\<rparr>)))" for ys
      by (intro ledger_intro keeps_durable) simp_all
    ultimately show "wp (fail_orphaned_idempotency_claims h) (\<lambda>_. book P) (\<lambda>_. book P) s"
      using s wp_orphans [OF s]
      by (auto simp: fail_orphaned_idempotency_claims_def wp_bindE wp_gets wp_thenE keeps_wp
            intro!: wp_mono [OF wp_orphans [OF s]])
  qed
  have "keeps (book P) (modify restart :: unit store_op)" by (simp add: keeps_wp wp restart_def)
  then show ?thesis unfolding open_ledger_def by (intro ledger_intro orphans)
qed

lemma call_book:
  assumes "book P s" and "\<And>sc tool r p. c \<noteq> C_ClaimReceipt sc tool r p"
  shows "book P (run_call h c s)"
proof -
  have k: "keeps (book P) m \<Longrightarrow> book P (snd (m s))" for m :: "(ledger, 'e, 'a) op"
    using assms(1) by (simp add: keeps_def)
  have "keeps (book P) (claim_work_with_lease_secret h w c' ms secret)"
    "keeps (book P) (claim_managed_grok_work_with_lease_secret h w c' ms secret f)" for w c' ms secret f
    unfolding claim_work_with_lease_secret_def claim_managed_grok_work_with_lease_secret_def check_def
    by (intro ledger_intro keeps_claim_book)+
  then show ?thesis
    using assms
    by (cases "(h, c, s)" rule: run_call.cases)
       (auto simp: decision_ops complete_idempotency_def fail_idempotency_def claim_work_def
          drop_bound_work_request_def restart_def
          intro!: k keeps_holder_book keeps_decision_book keeps_claim_book keeps_open_book ledger_intro)
qed

end

interpretation receipt_keys: receipt_book "\<lambda>d. distinct (map fst d)"
  by unfold_locales (simp_all add: dir_put_def distinct_update)

text \<open>The book that holds the finished receipt \<open>r\<close> under \<open>k\<close>.\<close>

definition holds_receipt ::
  "string \<times> string \<times> string \<Rightarrow> idempotency_receipt \<Rightarrow> (string \<times> string \<times> string, idempotency_receipt) dir \<Rightarrow> bool" where
  "holds_receipt k r d \<longleftrightarrow> distinct (map fst d) \<and> dir_get d k = Some r"

lemma receipt_book_finished: "ir_status r \<noteq> ''pending'' \<Longrightarrow> receipt_book (holds_receipt k r)"
  by unfold_locales
     (auto simp: holds_receipt_def open_slot_def dir_put_def distinct_update update_conv dir_get_def)

definition owner_full :: "ledger \<Rightarrow> string \<Rightarrow> bool" where
  "owner_full s owner \<longleftrightarrow>
     MAX_IDEMPOTENCY_RECEIPTS_PER_OWNER \<le>
       length (filter (\<lambda>(o', _, _). o' = owner) (map fst (lg_receipts s)))"

lemma adopt_legacy_none:
  "lg_legacy_receipts s = [] \<Longrightarrow> is_ok (safe_id_filename req)
     \<Longrightarrow> adopt_legacy_owner_receipt h sc req c s = (Inr (), s)"
  by (auto simp: adopt_legacy_owner_receipt_def legacy_owner_v2_path_def rbind_def bindE_def lift_def
        gets_def ret_def is_ok_def split: sum.splits)

text \<open>What a prune removes: nothing, or one finished receipt of the owner.\<close>

lemma wp_prune:
  assumes d: "distinct (map fst (lg_receipts s))"
    and same: "\<And>n. Q (s\<lparr>lg_writes := n\<rparr>)" "Q s" "\<And>n j. Q (s\<lparr>lg_writes := n, lg_legacy_receipts := dir_del j (lg_legacy_receipts s)\<rparr>)"
    and del: "\<And>k r n. dir_get (lg_receipts s) k = Some r \<Longrightarrow> fst k = sc_owner_id sc
        \<Longrightarrow> ir_status r \<in> {''complete'', ''failed''}
        \<Longrightarrow> Q (s\<lparr>lg_writes := n, lg_receipts := dir_del k (lg_receipts s)\<rparr>)"
  shows "wp (prune_one_owner_receipt h sc) (\<lambda>_. Q) (\<lambda>_ t. \<not> reliable h \<and> Q t) s"
proof (cases "sort_key snd (eligible_receipts s sc)")
  case Nil
  then show ?thesis using same by (simp add: prune_one_owner_receipt_def wp)
next
  case (Cons x xs)
  obtain y c where x: "x = (y, c)" by (cases x)
  from Cons x have el: "(y, c) \<in> set (eligible_receipts s sc)"
    by (metis list.set_intros(1) set_sort)
  show ?thesis
  proof (cases y)
    case (Inl k)
    then obtain r where "(k, r) \<in> set (lg_receipts s)" "fst k = sc_owner_id sc"
      "ir_status r \<in> {''complete'', ''failed''}"
      using el by (auto simp: eligible_receipts_def prunable_def)
    then have "wp (durable h (\<lambda>s. s\<lparr>lg_receipts := dir_del k (lg_receipts s)\<rparr>)) (\<lambda>_. Q)
        (\<lambda>_ t. \<not> reliable h \<and> Q t) s"
      using del [of k r] d same by (intro wp_durable_reliable) (simp_all add: dir_get_def map_of_eq_Some_iff)
    then show ?thesis using Cons x Inl by (simp add: prune_one_owner_receipt_def wp)
  next
    case (Inr lk)
    have "wp (drop_legacy h lk) (\<lambda>_. Q) (\<lambda>_ t. \<not> reliable h \<and> Q t) s"
      using same unfolding drop_legacy_def by (intro wp_durable_reliable) simp_all
    then show ?thesis using Cons x Inr by (simp add: prune_one_owner_receipt_def wp)
  qed
qed

lemma dir_keys [simp]:
  "distinct (map fst d) \<Longrightarrow> distinct (map fst (dir_del k d))"
  "distinct (map fst d) \<Longrightarrow> distinct (map fst (dir_put k v d))"
  by (simp_all add: dir_del_def dir_put_def distinct_delete distinct_update)

lemma wp_adopt_none:
  "lg_legacy_receipts s = [] \<Longrightarrow> is_ok (safe_id_filename req)
     \<Longrightarrow> wp (adopt_legacy_owner_receipt h sc req c) Q E s = Q () s"
  by (simp add: wp_def adopt_legacy_none)

text \<open>
  What a claim of the scope \<open>sc\<close> leaves of the receipt \<open>r\<close> under \<open>k\<close>: the receipt, or nothing
  when it was finished, of the same owner, and the owner's book was full.
\<close>

definition receipt_kept ::
  "ledger \<Rightarrow> idempotency_scope \<Rightarrow> string \<times> string \<times> string \<Rightarrow> idempotency_receipt \<Rightarrow> ledger \<Rightarrow> bool" where
  "receipt_kept s sc k r t \<longleftrightarrow>
     distinct (map fst (lg_receipts t))
     \<and> (dir_get (lg_receipts t) k = Some r
        \<or> dir_get (lg_receipts t) k = None \<and> fst k = sc_owner_id sc \<and> owner_full s (fst k)
          \<and> ir_status r \<in> {''complete'', ''failed''})"

lemma receipt_kept_frame [simp]:
  "receipt_kept s sc k r (t\<lparr>lg_clock := x\<rparr>) = receipt_kept s sc k r t"
  "receipt_kept s sc k r (t\<lparr>lg_writes := x\<rparr>) = receipt_kept s sc k r t"
  by (simp_all add: receipt_kept_def)

lemma wp_claim_receipt:
  assumes s: "holds_receipt k r (lg_receipts s)" and legacy: "lg_legacy_receipts s = []"
  shows "wp (claim_idempotency h sc tool req p) (\<lambda>_. receipt_kept s sc k r) (\<lambda>_. receipt_kept s sc k r) s"
proof (cases "idemp_path sc req")
  case (Inl e)
  then show ?thesis using s by (simp add: claim_idempotency_def wp holds_receipt_def receipt_kept_def)
next
  case (Inr k')
  let ?J = "receipt_kept s sc k r"
  let ?I = "\<lambda>t. ?J t \<and> (k' = k \<longrightarrow> dir_get (lg_receipts t) k = Some r)"
  have name: "is_ok (safe_id_filename req)"
    using Inr by (auto simp: idemp_path_def rbind_ok is_ok_def)
  have prune: "wp (if dir_get (lg_receipts s) k' = None \<and> MAX_IDEMPOTENCY_RECEIPTS_PER_OWNER
        \<le> owner_idempotency_entry_count s sc MAX_IDEMPOTENCY_RECEIPTS_PER_OWNER
      then prune_one_owner_receipt h sc else ret ()) (\<lambda>_. ?I) (\<lambda>_. ?J) s"
    (is "wp (if ?full then _ else _) _ _ s")
  proof (cases ?full)
    case False
    then show ?thesis using s by (auto simp: wp holds_receipt_def receipt_kept_def)
  next
    case True
    have full: "owner_full s (sc_owner_id sc)"
      using True legacy by (simp add: owner_full_def owner_idempotency_entry_count_def)
    have other: "k' \<noteq> k" using True s by (auto simp: holds_receipt_def)
    have "wp (prune_one_owner_receipt h sc) (\<lambda>_. ?J) (\<lambda>_ t. \<not> reliable h \<and> ?J t) s"
      using s full by (intro wp_prune) (auto simp: holds_receipt_def receipt_kept_def)
    then have "wp (prune_one_owner_receipt h sc) (\<lambda>_. ?I) (\<lambda>_. ?J) s"
      by (rule wp_mono) (use other in auto)
    then show ?thesis using True by simp
  qed
  have put: "wp (put_receipt h k' x) (\<lambda>_. wp (ret y) (\<lambda>_. ?J) (\<lambda>_. ?J)) (\<lambda>_. ?J) u"
    if "?I u" "dir_get (lg_receipts u) k' = None" for x y u
    using that unfolding put_receipt_def wp_map_err
    by (intro wp_durable) (auto simp: wp_ret receipt_kept_def)
  show ?thesis
    unfolding claim_idempotency_def wp_bindE wp_lift Inr sum.case
      wp_thenE wp_adopt_none [OF legacy name] wp_gets
    by (rule wp_mono [OF prune]) (auto simp: wp intro!: put split: option.split)
qed

subsection \<open>The abstract book of one request\<close>

text \<open>
  One request id of one owner and workspace, as a client sees it: unknown, running for a
  caller, or finished with an outcome. The caller is identified by session, tool and payload.
\<close>

type_synonym caller = "uuid \<times> string \<times> string"

datatype request_state = Fresh | Busy caller | Finished caller "response result"

fun spec_claim :: "caller \<Rightarrow> request_state \<Rightarrow> (orch_error_code + idempotency_claim) \<times> request_state" where
  "spec_claim c Fresh = (Inr Perform, Busy c)"
| "spec_claim c (Busy b) = (if b = c then (Inr Pending, Busy b) else (Inl Conflict, Busy b))"
| "spec_claim c (Finished b out) =
     (if b = c then (Inr (Replay out), Finished b out) else (Inl Conflict, Finished b out))"

fun spec_finish :: "caller \<Rightarrow> response result \<Rightarrow> request_state \<Rightarrow> (orch_error_code + unit) \<times> request_state" where
  "spec_finish c out Fresh = (Inl Conflict, Fresh)"
| "spec_finish c out (Busy b) = (if b = c then (Inr (), Finished c out) else (Inl Conflict, Busy b))"
| "spec_finish c out (Finished b done_out) =
     (if b = c \<and> done_out = out \<and> is_ok out then (Inr (), Finished b done_out)
      else (Inl Conflict, Finished b done_out))"

locale request_book =
  fixes view :: "'s \<Rightarrow> request_state" and wf :: "'s \<Rightarrow> bool"
    and claim :: "caller \<Rightarrow> 's \<Rightarrow> (orch_error_code + idempotency_claim) \<times> 's"
    and finish :: "caller \<Rightarrow> response result \<Rightarrow> 's \<Rightarrow> (orch_error_code + unit) \<times> 's"
  assumes claim_refines: "wf s \<Longrightarrow> claim c s = (r, t) \<Longrightarrow> wf t \<and> spec_claim c (view s) = (r, view t)"
    and finish_refines: "wf s \<Longrightarrow> finish c out s = (u, t) \<Longrightarrow> wf t \<and> spec_finish c out (view s) = (u, view t)"
begin

lemma performed_once:
  assumes "wf s" "view s = Fresh" "claim c s = (r1, s1)" "finish c out s1 = (r2, s2)" "claim b s2 = (r3, s3)"
  shows "r1 = Inr Perform \<and> r2 = Inr ()
    \<and> r3 = (if b = c then Inr (Replay out) else Inl Conflict) \<and> view s3 = Finished c out"
proof -
  from claim_refines [OF assms(1,3)] assms(2) have 1: "wf s1" "r1 = Inr Perform" "view s1 = Busy c" by auto
  from finish_refines [OF 1(1) assms(4)] 1(3) have 2: "wf s2" "r2 = Inr ()" "view s2 = Finished c out" by auto
  from claim_refines [OF 2(1) assms(5)] 2(3) show ?thesis using 1 2 by (auto split: if_splits)
qed

end

definition receipt_caller :: "idempotency_receipt \<Rightarrow> caller" where
  "receipt_caller r = (ir_session_id r, ir_tool r, ir_payload_hash r)"

definition receipt_outcome :: "idempotency_receipt \<Rightarrow> response result" where
  "receipt_outcome r =
     (if ir_status r = ''complete'' then Inr (ir_response r)
      else Inl (case ir_error r of Some e \<Rightarrow> e
                | None \<Rightarrow> orch_error_new Internal ''idempotent mutation failed''))"

definition request_view :: "string \<times> string \<times> string \<Rightarrow> ledger \<Rightarrow> request_state" where
  "request_view k s =
     (case dir_get (lg_receipts s) k of
        None \<Rightarrow> Fresh
      | Some r \<Rightarrow>
          if ir_status r = ''pending'' then Busy (receipt_caller r)
          else Finished (receipt_caller r) (receipt_outcome r))"

text \<open>
  The ledgers the refinement speaks of: every receipt was written by these operations, no
  legacy receipt or tombstone claims the request id, and a new request finds room.
\<close>

definition scope_for :: "string \<Rightarrow> string \<Rightarrow> uuid \<Rightarrow> idempotency_scope" where
  "scope_for owner digest session =
     \<lparr>sc_owner_id = owner, sc_session_id = session, sc_workspace_digest = digest\<rparr>"

definition receipt_fits :: "string \<Rightarrow> string \<Rightarrow> string \<Rightarrow> idempotency_receipt \<Rightarrow> bool" where
  "receipt_fits owner digest req r \<longleftrightarrow>
     ir_schema_version r = IDEMPOTENCY_RECEIPT_SCHEMA_VERSION \<and> ir_owner_id r = owner
     \<and> ir_workspace_digest r = digest \<and> ir_request_id r = req
     \<and> ir_status r \<in> {''pending'', ''complete'', ''failed''}
     \<and> (ir_status r = ''complete'' \<longrightarrow> ir_error r = None)"

definition shard_size :: "string \<Rightarrow> string \<Rightarrow> ledger \<Rightarrow> nat" where
  "shard_size owner digest s =
     length (filter (\<lambda>(o', d, _). o' = owner \<and> d = digest) (map fst (lg_receipts s)))"

definition request_wf :: "string \<Rightarrow> string \<Rightarrow> string \<Rightarrow> ledger \<Rightarrow> bool" where
  "request_wf owner digest req s \<longleftrightarrow>
     lg_legacy_receipts s = [] \<and> distinct (map fst (lg_receipts s)) \<and> req \<notin> set (lg_tombstones s)
     \<and> (case dir_get (lg_receipts s) (owner, digest, req) of
          None \<Rightarrow> shard_size owner digest s < MAX_IDEMPOTENCY_RECEIPTS_PER_OWNER
        | Some r \<Rightarrow> receipt_fits owner digest req r)"

definition coded :: "(orch_error + 'a) \<times> ledger \<Rightarrow> (orch_error_code + 'a) \<times> ledger" where
  "coded = map_prod (map_sum err_code id) id"

definition claim_request ::
  "host \<Rightarrow> string \<Rightarrow> string \<Rightarrow> string \<Rightarrow> caller \<Rightarrow> ledger \<Rightarrow> (orch_error_code + idempotency_claim) \<times> ledger" where
  "claim_request h owner digest req = (\<lambda>(session, tool, p) s.
     coded (claim_idempotency h (scope_for owner digest session) tool req p s))"

definition finish_request ::
  "host \<Rightarrow> string \<Rightarrow> string \<Rightarrow> string \<Rightarrow> caller \<Rightarrow> response result \<Rightarrow> ledger \<Rightarrow> (orch_error_code + unit) \<times> ledger" where
  "finish_request h owner digest req = (\<lambda>(session, tool, p) out s.
     coded (case out of
       Inr resp \<Rightarrow> complete_idempotency h (scope_for owner digest session) tool req p None resp s
     | Inl e \<Rightarrow> fail_idempotency h (scope_for owner digest session) tool req p None e s))"

lemma wp_coded:
  "wp m (\<lambda>x t. Q (Inr x) t) (\<lambda>e t. Q (Inl (err_code e)) t) s \<Longrightarrow> coded (m s) = (r, t) \<Longrightarrow> Q r t"
  by (cases "m s") (auto simp: wp_def coded_def split: sum.splits)

lemma shard_size_del: "shard_size owner digest (s\<lparr>lg_receipts := dir_del k (lg_receipts s)\<rparr>) \<le> shard_size owner digest s"
proof -
  have "length (filter q (map fst (dir_del k d))) \<le> length (filter q (map fst d))"
    for q and d :: "(string \<times> string \<times> string, idempotency_receipt) dir"
    unfolding dir_del_def AList.delete_eq
    by (induction d) auto
  then show ?thesis by (simp add: shard_size_def)
qed

lemma request_wf_frame [simp]:
  "request_wf owner digest req (s\<lparr>lg_writes := n\<rparr>) = request_wf owner digest req s"
  "request_wf owner digest req (s\<lparr>lg_clock := n\<rparr>) = request_wf owner digest req s"
  by (simp_all add: request_wf_def shard_size_def split: option.split)

locale reliable_request =
  fixes h :: host and owner digest req :: string
  assumes reliable: "reliable h" and digest: "valid_workspace_digest digest"
    and name: "is_ok (safe_id_filename req)"
begin

lemma path: "idemp_path (scope_for owner digest session) req = Inr (owner, digest, req)"
  using digest name safe_id_filename_same [of req]
  by (auto simp: idemp_path_def scope_for_def rbind_def is_ok_def split: sum.splits)

lemma same_request_caller:
  "receipt_fits owner digest req r
     \<Longrightarrow> same_request r (scope_for owner digest session) tool req p = (receipt_caller r = (session, tool, p))"
  by (auto simp: same_request_def is_in_scope_def receipt_fits_def scope_for_def receipt_caller_def)

lemma claim_known:
  assumes s: "request_wf owner digest req s" and r: "dir_get (lg_receipts s) (owner, digest, req) = Some r"
  shows "claim_idempotency h (scope_for owner digest session) tool req p s =
    (if receipt_caller r = (session, tool, p) then (Inr (replay_of r), s)
     else (Inl (orch_error_new Conflict ''request_id reused with different payload''), s))"
  using s r adopt_legacy_none [OF _ name, of s] same_request_caller [of r]
  by (auto simp: claim_idempotency_def path bindE_def thenE_def lift_def gets_def ret_def raise_def request_wf_def)

lemma wp_claim_fresh:
  assumes s: "request_wf owner digest req s" and none: "dir_get (lg_receipts s) (owner, digest, req) = None"
  shows "wp (claim_idempotency h (scope_for owner digest session) tool req p)
    (\<lambda>c t. c = Perform \<and> request_wf owner digest req t
       \<and> request_view (owner, digest, req) t = Busy (session, tool, p)) (\<lambda>_ _. False) s"
proof -
  let ?sc = "scope_for owner digest session" and ?k = "(owner, digest, req)"
  let ?I = "\<lambda>t. request_wf owner digest req t \<and> dir_get (lg_receipts t) ?k = None"
  have del: "?I (s\<lparr>lg_writes := n, lg_receipts := dir_del k (lg_receipts s)\<rparr>)" for k n
    using s none shard_size_del [of owner digest k s]
    by (simp add: request_wf_def shard_size_def)
  have prune: "wp (if c then prune_one_owner_receipt h ?sc else ret ()) (\<lambda>_. ?I) (\<lambda>_ _. False) s" for c
  proof -
    have "wp (prune_one_owner_receipt h ?sc) (\<lambda>_. ?I) (\<lambda>_ t. \<not> reliable h \<and> ?I t) s"
    proof (rule wp_prune)
      have "lg_legacy_receipts s = []" using s by (simp add: request_wf_def)
      then have "s\<lparr>lg_writes := n, lg_legacy_receipts := dir_del j (lg_legacy_receipts s)\<rparr> = s\<lparr>lg_writes := n\<rparr>" for n j
        by (simp add: dir_del_def)
      then show "?I (s\<lparr>lg_writes := n, lg_legacy_receipts := dir_del j (lg_legacy_receipts s)\<rparr>)" for n j
        using s none by simp
      show "distinct (map fst (lg_receipts s))" using s by (simp add: request_wf_def)
    qed (use s none del in simp_all)
    then show ?thesis using s none reliable by (auto simp: wp elim!: wp_mono)
  qed
  have put: "wp (put_receipt h ?k (pending_receipt ?sc tool req p now)) (\<lambda>_. wp (ret Perform)
        (\<lambda>c t. c = Perform \<and> request_wf owner digest req t \<and> request_view ?k t = Busy (session, tool, p))
        (\<lambda>_ _. False)) (\<lambda>_ _. False) (u\<lparr>lg_clock := n\<rparr>)" if "?I u" for u now n
    using that reliable unfolding put_receipt_def wp_map_err
    by (intro wp_durable_reliable)
       (auto simp: wp_ret request_wf_def receipt_fits_def request_view_def receipt_caller_def
          pending_receipt_def scope_for_def)
  have room: "length (filter (\<lambda>(o', d, _). o' = sc_owner_id ?sc \<and> d = sc_workspace_digest ?sc) (map fst (lg_receipts u)))
      < MAX_IDEMPOTENCY_RECEIPTS_PER_OWNER" "req \<notin> set (lg_tombstones u)" if "?I u" for u
    using that by (auto simp: request_wf_def shard_size_def scope_for_def)
  show ?thesis
    unfolding claim_idempotency_def wp_bindE wp_lift path sum.case wp_thenE
      wp_adopt_none [OF s [unfolded request_wf_def, THEN conjunct1] name] wp_gets
    by (rule wp_mono [OF prune])
       (use room in \<open>auto simp: wp_if wp_bindE wp_gets wp_now_op wp_thenE not_le [symmetric] intro!: put\<close>)
qed

lemma claim_step:
  assumes s: "request_wf owner digest req s" and run: "claim_request h owner digest req c s = (r, t)"
  shows "request_wf owner digest req t
    \<and> spec_claim c (request_view (owner, digest, req) s) = (r, request_view (owner, digest, req) t)"
proof -
  obtain session tool p where c: "c = (session, tool, p)" by (cases c)
  let ?m = "claim_idempotency h (scope_for owner digest session) tool req p"
  have run: "coded (?m s) = (r, t)" using run c by (simp add: claim_request_def)
  show ?thesis
  proof (cases "dir_get (lg_receipts s) (owner, digest, req)")
    case None
    have "wp ?m (\<lambda>x t. Inr x = Inr Perform \<and> request_wf owner digest req t
         \<and> request_view (owner, digest, req) t = Busy c)
       (\<lambda>e t. Inl (err_code e) = Inr Perform \<and> request_wf owner digest req t
         \<and> request_view (owner, digest, req) t = Busy c) s"
      using wp_claim_fresh [OF s None] c by (auto elim: wp_mono)
    from wp_coded [OF this run] None show ?thesis by (simp add: request_view_def)
  next
    case (Some x)
    have "receipt_fits owner digest req x" using s Some by (simp add: request_wf_def)
    then show ?thesis
      using run claim_known [OF s Some] s Some c
      by (auto simp: coded_def request_view_def replay_of_def receipt_outcome_def orch_error_new_def
            receipt_fits_def split: if_splits)
  qed
qed

lemma wp_finish:
  assumes s: "request_wf owner digest req s"
    and out: "out = (if status = ''complete'' then Inr resp else Inl (the err))"
    and status: "status = ''complete'' \<and> err = None \<or> status = ''failed'' \<and> err \<noteq> None"
  shows "wp (finish_idempotency h (scope_for owner digest session) tool req p None resp err status)
    (\<lambda>_ t. request_wf owner digest req t \<and> spec_finish (session, tool, p) out
        (request_view (owner, digest, req) s) = (Inr (), request_view (owner, digest, req) t))
    (\<lambda>e t. request_wf owner digest req t \<and> spec_finish (session, tool, p) out
        (request_view (owner, digest, req) s) = (Inl (err_code e), request_view (owner, digest, req) t)) s"
proof (cases "dir_get (lg_receipts s) (owner, digest, req)")
  case None
  then show ?thesis using s by (simp add: finish_idempotency_def path wp request_view_def orch_error_new_def)
next
  case (Some x)
  have fits: "receipt_fits owner digest req x" using s Some by (simp add: request_wf_def)
  let ?new = "\<lparr>ir_schema_version = IDEMPOTENCY_RECEIPT_SCHEMA_VERSION, ir_owner_id = owner,
      ir_session_id = session, ir_workspace_digest = digest, ir_request_id = req, ir_payload_hash = p,
      ir_run_id = None, ir_tool = tool, ir_response = resp, ir_error = err,
      ir_created_at = ir_created_at x, ir_status = status, ir_cleanup_plan_digest = ir_cleanup_plan_digest x\<rparr>"
  have put: "wp (put_receipt h (owner, digest, req) ?new)
      (\<lambda>_ t. request_wf owner digest req t \<and> request_view (owner, digest, req) t = Finished (session, tool, p) out)
      (\<lambda>_ _. False) s"
    using s out status reliable unfolding put_receipt_def wp_map_err
    by (intro wp_durable_reliable)
       (auto simp: request_wf_def receipt_fits_def request_view_def receipt_caller_def receipt_outcome_def)
  have sc: "sc_owner_id (scope_for owner digest session) = owner"
    "sc_session_id (scope_for owner digest session) = session"
    "sc_workspace_digest (scope_for owner digest session) = digest"
    by (simp_all add: scope_for_def)
  consider (other) "receipt_caller x \<noteq> (session, tool, p)"
    | (busy) "receipt_caller x = (session, tool, p)" "ir_status x = ''pending''"
    | (over) "receipt_caller x = (session, tool, p)" "ir_status x \<noteq> ''pending''" by blast
  then show ?thesis
  proof cases
    case other
    then show ?thesis
      using s Some same_request_caller [OF fits]
      by (auto simp: finish_idempotency_def path wp request_view_def orch_error_new_def)
  next
    case busy
    then show ?thesis
      using s Some same_request_caller [OF fits]
      by (auto simp: finish_idempotency_def path wp request_view_def sc intro!: wp_mono [OF put])
  next
    case over
    then show ?thesis
      using s Some same_request_caller [OF fits] fits out status
      by (auto simp: finish_idempotency_def path wp request_view_def orch_error_new_def is_ok_def
            receipt_outcome_def receipt_fits_def split: option.splits)
  qed
qed

lemma finish_step:
  assumes s: "request_wf owner digest req s" and run: "finish_request h owner digest req c out s = (r, t)"
  shows "request_wf owner digest req t
    \<and> spec_finish c out (request_view (owner, digest, req) s) = (r, request_view (owner, digest, req) t)"
proof -
  obtain session tool p where c: "c = (session, tool, p)" by (cases c)
  let ?sc = "scope_for owner digest session"
  let ?Q = "\<lambda>r t. request_wf owner digest req t
    \<and> spec_finish c out (request_view (owner, digest, req) s) = (r, request_view (owner, digest, req) t)"
  show ?thesis
  proof (cases out)
    case (Inr resp)
    have "wp (complete_idempotency h ?sc tool req p None resp) (\<lambda>x. ?Q (Inr x)) (\<lambda>e. ?Q (Inl (err_code e))) s"
      using wp_finish [OF s, of out "''complete''" resp None session tool p] Inr c
      by (simp add: complete_idempotency_def)
    from wp_coded [OF this] show ?thesis using run Inr c by (simp add: finish_request_def)
  next
    case (Inl e)
    have "wp (fail_idempotency h ?sc tool req p None e) (\<lambda>x. ?Q (Inr x)) (\<lambda>e. ?Q (Inl (err_code e))) s"
      using wp_finish [OF s, of out "''failed''" R_Null "Some e" session tool p] Inl c
      by (simp add: fail_idempotency_def)
    from wp_coded [OF this] show ?thesis using run Inl c by (simp add: finish_request_def)
  qed
qed

end

sublocale reliable_request \<subseteq> once: request_book "request_view (owner, digest, req)"
  "request_wf owner digest req" "claim_request h owner digest req" "finish_request h owner digest req"
  by unfold_locales (use claim_step finish_step in blast)+

context reliable_request
begin

lemmas request_once = once.performed_once

end

end
