(* ===== verification/Ledger_Part.thy ===== *)
theory Ledger_Part
  imports Ledger_Store
begin

section \<open>Parts of the store beside the work ledger\<close>

text \<open>
  \<open>OrchStore\<close> keeps messages and routines beside the work ledger, under the same lock, with
  the same writer and the same host. A component's state is a record that holds the ledger
  in one field; \<open>part_op\<close> runs an operation of the ledger there, and \<open>part_durable\<close> is a durable
  write of the component's own files. The locale \<open>ledger_part\<close> states what the proofs need of
  the field.
\<close>

definition part_op ::
  "('s \<Rightarrow> ledger) \<Rightarrow> ((ledger \<Rightarrow> ledger) \<Rightarrow> 's \<Rightarrow> 's) \<Rightarrow> (ledger, 'e, 'a) op \<Rightarrow> ('s, 'e, 'a) op" where
  "part_op part upd m = (\<lambda>s. case m (part s) of (r, l) \<Rightarrow> (r, upd (\<lambda>_. l) s))"

definition count_write_in :: "((ledger \<Rightarrow> ledger) \<Rightarrow> 's \<Rightarrow> 's) \<Rightarrow> 's \<Rightarrow> 's" where
  "count_write_in upd = upd (\<lambda>l. l\<lparr>lg_writes := Suc (lg_writes l)\<rparr>)"

definition part_durable ::
  "('s \<Rightarrow> ledger) \<Rightarrow> ((ledger \<Rightarrow> ledger) \<Rightarrow> 's \<Rightarrow> 's) \<Rightarrow> host \<Rightarrow> ('s \<Rightarrow> 's) \<Rightarrow> ('s, orch_error, unit) op" where
  "part_durable part upd h f = (\<lambda>s.
     case durable_outcome h (lg_writes (part s)) of
       Written \<Rightarrow> (Inr (), f (count_write_in upd s))
     | NotWritten \<Rightarrow> (Inl (orch_error_new Internal (io_error h)), count_write_in upd s)
     | WrittenUnsynced \<Rightarrow> (Inl (orch_error_new Internal (io_error h)), f (count_write_in upd s)))"

definition writes_reliably :: "host \<Rightarrow> bool" where
  "writes_reliably h \<longleftrightarrow> (\<forall>n. durable_outcome h n = Written)"

lemma not_reliable: "durable_outcome h n \<noteq> Written \<Longrightarrow> \<not> writes_reliably h"
  by (auto simp: writes_reliably_def)

lemma wp_part_durable:
  assumes "Q () (f (count_write_in upd s))"
    and "\<And>e. \<not> writes_reliably h \<Longrightarrow> E e (count_write_in upd s)"
    and "\<And>e. \<not> writes_reliably h \<Longrightarrow> E e (f (count_write_in upd s))"
  shows "wp (part_durable part upd h f) Q E s"
  using assms not_reliable [of h "lg_writes (part s)"]
  by (cases "durable_outcome h (lg_writes (part s))") (simp_all add: wp_def part_durable_def)

lemma wp_part_op [wp]:
  "wp (part_op part upd m) Q E s = wp m (\<lambda>x l. Q x (upd (\<lambda>_. l) s)) (\<lambda>e l. E e (upd (\<lambda>_. l) s)) (part s)"
  by (auto simp: wp_def part_op_def split: prod.splits sum.splits)

locale ledger_part =
  fixes part :: "'s \<Rightarrow> ledger" and upd :: "(ledger \<Rightarrow> ledger) \<Rightarrow> 's \<Rightarrow> 's"
  assumes part_upd: "part (upd f s) = f (part s)"
    and upd_upd: "upd f (upd g s) = upd (\<lambda>l. f (g l)) s"
    and upd_same: "upd (\<lambda>_. part s) s = s"
begin

lemma part_op_reads:
  assumes "\<And>l. \<exists>r. m l = (r, l)"
  shows "\<exists>r. part_op part upd m s = (r, s)"
proof -
  obtain r where "m (part s) = (r, part s)" using assms by blast
  then show ?thesis by (simp add: part_op_def upd_same)
qed

lemma writes_counted: "lg_writes (part (count_write_in upd s)) = Suc (lg_writes (part s))"
  by (simp add: count_write_in_def part_upd)

end

end
