(* ===== verification/Json_Bounds.thy ===== *)
theory Json_Bounds
  imports Workload
begin

section \<open>JSON values and caller bounds\<close>

text \<open>
  \<open>serde_json::Value\<close> as the sources use it, and \<open>merge_bounds\<close> of \<^verbatim>\<open>orchestration/types.rs\<close>: a
  caller may narrow the limits of a run but not widen them. An object is its list of entries
  with distinct keys; \<open>as_u64\<close> reads a non-negative integer of 64 bits. Widths of the bounds are
  written out: \<open>usize\<close> and \<open>u64\<close> are 64 bits, \<open>u32\<close> is 32.
\<close>

datatype json =
    J_Null | J_Bool bool | J_Int int | J_Float string | J_String string
  | J_Array "json list" | J_Object "(string \<times> json) list"

fun as_u64 :: "json \<Rightarrow> nat option" where
  "as_u64 (J_Int n) = (if 0 \<le> n \<and> n < 2 ^ 64 then Some (nat n) else None)"
| "as_u64 _ = None"

definition positive_usize :: "json \<Rightarrow> string \<Rightarrow> nat result" where
  "positive_usize v key =
     (case as_u64 v of
        None \<Rightarrow> Inl (invalid (key @ '' must be a positive integer''))
      | Some n \<Rightarrow> if n = 0 \<or> n > 2 ^ 64 - 1 then Inl (invalid (key @ '' must be > 0 and within range''))
                  else Inr n)"

definition positive_u32 :: "json \<Rightarrow> string \<Rightarrow> nat result" where
  "positive_u32 v key =
     (case as_u64 v of
        None \<Rightarrow> Inl (invalid (key @ '' must be a positive integer''))
      | Some n \<Rightarrow> if n = 0 \<or> n > 2 ^ 32 - 1 then Inl (invalid (key @ '' must be > 0 and within range''))
                  else Inr n)"

definition positive_u64 :: "json \<Rightarrow> string \<Rightarrow> nat result" where
  "positive_u64 v key =
     (case as_u64 v of
        None \<Rightarrow> Inl (invalid (key @ '' must be a positive integer''))
      | Some n \<Rightarrow> if n = 0 then Inl (invalid (key @ '' must be > 0'')) else Inr n)"

text \<open>\<open>read_bound_usize\<close>, \<open>read_bound_u32\<close> and \<open>read_bound_u64\<close>: the first key that is present decides.\<close>

fun read_bound :: "(json \<Rightarrow> string \<Rightarrow> nat result) \<Rightarrow> (string \<times> json) list \<Rightarrow> string list \<Rightarrow> nat option result" where
  "read_bound positive entries [] = Inr None"
| "read_bound positive entries (k # ks) =
     (case map_of entries k of
        Some v \<Rightarrow> rbind (positive v k) (\<lambda>n. Inr (Some n))
      | None \<Rightarrow> read_bound positive entries ks)"

definition bound_keys :: "string list" where
  "bound_keys =
     [''maxPromptBytes'', ''max_prompt_bytes'', ''maxRounds'', ''max_rounds'', ''maxDurationMs'',
      ''max_duration_ms'', ''maxTotalTokens'', ''max_total_tokens'']"

definition merge_tokens :: "nat option \<Rightarrow> nat option \<Rightarrow> nat option result" where
  "merge_tokens ceiling requested =
     (case (ceiling, requested) of
        (Some server_ceiling, Some r) \<Rightarrow>
          if r > server_ceiling then Inl (invalid ''max_total_tokens exceeds server ceiling'')
          else Inr (Some (min r server_ceiling))
      | (Some server_ceiling, None) \<Rightarrow> Inr (Some server_ceiling)
      | (None, r) \<Rightarrow> Inr r)"

definition merge_bounds :: "run_bounds \<Rightarrow> json option \<Rightarrow> run_bounds result" where
  "merge_bounds ceiling caller =
     (case caller of
        None \<Rightarrow> rbind (run_bounds_validate ceiling) (\<lambda>_. Inr ceiling)
      | Some (J_Object entries) \<Rightarrow>
          (case find (\<lambda>k. k \<notin> set bound_keys) (map fst entries) of
             Some key \<Rightarrow> Inl (invalid (''unknown bounds field '' @ key))
           | None \<Rightarrow>
               rbind (read_bound positive_usize entries [''maxPromptBytes'', ''max_prompt_bytes'']) (\<lambda>p.
               rbind (read_bound positive_u32 entries [''maxRounds'', ''max_rounds'']) (\<lambda>r.
               rbind (read_bound positive_u64 entries [''maxDurationMs'', ''max_duration_ms'']) (\<lambda>d.
               rbind (read_bound positive_u64 entries [''maxTotalTokens'', ''max_total_tokens'']) (\<lambda>t.
               rbind (merge_tokens (rb_max_total_tokens ceiling) t) (\<lambda>max_total_tokens.
               let max_prompt_bytes = (case p of Some n \<Rightarrow> n | None \<Rightarrow> rb_max_prompt_bytes ceiling);
                   max_rounds = (case r of Some n \<Rightarrow> n | None \<Rightarrow> rb_max_rounds ceiling);
                   max_duration_ms = (case d of Some n \<Rightarrow> n | None \<Rightarrow> rb_max_duration_ms ceiling);
                   merged = \<lparr>rb_max_prompt_bytes = max_prompt_bytes, rb_max_rounds = max_rounds,
                             rb_max_duration_ms = max_duration_ms, rb_max_total_tokens = max_total_tokens\<rparr>
               in rbind (first_err
                    [reject (max_prompt_bytes > rb_max_prompt_bytes ceiling)
                       (invalid ''max_prompt_bytes exceeds server ceiling''),
                     reject (max_rounds > rb_max_rounds ceiling)
                       (invalid ''max_rounds exceeds server ceiling''),
                     reject (max_duration_ms > rb_max_duration_ms ceiling)
                       (invalid ''max_duration_ms exceeds server ceiling''),
                     run_bounds_validate merged])
                  (\<lambda>_. Inr merged)))))))
      | Some _ \<Rightarrow> Inl (invalid ''bounds must be an object''))"

text \<open>\<open>RunBounds\<close> as \<open>serde_json::to_value\<close> writes it: an absent token limit is left out.\<close>

definition bounds_value :: "run_bounds \<Rightarrow> json" where
  "bounds_value b =
     J_Object ([(''maxPromptBytes'', J_Int (int (rb_max_prompt_bytes b))),
                (''maxRounds'', J_Int (int (rb_max_rounds b))),
                (''maxDurationMs'', J_Int (int (rb_max_duration_ms b)))]
               @ (case rb_max_total_tokens b of
                    None \<Rightarrow> []
                  | Some t \<Rightarrow> [(''maxTotalTokens'', J_Int (int t))]))"

definition run_bounds_default :: run_bounds where
  "run_bounds_default =
     \<lparr>rb_max_prompt_bytes = 100000, rb_max_rounds = 24, rb_max_duration_ms = 15 * 60 * 1000,
      rb_max_total_tokens = None\<rparr>"

definition token_limit_within :: "nat option \<Rightarrow> nat option \<Rightarrow> bool" where
  "token_limit_within t ceiling = is_none_or ceiling (\<lambda>c. is_some_and t (\<lambda>n. n \<le> c))"

definition bounds_within :: "run_bounds \<Rightarrow> run_bounds \<Rightarrow> bool" where
  "bounds_within b ceiling \<longleftrightarrow>
     rb_max_prompt_bytes b \<le> rb_max_prompt_bytes ceiling \<and> rb_max_rounds b \<le> rb_max_rounds ceiling
     \<and> rb_max_duration_ms b \<le> rb_max_duration_ms ceiling
     \<and> token_limit_within (rb_max_total_tokens b) (rb_max_total_tokens ceiling)"

lemma merge_tokens_within: "merge_tokens c r = Inr t \<Longrightarrow> token_limit_within t c"
  by (auto simp: merge_tokens_def token_limit_within_def split: option.splits if_splits)

lemma merge_bounds_within:
  assumes "merge_bounds ceiling caller = Inr b"
  shows "bounds_within b ceiling \<and> run_bounds_validate b = Inr ()"
proof (cases caller)
  case None
  then show ?thesis
    using assms by (auto simp: merge_bounds_def rbind_ok bounds_within_def token_limit_within_def is_none_or_def split: option.splits)
next
  case (Some v)
  then obtain entries where v: "v = J_Object entries" using assms by (cases v) (auto simp: merge_bounds_def)
  obtain t where "merge_tokens (rb_max_total_tokens ceiling) t = Inr (rb_max_total_tokens b)"
    and ok: "rb_max_prompt_bytes b \<le> rb_max_prompt_bytes ceiling" "rb_max_rounds b \<le> rb_max_rounds ceiling"
      "rb_max_duration_ms b \<le> rb_max_duration_ms ceiling" "run_bounds_validate b = Inr ()"
    using assms Some v
    by (auto simp: merge_bounds_def rbind_ok Let_def not_less simp del: read_bound.simps split: option.split_asm)
  then show ?thesis using merge_tokens_within by (simp add: bounds_within_def)
qed

text \<open>Bounds that fit their machine integers and are positive.\<close>

definition bounds_fit :: "run_bounds \<Rightarrow> bool" where
  "bounds_fit b \<longleftrightarrow>
     rb_max_prompt_bytes b \<in> {1 ..< 2 ^ 64} \<and> rb_max_rounds b \<in> {1 ..< 2 ^ 32}
     \<and> rb_max_duration_ms b \<in> {1 ..< 2 ^ 64}
     \<and> is_none_or (rb_max_total_tokens b) (\<lambda>t. t \<in> {1 ..< 2 ^ 64})"

lemma merge_own_bounds:
  assumes fit: "bounds_fit b"
    and ceiling: "rb_max_prompt_bytes b \<le> rb_max_prompt_bytes ceiling" "rb_max_rounds b \<le> rb_max_rounds ceiling"
      "rb_max_duration_ms b \<le> rb_max_duration_ms ceiling"
    and tokens: "merge_tokens (rb_max_total_tokens ceiling) (rb_max_total_tokens b) = Inr t"
    and ok: "run_bounds_validate (b\<lparr>rb_max_total_tokens := t\<rparr>) = Inr ()"
  shows "merge_bounds ceiling (Some (bounds_value b)) = Inr (b\<lparr>rb_max_total_tokens := t\<rparr>)"
proof -
  obtain entries where e: "bounds_value b = J_Object entries" "set (map fst entries) \<subseteq> set bound_keys"
    "map_of entries ''maxPromptBytes'' = Some (J_Int (int (rb_max_prompt_bytes b)))"
    "map_of entries ''maxRounds'' = Some (J_Int (int (rb_max_rounds b)))"
    "map_of entries ''maxDurationMs'' = Some (J_Int (int (rb_max_duration_ms b)))"
    "map_of entries ''maxTotalTokens'' = map_option (\<lambda>t. J_Int (int t)) (rb_max_total_tokens b)"
    "map_of entries ''max_total_tokens'' = None"
    by (cases "rb_max_total_tokens b") (simp_all add: bounds_value_def bound_keys_def)
  have "find (\<lambda>k. k \<notin> set bound_keys) (map fst entries) = None"
    using e(2) by (auto simp: find_None_iff)
  moreover have "read_bound positive_usize entries [''maxPromptBytes'', ''max_prompt_bytes''] = Inr (Some (rb_max_prompt_bytes b))"
    "read_bound positive_u32 entries [''maxRounds'', ''max_rounds''] = Inr (Some (rb_max_rounds b))"
    "read_bound positive_u64 entries [''maxDurationMs'', ''max_duration_ms''] = Inr (Some (rb_max_duration_ms b))"
    "read_bound positive_u64 entries [''maxTotalTokens'', ''max_total_tokens''] = Inr (rb_max_total_tokens b)"
    using fit e(3-)
    by (auto simp: bounds_fit_def positive_usize_def positive_u32_def positive_u64_def rbind_def split: option.splits)
  ultimately show ?thesis
    using ceiling tokens ok unfolding merge_bounds_def e(1)
    by (cases b) (simp add: rbind_def first_err.simps reject_def Let_def)
qed

text \<open>
  A caller may only narrow. Bounds that come out of \<open>merge_bounds\<close> are valid and within the
  ceiling in every dimension, and a caller that sends bounds within the ceiling gets exactly
  those, with the ceiling's token limit when it names none.
\<close>

theorem merge_bounds_narrows:
  "(merge_bounds ceiling caller = Inr b \<longrightarrow> bounds_within b ceiling \<and> run_bounds_validate b = Inr ())
   \<and> (bounds_fit r \<and> bounds_fit ceiling \<and> bounds_within (r\<lparr>rb_max_total_tokens := t\<rparr>) ceiling
      \<and> t = (case rb_max_total_tokens r of None \<Rightarrow> rb_max_total_tokens ceiling | Some n \<Rightarrow> Some n)
      \<longrightarrow> merge_bounds ceiling (Some (bounds_value r)) = Inr (r\<lparr>rb_max_total_tokens := t\<rparr>))"
proof (intro conjI impI; (elim conjE)?)
  show "merge_bounds ceiling caller = Inr b \<Longrightarrow> bounds_within b ceiling" 
    "merge_bounds ceiling caller = Inr b \<Longrightarrow> run_bounds_validate b = Inr ()"
    using merge_bounds_within by blast+
  assume r: "bounds_fit r" "bounds_fit ceiling" "bounds_within (r\<lparr>rb_max_total_tokens := t\<rparr>) ceiling"
    and t: "t = (case rb_max_total_tokens r of None \<Rightarrow> rb_max_total_tokens ceiling | Some n \<Rightarrow> Some n)"
  have "merge_tokens (rb_max_total_tokens ceiling) (rb_max_total_tokens r) = Inr t"
    using r(3) t
    by (auto simp: merge_tokens_def bounds_within_def token_limit_within_def split: option.splits)
  moreover have "run_bounds_validate (r\<lparr>rb_max_total_tokens := t\<rparr>) = Inr ()"
    using r(1,2) t by (auto simp: run_bounds_validate_def bounds_fit_def split: option.splits)
  ultimately show "merge_bounds ceiling (Some (bounds_value r)) = Inr (r\<lparr>rb_max_total_tokens := t\<rparr>)"
    using merge_own_bounds [OF r(1)] r(3) by (simp add: bounds_within_def)
qed

theorem merge_bounds_narrows_witness:
  "merge_bounds run_bounds_default (Some (bounds_value (run_bounds_default\<lparr>rb_max_rounds := 3\<rparr>)))
     = Inr (run_bounds_default\<lparr>rb_max_rounds := 3\<rparr>)
   \<and> bounds_within (run_bounds_default\<lparr>rb_max_rounds := 3\<rparr>) run_bounds_default"
  using merge_bounds_narrows [of run_bounds_default "Some (bounds_value (run_bounds_default\<lparr>rb_max_rounds := 3\<rparr>))"
      "run_bounds_default\<lparr>rb_max_rounds := 3\<rparr>" "run_bounds_default\<lparr>rb_max_rounds := 3\<rparr>" None]
  by (simp add: run_bounds_default_def bounds_fit_def bounds_within_def token_limit_within_def)

end
