(* ===== verification/Messages.thy ===== *)
theory Messages
  imports Work_Decisions Ledger_Part Json_Bounds
begin

section \<open>Messages between coordinators and workers\<close>

text \<open>
  \<^verbatim>\<open>orchestration/message.rs\<close> and the message methods of \<^verbatim>\<open>orchestration/store.rs\<close>: typed
  messages of a lane, numbered by one sequence for the whole store, acknowledged once,
  listed by cursor, and retained up to a bound. The record \<open>mail_store\<close> is the ledger with the
  directory of messages and the text file that holds the last sequence number.

  Two things the code takes from outside are fields of \<open>mail_env\<close> beside the host: the length
  of a JSON text as the serializer prints it, and what a failing plain file write leaves
  behind. The sequence file is written in place: the n-th write of the store can truncate the
  file and stop after some bytes, and \<open>me_text_cut\<close> says how many.
\<close>

subsection \<open>Payloads\<close>

record mail_env =
  me_host :: host
  me_json_len :: "json \<Rightarrow> nat"
  me_text_cut :: "nat \<Rightarrow> nat option"

definition MESSAGE_SCHEMA_VERSION :: nat where "MESSAGE_SCHEMA_VERSION = 1"
definition MAX_MESSAGE_BODY_BYTES :: nat where "MAX_MESSAGE_BODY_BYTES = 8 * 1024"
definition MAX_MESSAGE_PAYLOAD_BYTES :: nat where "MAX_MESSAGE_PAYLOAD_BYTES = 8 * 1024"
definition MAX_MESSAGE_ACTOR_BYTES :: nat where "MAX_MESSAGE_ACTOR_BYTES = 256"
definition DEFAULT_QUESTION_TTL_MS :: nat where "DEFAULT_QUESTION_TTL_MS = 15 * 60 * 1000"
definition MAX_RETAINED_MESSAGES :: nat where "MAX_RETAINED_MESSAGES = 500"

definition secret_key :: "string \<Rightarrow> bool" where
  "secret_key key =
     (map to_ascii_lower key \<in>
        {''token'', ''password'', ''secret'', ''authorization'', ''api_key'', ''apikey'', ''bearer''})"

fun redact_value :: "json \<Rightarrow> json" where
  "redact_value (J_Object kvs) =
     J_Object (map (\<lambda>(key, child).
       (key, if secret_key key then J_String ''[redacted]'' else redact_value child)) kvs)"
| "redact_value (J_Array items) = J_Array (map redact_value items)"
| "redact_value other = other"

definition redact_message_payload :: "mail_env \<Rightarrow> json option \<Rightarrow> json option result" where
  "redact_message_payload env payload =
     (case payload of
        None \<Rightarrow> Inr None
      | Some p \<Rightarrow>
          if me_json_len env p > MAX_MESSAGE_PAYLOAD_BYTES
          then Inl (invalid ''message payload exceeds 8192 bytes'')
          else Inr (Some (redact_value p)))"

subsection \<open>The message record\<close>

datatype message_kind =
    MK_Status | MK_Question | MK_Answer | MK_Instruction | MK_Handoff
  | MK_ReviewRequest | MK_ReviewResult | MK_Informational

fun message_kind_str :: "message_kind \<Rightarrow> string" where
  "message_kind_str MK_Status = ''status''"
| "message_kind_str MK_Question = ''question''"
| "message_kind_str MK_Answer = ''answer''"
| "message_kind_str MK_Instruction = ''instruction''"
| "message_kind_str MK_Handoff = ''handoff''"
| "message_kind_str MK_ReviewRequest = ''review_request''"
| "message_kind_str MK_ReviewResult = ''review_result''"
| "message_kind_str MK_Informational = ''informational''"

fun default_ttl_ms :: "message_kind \<Rightarrow> nat option" where
  "default_ttl_ms MK_Question = Some DEFAULT_QUESTION_TTL_MS"
| "default_ttl_ms _ = None"

record work_message =
  wm_schema_version :: nat
  wm_message_id :: string
  wm_seq :: u64
  wm_kind :: message_kind
  wm_from_actor :: string
  wm_from_agent_id :: "string option"
  wm_to_agent_id :: "string option"
  wm_session_id :: uuid
  wm_workspace :: string
  wm_work_id :: "string option"
  wm_attempt_id :: "string option"
  wm_run_id :: "string option"
  wm_reply_to_id :: "string option"
  wm_thread_id :: "string option"
  wm_body :: string
  wm_payload :: "json option"
  wm_expires_at :: "time option"
  wm_acked_at :: "time option"
  wm_acked_by :: "string option"
  wm_created_at :: time

definition message_text_ok :: "string \<Rightarrow> nat \<Rightarrow> string \<Rightarrow> unit result" where
  "message_text_ok value max_bytes field =
     reject (value = [] \<or> length value > max_bytes \<or> NUL \<in> set value)
       (invalid (field @ '' is empty or exceeds its bound''))"

definition message_validate :: "mail_env \<Rightarrow> work_message \<Rightarrow> unit result" where
  "message_validate env m =
     first_err
       [reject (wm_schema_version m \<noteq> MESSAGE_SCHEMA_VERSION \<or> (wm_seq m = 0 \<and> wm_message_id m = []))
          (invalid ''message schema is invalid''),
        message_text_ok (wm_message_id m) MAX_MESSAGE_ACTOR_BYTES ''message_id'',
        message_text_ok (wm_from_actor m) MAX_MESSAGE_ACTOR_BYTES ''from_actor'',
        message_text_ok (wm_workspace m) (MAX_MESSAGE_ACTOR_BYTES * 4) ''workspace'',
        message_text_ok (wm_body m) MAX_MESSAGE_BODY_BYTES ''body'',
        on_some (wm_payload m) (\<lambda>p.
          reject (me_json_len env p > MAX_MESSAGE_PAYLOAD_BYTES)
            (invalid ''message payload exceeds 8192 bytes''))]"

definition message_expired_at :: "work_message \<Rightarrow> time \<Rightarrow> bool" where
  "message_expired_at m now = is_some_and (wm_expires_at m) (\<lambda>expires. expires < now)"

text \<open>The identifier of a new message is the host's next one, passed as \<open>message_id\<close>.\<close>

definition message_new ::
  "mail_env \<Rightarrow> string \<Rightarrow> message_kind \<Rightarrow> string \<Rightarrow> string option \<Rightarrow> string option \<Rightarrow> uuid \<Rightarrow> string
     \<Rightarrow> string option \<Rightarrow> string \<Rightarrow> json option \<Rightarrow> time \<Rightarrow> work_message result" where
  "message_new env message_id kind from_actor from_agent_id to_agent_id session_id workspace
       work_id body payload now =
     rbind (redact_message_payload env payload) (\<lambda>payload'.
     let message =
       \<lparr>wm_schema_version = MESSAGE_SCHEMA_VERSION, wm_message_id = message_id, wm_seq = 0,
        wm_kind = kind, wm_from_actor = from_actor, wm_from_agent_id = from_agent_id,
        wm_to_agent_id = to_agent_id, wm_session_id = session_id, wm_workspace = workspace,
        wm_work_id = work_id, wm_attempt_id = None, wm_run_id = None, wm_reply_to_id = None,
        wm_thread_id = None, wm_body = body, wm_payload = payload',
        wm_expires_at = map_option (\<lambda>ms. now + milliseconds ms) (default_ttl_ms kind),
        wm_acked_at = None, wm_acked_by = None, wm_created_at = now\<rparr>
     in rbind (message_validate env message) (\<lambda>_. Inr message))"

subsection \<open>The store's part\<close>

record mail_store =
  ml_ledger :: ledger
  ml_messages :: "(string, work_message) dir"
  ml_seq :: "string option"

type_synonym 'a mail_op = "(mail_store, orch_error, 'a) op"

abbreviation on_ledger :: "'a ledger_op \<Rightarrow> 'a mail_op" where
  "on_ledger \<equiv> part_op ml_ledger ml_ledger_update"

abbreviation count_write :: "mail_store \<Rightarrow> mail_store" where
  "count_write \<equiv> count_write_in ml_ledger_update"

text \<open>\<open>atomic_write_json\<close> and \<open>remove_file_durable\<close> on the directory of messages.\<close>

abbreviation mail_durable :: "mail_env \<Rightarrow> (mail_store \<Rightarrow> mail_store) \<Rightarrow> unit mail_op" where
  "mail_durable env \<equiv> part_durable ml_ledger ml_ledger_update (me_host env)"

interpretation mail: ledger_part ml_ledger ml_ledger_update
  by unfold_locales simp_all

text \<open>\<open>fs::write\<close> on the sequence file: not atomic.\<close>

definition write_seq :: "mail_env \<Rightarrow> string \<Rightarrow> unit mail_op" where
  "write_seq env t = (\<lambda>s.
     let n = lg_writes (ml_ledger s); failed = Inl (orch_error_new Internal (io_error (me_host env))) in
     case durable_outcome (me_host env) n of
       Written \<Rightarrow> (Inr (), (count_write s)\<lparr>ml_seq := Some t\<rparr>)
     | NotWritten \<Rightarrow>
         (failed, case me_text_cut env n of
                    None \<Rightarrow> count_write s
                  | Some k \<Rightarrow> (count_write s)\<lparr>ml_seq := Some (take k t)\<rparr>)
     | WrittenUnsynced \<Rightarrow> (failed, (count_write s)\<lparr>ml_seq := Some t\<rparr>))"

text \<open>\<open>str::parse::<u64>\<close>: an optional plus sign and decimal digits, within 64 bits.\<close>

definition digits_value :: "string \<Rightarrow> nat" where
  "digits_value = foldl (\<lambda>acc c. 10 * acc + (of_char c - 48)) 0"

definition parse_u64 :: "string \<Rightarrow> u64 option" where
  "parse_u64 t =
     (let digits = (case t of [] \<Rightarrow> [] | c # cs \<Rightarrow> if c = CHR ''+'' then cs else t) in
      if digits = [] \<or> \<not> list_all is_ascii_digit digits \<or> digits_value digits \<ge> 2 ^ 64 then None
      else Some (of_nat (digits_value digits)))"

definition current_seq :: "mail_store \<Rightarrow> u64" where
  "current_seq s =
     (case ml_seq s of
        None \<Rightarrow> 0
      | Some t \<Rightarrow> (case parse_u64 (trim t) of None \<Rightarrow> 0 | Some n \<Rightarrow> n))"

definition next_message_seq :: "mail_env \<Rightarrow> u64 mail_op" where
  "next_message_seq env =
     bindE (gets current_seq) (\<lambda>current.
     let next_seq = current + 1 in
     thenE (write_seq env (decimal (unat next_seq))) (ret next_seq))"

definition load_message :: "string \<Rightarrow> work_message option mail_op" where
  "load_message message_id =
     bindE (lift (safe_id_filename message_id)) (\<lambda>k. gets (\<lambda>s. dir_get (ml_messages s) k))"

definition put_message :: "mail_env \<Rightarrow> work_message \<Rightarrow> unit mail_op" where
  "put_message env m =
     bindE (lift (safe_id_filename (wm_message_id m))) (\<lambda>k.
       mail_durable env (\<lambda>s. s\<lparr>ml_messages := dir_put k m (ml_messages s)\<rparr>))"

definition remove_message :: "mail_env \<Rightarrow> work_message \<Rightarrow> unit mail_op" where
  "remove_message env m =
     bindE (lift (safe_id_filename (wm_message_id m))) (\<lambda>k s.
       (Inr (), snd (mail_durable env (\<lambda>s. s\<lparr>ml_messages := dir_del k (ml_messages s)\<rparr>) s)))"

definition prune_messages :: "mail_env \<Rightarrow> unit mail_op" where
  "prune_messages env =
     bindE (gets (\<lambda>s. dir_list (ml_messages s))) (\<lambda>messages.
       if length messages \<le> MAX_RETAINED_MESSAGES then ret ()
       else for_each (take (length messages - MAX_RETAINED_MESSAGES) (sort_key wm_seq messages))
              (remove_message env))"

definition require_optional_agent :: "mail_env \<Rightarrow> string option \<Rightarrow> uuid \<Rightarrow> string \<Rightarrow> unit mail_op" where
  "require_optional_agent env agent_id session_id workspace =
     (case agent_id of
        None \<Rightarrow> ret ()
      | Some a \<Rightarrow> bindE (on_ledger (require_agent_in_scope (me_host env) a session_id workspace))
                    (\<lambda>_. ret ()))"

definition send_message :: "mail_env \<Rightarrow> work_message \<Rightarrow> work_message mail_op" where
  "send_message env message =
     thenE (lift (message_validate env message))
     (thenE (require_optional_agent env (wm_from_agent_id message) (wm_session_id message) (wm_workspace message))
     (thenE (require_optional_agent env (wm_to_agent_id message) (wm_session_id message) (wm_workspace message))
     (bindE (next_message_seq env) (\<lambda>seq.
      let sent = message\<lparr>wm_seq := seq\<rparr> in
      thenE (put_message env sent) (thenE (prune_messages env) (ret sent))))))"

definition same_content :: "work_message \<Rightarrow> work_message \<Rightarrow> bool" where
  "same_content a b \<longleftrightarrow>
     wm_kind a = wm_kind b \<and> wm_from_actor a = wm_from_actor b \<and> wm_from_agent_id a = wm_from_agent_id b
     \<and> wm_to_agent_id a = wm_to_agent_id b \<and> wm_session_id a = wm_session_id b
     \<and> wm_workspace a = wm_workspace b \<and> wm_work_id a = wm_work_id b \<and> wm_attempt_id a = wm_attempt_id b
     \<and> wm_run_id a = wm_run_id b \<and> wm_reply_to_id a = wm_reply_to_id b \<and> wm_thread_id a = wm_thread_id b
     \<and> wm_body a = wm_body b \<and> wm_payload a = wm_payload b \<and> wm_expires_at a = wm_expires_at b"

definition send_message_once :: "mail_env \<Rightarrow> work_message \<Rightarrow> work_message mail_op" where
  "send_message_once env message =
     bindE (load_message (wm_message_id message)) (\<lambda>found.
       case found of
         None \<Rightarrow> send_message env message
       | Some existing \<Rightarrow>
           if \<not> same_content existing message
           then raise (orch_error_new Conflict ''stable message identity was replayed with different content'')
           else ret existing)"

definition ack_message_unlocked ::
  "mail_env \<Rightarrow> string \<Rightarrow> string \<Rightarrow> time \<Rightarrow> (uuid \<times> string) option \<Rightarrow> work_message mail_op" where
  "ack_message_unlocked env message_id actor_id now scope =
     bindE (load_message message_id) (\<lambda>found.
     bindE (some_or (orch_error_new InvalidRequest ''unknown message_id'') found) (\<lambda>message.
       if is_some_and scope (\<lambda>(session_id, workspace).
            wm_session_id message \<noteq> session_id
            \<or> \<not> workspaces_match (me_host env) (wm_workspace message) workspace)
       then raise (orch_error_new ForbiddenScope ''message is out of scope'')
       else if wm_acked_at message = None
       then
         let acked = message\<lparr>wm_acked_at := Some now, wm_acked_by := Some actor_id\<rparr> in
         bindE (lift (safe_id_filename message_id)) (\<lambda>k.
         thenE (mail_durable env (\<lambda>s. s\<lparr>ml_messages := dir_put k acked (ml_messages s)\<rparr>)) (ret acked))
       else ret message))"

definition ack_message :: "mail_env \<Rightarrow> string \<Rightarrow> string \<Rightarrow> time \<Rightarrow> work_message mail_op" where
  "ack_message env message_id actor_id now = ack_message_unlocked env message_id actor_id now None"

definition ack_message_scoped ::
  "mail_env \<Rightarrow> string \<Rightarrow> string \<Rightarrow> time \<Rightarrow> uuid \<Rightarrow> string \<Rightarrow> work_message mail_op" where
  "ack_message_scoped env message_id actor_id now session_id workspace =
     ack_message_unlocked env message_id actor_id now (Some (session_id, workspace))"

subsection \<open>Reading\<close>

record message_page =
  mp_messages :: "work_message list"
  mp_next_seq :: u64
  mp_retained_from_seq :: u64

definition in_lane ::
  "host \<Rightarrow> uuid \<Rightarrow> string \<Rightarrow> string option \<Rightarrow> string option \<Rightarrow> work_message \<Rightarrow> bool" where
  "in_lane h session_id workspace inbox_agent_id outbox_actor m \<longleftrightarrow>
     wm_session_id m = session_id \<and> workspaces_match h (wm_workspace m) workspace
     \<and> is_none_or inbox_agent_id (\<lambda>agent. wm_to_agent_id m = Some agent)
     \<and> is_none_or outbox_actor (\<lambda>actor. wm_from_actor m = actor \<or> wm_from_agent_id m = Some actor)"

definition retained_from :: "work_message list \<Rightarrow> u64" where
  "retained_from messages = (case messages of [] \<Rightarrow> 1 | m # _ \<Rightarrow> wm_seq m)"

definition last_seq_or :: "u64 \<Rightarrow> work_message list \<Rightarrow> u64" where
  "last_seq_or d messages = (if messages = [] then d else wm_seq (last messages))"

definition saturating_pred :: "u64 \<Rightarrow> u64" where
  "saturating_pred r = (if r = 0 then 0 else r - 1)"

definition list_messages ::
  "mail_env \<Rightarrow> uuid \<Rightarrow> string \<Rightarrow> u64 \<Rightarrow> string option \<Rightarrow> string option \<Rightarrow> nat \<Rightarrow> message_page mail_op" where
  "list_messages env session_id workspace after_seq inbox_agent_id outbox_actor limit =
     bindE (gets (\<lambda>s. dir_list (ml_messages s))) (\<lambda>all_messages.
     let lane = sort_key wm_seq
           (filter (in_lane (me_host env) session_id workspace inbox_agent_id outbox_actor) all_messages);
         retained_from_seq = retained_from lane
     in
     if after_seq > 0 \<and> after_seq < saturating_pred retained_from_seq \<and> lane \<noteq> []
     then raise (orch_error_new CursorExpired ''message cursor expired for the retained window'')
     else
       let page = take (max 1 (min limit 200)) (filter (\<lambda>m. wm_seq m > after_seq) lane) in
       ret \<lparr>mp_messages = page, mp_next_seq = last_seq_or after_seq page,
            mp_retained_from_seq = retained_from_seq\<rparr>)"

definition list_recent_messages ::
  "mail_env \<Rightarrow> uuid \<Rightarrow> string \<Rightarrow> string option \<Rightarrow> string option \<Rightarrow> nat \<Rightarrow> message_page mail_op" where
  "list_recent_messages env session_id workspace inbox_agent_id outbox_actor limit =
     bindE (gets (\<lambda>s. dir_list (ml_messages s))) (\<lambda>all_messages.
     let lane = sort_key wm_seq
           (filter (in_lane (me_host env) session_id workspace inbox_agent_id outbox_actor) all_messages);
         lim = max 1 (min limit MAX_RETAINED_MESSAGES);
         page = drop (length lane - lim) lane
     in ret \<lparr>mp_messages = page, mp_next_seq = last_seq_or 0 page,
             mp_retained_from_seq = retained_from lane\<rparr>)"

end
