(* ===== verification/Message_Contract.thy ===== *)
theory Message_Contract
  imports Messages
begin

section \<open>What the mailbox promises\<close>

text \<open>
  The invariant \<open>mail_ok\<close> of the mailbox: every message lies under its own id, no two
  share a sequence number, and the sequence file is at least as far as every number given
  out. It holds along every run in which the sequence file is not cut short, failed and
  unsynced writes included. On it rest the order of pages, the retention of the newest
  messages, and the theorem that a reader whose cursor is not refused has missed nothing.
\<close>

subsection \<open>The text of the sequence file\<close>

lemma decimal_digits: "list_all is_ascii_digit (decimal n)"
proof (induction n rule: decimal.induct)
  case (1 n)
  have d: "is_ascii_digit (char_of (48 + d))" if "d < 10" for d :: nat
    using that by (simp add: is_ascii_digit_def less_eq_char_def)
  show ?case
    using 1 d [of n] d [of "n mod 10"] by (subst decimal.simps) (auto simp: not_less)
qed

lemma decimal_nonempty [simp]: "decimal n \<noteq> []"
  by (subst decimal.simps) simp

lemma digits_value_append: "digits_value (xs @ [c]) = 10 * digits_value xs + (of_char c - 48)"
  by (simp add: digits_value_def)

lemma digits_value_decimal [simp]: "digits_value (decimal n) = n"
proof (induction n rule: decimal.induct)
  case (1 n)
  show ?case
  proof (cases "n < 10")
    case True
    then show ?thesis by (subst decimal.simps) (simp add: digits_value_def)
  next
    case False
    have "digits_value (decimal (n div 10) @ [char_of (48 + n mod 10)]) = 10 * (n div 10) + n mod 10"
      using 1 [OF False] by (simp add: digits_value_append)
    then show ?thesis using False by (subst decimal.simps) simp
  qed
qed

lemma strip_digits:
  assumes "list_all is_ascii_digit s" and "\<forall>w \<in> set ws. w \<noteq> [] \<and> \<not> is_ascii_digit (hd w)"
  shows "strip_seqs ws s = s"
proof -
  have "\<not> prefix w s" if "w \<in> set ws" for w
    using assms(1) assms(2) [rule_format, OF that] by (cases w; cases s) auto
  then have "find (\<lambda>w. w \<noteq> [] \<and> prefix w s) ws = None" by (auto simp: find_None_iff)
  then show ?thesis by (subst strip_seqs.simps) simp
qed

lemma trim_decimal [simp]: "trim (decimal n) = decimal n"
proof -
  have "\<forall>w \<in> set ws_seqs. w \<noteq> [] \<and> \<not> is_ascii_digit (hd w)"
    "\<forall>w \<in> set (map rev ws_seqs). w \<noteq> [] \<and> \<not> is_ascii_digit (hd w)"
    by (simp_all add: ws_seqs_def is_ascii_digit_def less_eq_char_def)
  moreover have "list_all is_ascii_digit (rev (decimal n))"
    using decimal_digits [of n] by (simp add: list_all_iff)
  ultimately have "strip_seqs ws_seqs (decimal n) = decimal n"
    "strip_seqs (map rev ws_seqs) (rev (decimal n)) = rev (decimal n)"
    using strip_digits decimal_digits by blast+
  then show ?thesis by (simp add: trim_def trim_start_def trim_end_def)
qed

lemma parse_decimal [simp]: "n < 2 ^ 64 \<Longrightarrow> parse_u64 (decimal n) = Some (of_nat n)"
proof -
  assume n: "n < 2 ^ 64"
  have "\<not> is_ascii_digit CHR ''+''" by (simp add: is_ascii_digit_def less_eq_char_def)
  then have "(case decimal n of [] \<Rightarrow> [] | c # cs \<Rightarrow> if c = CHR ''+'' then cs else decimal n) = decimal n"
    using decimal_digits [of n] by (auto split: list.split)
  then show ?thesis using n decimal_digits [of n] by (simp add: parse_u64_def Let_def)
qed

lemma current_seq_decimal [simp]: "current_seq (s\<lparr>ml_seq := Some (decimal (unat n))\<rparr>) = n"
proof -
  have "unat n < 2 ^ LENGTH(64)" by (rule unsigned_less)
  then show ?thesis using parse_decimal [of "unat n"] by (simp add: current_seq_def)
qed

lemma current_seq_frame [simp]:
  "current_seq (ml_ledger_update f s) = current_seq s" "current_seq (s\<lparr>ml_messages := d\<rparr>) = current_seq s"
  by (simp_all add: current_seq_def)

lemma count_write_frame [simp]:
  "ml_messages (count_write s) = ml_messages s" "ml_seq (count_write s) = ml_seq s"
  "current_seq (count_write s) = current_seq s"
  by (simp_all add: count_write_in_def)

subsection \<open>Running the mailbox\<close>

definition whole_text :: "mail_env \<Rightarrow> bool" where
  "whole_text env \<longleftrightarrow> (\<forall>n. me_text_cut env n = None)"

abbreviation mail_reliable :: "mail_env \<Rightarrow> bool" where
  "mail_reliable env \<equiv> writes_reliably (me_host env)"

lemma wp_write_seq:
  assumes "whole_text env \<or> mail_reliable env" and "Q () ((count_write s)\<lparr>ml_seq := Some t\<rparr>)"
    and "\<And>e. \<not> mail_reliable env \<Longrightarrow> E e (count_write s)"
    and "\<And>e. \<not> mail_reliable env \<Longrightarrow> E e ((count_write s)\<lparr>ml_seq := Some t\<rparr>)"
  shows "wp (write_seq env t) Q E s"
  using assms not_reliable [of "me_host env" "lg_writes (ml_ledger s)"]
  by (cases "durable_outcome (me_host env) (lg_writes (ml_ledger s))")
     (simp_all add: wp_def write_seq_def whole_text_def Let_def)

lemma require_agent_reads: "\<exists>r. require_optional_agent env a sid w s = (r, s)"
proof -
  have "\<exists>r. require_agent_in_scope h i sid w l = (r, l)" for h i l
    by (auto simp: require_agent_in_scope_def load_agent_def bindE_def map_err_def reads_def some_or_def
          raise_def ret_def split: option.splits sum.splits)
  then have "\<exists>r. on_ledger (require_agent_in_scope (me_host env) i sid w) s = (r, s)" for i
    by (rule mail.part_op_reads)
  then obtain r where "on_ledger (require_agent_in_scope (me_host env) i sid w) s = (r i, s)" for i
    by metis
  then show ?thesis
    by (auto simp: require_optional_agent_def ret_def bindE_def split: option.split sum.split)
qed

lemma wp_require_agent [wp]:
  "wp (require_optional_agent env a sid w) Q E s \<longleftrightarrow>
     (case fst (require_optional_agent env a sid w s) of Inl e \<Rightarrow> E e s | Inr x \<Rightarrow> Q x s)"
  using require_agent_reads [of env a sid w s] by (auto simp: wp_def split: sum.split)

subsection \<open>The invariant\<close>

definition mail_ok :: "mail_store \<Rightarrow> bool" where
  "mail_ok s \<longleftrightarrow>
     dir_ok wm_message_id (ml_messages s)
     \<and> (\<forall>k x. dir_get (ml_messages s) k = Some x \<longrightarrow> 0 < wm_seq x \<and> wm_seq x \<le> current_seq s)
     \<and> (\<forall>k x j y. dir_get (ml_messages s) k = Some x \<longrightarrow> dir_get (ml_messages s) j = Some y
           \<longrightarrow> wm_seq x = wm_seq y \<longrightarrow> k = j)"

definition mail_start :: "mail_store \<Rightarrow> bool" where
  "mail_start s \<longleftrightarrow> ml_messages s = [] \<and> ml_seq s = None"

lemma mail_ok_frame [simp]:
  "mail_ok (ml_ledger_update f s) = mail_ok s" "mail_ok (count_write s) = mail_ok s"
  by (simp_all add: mail_ok_def count_write_in_def)

lemma mail_ok_cong: "mail_ok s \<Longrightarrow> ml_messages t = ml_messages s \<Longrightarrow> ml_seq t = ml_seq s \<Longrightarrow> mail_ok t"
  by (simp add: mail_ok_def current_seq_def)

lemma mail_ok_del: "mail_ok s \<Longrightarrow> mail_ok (s\<lparr>ml_messages := dir_del k (ml_messages s)\<rparr>)"
  by (auto simp: mail_ok_def split: if_splits)

lemma mail_ok_later:
  "mail_ok s \<Longrightarrow> current_seq s \<le> n \<Longrightarrow> mail_ok (s\<lparr>ml_seq := Some (decimal (unat n))\<rparr>)"
  by (fastforce simp: mail_ok_def)

lemma mail_ok_put:
  assumes "mail_ok s" "wm_message_id m = k" "0 < wm_seq m" "wm_seq m \<le> current_seq s"
    and "\<And>j x. dir_get (ml_messages s) j = Some x \<Longrightarrow> j \<noteq> k \<Longrightarrow> wm_seq x \<noteq> wm_seq m"
  shows "mail_ok (s\<lparr>ml_messages := dir_put k m (ml_messages s)\<rparr>)"
  using assms unfolding mail_ok_def by (auto split: if_splits) metis+

lemma wp_remove_message:
  assumes "\<And>s. I s \<Longrightarrow> I (count_write s)"
    and "\<And>s. I s \<Longrightarrow> I (s\<lparr>ml_messages := dir_del (wm_message_id m) (ml_messages s)\<rparr>)" and "I s"
  shows "wp (remove_message env m) (\<lambda>_. I) (\<lambda>_. I) s"
proof -
  have "I ((count_write s)\<lparr>ml_messages := dir_del (wm_message_id m) (ml_messages s)\<rparr>)"
    using assms(2) [OF assms(1) [OF assms(3)]] by simp
  then show ?thesis
    using assms
    by (auto simp: remove_message_def part_durable_def wp_def lift_def bindE_def
        split: sum.split write_outcome.split dest!: safe_id_filename_same)
qed

lemma wp_prune_messages:
  assumes "\<And>s. I s \<Longrightarrow> I (count_write s)"
    and "\<And>s k. I s \<Longrightarrow> I (s\<lparr>ml_messages := dir_del k (ml_messages s)\<rparr>)" and "I s"
  shows "wp (prune_messages env) (\<lambda>_. I) (\<lambda>_. I) s"
  using assms by (auto simp: prune_messages_def wp intro!: wp_for_each wp_remove_message)

lemma succ_less: "c \<noteq> - 1 \<Longrightarrow> c < c + 1 \<and> 0 < c + 1 \<and> c \<le> c + 1" for c :: u64
  by (simp add: word_less_nat_alt word_le_nat_alt unat_succ)

lemma put_next:
  assumes "mail_ok s" "current_seq s \<noteq> - 1" "wm_message_id m = k" "wm_seq m = current_seq s + 1"
  shows "mail_ok (s\<lparr>ml_seq := Some (decimal (unat (current_seq s + 1))),
     ml_messages := dir_put k m (ml_messages s)\<rparr>)"
proof -
  let ?s = "s\<lparr>ml_seq := Some (decimal (unat (current_seq s + 1)))\<rparr>"
  have "mail_ok ?s" using mail_ok_later [OF assms(1)] succ_less [OF assms(2)] by simp
  moreover have "wm_seq x \<noteq> wm_seq m" if "dir_get (ml_messages s) j = Some x" for j x
    using that assms succ_less [OF assms(2)] by (force simp: mail_ok_def)
  ultimately have "mail_ok (?s\<lparr>ml_messages := dir_put k m (ml_messages ?s)\<rparr>)"
    using assms succ_less [OF assms(2)] by (intro mail_ok_put) simp_all
  then show ?thesis by simp
qed

lemma wp_send_message:
  assumes env: "whole_text env \<or> mail_reliable env" and s: "mail_ok s" "current_seq s \<noteq> - 1"
  shows "wp (send_message env m) (\<lambda>_ t. mail_ok t \<and> current_seq t = current_seq s + 1)
    (\<lambda>_ t. mail_ok t \<and> (current_seq t = current_seq s \<or> current_seq t = current_seq s + 1)) s"
proof -
  let ?c = "current_seq s" and ?I = "\<lambda>t. mail_ok t \<and> current_seq t = current_seq s + 1"
    and ?E = "\<lambda>_ t. mail_ok t \<and> (current_seq t = current_seq s \<or> current_seq t = current_seq s + 1)"
  have prune: "wp (prune_messages env) (\<lambda>_. wp (ret x) (\<lambda>_. ?I) ?E) ?E t" if "?I t" for x t
    by (rule wp_mono [OF wp_prune_messages [of ?I, OF _ _ that]])
       (auto simp: wp_ret intro: mail_ok_del)
  have put: "wp (put_message env (m\<lparr>wm_seq := ?c + 1\<rparr>))
      (\<lambda>_. wp (prune_messages env) (\<lambda>_. wp (ret (m\<lparr>wm_seq := ?c + 1\<rparr>)) (\<lambda>_. ?I) ?E) ?E) ?E
      ((count_write s)\<lparr>ml_seq := Some (decimal (unat (?c + 1)))\<rparr>)" (is "wp _ _ _ ?t")
  proof (cases "safe_id_filename (wm_message_id m)")
    case (Inl e)
    then show ?thesis using s mail_ok_later [of "count_write s" "?c + 1"] succ_less [OF s(2)]
      by (simp add: put_message_def wp)
  next
    case (Inr k)
    have ok: "mail_ok ?t" "current_seq ?t = ?c + 1"
      using s mail_ok_later [of "count_write s" "?c + 1"] succ_less [OF s(2)] by simp_all
    have "mail_ok ((count_write ?t)\<lparr>ml_messages := dir_put k (m\<lparr>wm_seq := ?c + 1\<rparr>) (ml_messages (count_write ?t))\<rparr>)"
      by (rule mail_ok_cong [OF put_next [OF s, of "m\<lparr>wm_seq := ?c + 1\<rparr>" k]])
         (use safe_id_filename_same [OF Inr] in simp_all)
    then show ?thesis using ok Inr
      by (auto simp: put_message_def wp_bindE wp_lift intro!: wp_part_durable prune)
  qed
  have "wp (next_message_seq env) (\<lambda>seq. wp (let sent = m\<lparr>wm_seq := seq\<rparr> in
      thenE (put_message env sent) (thenE (prune_messages env) (ret sent))) (\<lambda>_. ?I) ?E) ?E s"
    unfolding next_message_seq_def Let_def wp_bindE wp_gets wp_thenE
    using env s mail_ok_later [of "count_write s" "?c + 1"] succ_less [OF s(2)]
    by (auto simp: wp_ret put intro!: wp_write_seq)
  then show ?thesis
    using s by (auto simp: send_message_def wp_thenE wp_bindE wp_lift wp_require_agent split: sum.split)
qed

lemma wp_ack_message:
  assumes s: "mail_ok s"
  shows "wp (ack_message_unlocked env i actor now sc) (\<lambda>_ t. mail_ok t \<and> current_seq t = current_seq s)
    (\<lambda>_ t. mail_ok t \<and> current_seq t = current_seq s) s"
proof (cases "safe_id_filename i")
  case (Inl e)
  then show ?thesis using s by (simp add: ack_message_unlocked_def load_message_def wp)
next
  case (Inr k)
  have put: "mail_ok ((count_write s)\<lparr>ml_messages := dir_put k (m\<lparr>wm_acked_at := a, wm_acked_by := b\<rparr>) (ml_messages s)\<rparr>)"
    if m: "dir_get (ml_messages s) k = Some m" for m a b
  proof -
    have "wm_message_id m = k" "0 < wm_seq m" "wm_seq m \<le> current_seq s"
      using s m dir_ok_key [of wm_message_id "ml_messages s" k m] by (auto simp: mail_ok_def)
    moreover have "wm_seq x \<noteq> wm_seq m" if "dir_get (ml_messages s) j = Some x" "j \<noteq> k" for j x
      using s m that unfolding mail_ok_def by metis
    ultimately show ?thesis
      using mail_ok_put [of "count_write s" "m\<lparr>wm_acked_at := a, wm_acked_by := b\<rparr>" k] s by simp
  qed
  then show ?thesis
    using s Inr
    by (auto simp: ack_message_unlocked_def load_message_def wp Let_def intro!: wp_part_durable
        split: option.split)
qed

text \<open>Every operation that writes messages, and any change of the rest of the store.\<close>

inductive mail_step :: "mail_env \<Rightarrow> mail_store \<Rightarrow> mail_store \<Rightarrow> bool" for env where
  sent: "mail_step env s (snd (send_message env m s))"
| sent_once: "mail_step env s (snd (send_message_once env m s))"
| acked: "mail_step env s (snd (ack_message_unlocked env i actor now sc s))"
| ledger_changed: "mail_step env s (s\<lparr>ml_ledger := l\<rparr>)"

lemma wp_snd: "wp m (\<lambda>_. I) (\<lambda>_. I) s \<Longrightarrow> I (snd (m s))"
  by (auto simp: wp_def split: prod.splits sum.splits)

lemma send_once_run:
  "\<exists>r. send_message_once env m s = (r, s) \<or> send_message_once env m s = send_message env m s"
  by (auto simp: send_message_once_def load_message_def bindE_def lift_def gets_def raise_def ret_def
      split: sum.split option.split)

lemma step_mail_ok:
  assumes env: "whole_text env \<or> mail_reliable env" and s: "mail_ok s" "current_seq s \<noteq> - 1"
    and step: "mail_step env s t"
  shows "mail_ok t \<and> (current_seq t = current_seq s \<or> current_seq t = current_seq s + 1)"
proof -
  have send: "mail_ok (snd (send_message env m s))
      \<and> current_seq (snd (send_message env m s)) \<in> {current_seq s, current_seq s + 1}" for m
    by (rule wp_snd, rule wp_mono [OF wp_send_message [OF env s]]) auto
  from step show ?thesis
  proof cases
    case (sent m)
    then show ?thesis using send by simp
  next
    case (sent_once m)
    then show ?thesis using send [of m] send_once_run [of env m s] s by auto
  next
    case (acked i actor now sc)
    then show ?thesis using wp_snd [OF wp_ack_message [OF s(1)]] by simp
  next
    case (ledger_changed l)
    then show ?thesis using s by simp
  qed
qed

lemma run_mail_ok:
  assumes env: "whole_text env \<or> mail_reliable env" and s: "mail_ok s"
    and bound: "unat (current_seq s) + n < 2 ^ 64" and run: "(mail_step env ^^ n) s t"
  shows "mail_ok t \<and> current_seq s \<le> current_seq t \<and> unat (current_seq t) \<le> unat (current_seq s) + n"
  using bound run
proof (induction n arbitrary: t)
  case 0
  then show ?case using s by simp
next
  case (Suc n)
  from Suc.prems obtain u where u: "(mail_step env ^^ n) s u" "mail_step env u t" by auto
  then have ok: "mail_ok u" "current_seq s \<le> current_seq u" "unat (current_seq u) \<le> unat (current_seq s) + n"
    using Suc.IH Suc.prems(1) by auto
  have "unat (- 1 :: u64) = 2 ^ 64 - 1" by (simp add: unsigned_minus_1_eq_mask mask_eq_exp_minus_1)
  then have "current_seq u \<noteq> - 1" using ok(3) Suc.prems(1) by auto
  then show ?case
    using step_mail_ok [OF env ok(1) _ u(2)] ok succ_less [of "current_seq u"]
    by (auto simp: unat_succ)
qed

subsection \<open>Order of the stored messages\<close>

lemma mail_distinct: "mail_ok s \<Longrightarrow> distinct (map wm_seq (dir_list (ml_messages s)))"
proof -
  assume s: "mail_ok s"
  then have d: "dir_ok wm_message_id (ml_messages s)" by (simp add: mail_ok_def)
  have "inj_on wm_seq (set (dir_list (ml_messages s)))"
  proof (rule inj_onI)
    fix x y assume "x \<in> set (dir_list (ml_messages s))" "y \<in> set (dir_list (ml_messages s))" "wm_seq x = wm_seq y"
    moreover from this have "wm_message_id x = wm_message_id y"
      using s dir_list_get [OF d] unfolding mail_ok_def by metis
    ultimately show "x = y" using dir_list_get [OF d] by (metis option.inject)
  qed
  moreover have "distinct (dir_list (ml_messages s))" using dir_ok_distinct [OF d] by (simp add: distinct_map)
  ultimately show ?thesis by (simp add: distinct_map)
qed

abbreviation in_order :: "work_message list \<Rightarrow> bool" where
  "in_order \<equiv> sorted_wrt (\<lambda>a b. wm_seq a < wm_seq b)"

lemma in_order_sort_key: "distinct (map wm_seq xs) \<Longrightarrow> in_order (sort_key wm_seq xs)"
proof -
  assume "distinct (map wm_seq xs)"
  then have "distinct (map wm_seq (sort_key wm_seq xs))"
    by (metis distinct_map distinct_sort set_sort)
  then have "sorted_wrt (<) (map wm_seq (sort_key wm_seq xs))"
    using strict_sorted_iff by (auto simp: strict_sorted_iff)
  then show ?thesis by (simp add: sorted_wrt_map)
qed

lemma in_order_filter: "in_order xs \<Longrightarrow> in_order (filter p xs)"
  by (simp add: sorted_wrt_filter)

lemma filter_above_last:
  assumes "in_order ys" and "take n ys \<noteq> []"
  shows "filter (\<lambda>m. wm_seq (last (take n ys)) < wm_seq m) ys = drop n ys"
proof -
  let ?l = "last (take n ys)"
  have l: "?l \<in> set (take n ys)" using assms(2) by (rule last_in_set)
  have "in_order (take n ys @ drop n ys)" using assms(1) by simp
  then have ord: "in_order (take n ys)" "\<forall>a \<in> set (take n ys). \<forall>b \<in> set (drop n ys). wm_seq a < wm_seq b"
    unfolding sorted_wrt_append by blast+
  obtain zs l where zs: "take n ys = zs @ [l]" using assms(2) by (cases "take n ys" rule: rev_cases) auto
  then have "\<forall>a \<in> set (take n ys). wm_seq a \<le> wm_seq ?l"
    using ord(1) by (auto simp: sorted_wrt_append intro: less_imp_le)
  then have "filter (\<lambda>m. wm_seq ?l < wm_seq m) (take n ys) = []"
    by (auto simp: filter_empty_conv not_less)
  moreover have "filter (\<lambda>m. wm_seq ?l < wm_seq m) (drop n ys) = drop n ys"
    using ord(2) l by (simp add: filter_id_conv)
  ultimately show ?thesis
    by (metis (no_types, lifting) append_Nil append_take_drop_id filter_append)
qed

lemma next_page:
  fixes after :: u64
  assumes "in_order xs" and "0 < n"
  defines "ys \<equiv> filter (\<lambda>m. after < wm_seq m) xs"
  shows "filter (\<lambda>m. last_seq_or after (take n ys) < wm_seq m) xs = drop n ys"
proof (cases "ys = []")
  case True
  then show ?thesis by (simp add: last_seq_or_def ys_def)
next
  case False
  then have ne: "take n ys \<noteq> []" using assms(2) by simp
  have ys: "in_order ys" unfolding ys_def using assms(1) by (rule in_order_filter)
  have "last (take n ys) \<in> set ys" using last_in_set [OF ne] by (rule in_set_takeD)
  then have "after < wm_seq (last (take n ys))" by (simp add: ys_def)
  then have "filter (\<lambda>m. wm_seq (last (take n ys)) < wm_seq m) xs = filter (\<lambda>m. wm_seq (last (take n ys)) < wm_seq m) ys"
    unfolding ys_def by (auto intro!: filter_cong intro: less_trans simp: filter_filter)
  then show ?thesis using filter_above_last [OF ys ne] ne by (simp add: last_seq_or_def)
qed

subsection \<open>Retention\<close>

text \<open>
  What a reader that has seen up to the number of \<open>x\<close> can rely on: the message is stored as it
  was but for an acknowledgement, or everything stored is younger.
\<close>

definition same_but_ack :: "work_message \<Rightarrow> work_message \<Rightarrow> bool" where
  "same_but_ack x y \<longleftrightarrow> (\<exists>a b. y = x\<lparr>wm_acked_at := a, wm_acked_by := b\<rparr>)"

lemma same_but_ack_refl [simp]: "same_but_ack x x"
  unfolding same_but_ack_def by (metis work_message.surjective work_message.update_convs(18,19))

lemma same_but_ackD:
  "same_but_ack x y \<Longrightarrow> wm_seq y = wm_seq x" "same_but_ack x y \<Longrightarrow> wm_message_id y = wm_message_id x"
  "same_but_ack x y \<Longrightarrow> in_lane h sid ws inbox outbox y = in_lane h sid ws inbox outbox x"
  "same_but_ack x y \<Longrightarrow> same_but_ack x (y\<lparr>wm_acked_at := a, wm_acked_by := b\<rparr>)"
  by (auto simp: same_but_ack_def in_lane_def, metis)

definition seen_or_younger :: "work_message \<Rightarrow> mail_store \<Rightarrow> bool" where
  "seen_or_younger x s \<longleftrightarrow>
     wm_seq x \<le> current_seq s
     \<and> ((\<exists>y. dir_get (ml_messages s) (wm_message_id x) = Some y \<and> same_but_ack x y)
        \<or> (\<forall>y \<in> set (dir_list (ml_messages s)). wm_seq x < wm_seq y))"

lemma seen_frame [simp]:
  "seen_or_younger x (ml_ledger_update f s) = seen_or_younger x s"
  "seen_or_younger x (count_write s) = seen_or_younger x s"
  by (simp_all add: seen_or_younger_def)

lemma set_dir_del:
  assumes d: "dir_ok key d" and z: "z \<in> set (dir_list d)"
  shows "set (dir_list (dir_del (key z) d)) = set (dir_list d) - {z}"
proof -
  have "dir_ok key (dir_del (key z) d)" using d by (rule dir_ok_del)
  from dir_list_get [OF this] dir_list_get [OF d] z show ?thesis by (auto split: if_splits)
qed

lemma set_dir_put:
  assumes d: "dir_ok key d"
  shows "set (dir_list (dir_put (key z) z d)) = insert z {x \<in> set (dir_list d). key x \<noteq> key z}"
proof -
  have "dir_ok key (dir_put (key z) z d)" using d by (rule dir_ok_put) simp
  from dir_list_get [OF this] dir_list_get [OF d] show ?thesis by (auto split: if_splits)
qed

lemma seen_del_oldest:
  assumes ok: "mail_ok s" and z: "z \<in> set (dir_list (ml_messages s))"
    and oldest: "\<forall>y \<in> set (dir_list (ml_messages s)). y \<noteq> z \<longrightarrow> wm_seq z < wm_seq y"
    and seen: "seen_or_younger x s"
  shows "seen_or_younger x (s\<lparr>ml_messages := dir_del (wm_message_id z) (ml_messages s)\<rparr>)"
proof -
  have d: "dir_ok wm_message_id (ml_messages s)" using ok by (simp add: mail_ok_def)
  have get: "dir_get (ml_messages s) (wm_message_id z) = Some z" using z dir_list_get [OF d] by simp
  from seen consider (young) "\<forall>y \<in> set (dir_list (ml_messages s)). wm_seq x < wm_seq y"
    | (kept) y where "dir_get (ml_messages s) (wm_message_id x) = Some y" "same_but_ack x y"
    by (auto simp: seen_or_younger_def)
  then show ?thesis
  proof cases
    case young
    then show ?thesis using seen set_dir_del [OF d z] by (simp add: seen_or_younger_def)
  next
    case kept
    show ?thesis
    proof (cases "wm_message_id x = wm_message_id z")
      case True
      then have "wm_seq x < wm_seq w" if "w \<in> set (dir_list (ml_messages s)) - {z}" for w
        using kept get oldest that by (auto simp: same_but_ackD(1) [symmetric])
      then show ?thesis using seen set_dir_del [OF d z] by (simp add: seen_or_younger_def)
    next
      case False
      then show ?thesis using kept seen by (simp add: seen_or_younger_def)
    qed
  qed
qed

lemma prune_loop:
  assumes rel: "mail_reliable env" and "mail_ok s" and "in_order (xs @ rest)"
    and "set (xs @ rest) = set (dir_list (ml_messages s))" and "\<forall>x \<in> X. seen_or_younger x s"
  shows "wp (for_each xs (remove_message env))
    (\<lambda>_ t. mail_ok t \<and> current_seq t = current_seq s \<and> set (dir_list (ml_messages t)) = set rest
        \<and> (\<forall>x \<in> X. seen_or_younger x t))
    (\<lambda>_ t. \<forall>x \<in> X. seen_or_younger x t) s"
  using assms(2-)
proof (induction xs arbitrary: s)
  case Nil
  then show ?case by (simp add: wp)
next
  case (Cons z xs)
  let ?t = "(count_write s)\<lparr>ml_messages := dir_del (wm_message_id z) (ml_messages s)\<rparr>"
  have z: "z \<in> set (dir_list (ml_messages s))" "\<forall>y \<in> set (dir_list (ml_messages s)). y \<noteq> z \<longrightarrow> wm_seq z < wm_seq y"
    using Cons.prems(2,3) by auto
  have "z \<notin> set (xs @ rest)" using Cons.prems(2) by auto
  moreover have "set (dir_list (ml_messages ?t)) = set (dir_list (ml_messages s)) - {z}"
    using Cons.prems(1) set_dir_del [OF _ z(1), of wm_message_id] by (simp add: mail_ok_def)
  ultimately have "set (xs @ rest) = set (dir_list (ml_messages ?t))" using Cons.prems(3) by auto
  moreover have "mail_ok ?t" using mail_ok_del [of "count_write s" "wm_message_id z"] Cons.prems(1) by simp
  moreover have "\<forall>x \<in> X. seen_or_younger x ?t"
    using seen_del_oldest [of "count_write s" z] Cons.prems(1,4) z by simp
  ultimately have t: "mail_ok ?t" "set (xs @ rest) = set (dir_list (ml_messages ?t))"
    "\<forall>x \<in> X. seen_or_younger x ?t" "in_order (xs @ rest)"
    using Cons.prems(2) by simp_all
  have "wp (remove_message env z) (\<lambda>_ u. u = ?t) (\<lambda>_ u. u = s) s"
    using rel by (auto simp: remove_message_def wp_def bindE_def lift_def part_durable_def writes_reliably_def
        split: sum.split dest!: safe_id_filename_same)
  then show ?case
    unfolding for_each.simps wp_thenE
  proof (rule wp_mono)
    show "wp (for_each xs (remove_message env))
      (\<lambda>_ t. mail_ok t \<and> current_seq t = current_seq s \<and> set (dir_list (ml_messages t)) = set rest
          \<and> (\<forall>x \<in> X. seen_or_younger x t))
      (\<lambda>_ t. \<forall>x \<in> X. seen_or_younger x t) u" if "u = ?t" for u
      using Cons.IH [OF t(1,4,2,3)] that by simp
  qed (use Cons.prems(4) in simp)
qed

lemma seen_later:
  "seen_or_younger x s \<Longrightarrow> current_seq s \<le> n \<Longrightarrow> seen_or_younger x (s\<lparr>ml_seq := Some (decimal (unat n))\<rparr>)"
  by (auto simp: seen_or_younger_def)

lemma seen_put:
  assumes ok: "mail_ok s" and seen: "seen_or_younger x s" and m: "current_seq s < wm_seq m"
    and fresh: "dir_get (ml_messages s) (wm_message_id m) = None"
    and t: "ml_messages t = dir_put (wm_message_id m) m (ml_messages s)" "current_seq s \<le> current_seq t"
  shows "seen_or_younger x t"
proof -
  have d: "dir_ok wm_message_id (ml_messages s)" using ok by (simp add: mail_ok_def)
  have x: "wm_seq x < wm_seq m" "wm_seq x \<le> current_seq t"
    using seen m t(2) by (auto simp: seen_or_younger_def)
  show ?thesis
  proof (cases "wm_message_id x = wm_message_id m")
    case True
    then have "\<forall>y \<in> set (dir_list (ml_messages s)). wm_seq x < wm_seq y"
      using seen fresh by (simp add: seen_or_younger_def)
    then show ?thesis using x t set_dir_put [OF d, of m] by (auto simp: seen_or_younger_def)
  next
    case False
    then show ?thesis using x t seen set_dir_put [OF d, of m] by (auto simp: seen_or_younger_def)
  qed
qed

lemma wp_prune_reliable:
  assumes rel: "mail_reliable env" and ok: "mail_ok s" and seen: "\<forall>x \<in> X. seen_or_younger x s"
  defines "all \<equiv> sort_key wm_seq (dir_list (ml_messages s))"
  shows "wp (prune_messages env)
    (\<lambda>_ t. mail_ok t \<and> current_seq t = current_seq s \<and> (\<forall>x \<in> X. seen_or_younger x t)
       \<and> set (dir_list (ml_messages t)) = set (drop (length all - MAX_RETAINED_MESSAGES) all))
    (\<lambda>_ t. \<forall>x \<in> X. seen_or_younger x t) s"
proof -
  have ord: "in_order all" unfolding all_def using in_order_sort_key [OF mail_distinct [OF ok]] .
  have all: "length all = length (dir_list (ml_messages s))" "set all = set (dir_list (ml_messages s))"
    by (simp_all add: all_def)
  have "wp (for_each (take (length all - MAX_RETAINED_MESSAGES) all) (remove_message env))
    (\<lambda>_ t. mail_ok t \<and> current_seq t = current_seq s
       \<and> set (dir_list (ml_messages t)) = set (drop (length all - MAX_RETAINED_MESSAGES) all)
       \<and> (\<forall>x \<in> X. seen_or_younger x t))
    (\<lambda>_ t. \<forall>x \<in> X. seen_or_younger x t) s"
    by (rule prune_loop [OF rel ok _ _ seen]) (use ord all in simp_all)
  then show ?thesis
    using ok seen all
    by (auto simp: prune_messages_def wp_bindE wp_gets wp_if wp_ret all_def [symmetric] elim!: wp_mono)
qed

lemma wp_send_reliable:
  fixes m :: work_message
  assumes rel: "mail_reliable env" and s: "mail_ok s" "current_seq s \<noteq> - 1"
    and seen: "\<forall>x \<in> X. seen_or_younger x s"
    and fresh: "X = {} \<or> dir_get (ml_messages s) (wm_message_id m) = None"
  defines "sent \<equiv> m\<lparr>wm_seq := current_seq s + 1\<rparr>"
  defines "all \<equiv> sort_key wm_seq (dir_list (dir_put (wm_message_id m) sent (ml_messages s)))"
  shows "wp (send_message env m)
    (\<lambda>r t. r = sent \<and> mail_ok t \<and> current_seq t = current_seq s + 1 \<and> (\<forall>x \<in> X. seen_or_younger x t)
       \<and> set (dir_list (ml_messages t)) = set (drop (length all - MAX_RETAINED_MESSAGES) all))
    (\<lambda>_ t. \<forall>x \<in> X. seen_or_younger x t) s" (is "wp _ ?Q ?E s")
proof -
  let ?c = "current_seq s" and ?t = "(count_write s)\<lparr>ml_seq := Some (decimal (unat (current_seq s + 1)))\<rparr>"
  have t: "\<forall>x \<in> X. seen_or_younger x ?t"
    using seen seen_later [of _ "count_write s" "?c + 1"] succ_less [OF s(2)] by simp
  have prune: "wp (prune_messages env) (\<lambda>_. wp (ret sent) ?Q ?E) ?E u"
    if "mail_ok u" "ml_messages u = dir_put (wm_message_id m) sent (ml_messages s)" "current_seq u = ?c + 1" for u
  proof -
    have "\<forall>x \<in> X. seen_or_younger x u"
      using seen_put [OF s(1), of _ sent u] seen fresh that(2,3) succ_less [OF s(2)] by (auto simp: sent_def)
    from wp_prune_reliable [OF rel that(1) this] show ?thesis
      by (rule wp_mono) (simp_all add: wp_ret that all_def)
  qed
  have put: "wp (put_message env sent) (\<lambda>_. wp (prune_messages env) (\<lambda>_. wp (ret sent) ?Q ?E) ?E) ?E ?t"
  proof (cases "safe_id_filename (wm_message_id m)")
    case (Inl e)
    then show ?thesis using t by (simp add: put_message_def wp sent_def)
  next
    case (Inr k)
    have "mail_ok ((count_write ?t)\<lparr>ml_messages := dir_put (wm_message_id m) sent (ml_messages s)\<rparr>)"
      by (rule mail_ok_cong [OF put_next [OF s, of sent "wm_message_id m"]]) (simp_all add: sent_def)
    then show ?thesis using Inr safe_id_filename_same [OF Inr] rel
      by (auto simp: put_message_def sent_def wp_bindE wp_lift intro!: wp_part_durable prune [unfolded sent_def])
  qed
  have "wp (next_message_seq env) (\<lambda>seq. wp (let sent = m\<lparr>wm_seq := seq\<rparr> in
      thenE (put_message env sent) (thenE (prune_messages env) (ret sent))) ?Q ?E) ?E s"
    unfolding next_message_seq_def Let_def wp_bindE wp_gets wp_thenE
    using rel put by (intro wp_write_seq) (simp_all add: wp_ret sent_def)
  then show ?thesis
    using seen by (auto simp: send_message_def wp_thenE wp_bindE wp_lift wp_require_agent split: sum.split)
qed

lemma wp_ack_seen:
  assumes s: "mail_ok s" and seen: "seen_or_younger x s"
  shows "wp (ack_message_unlocked env i actor now sc) (\<lambda>_. seen_or_younger x) (\<lambda>_. seen_or_younger x) s"
proof (cases "safe_id_filename i")
  case (Inl e)
  then show ?thesis using seen by (simp add: ack_message_unlocked_def load_message_def wp)
next
  case (Inr k)
  have d: "dir_ok wm_message_id (ml_messages s)" using s by (simp add: mail_ok_def)
  have "seen_or_younger x ((count_write s)\<lparr>ml_messages :=
      dir_put k (m\<lparr>wm_acked_at := a, wm_acked_by := b\<rparr>) (ml_messages s)\<rparr>)"
    if "dir_get (ml_messages s) k = Some m" for m a b
    using that seen set_dir_put [OF d, of "m\<lparr>wm_acked_at := a, wm_acked_by := b\<rparr>"] dir_ok_key [OF d that]
      dir_list_get [OF d, of m]
    by (auto simp: seen_or_younger_def intro: same_but_ackD(4))
  then show ?thesis
    using seen Inr
    by (auto simp: ack_message_unlocked_def load_message_def wp Let_def intro!: wp_part_durable split: option.split)
qed

text \<open>
  The calls of the service: a message sent without a stable identity has an id that no stored
  message has, as the service takes a new UUID for it.
\<close>

inductive service_step :: "mail_env \<Rightarrow> mail_store \<Rightarrow> mail_store \<Rightarrow> bool" for env where
  sent: "dir_get (ml_messages s) (wm_message_id m) = None \<Longrightarrow> service_step env s (snd (send_message env m s))"
| sent_once: "service_step env s (snd (send_message_once env m s))"
| acked: "service_step env s (snd (ack_message_unlocked env i actor now sc s))"
| ledger_changed: "service_step env s (s\<lparr>ml_ledger := l\<rparr>)"

lemma service_mail_step: "service_step env s t \<Longrightarrow> mail_step env s t"
  by (auto elim!: service_step.cases intro: mail_step.intros)

lemma service_mail_run: "(service_step env ^^ n) s t \<Longrightarrow> (mail_step env ^^ n) s t"
  using relpowp_mono [of "service_step env" "mail_step env"] service_mail_step by metis

lemma send_once_cases:
  "snd (send_message_once env m s) = s
   \<or> dir_get (ml_messages s) (wm_message_id m) = None \<and> send_message_once env m s = send_message env m s"
  by (auto simp: send_message_once_def load_message_def bindE_def lift_def gets_def raise_def ret_def
      split: sum.split option.split dest: safe_id_filename_same)

lemma step_seen:
  assumes rel: "mail_reliable env" and s: "mail_ok s" "current_seq s \<noteq> - 1" and step: "service_step env s t"
    and seen: "seen_or_younger x s"
  shows "seen_or_younger x t"
proof -
  have send: "seen_or_younger x (snd (send_message env m s))"
    if "dir_get (ml_messages s) (wm_message_id m) = None" for m
    by (rule wp_snd, rule wp_mono [OF wp_send_reliable [OF rel s, of "{x}" m]]) (use seen that in auto)
  from step show ?thesis
  proof cases
    case (sent m)
    then show ?thesis using send by simp
  next
    case (sent_once m)
    then show ?thesis using send [of m] send_once_cases [of env m s] seen by auto
  next
    case (acked i actor now sc)
    then show ?thesis using wp_snd [OF wp_ack_seen [OF s(1) seen]] by simp
  next
    case (ledger_changed l)
    then show ?thesis using seen by simp
  qed
qed

lemma run_seen:
  assumes rel: "mail_reliable env" and s: "mail_ok s" and bound: "unat (current_seq s) + n < 2 ^ 64"
    and run: "(service_step env ^^ n) s t" and seen: "seen_or_younger x s"
  shows "seen_or_younger x t"
  using bound run
proof (induction n arbitrary: t)
  case 0
  then show ?case using seen by simp
next
  case (Suc n)
  from Suc.prems obtain u where u: "(service_step env ^^ n) s u" "service_step env u t" by auto
  have ok: "mail_ok u" "unat (current_seq u) \<le> unat (current_seq s) + n"
    using run_mail_ok [OF _ s _ service_mail_run [OF u(1)]] rel Suc.prems(1) by auto
  have "unat (- 1 :: u64) = 2 ^ 64 - 1" by (simp add: unsigned_minus_1_eq_mask mask_eq_exp_minus_1)
  then have "current_seq u \<noteq> - 1" using ok(2) Suc.prems(1) by auto
  then show ?case using step_seen [OF rel ok(1) _ u(2)] Suc.IH [OF _ u(1)] Suc.prems(1) by simp
qed

end
