(* ===== verification/Message_Properties.thy ===== *)
theory Message_Properties
  imports Message_Contract Example_Run
begin

section \<open>Properties of the mailbox\<close>

text \<open>
  Numbering, paging, retention, acknowledgement, stable identities and redaction, each with
  an example run on the host of \<open>Example_Run\<close>; and the two ways in which a reader can miss a
  message: a lane whose messages are all pruned, and a sequence file that was cut short.
\<close>

subsection \<open>An example run\<close>

definition example_env :: mail_env where
  "example_env = \<lparr>me_host = exact_host, me_json_len = (\<lambda>_. 2), me_text_cut = (\<lambda>_. None)\<rparr>"

definition empty_mail :: mail_store where
  "empty_mail = \<lparr>ml_ledger = empty_ledger, ml_messages = [], ml_seq = None\<rparr>"

definition example_message :: "string \<Rightarrow> uuid \<Rightarrow> u64 \<Rightarrow> work_message" where
  "example_message i sid n =
     \<lparr>wm_schema_version = 1, wm_message_id = i, wm_seq = n, wm_kind = MK_Status, wm_from_actor = ''bob'',
      wm_from_agent_id = None, wm_to_agent_id = None, wm_session_id = sid, wm_workspace = ''/w'',
      wm_work_id = None, wm_attempt_id = None, wm_run_id = None, wm_reply_to_id = None, wm_thread_id = None,
      wm_body = ''hi'', wm_payload = None, wm_expires_at = None, wm_acked_at = None, wm_acked_by = None,
      wm_created_at = 0\<rparr>"

definition one_mail :: mail_store where
  "one_mail = \<lparr>ml_ledger = empty_ledger\<lparr>lg_writes := 2\<rparr>,
     ml_messages = [(''m'', example_message ''m'' 7 1)], ml_seq = Some ''1''\<rparr>"

lemma example_message_simps [simp]:
  "wm_message_id (example_message i sid n) = i" "wm_session_id (example_message i sid n) = sid"
  "wm_seq (example_message i sid n) = n" "wm_workspace (example_message i sid n) = ''/w''"
  "wm_acked_at (example_message i sid n) = None"
  "(example_message i sid n)\<lparr>wm_seq := k\<rparr> = example_message i sid k"
  by (simp_all add: example_message_def)

lemma example_message_valid:
  "i \<noteq> [] \<Longrightarrow> length i \<le> 256 \<Longrightarrow> NUL \<notin> set i \<Longrightarrow> message_validate env (example_message i sid n) = Inr ()"
  by (simp add: message_validate_def example_message_def message_text_ok_def MESSAGE_SCHEMA_VERSION_def
        MAX_MESSAGE_ACTOR_BYTES_def MAX_MESSAGE_BODY_BYTES_def NUL_def)

lemma example_agents [simp]:
  "wm_from_agent_id (example_message i sid n) = None" "wm_to_agent_id (example_message i sid n) = None"
  "require_optional_agent env None sid ws = ret ()"
  by (simp_all add: example_message_def require_optional_agent_def)

lemma decimal_one [simp]: "decimal (Suc 0) = ''1''"
  by (subst decimal.simps) (simp add: char_of_def bit_Suc_0_iff)

lemma decimal_two [simp]: "decimal 2 = ''2''"
  by (subst decimal.simps) (simp add: char_of_def bit_numeral_rec bit_Suc_0_iff)

lemma seq_texts [simp]:
  "current_seq \<lparr>ml_ledger = l, ml_messages = d, ml_seq = Some ''2''\<rparr> = 2"
  "current_seq \<lparr>ml_ledger = l, ml_messages = d, ml_seq = None\<rparr> = 0"
  "current_seq \<lparr>ml_ledger = l, ml_messages = d, ml_seq = Some ''1''\<rparr> = 1"
  using current_seq_decimal [of 1 "\<lparr>ml_ledger = l, ml_messages = d, ml_seq = None\<rparr>"]
    current_seq_decimal [of 2 "\<lparr>ml_ledger = l, ml_messages = d, ml_seq = None\<rparr>"]
  by (simp_all add: current_seq_def)

lemma mail_names: "safe_id_filename ''m'' = Inr ''m''" "safe_id_filename ''n'' = Inr ''n''" "safe_id_filename ''a'' = Inr ''a''"
  by (simp_all add: safe_id_filename_def rbind_ok NUL_def BACKSLASH_def)

lemma send_example: "send_message example_env (example_message ''m'' 7 0) empty_mail = (Inr (example_message ''m'' 7 1), one_mail)"
  by (simp add: send_message_def example_message_valid NUL_def next_message_seq_def write_seq_def op_simps
        put_message_def prune_messages_def part_durable_def mail_names example_env_def count_write_in_def
        Let_def MAX_RETAINED_MESSAGES_def dir_put_def dir_list_def one_mail_def empty_mail_def empty_ledger_def)

definition two_mail :: "work_message \<Rightarrow> nat \<Rightarrow> mail_store" where
  "two_mail x w = \<lparr>ml_ledger = empty_ledger\<lparr>lg_writes := w\<rparr>,
     ml_messages = [(''m'', example_message ''m'' 7 1), (''n'', x)], ml_seq = Some ''2''\<rparr>"

definition acked_message :: work_message where
  "acked_message = (example_message ''n'' 7 2)\<lparr>wm_acked_at := Some 5, wm_acked_by := Some ''eve''\<rparr>"

lemma ack_example:
  "ack_message_unlocked example_env ''n'' ''eve'' 5 None (two_mail (example_message ''n'' 7 2) 4)
     = (Inr acked_message, two_mail acked_message 5)"
  by (simp add: ack_message_unlocked_def load_message_def op_simps mail_names two_mail_def dir_get_def dir_put_def
        Let_def part_durable_def example_env_def count_write_in_def acked_message_def)

lemma mail_ok_examples: "mail_ok empty_mail" "mail_ok one_mail" "mail_start empty_mail"
  "mail_ok (two_mail (example_message ''n'' 7 2) w)"
  by (auto simp: mail_ok_def mail_start_def empty_mail_def one_mail_def two_mail_def dir_ok_def dir_get_def
      split: if_splits)

lemma env_examples: "mail_reliable example_env" "whole_text example_env"
  by (simp_all add: writes_reliably_def whole_text_def example_env_def)

subsection \<open>Theorems\<close>

text \<open>
  C26. Message numbers identify messages. Along any run of fewer than \<open>2 ^ 64\<close> steps from an empty
  mailbox, with failed and unsynced writes but no cut sequence file, every message lies under
  its id, no two have the same number, and the sequence file has reached every number.
\<close>

theorem messages_numbered:
  assumes "whole_text env" and "mail_start s" and "n < 2 ^ 64" and "(mail_step env ^^ n) s t"
  shows "distinct (map wm_seq (dir_list (ml_messages t))) \<and> distinct (map wm_message_id (dir_list (ml_messages t)))
    \<and> (\<forall>m \<in> set (dir_list (ml_messages t)). 0 < wm_seq m \<and> wm_seq m \<le> current_seq t)"
proof -
  from assms(2) have s: "mail_ok s" "current_seq s = 0"
    by (simp_all add: mail_ok_def mail_start_def current_seq_def)
  then have t: "mail_ok t" using run_mail_ok [OF _ s(1) _ assms(4)] assms by simp
  then have d: "dir_ok wm_message_id (ml_messages t)" by (simp add: mail_ok_def)
  have "0 < wm_seq m \<and> wm_seq m \<le> current_seq t" if "m \<in> set (dir_list (ml_messages t))" for m
    using that t dir_list_get [OF d, of m] by (auto simp: mail_ok_def)
  then show ?thesis using mail_distinct [OF t] dir_ok_distinct [OF d] by blast
qed

theorem messages_numbered_witness:
  "(mail_step example_env ^^ 1) empty_mail one_mail \<and> distinct (map wm_seq (dir_list (ml_messages one_mail)))
   \<and> dir_list (ml_messages one_mail) = [example_message ''m'' 7 1]"
proof -
  have "mail_step example_env empty_mail one_mail"
    using mail_step.sent [of example_env empty_mail "example_message ''m'' 7 0"] by (simp add: send_example)
  then have run: "(mail_step example_env ^^ 1) empty_mail one_mail" by (simp add: eq_OO)
  from messages_numbered [OF env_examples(2) mail_ok_examples(3) _ this] run show ?thesis
    by (simp add: one_mail_def dir_list_def)
qed

text \<open>The messages of a lane as a reader lists them.\<close>

definition lane_messages ::
  "mail_env \<Rightarrow> uuid \<Rightarrow> string \<Rightarrow> string option \<Rightarrow> string option \<Rightarrow> mail_store \<Rightarrow> work_message list" where
  "lane_messages env sid ws inbox outbox s =
     sort_key wm_seq (filter (in_lane (me_host env) sid ws inbox outbox) (dir_list (ml_messages s)))"

lemma set_lane: "set (lane_messages env sid ws inbox outbox s) =
    {m \<in> set (dir_list (ml_messages s)). in_lane (me_host env) sid ws inbox outbox m}"
  by (simp add: lane_messages_def)

lemma lane_in_order: "mail_ok s \<Longrightarrow> in_order (lane_messages env sid ws inbox outbox s)"
  unfolding lane_messages_def by (intro in_order_sort_key distinct_map_filter mail_distinct)

lemma listed_page:
  assumes "list_messages env sid ws after inbox outbox limit s = (Inr p, t)"
  shows "t = s" "mp_messages p = take (max 1 (min limit 200))
      (filter (\<lambda>m. after < wm_seq m) (lane_messages env sid ws inbox outbox s))"
    "mp_next_seq p = last_seq_or after (mp_messages p)"
  using assms
  by (auto simp: list_messages_def bindE_def gets_def ret_def raise_def Let_def lane_messages_def split: if_splits)

text \<open>
  C27. Pages cut the lane without gap or overlap. A page that is returned holds, in the order
  of their numbers, the first messages of the lane above the cursor, up to the limit; the
  messages above the cursor it returns are exactly the rest, so following the cursors reads
  every message of the lane once. Reading changes nothing.
\<close>

theorem pages_partition_lane:
  assumes ok: "mail_ok s" and run: "list_messages env sid ws after inbox outbox limit s = (Inr p, t)"
  shows "let lane = lane_messages env sid ws inbox outbox s; rest = filter (\<lambda>m. after < wm_seq m) lane;
             n = max 1 (min limit 200)
    in t = s \<and> sorted_wrt (\<lambda>a b. wm_seq a < wm_seq b) lane \<and> mp_messages p = take n rest
       \<and> filter (\<lambda>m. mp_next_seq p < wm_seq m) lane = drop n rest"
proof -
  let ?lane = "lane_messages env sid ws inbox outbox s" and ?n = "max 1 (min limit 200)"
  show ?thesis
    using listed_page [OF run] lane_in_order [OF ok, of env sid ws inbox outbox] next_page [of ?lane ?n after]
    by (simp add: Let_def)
qed

definition one_page :: message_page where
  "one_page = \<lparr>mp_messages = [example_message ''m'' 7 1], mp_next_seq = 1, mp_retained_from_seq = 1\<rparr>"

lemma list_example: "list_messages example_env 7 ''/w'' 0 None None 10 one_mail = (Inr one_page, one_mail)"
  by (simp add: list_messages_def op_simps Let_def one_mail_def dir_list_def in_lane_def workspaces_match_def
        one_page_def last_seq_or_def retained_from_def saturating_pred_def)

theorem pages_partition_lane_witness:
  "mp_messages one_page = lane_messages example_env 7 ''/w'' None None one_mail
   \<and> filter (\<lambda>m. mp_next_seq one_page < wm_seq m) (lane_messages example_env 7 ''/w'' None None one_mail) = []"
proof -
  have "lane_messages example_env 7 ''/w'' None None one_mail = [example_message ''m'' 7 1]"
    by (simp add: lane_messages_def one_mail_def dir_list_def in_lane_def workspaces_match_def)
  then show ?thesis
    using pages_partition_lane [OF mail_ok_examples(2) list_example] by (simp add: Let_def)
qed

text \<open>
  C25. A reader misses nothing unnoticed. Take a message of the lane above the cursor of a reader
  that has read something (a cursor of 0 asks for whatever is retained and is never refused).
  After any calls of the service whose writes reach the disk, as many as the 64-bit numbers
  allow, if the lane still has messages and listing it from the same cursor is not refused as
  expired, then that very message, changed at most by an acknowledgement, is on the page, or it
  is above the cursor the page returns.
\<close>

theorem no_unnoticed_gap:
  assumes rel: "mail_reliable env" and s: "mail_ok s" and bound: "unat (current_seq s) + n < 2 ^ 64"
    and run: "(service_step env ^^ n) s t" and x: "x \<in> set (lane_messages env sid ws inbox outbox s)"
    and after: "0 < after" "after < wm_seq x"
    and page: "list_messages env sid ws after inbox outbox limit t = (Inr p, u)"
    and lane: "lane_messages env sid ws inbox outbox t \<noteq> []"
  shows "\<exists>y \<in> set (lane_messages env sid ws inbox outbox t).
    same_but_ack x y \<and> (y \<in> set (mp_messages p) \<or> mp_next_seq p < wm_seq y)"
proof -
  have t: "mail_ok t" using run_mail_ok [OF _ s bound service_mail_run [OF run]] rel by simp
  have d: "dir_ok wm_message_id (ml_messages s)" "dir_ok wm_message_id (ml_messages t)"
    using s t by (simp_all add: mail_ok_def)
  have x': "dir_get (ml_messages s) (wm_message_id x) = Some x" "in_lane (me_host env) sid ws inbox outbox x"
    using x dir_list_get [OF d(1), of x] by (simp_all add: lane_messages_def)
  have "\<not> (\<forall>y \<in> set (dir_list (ml_messages t)). wm_seq x < wm_seq y)"
  proof
    assume young: "\<forall>y \<in> set (dir_list (ml_messages t)). wm_seq x < wm_seq y"
    obtain z zs where z: "lane_messages env sid ws inbox outbox t = z # zs" using lane by (cases rule: list.exhaust) auto
    then have "wm_seq x < wm_seq z" using young set_lane [of env sid ws inbox outbox t] by auto
    moreover from this have "unat (wm_seq z - 1) = unat (wm_seq z) - 1" by (intro unat_minus_one) auto
    ultimately have "after < saturating_pred (wm_seq z)"
      using after by (auto simp: saturating_pred_def word_less_nat_alt)
    then show False using page after z
      by (simp add: list_messages_def bindE_def gets_def raise_def Let_def lane_messages_def retained_from_def)
  qed
  moreover have "seen_or_younger x t"
    by (rule run_seen [OF rel s bound run]) (use x' s in \<open>auto simp: seen_or_younger_def mail_ok_def\<close>)
  ultimately obtain y where y: "dir_get (ml_messages t) (wm_message_id x) = Some y" "same_but_ack x y"
    by (auto simp: seen_or_younger_def)
  then have lane_y: "y \<in> set (lane_messages env sid ws inbox outbox t)"
    using x'(2) dir_list_get [OF d(2), of y] by (simp add: set_lane same_but_ackD)
  let ?n = "max 1 (min limit 200)" and ?rest = "filter (\<lambda>m. after < wm_seq m) (lane_messages env sid ws inbox outbox t)"
  have "y \<in> set (take ?n ?rest @ drop ?n ?rest)"
    unfolding append_take_drop_id using lane_y after y(2) by (simp add: same_but_ackD)
  moreover have "filter (\<lambda>m. mp_next_seq p < wm_seq m) (lane_messages env sid ws inbox outbox t) = drop ?n ?rest"
    unfolding listed_page(3) [OF page] listed_page(2) [OF page]
    by (rule next_page [OF lane_in_order [OF t]]) simp
  ultimately have "y \<in> set (mp_messages p) \<or> mp_next_seq p < wm_seq y"
    unfolding set_append listed_page(2) [OF page] by (metis (mono_tags, lifting) Un_iff mem_Collect_eq set_filter)
  then show ?thesis using lane_y y(2) by blast
qed

theorem no_unnoticed_gap_witness:
  "\<exists>p. list_messages example_env 7 ''/w'' 1 None None 10 (two_mail acked_message 5) = (Inr p, two_mail acked_message 5)
    \<and> (\<exists>y. same_but_ack (example_message ''n'' 7 2) y \<and> (y \<in> set (mp_messages p) \<or> mp_next_seq p < wm_seq y))"
proof -
  let ?s = "two_mail (example_message ''n'' 7 2) 4" and ?t = "two_mail acked_message 5"
  have "service_step example_env ?s ?t"
    using service_step.acked [of example_env ?s "''n''" "''eve''" 5 None] by (simp add: ack_example)
  then have run: "(service_step example_env ^^ 1) ?s ?t" by (simp add: eq_OO)
  have lane: "lane_messages example_env 7 ''/w'' None None (two_mail x w) = [example_message ''m'' 7 1, x]"
    if "wm_session_id x = 7" "wm_workspace x = ''/w''" "wm_seq x = 2" for x w
    using that by (simp add: lane_messages_def two_mail_def dir_list_def in_lane_def workspaces_match_def)
  have x: "example_message ''n'' 7 2 \<in> set (lane_messages example_env 7 ''/w'' None None ?s)"
    by (simp add: lane)
  have a: "wm_session_id acked_message = 7" "wm_workspace acked_message = ''/w''" "wm_seq acked_message = 2"
    by (simp_all add: acked_message_def)
  then obtain p where page: "list_messages example_env 7 ''/w'' 1 None None 10 ?t = (Inr p, ?t)"
    using lane [of acked_message 5]
    by (simp add: list_messages_def op_simps Let_def retained_from_def saturating_pred_def lane_messages_def)
  have "unat (current_seq ?s) + 1 < 2 ^ 64" by (simp add: two_mail_def)
  from no_unnoticed_gap [OF env_examples(1) mail_ok_examples(4) this run x _ _ page] lane [of acked_message 5] a
  show ?thesis using page by auto
qed

lemma in_order_distinct: "in_order xs \<Longrightarrow> distinct xs"
  by (induction xs) auto

lemma newest_kept:
  assumes ord: "in_order xs" and r: "r \<in> set xs" and newest: "\<And>z. z \<in> set xs \<Longrightarrow> z \<noteq> r \<Longrightarrow> wm_seq z < wm_seq r"
  shows "r \<in> set (drop (length xs - MAX_RETAINED_MESSAGES) xs)"
proof -
  obtain ys l where xs: "xs = ys @ [l]" using r by (cases xs rule: rev_cases) auto
  have "l = r"
  proof (rule ccontr)
    assume "l \<noteq> r"
    then have "wm_seq l < wm_seq r" "r \<in> set ys" using newest r xs by auto
    then show False using ord xs by (auto simp: sorted_wrt_append dest: less_asym)
  qed
  then show ?thesis using xs by (auto simp: MAX_RETAINED_MESSAGES_def)
qed

lemma older_dropped:
  assumes ord: "in_order xs" and x: "x \<in> set xs" "x \<notin> set (drop (length xs - n) xs)"
  shows "length (drop (length xs - n) xs) = n \<and> (\<forall>y \<in> set (drop (length xs - n) xs). wm_seq x < wm_seq y)"
proof -
  define a b where "a = take (length xs - n) xs" and "b = drop (length xs - n) xs"
  have ab: "xs = a @ b" by (simp add: a_def b_def)
  have "n \<le> length xs" using x by (cases "n \<le> length xs") auto
  then have "length b = n" by (simp add: b_def)
  moreover have "x \<in> set a" using x ab unfolding b_def [symmetric] by auto
  moreover have "\<forall>y \<in> set b. wm_seq z < wm_seq y" if "z \<in> set a" for z
    using ord that unfolding ab sorted_wrt_append by blast
  ultimately show ?thesis unfolding b_def [symmetric] by blast
qed

definition sent_order :: "work_message \<Rightarrow> mail_store \<Rightarrow> work_message list" where
  "sent_order r s = sort_key wm_seq (dir_list (dir_put (wm_message_id r) r (ml_messages s)))"

lemma set_sent_order:
  "mail_ok s \<Longrightarrow> set (sent_order r s) =
     insert r {x \<in> set (dir_list (ml_messages s)). wm_message_id x \<noteq> wm_message_id r}"
  using set_dir_put [of wm_message_id "ml_messages s" r] by (simp add: sent_order_def mail_ok_def)

lemma send_result:
  assumes rel: "mail_reliable env" and s: "mail_ok s" "current_seq s \<noteq> - 1"
    and run: "send_message env m s = (Inr r, t)"
  defines "kept \<equiv> drop (length (sent_order r s) - MAX_RETAINED_MESSAGES) (sent_order r s)"
  shows "r = m\<lparr>wm_seq := current_seq s + 1\<rparr>" "mail_ok t" "in_order (sent_order r s)"
    "set (dir_list (ml_messages t)) = set kept" "dir_get (ml_messages t) (wm_message_id m) = Some r"
proof -
  show r: "r = m\<lparr>wm_seq := current_seq s + 1\<rparr>" and t: "mail_ok t" "set (dir_list (ml_messages t)) = set kept"
    using wp_result(1) [OF wp_send_reliable [OF rel s, of "{}" m] run] by (auto simp: kept_def sent_order_def)
  have dm: "dir_ok wm_message_id (ml_messages s)" "dir_ok wm_message_id (ml_messages t)"
    using s t by (simp_all add: mail_ok_def)
  have "mail_ok (s\<lparr>ml_seq := Some (decimal (unat (current_seq s + 1))),
      ml_messages := dir_put (wm_message_id r) r (ml_messages s)\<rparr>)"
    by (rule put_next [OF s]) (simp_all add: r)
  from in_order_sort_key [OF mail_distinct [OF this]] show ord: "in_order (sent_order r s)"
    by (simp add: sent_order_def)
  have "wm_seq x < wm_seq r" if "x \<in> set (dir_list (ml_messages s))" for x
    using that s succ_less [OF s(2)] dir_list_get [OF dm(1), of x] r
    by (auto simp: mail_ok_def intro: order.strict_trans1)
  then have "r \<in> set kept"
    unfolding kept_def by (intro newest_kept [OF ord]) (auto simp: set_sent_order [OF s(1)])
  then show "dir_get (ml_messages t) (wm_message_id m) = Some r"
    using dir_list_get [OF dm(2), of r] t(2) r by simp
qed

text \<open>
  C39. Retention keeps the newest. When every write succeeds and the 64-bit numbers are not used up, a send that returns has stored the message under the next
  number; at most 500 messages remain, and one that is gone was older than everything that
  is left, in a mailbox that is full.
\<close>

theorem newest_retained:
  assumes rel: "mail_reliable env" and s: "mail_ok s" "current_seq s \<noteq> - 1"
    and run: "send_message env m s = (Inr r, t)"
  shows "r = m\<lparr>wm_seq := current_seq s + 1\<rparr> \<and> dir_get (ml_messages t) (wm_message_id m) = Some r
    \<and> length (ml_messages t) \<le> MAX_RETAINED_MESSAGES
    \<and> (\<forall>x \<in> set (dir_list (ml_messages s)). wm_message_id x \<noteq> wm_message_id m \<longrightarrow>
         x \<in> set (dir_list (ml_messages t))
         \<or> length (ml_messages t) = MAX_RETAINED_MESSAGES
            \<and> (\<forall>y \<in> set (dir_list (ml_messages t)). wm_seq x < wm_seq y))"
proof -
  note res = send_result [OF rel s run]
  let ?all = "sent_order r s"
  let ?kept = "drop (length ?all - MAX_RETAINED_MESSAGES) ?all"
  have "distinct (dir_list (ml_messages t))" "distinct ?kept"
    using dir_ok_distinct [of wm_message_id "ml_messages t"] in_order_distinct [OF res(3)] res(2)
    by (simp_all add: distinct_map mail_ok_def)
  then have "length (dir_list (ml_messages t)) = length ?kept" using res(4) by (metis distinct_card)
  then have len: "length (ml_messages t) = length ?kept" by (simp add: dir_list_def)
  have "x \<in> set ?kept \<or> length ?kept = MAX_RETAINED_MESSAGES \<and> (\<forall>y \<in> set ?kept. wm_seq x < wm_seq y)"
    if "x \<in> set (dir_list (ml_messages s))" "wm_message_id x \<noteq> wm_message_id m" for x
    using older_dropped [OF res(3), of x] that res(1) by (auto simp: set_sent_order [OF s(1)])
  then show ?thesis using res(1,5) unfolding len res(4) by auto
qed

theorem newest_retained_witness:
  "dir_get (ml_messages one_mail) ''m'' = Some (example_message ''m'' 7 1) \<and> length (ml_messages one_mail) \<le> 500"
proof -
  have "current_seq empty_mail \<noteq> - 1" by (simp add: empty_mail_def)
  from newest_retained [OF env_examples(1) mail_ok_examples(1) this send_example] show ?thesis
    by (simp add: MAX_RETAINED_MESSAGES_def)
qed

text \<open>
  The first acknowledgement stays. An acknowledgement that returns has stored the message
  as acknowledged, by this caller unless someone was earlier; every later acknowledgement by
  anyone in scope returns that same record and writes nothing, and one from outside the lane
  is refused and writes nothing.
\<close>

theorem first_ack_wins:
  assumes ok: "mail_ok s" and run: "ack_message_unlocked env i actor now scope s = (Inr m, t)"
  shows "\<exists>old. dir_get (ml_messages s) i = Some old \<and> dir_get (ml_messages t) i = Some m
    \<and> (m = (if wm_acked_at old = None then old\<lparr>wm_acked_at := Some now, wm_acked_by := Some actor\<rparr> else old))
    \<and> ack_message env i other later t = (Inr m, t)
    \<and> (if wm_session_id m = sid \<and> workspaces_match (me_host env) (wm_workspace m) ws
       then ack_message_scoped env i other later sid ws t = (Inr m, t)
       else ack_message_scoped env i other later sid ws t
              = (Inl (orch_error_new ForbiddenScope ''message is out of scope''), t))"
proof -
  obtain k where k: "safe_id_filename i = Inr k"
    using run by (cases "safe_id_filename i")
      (auto simp: ack_message_unlocked_def load_message_def bindE_def lift_def)
  then have i: "safe_id_filename i = Inr i" using safe_id_filename_same by simp
  obtain old where old: "dir_get (ml_messages s) i = Some old"
    using run i by (cases "dir_get (ml_messages s) i")
      (auto simp: ack_message_unlocked_def load_message_def bindE_def lift_def gets_def some_or_def raise_def)
  have m: "m = (if wm_acked_at old = None then old\<lparr>wm_acked_at := Some now, wm_acked_by := Some actor\<rparr> else old)"
    "dir_get (ml_messages t) i = Some m"
    using run i old
    by (auto simp: ack_message_unlocked_def load_message_def bindE_def thenE_def lift_def gets_def some_or_def raise_def
        ret_def part_durable_def Let_def split: if_splits write_outcome.splits)
  then have acked: "wm_acked_at m \<noteq> None" by auto
  then obtain a where a: "wm_acked_at m = Some a" by blast
  have again: "ack_message_unlocked env i other later sc t =
      (if is_some_and sc (\<lambda>(session_id, workspace). wm_session_id m \<noteq> session_id
            \<or> \<not> workspaces_match (me_host env) (wm_workspace m) workspace)
       then (Inl (orch_error_new ForbiddenScope ''message is out of scope''), t) else (Inr m, t))" for sc
    using i m(2) a
    by (simp add: ack_message_unlocked_def load_message_def bindE_def lift_def gets_def some_or_def raise_def ret_def)
  show ?thesis using old m again by (simp add: ack_message_def ack_message_scoped_def)
qed

theorem first_ack_wins_witness:
  "ack_message_unlocked example_env ''n'' ''eve'' 5 None (two_mail (example_message ''n'' 7 2) 4)
     = (Inr acked_message, two_mail acked_message 5)
   \<and> ack_message example_env ''n'' ''bob'' 9 (two_mail acked_message 5) = (Inr acked_message, two_mail acked_message 5)
   \<and> ack_message_scoped example_env ''n'' ''bob'' 9 8 ''/w'' (two_mail acked_message 5)
     = (Inl (orch_error_new ForbiddenScope ''message is out of scope''), two_mail acked_message 5)"
proof -
  have "wm_session_id acked_message = 7" by (simp add: acked_message_def)
  then show ?thesis
    using first_ack_wins [OF mail_ok_examples(4) ack_example, of "''bob''" 9 8 "''/w''"] ack_example by auto
qed

text \<open>
  A stable identity is sent once. After a send under a caller's own message id has
  returned, sending the same content again returns the stored message and changes nothing,
  and different content under that id is refused as a conflict and changes nothing.
\<close>

theorem stable_message_sent_once:
  assumes rel: "mail_reliable env" and s: "mail_ok s" "current_seq s \<noteq> - 1"
    and run: "send_message_once env m s = (Inr r, t)" and same_id: "wm_message_id m' = wm_message_id m"
  shows "dir_get (ml_messages t) (wm_message_id m) = Some r
    \<and> send_message_once env m t = (Inr r, t)
    \<and> send_message_once env m' t =
        (if same_content r m' then Inr r
         else Inl (orch_error_new Conflict ''stable message identity was replayed with different content''), t)"
proof -
  obtain k where "safe_id_filename (wm_message_id m) = Inr k"
    using run by (cases "safe_id_filename (wm_message_id m)")
      (auto simp: send_message_once_def load_message_def bindE_def lift_def)
  then have k: "safe_id_filename (wm_message_id m) = Inr (wm_message_id m)" using safe_id_filename_same by simp
  have r: "dir_get (ml_messages t) (wm_message_id m) = Some r \<and> same_content r m"
  proof (cases "dir_get (ml_messages s) (wm_message_id m)")
    case None
    then have "send_message env m s = (Inr r, t)"
      using run k by (simp add: send_message_once_def load_message_def bindE_def lift_def gets_def)
    from send_result(1,5) [OF rel s this] show ?thesis by (auto simp: same_content_def)
  next
    case (Some old)
    then show ?thesis using run k
      by (auto simp: send_message_once_def load_message_def bindE_def lift_def gets_def raise_def ret_def split: if_splits)
  qed
  have "send_message_once env w t =
      (if same_content r w then Inr r
       else Inl (orch_error_new Conflict ''stable message identity was replayed with different content''), t)"
    if "wm_message_id w = wm_message_id m" for w
    using r k that by (auto simp: send_message_once_def load_message_def bindE_def lift_def gets_def raise_def ret_def)
  then show ?thesis using r same_id by simp
qed

lemma send_once_example:
  "send_message_once example_env (example_message ''m'' 7 0) empty_mail = (Inr (example_message ''m'' 7 1), one_mail)"
proof -
  have "load_message ''m'' empty_mail = (Inr None, empty_mail)"
    by (simp add: load_message_def op_simps mail_names empty_mail_def)
  then show ?thesis by (simp add: send_message_once_def bindE_def send_example)
qed

theorem stable_message_sent_once_witness:
  "send_message_once example_env (example_message ''m'' 7 0) one_mail = (Inr (example_message ''m'' 7 1), one_mail)
   \<and> send_message_once example_env ((example_message ''m'' 7 0)\<lparr>wm_body := ''bye''\<rparr>) one_mail
     = (Inl (orch_error_new Conflict ''stable message identity was replayed with different content''), one_mail)"
proof -
  have "current_seq empty_mail \<noteq> - 1" by (simp add: empty_mail_def)
  moreover have "\<not> same_content (example_message ''m'' 7 1) ((example_message ''m'' 7 0)\<lparr>wm_body := ''bye''\<rparr>)"
    by (simp add: same_content_def example_message_def)
  ultimately show ?thesis
    using stable_message_sent_once [OF env_examples(1) mail_ok_examples(1) _ send_once_example,
        of "(example_message ''m'' 7 0)\<lparr>wm_body := ''bye''\<rparr>"] by simp
qed

text \<open>
  The names under which a payload must not carry a value, and equality of names up to the case of
  the 26 letters, written without the functions of the code.
\<close>

definition letter_pairs :: "(char \<times> char) list" where
  "letter_pairs = zip ''ABCDEFGHIJKLMNOPQRSTUVWXYZ'' ''abcdefghijklmnopqrstuvwxyz''"

definition same_letter :: "char \<Rightarrow> char \<Rightarrow> bool" where
  "same_letter a b \<longleftrightarrow> a = b \<or> (a, b) \<in> set letter_pairs \<or> (b, a) \<in> set letter_pairs"

definition names_secret :: "string \<Rightarrow> bool" where
  "names_secret key \<longleftrightarrow>
     (\<exists>name \<in> set [''token'', ''password'', ''secret'', ''authorization'', ''api_key'', ''apikey'', ''bearer''].
        list_all2 same_letter key name)"

text \<open>A payload in which no secret is left at any depth.\<close>

fun no_secret :: "json \<Rightarrow> bool" where
  "no_secret (J_Object kvs) \<longleftrightarrow>
     (\<forall>(key, child) \<in> set kvs. if names_secret key then child = J_String ''[redacted]'' else no_secret child)"
| "no_secret (J_Array items) \<longleftrightarrow> (\<forall>j \<in> set items. no_secret j)"
| "no_secret _ \<longleftrightarrow> True"

lemma pair_of_uppercase:
  assumes "is_ascii_uppercase a"
  shows "\<exists>b. (a, b) \<in> set letter_pairs"
proof -
  from assms have "(of_char a :: nat) \<in> set [65..<91]"
    unfolding set_upt by (simp add: is_ascii_uppercase_def less_eq_char_def)
  then have "char_of (of_char a :: nat) \<in> char_of ` set [65..<(91 :: nat)]" by (rule imageI)
  also have "char_of ` set [65..<(91 :: nat)] = fst ` set letter_pairs"
    by (simp add: letter_pairs_def upt_rec char_of_def bit_numeral_rec bit_Suc_0_iff)
  finally show ?thesis by auto
qed

lemma letter_pair: "(a, b) \<in> set letter_pairs \<Longrightarrow> to_ascii_lower a = b \<and> is_ascii_uppercase a"
proof -
  have "list_all (\<lambda>(a, b). to_ascii_lower a = b \<and> is_ascii_uppercase a) letter_pairs"
    by (simp add: letter_pairs_def to_ascii_lower_def is_ascii_uppercase_def less_eq_char_def char_of_def
        bit_numeral_rec bit_Suc_0_iff)
  then show "(a, b) \<in> set letter_pairs \<Longrightarrow> to_ascii_lower a = b \<and> is_ascii_uppercase a"
    by (auto simp: list_all_iff)
qed

lemma same_letter_lower:
  assumes b: "\<not> is_ascii_uppercase b"
  shows "same_letter a b \<longleftrightarrow> to_ascii_lower a = b"
proof (cases "is_ascii_uppercase a")
  case True
  then show ?thesis using b pair_of_uppercase letter_pair unfolding same_letter_def by metis
next
  case False
  then show ?thesis using b letter_pair unfolding same_letter_def to_ascii_lower_def by auto
qed

lemma secret_key_names: "secret_key key = names_secret key"
proof -
  have "list_all2 same_letter key name \<longleftrightarrow> map to_ascii_lower key = name"
    if "list_all (\<lambda>b. \<not> is_ascii_uppercase b) name" for name
    using that
  proof (induction key name rule: list_induct2')
    case (4 a as b bs)
    then show ?case using same_letter_lower [of b a] by simp
  qed simp_all
  then show ?thesis
    by (simp add: secret_key_def names_secret_def is_ascii_uppercase_def less_eq_char_def)
qed

lemma redact_no_secret: "no_secret (redact_value j)"
  by (induction j rule: redact_value.induct) (auto simp: secret_key_names)

lemma redact_fixpoint: "redact_value j = j \<longleftrightarrow> no_secret j"
proof (induction j rule: redact_value.induct)
  case (1 kvs)
  have "map (\<lambda>(key, child). (key, if secret_key key then J_String ''[redacted]'' else redact_value child)) kvs = kvs
      \<longleftrightarrow> (\<forall>(key, child) \<in> set kvs. if secret_key key then child = J_String ''[redacted]'' else redact_value child = child)"
    by (induction kvs) auto
  then show ?case using 1 by (auto simp: secret_key_names split: if_splits)
next
  case (2 items)
  then show ?case by (simp add: map_idI list_eq_iff_nth_eq) (metis in_set_conv_nth)
qed simp_all

text \<open>
  C28. No secret enters the mailbox through a payload. In a message built by \<open>WorkMessage::new\<close>, at
  every depth of the payload, the value under a key that names a secret, in any case of its
  letters, is \<open>[redacted]\<close>; payloads without such keys are kept as they are, and the
  message passes its own validation.
\<close>

theorem payload_redacted:
  assumes "message_new env i kind actor from_agent to_agent sid ws work body payload now = Inr m"
  shows "message_validate env m = Inr ()
    \<and> (case payload of None \<Rightarrow> wm_payload m = None
       | Some p \<Rightarrow> (\<exists>q. wm_payload m = Some q \<and> no_secret q \<and> (no_secret p \<longrightarrow> q = p)))"
proof -
  obtain q where q: "redact_message_payload env payload = Inr q" "wm_payload m = q" "message_validate env m = Inr ()"
    using assms by (auto simp: message_new_def rbind_ok Let_def)
  then have "q = map_option redact_value payload"
    by (auto simp: redact_message_payload_def split: option.splits if_splits)
  then show ?thesis using q redact_no_secret redact_fixpoint by (auto split: option.split)
qed

theorem payload_redacted_witness:
  "\<exists>m q. message_new example_env ''m'' MK_Status ''bob'' None None 7 ''/w'' None ''hi''
        (Some (J_Object [(''Token'', J_String ''s3cret''), (''n'', J_Null)])) 0 = Inr m
      \<and> wm_payload m = Some q \<and> no_secret q"
proof -
  let ?p = "J_Object [(''Token'', J_String ''s3cret''), (''n'', J_Null)]"
  obtain m where m: "message_new example_env ''m'' MK_Status ''bob'' None None 7 ''/w'' None ''hi'' (Some ?p) 0 = Inr m"
    by (simp add: message_new_def redact_message_payload_def example_env_def message_validate_def message_text_ok_def
        rbind_ok Let_def MESSAGE_SCHEMA_VERSION_def MAX_MESSAGE_ACTOR_BYTES_def MAX_MESSAGE_BODY_BYTES_def
        MAX_MESSAGE_PAYLOAD_BYTES_def NUL_def)
  from payload_redacted [OF m] m show ?thesis by auto
qed

subsection \<open>Two ways to miss a message\<close>

text \<open>
  The refusal of an expired cursor is skipped when the lane has no message left. In the
  mailbox below a reader of lane 7 has read up to number 1; message 2 is waiting for it when
  lane 8 fills the store. One more message of lane 8 prunes message 2, and the reader's next
  call answers with an empty page instead of \<open>CursorExpired\<close>.
\<close>

definition lane8 :: "nat \<Rightarrow> (string, work_message) dir" where
  "lane8 m = map (\<lambda>n. (decimal n, example_message (decimal n) 8 (of_nat n))) [3..<m]"

definition full_mail :: mail_store where
  "full_mail =
     \<lparr>ml_ledger = empty_ledger, ml_messages = (''a'', example_message ''a'' 7 2) # lane8 502,
      ml_seq = Some (decimal 501)\<rparr>"

definition pruned_mail :: mail_store where
  "pruned_mail =
     \<lparr>ml_ledger = empty_ledger\<lparr>lg_writes := 3\<rparr>, ml_messages = lane8 502 @ [(''n'', example_message ''n'' 8 502)],
      ml_seq = Some (decimal 502)\<rparr>"

lemma decimal_inj: "decimal a = decimal b \<longleftrightarrow> a = b"
  by (metis digits_value_decimal)

lemma decimal_no_letter: "decimal n \<noteq> ''a''" "decimal n \<noteq> ''n''"
  using decimal_digits [of n] by (auto simp: is_ascii_digit_def less_eq_char_def)

lemma current_full: "current_seq full_mail = 501"
  using current_seq_decimal [of 501 full_mail] by (simp add: full_mail_def current_seq_def)

lemma update_fresh: "k \<notin> fst ` set d \<Longrightarrow> AList.update k v d = d @ [(k, v)]"
  by (induction d) auto

lemma lane8_facts:
  "length (lane8 m) = m - 3" "x \<in> snd ` set (lane8 m) \<Longrightarrow> wm_session_id x = 8"
  "''n'' \<notin> fst ` set (lane8 m)" "''a'' \<notin> fst ` set (lane8 m)"
  by (auto simp: lane8_def decimal_no_letter decimal_no_letter [symmetric])

lemma sort_lane8:
  assumes "m < 2 ^ 64" and "2 \<le> m"
  shows "sort_key wm_seq (example_message ''a'' 7 2 # map snd (lane8 m) @ [example_message ''n'' 8 (of_nat m)])
    = example_message ''a'' 7 2 # map snd (lane8 m) @ [example_message ''n'' 8 (of_nat m)]"
proof (rule sort_key_id_if_sorted)
  have "unat (of_nat n :: u64) = n" if "n \<le> m" for n
    using that assms by (simp add: unat_of_nat)
  then have le: "(of_nat a :: u64) \<le> of_nat b \<longleftrightarrow> a \<le> b" if "a \<le> m" "b \<le> m" for a b
    using that by (simp add: word_le_nat_alt)
  have "sorted (map (of_nat :: nat \<Rightarrow> u64) [3..<m])"
    unfolding sorted_map by (rule sorted_wrt_mono_rel [OF _ sorted_wrt_upt]) (simp add: le)
  then show "sorted (map wm_seq (example_message ''a'' 7 2 # map snd (lane8 m) @ [example_message ''n'' 8 (of_nat m)]))"
    using assms(2) le [of 2] le [of _ m] by (auto simp: lane8_def comp_def sorted_append)
qed

lemma example_outcome [simp]: "durable_outcome (me_host example_env) n = Written"
  by (simp add: example_env_def)

lemma send_full:
  "send_message example_env (example_message ''n'' 8 0) full_mail = (Inr (example_message ''n'' 8 502), pruned_mail)"
proof -
  let ?put = "(''a'', example_message ''a'' 7 2) # lane8 502 @ [(''n'', example_message ''n'' 8 502)]"
  have put: "dir_put ''n'' (example_message ''n'' 8 502) ((''a'', example_message ''a'' 7 2) # lane8 502) = ?put"
    using lane8_facts(3) [of 502] by (simp add: dir_put_def update_fresh)
  have del: "dir_del ''a'' ?put = lane8 502 @ [(''n'', example_message ''n'' 8 502)]"
  proof -
    have "filter (\<lambda>(k', _). ''a'' \<noteq> k') (lane8 502) = lane8 502"
      using lane8_facts(4) [of 502] by (force simp: filter_id_conv)
    then show ?thesis by (simp add: dir_del_def AList.delete_eq)
  qed
  have prune: "prune_messages example_env \<lparr>ml_ledger = l, ml_messages = ?put, ml_seq = q\<rparr>
      = (Inr (), \<lparr>ml_ledger = l\<lparr>lg_writes := Suc (lg_writes l)\<rparr>,
           ml_messages = lane8 502 @ [(''n'', example_message ''n'' 8 502)], ml_seq = q\<rparr>)" for l q
    using sort_lane8 [of 502] del lane8_facts(1) [of 502]
    by (simp add: prune_messages_def op_simps dir_list_def MAX_RETAINED_MESSAGES_def remove_message_def mail_names
          part_durable_def count_write_in_def)
  show ?thesis
    using current_full
    by (simp add: send_message_def example_message_valid NUL_def next_message_seq_def write_seq_def thenE_def bindE_def
          gets_def ret_def lift_def put_message_def part_durable_def mail_names count_write_in_def Let_def)
       (simp add: full_mail_def put prune pruned_mail_def count_write_in_def empty_ledger_def)
qed

theorem pruned_lane_goes_unnoticed:
  "dir_get (ml_messages full_mail) ''a'' = Some (example_message ''a'' 7 2)
   \<and> snd (send_message example_env (example_message ''n'' 8 0) full_mail) = pruned_mail
   \<and> dir_get (ml_messages pruned_mail) ''a'' = None
   \<and> list_messages example_env 7 ''/w'' 1 None None 10 pruned_mail
     = (Inr \<lparr>mp_messages = [], mp_next_seq = 1, mp_retained_from_seq = 1\<rparr>, pruned_mail)"
proof -
  have "filter (in_lane h 7 ''/w'' None None) (map snd (lane8 502)) = []" for h
    using lane8_facts(2) [of _ 502] by (fastforce simp: filter_empty_conv in_lane_def)
  then have "list_messages example_env 7 ''/w'' 1 None None 10 pruned_mail
     = (Inr \<lparr>mp_messages = [], mp_next_seq = 1, mp_retained_from_seq = 1\<rparr>, pruned_mail)"
    by (simp add: list_messages_def op_simps Let_def pruned_mail_def dir_list_def in_lane_def last_seq_or_def
          retained_from_def saturating_pred_def)
  moreover have "dir_get (ml_messages pruned_mail) ''a'' = None"
    using lane8_facts(4) [of 502] by (simp add: pruned_mail_def dir_get_def map_of_eq_None_iff)
  ultimately show ?thesis using send_full by (simp add: full_mail_def dir_get_def)
qed

text \<open>
  The sequence file is rewritten in place. When that write is cut short after truncating the
  file, the send fails, and the next one reads an empty file and starts again from number 1,
  below the numbers in use: two messages share a number, and a reader whose cursor stands at
  1 is not shown the new one.
\<close>

definition torn_env :: mail_env where
  "torn_env = example_env\<lparr>me_host := exact_host\<lparr>durable_outcome := (\<lambda>n. if n = 2 then NotWritten else Written)\<rparr>,
     me_text_cut := (\<lambda>_. Some 0)\<rparr>"

lemma torn_seq [simp]: "current_seq \<lparr>ml_ledger = l, ml_messages = d, ml_seq = Some []\<rparr> = 0"
proof -
  have "strip_seqs ws [] = []" for ws by (subst strip_seqs.simps) (auto split: option.split dest: find_Some_iff [THEN iffD1])
  then have "trim [] = []" by (simp add: trim_def trim_start_def trim_end_def)
  then show ?thesis by (simp add: current_seq_def parse_u64_def)
qed

theorem torn_sequence_hides_message:
  "\<exists>s1 s2. send_message torn_env (example_message ''n'' 7 0) one_mail
        = (Inl (orch_error_new Internal (io_error exact_host)), s1)
     \<and> send_message torn_env (example_message ''n'' 7 0) s1 = (Inr (example_message ''n'' 7 1), s2)
     \<and> dir_list (ml_messages s2) = [example_message ''m'' 7 1, example_message ''n'' 7 1]
     \<and> list_messages torn_env 7 ''/w'' 1 None None 10 s2
        = (Inr \<lparr>mp_messages = [], mp_next_seq = 1, mp_retained_from_seq = 1\<rparr>, s2)"
  by (simp add: send_message_def example_message_valid NUL_def next_message_seq_def write_seq_def op_simps
        put_message_def prune_messages_def part_durable_def mail_names torn_env_def example_env_def count_write_in_def
        Let_def MAX_RETAINED_MESSAGES_def dir_put_def dir_list_def one_mail_def empty_ledger_def
        list_messages_def in_lane_def workspaces_match_def last_seq_or_def retained_from_def saturating_pred_def)

end
