(* ===== verification/Routines.thy ===== *)
theory Routines
  imports Ledger_Store Json_Bounds
begin

section \<open>Routines: triggers, schedules and captured policy\<close>

text \<open>
  \<^verbatim>\<open>orchestration/routine.rs\<close>: a routine is a trigger that makes work eligible; an activation is
  one attempt to do so. This theory holds the records with their validation and the pure
  scheduling functions; the store's part is \<open>Routine_Store\<close>.

  Time zones come from the library \<^verbatim>\<open>chrono_tz\<close> and are fields of \<open>routine_env\<close>: which names it
  knows, the local date of an instant (days since 1970-01-01), the instant of a wall-clock time
  on a date (none in a gap, two in an overlap), which dates it can represent, and the text of
  an instant with milliseconds. Instants are integers in nanoseconds, without the limits of
  \<^verbatim>\<open>chrono\<close>'s range (an instant some 262000 years away makes the code panic). The casts of the
  interval computation are written out at their width.
\<close>

datatype local_result = LR_Single time | LR_None | LR_Ambiguous time time

record routine_env =
  re_host :: host
  re_json_len :: "json \<Rightarrow> nat"
  re_zone_known :: "string \<Rightarrow> bool"
  re_local_date :: "string \<Rightarrow> time \<Rightarrow> int"
  re_from_local :: "string \<Rightarrow> int \<Rightarrow> nat \<Rightarrow> nat \<Rightarrow> local_result"
  re_date_ok :: "int \<Rightarrow> bool"
  re_rfc3339_ms :: "time \<Rightarrow> string"

definition ROUTINE_SCHEMA_VERSION :: nat where "ROUTINE_SCHEMA_VERSION = 1"
definition MAX_ROUTINE_NAME_BYTES :: nat where "MAX_ROUTINE_NAME_BYTES = 128"
definition MAX_ROUTINE_PAYLOAD_BYTES :: nat where "MAX_ROUTINE_PAYLOAD_BYTES = 8 * 1024"
definition MAX_ROUTINE_ACTOR_BYTES :: nat where "MAX_ROUTINE_ACTOR_BYTES = 256"
definition MAX_ROUTINE_TIMEZONE_BYTES :: nat where "MAX_ROUTINE_TIMEZONE_BYTES = 64"
definition MAX_ACTIVATION_HISTORY :: nat where "MAX_ACTIVATION_HISTORY = 128"
definition MAX_CATCH_UP_OCCURRENCES :: nat where "MAX_CATCH_UP_OCCURRENCES = 8"
definition MAX_ROUTINE_INTERVAL_MS :: nat where "MAX_ROUTINE_INTERVAL_MS = 30 * 24 * 60 * 60 * 1000"
definition MIN_ROUTINE_INTERVAL_MS :: nat where "MIN_ROUTINE_INTERVAL_MS = 1000"
definition MAX_BACKOFF_MS :: nat where "MAX_BACKOFF_MS = 60 * 60 * 1000"

subsection \<open>Bounded text\<close>

definition validate_bounded :: "string \<Rightarrow> nat \<Rightarrow> string \<Rightarrow> unit result" where
  "validate_bounded value max_bytes field =
     reject (value = [] \<or> length value > max_bytes \<or> NUL \<in> set value)
       (invalid (field @ '' is empty or exceeds its bound''))"

definition validate_routine_id :: "string \<Rightarrow> string \<Rightarrow> unit result" where
  "validate_routine_id value field =
     reject (value = [] \<or> length value > 256 \<or> str_contains value ''..'' \<or> CHR ''/'' \<in> set value
             \<or> BACKSLASH \<in> set value \<or> NUL \<in> set value)
       (invalid (field @ '' is empty or invalid''))"

definition parse_timezone :: "routine_env \<Rightarrow> string \<Rightarrow> string result" where
  "parse_timezone env name =
     rbind (validate_bounded name MAX_ROUTINE_TIMEZONE_BYTES ''timezone'') (\<lambda>_.
       if re_zone_known env name then Inr name else Inl (invalid (''unknown timezone '' @ name)))"

subsection \<open>Triggers\<close>

datatype routine_lifecycle = RL_Enabled | RL_Paused | RL_Disabled

fun allows_scheduled_fire :: "routine_lifecycle \<Rightarrow> bool" where
  "allows_scheduled_fire RL_Enabled = True"
| "allows_scheduled_fire _ = False"

fun allows_manual_fire :: "routine_lifecycle \<Rightarrow> bool" where
  "allows_manual_fire RL_Disabled = False"
| "allows_manual_fire _ = True"

datatype missed_run_policy = MR_Skip | MR_Coalesce | MR_CatchUp

datatype external_adapter_kind = XA_Webhook | XA_GitHub | XA_Message

datatype routine_trigger =
    RT_Manual
  | RT_OneShot time "time option"
  | RT_Interval nat string time
  | RT_Calendar string nat nat "nat option"
  | RT_External external_adapter_kind

fun adapter_as_str :: "external_adapter_kind \<Rightarrow> string" where
  "adapter_as_str XA_Webhook = ''webhook''"
| "adapter_as_str XA_GitHub = ''github''"
| "adapter_as_str XA_Message = ''message''"

fun kind_name :: "routine_trigger \<Rightarrow> string" where
  "kind_name RT_Manual = ''manual''"
| "kind_name (RT_OneShot _ _) = ''one_shot''"
| "kind_name (RT_Interval _ _ _) = ''interval''"
| "kind_name (RT_Calendar _ _ _ _) = ''calendar''"
| "kind_name (RT_External _) = ''external''"

fun timezone_name :: "routine_trigger \<Rightarrow> string" where
  "timezone_name (RT_Interval _ timezone _) = timezone"
| "timezone_name (RT_Calendar timezone _ _ _) = timezone"
| "timezone_name _ = ''UTC''"

fun trigger_validate :: "routine_env \<Rightarrow> routine_trigger \<Rightarrow> unit result" where
  "trigger_validate env RT_Manual = Inr ()"
| "trigger_validate env (RT_External _) = Inr ()"
| "trigger_validate env (RT_OneShot at expires_at) =
     reject (is_some_and expires_at (\<lambda>expires. expires < at)) (invalid ''one-shot expires_at precedes at'')"
| "trigger_validate env (RT_Interval every_ms timezone anchor) =
     (if every_ms < MIN_ROUTINE_INTERVAL_MS \<or> every_ms > MAX_ROUTINE_INTERVAL_MS
      then Inl (invalid ''interval.every_ms must be between 1000 and 2592000000'')
      else rbind (parse_timezone env timezone) (\<lambda>_. Inr ()))"
| "trigger_validate env (RT_Calendar timezone hour minute weekday) =
     (if hour > 23 \<or> minute > 59 then Inl (invalid ''calendar hour/minute is out of range'')
      else if is_some_and weekday (\<lambda>day. day > 6)
      then Inl (invalid ''calendar.weekday must be 0-6 (Monday-Sunday)'')
      else rbind (parse_timezone env timezone) (\<lambda>_. Inr ()))"

text \<open>\<open>as i64\<close> and \<open>as i32\<close> keep the low bits.\<close>

definition as_i64 :: "int \<Rightarrow> int" where
  "as_i64 n = (n + 2 ^ 63) mod 2 ^ 64 - 2 ^ 63"

definition as_i32 :: "int \<Rightarrow> int" where
  "as_i32 n = (n + 2 ^ 31) mod 2 ^ 32 - 2 ^ 31"

definition span_ms :: "int \<Rightarrow> time" where
  "span_ms n = n * 1000000"

definition resolve_local_wall :: "routine_env \<Rightarrow> string \<Rightarrow> int \<Rightarrow> nat \<Rightarrow> nat \<Rightarrow> time option" where
  "resolve_local_wall env tz date hour minute =
     (if hour > 23 \<or> minute > 59 then None
      else case re_from_local env tz date hour minute of
             LR_Single t \<Rightarrow> Some t
           | LR_None \<Rightarrow> None
           | LR_Ambiguous earliest _ \<Rightarrow> Some earliest)"

text \<open>Monday is 0; day 0 of the count, 1970-01-01, was a Thursday.\<close>

definition weekday_monday0 :: "int \<Rightarrow> nat" where
  "weekday_monday0 date = nat ((date + 3) mod 7)"

fun calendar_scan ::
  "routine_env \<Rightarrow> string \<Rightarrow> nat \<Rightarrow> nat \<Rightarrow> nat option \<Rightarrow> time \<Rightarrow> int \<Rightarrow> nat list \<Rightarrow> time option" where
  "calendar_scan env tz hour minute weekday after start_date [] = None"
| "calendar_scan env tz hour minute weekday after start_date (offset # offsets) =
     (let date = start_date + int offset in
      if \<not> re_date_ok env date then None
      else if is_some_and weekday (\<lambda>wanted. weekday_monday0 date \<noteq> wanted)
      then calendar_scan env tz hour minute weekday after start_date offsets
      else case resolve_local_wall env tz date hour minute of
             None \<Rightarrow> calendar_scan env tz hour minute weekday after start_date offsets
           | Some utc \<Rightarrow>
               if utc > after then Some utc
               else calendar_scan env tz hour minute weekday after start_date offsets)"

definition next_calendar_after ::
  "routine_env \<Rightarrow> string \<Rightarrow> nat \<Rightarrow> nat \<Rightarrow> nat option \<Rightarrow> time \<Rightarrow> time option result" where
  "next_calendar_after env tz hour minute weekday after =
     (case calendar_scan env tz hour minute weekday after (re_local_date env tz after) [0..<400] of
        Some utc \<Rightarrow> Inr (Some utc)
      | None \<Rightarrow> Inl (invalid ''could not compute the next calendar fire time''))"

fun next_after :: "routine_env \<Rightarrow> routine_trigger \<Rightarrow> time \<Rightarrow> time option result" where
  "next_after env RT_Manual after = Inr None"
| "next_after env (RT_External _) after = Inr None"
| "next_after env (RT_OneShot at expires_at) after =
     Inr (if at > after \<and> \<not> is_some_and expires_at (\<lambda>expires. expires < at) then Some at else None)"
| "next_after env (RT_Interval every_ms timezone anchor) after =
     rbind (parse_timezone env timezone) (\<lambda>_.
       let step = as_i64 (int every_ms) in
       if step \<le> 0 then Inl (invalid ''interval step is invalid'')
       else if anchor > after then Inr (Some anchor)
       else
         let steps = (after - anchor) div 1000000 div step + 1
         in Inr (Some (anchor + span_ms (step * as_i32 steps))))"
| "next_after env (RT_Calendar timezone hour minute weekday) after =
     rbind (parse_timezone env timezone) (\<lambda>tz. next_calendar_after env tz hour minute weekday after)"

fun initial_next_fire :: "routine_env \<Rightarrow> routine_trigger \<Rightarrow> time \<Rightarrow> time option result" where
  "initial_next_fire env RT_Manual now = Inr None"
| "initial_next_fire env (RT_External _) now = Inr None"
| "initial_next_fire env (RT_OneShot at expires_at) now =
     Inr (if is_some_and expires_at (\<lambda>expires. expires < now) then None else Some at)"
| "initial_next_fire env trigger now = next_after env trigger (now - span_ms 1)"

function occurrences_loop ::
  "routine_env \<Rightarrow> routine_trigger \<Rightarrow> time \<Rightarrow> nat \<Rightarrow> time list \<Rightarrow> time \<Rightarrow> time list result" where
  "occurrences_loop env trigger through limit out cursor =
     (if length out < limit then
        rbind (next_after env trigger cursor) (\<lambda>found.
          case found of
            None \<Rightarrow> Inr out
          | Some nxt \<Rightarrow>
              if nxt > through then Inr out
              else if nxt \<le> cursor then Inr out
              else occurrences_loop env trigger through limit (out @ [nxt]) nxt)
      else Inr out)"
  by pat_completeness auto
termination
  by (relation "measure (\<lambda>(env, trigger, through, limit, out, cursor). limit - length out)") auto

declare occurrences_loop.simps [simp del]

definition first_occurrence :: "routine_env \<Rightarrow> routine_trigger \<Rightarrow> time \<Rightarrow> time \<Rightarrow> time option result" where
  "first_occurrence env trigger from through =
     (case trigger of
        RT_OneShot at _ \<Rightarrow> Inr (if at \<ge> from \<and> at \<le> through then Some at else None)
      | _ \<Rightarrow>
          rbind (next_after env trigger (from - span_ms 1)) (\<lambda>found.
            if found = Some from then Inr (Some from)
            else Inr (case found of
                        Some instant \<Rightarrow> if instant \<ge> from then Some instant else None
                      | None \<Rightarrow> None)))"

definition occurrences_through ::
  "routine_env \<Rightarrow> routine_trigger \<Rightarrow> time \<Rightarrow> time \<Rightarrow> nat \<Rightarrow> time list result" where
  "occurrences_through env trigger from through limit =
     (if through < from \<or> limit = 0 then Inr []
      else rbind (first_occurrence env trigger from through) (\<lambda>first.
        case first of
          Some f \<Rightarrow>
            if f \<le> through then occurrences_loop env trigger through limit [f] f
            else occurrences_loop env trigger through limit [] from
        | None \<Rightarrow> occurrences_loop env trigger through limit [] from))"

subsection \<open>Policies and templates\<close>

record routine_retry_policy =
  rr_backoff_ms :: nat
  rr_max_backoff_ms :: nat
  rr_circuit_failures :: nat

definition routine_retry_validate :: "routine_retry_policy \<Rightarrow> unit result" where
  "routine_retry_validate p = first_err
     [reject (rr_backoff_ms p = 0 \<or> rr_backoff_ms p > MAX_BACKOFF_MS) (invalid ''retry.backoff_ms is out of range''),
      reject (rr_max_backoff_ms p < rr_backoff_ms p \<or> rr_max_backoff_ms p > MAX_BACKOFF_MS)
        (invalid ''retry.max_backoff_ms is out of range''),
      reject (rr_circuit_failures p = 0 \<or> rr_circuit_failures p > 32)
        (invalid ''retry.circuit_failures must be between 1 and 32'')]"

definition delay_after :: "routine_retry_policy \<Rightarrow> nat \<Rightarrow> time" where
  "delay_after p consecutive_failures =
     (let shift = min (consecutive_failures - 1) 10;
          scaled = min (rr_backoff_ms p * 2 ^ shift) (2 ^ 64 - 1)
      in span_ms (int (min scaled (rr_max_backoff_ms p))))"

definition concurrency_validate :: "nat \<Rightarrow> unit result" where
  "concurrency_validate max_in_flight =
     reject (max_in_flight = 0 \<or> max_in_flight > 8) (invalid ''concurrency.max_in_flight must be between 1 and 8'')"

record work_template =
  wt_kind :: string
  wt_objective :: string
  wt_priority :: int
  wt_policy :: work_policy

definition template_validate :: "work_template \<Rightarrow> unit result" where
  "template_validate t = first_err
     [reject (wt_kind t = [] \<or> length (wt_kind t) > 96 \<or> NUL \<in> set (wt_kind t))
        (invalid ''work template kind is empty or exceeds its bound''),
      reject (wt_objective t = [] \<or> length (wt_objective t) > 32 * 1024 \<or> NUL \<in> set (wt_objective t))
        (invalid ''work template objective is empty or exceeds its bound''),
      work_policy_validate (wt_policy t)]"

record captured_activation_policy =
  cp_routine_revision :: u64
  cp_agent_id :: "string option"
  cp_agent_spec_revision :: "u64 option"
  cp_run_bounds :: run_bounds
  cp_work_policy :: work_policy
  cp_sandbox_profile :: string
  cp_computer_use_allowed :: bool
  cp_auto_approve_tools :: bool

definition narrowed_ceiling :: "run_bounds \<Rightarrow> run_bounds \<Rightarrow> run_bounds" where
  "narrowed_ceiling agent server =
     \<lparr>rb_max_prompt_bytes = min (rb_max_prompt_bytes agent) (rb_max_prompt_bytes server),
      rb_max_rounds = min (rb_max_rounds agent) (rb_max_rounds server),
      rb_max_duration_ms = min (rb_max_duration_ms agent) (rb_max_duration_ms server),
      rb_max_total_tokens =
        (case (rb_max_total_tokens agent, rb_max_total_tokens server) of
           (Some a, Some s) \<Rightarrow> Some (min a s)
         | (Some a, None) \<Rightarrow> Some a
         | (None, s) \<Rightarrow> s)\<rparr>"

definition capture ::
  "u64 \<Rightarrow> string option \<Rightarrow> agent_spec option \<Rightarrow> work_template \<Rightarrow> run_bounds
     \<Rightarrow> captured_activation_policy result" where
  "capture routine_revision agent_id spec template server_ceiling =
     (let agent_bounds = (case spec of Some sp \<Rightarrow> as_default_run_bounds sp | None \<Rightarrow> server_ceiling) in
      rbind (merge_bounds (narrowed_ceiling agent_bounds server_ceiling)
               (Some (bounds_value (wp_bounds (wt_policy template))))) (\<lambda>run_bounds.
      let work_policy = (wt_policy template)\<lparr>wp_bounds := run_bounds\<rparr> in
      rbind (work_policy_validate work_policy) (\<lambda>_.
      Inr \<lparr>cp_routine_revision = routine_revision, cp_agent_id = agent_id,
           cp_agent_spec_revision = map_option as_revision spec, cp_run_bounds = run_bounds,
           cp_work_policy = work_policy,
           cp_sandbox_profile = (case spec of Some sp \<Rightarrow> aa_sandbox_profile (as_authority sp)
                                 | None \<Rightarrow> ''workspace-write''),
           cp_computer_use_allowed = False, cp_auto_approve_tools = False\<rparr>)))"

subsection \<open>Routines and activations\<close>

record routine_record =
  rt_schema_version :: nat
  rt_routine_id :: string
  rt_name :: string
  rt_agent_id :: string
  rt_session_id :: uuid
  rt_workspace :: string
  rt_lifecycle :: routine_lifecycle
  rt_trigger :: routine_trigger
  rt_work_template :: work_template
  rt_missed_run_policy :: missed_run_policy
  rt_max_in_flight :: nat
  rt_retry :: routine_retry_policy
  rt_revision :: u64
  rt_next_fire_at :: "time option"
  rt_last_fire_at :: "time option"
  rt_consecutive_failures :: nat
  rt_circuit_open :: bool
  rt_created_by :: string
  rt_created_at :: time
  rt_updated_at :: time

definition routine_validate :: "routine_env \<Rightarrow> routine_record \<Rightarrow> unit result" where
  "routine_validate env r = first_err
     [reject (rt_schema_version r \<noteq> ROUTINE_SCHEMA_VERSION \<or> rt_revision r = 0)
        (invalid ''routine schema version or revision is invalid''),
      validate_routine_id (rt_routine_id r) ''routine_id'',
      validate_bounded (rt_name r) MAX_ROUTINE_NAME_BYTES ''name'',
      validate_routine_id (rt_agent_id r) ''agent_id'',
      validate_bounded (rt_workspace r) (MAX_ROUTINE_ACTOR_BYTES * 4) ''workspace'',
      validate_bounded (rt_created_by r) MAX_ROUTINE_ACTOR_BYTES ''created_by'',
      trigger_validate env (rt_trigger r),
      template_validate (rt_work_template r),
      concurrency_validate (rt_max_in_flight r),
      routine_retry_validate (rt_retry r)]"

definition routine_new ::
  "routine_env \<Rightarrow> string \<Rightarrow> string \<Rightarrow> string \<Rightarrow> uuid \<Rightarrow> string \<Rightarrow> routine_trigger \<Rightarrow> work_template
     \<Rightarrow> missed_run_policy \<Rightarrow> nat \<Rightarrow> routine_retry_policy \<Rightarrow> string \<Rightarrow> time \<Rightarrow> routine_record result" where
  "routine_new env routine_id name agent_id session_id workspace trigger work_template
       missed_run_policy max_in_flight retry created_by now =
     rbind (initial_next_fire env trigger now) (\<lambda>next_fire_at.
     let routine =
       \<lparr>rt_schema_version = ROUTINE_SCHEMA_VERSION, rt_routine_id = routine_id, rt_name = name,
        rt_agent_id = agent_id, rt_session_id = session_id, rt_workspace = workspace,
        rt_lifecycle = RL_Enabled, rt_trigger = trigger, rt_work_template = work_template,
        rt_missed_run_policy = missed_run_policy, rt_max_in_flight = max_in_flight,
        rt_retry = retry, rt_revision = 1, rt_next_fire_at = next_fire_at, rt_last_fire_at = None,
        rt_consecutive_failures = 0, rt_circuit_open = False, rt_created_by = created_by,
        rt_created_at = now, rt_updated_at = now\<rparr>
     in rbind (routine_validate env routine) (\<lambda>_. Inr routine))"

definition routine_bump_at :: "time \<Rightarrow> routine_record \<Rightarrow> routine_record" where
  "routine_bump_at now r = r\<lparr>rt_revision := saturating_succ (rt_revision r), rt_updated_at := now\<rparr>"

datatype activation_disposition =
    AD_CreatedWork | AD_Deduplicated | AD_SkippedPaused | AD_SkippedDisabled | AD_SkippedOverlap
  | AD_SkippedMissed | AD_SkippedExpired | AD_Rejected | AD_Backoff | AD_CircuitOpen

record activation_record =
  av_schema_version :: nat
  av_activation_id :: string
  av_routine_id :: string
  av_routine_revision :: u64
  av_trigger_kind :: string
  av_dedupe_key :: string
  av_scheduled_at :: time
  av_received_at :: time
  av_fired_at :: time
  av_work_id :: "string option"
  av_disposition :: activation_disposition
  av_error :: "string option"
  av_captured_policy :: captured_activation_policy
  av_payload :: "json option"
  av_created_by :: string

definition activation_validate :: "routine_env \<Rightarrow> activation_record \<Rightarrow> unit result" where
  "activation_validate env a = first_err
     [reject (av_schema_version a \<noteq> ROUTINE_SCHEMA_VERSION) (invalid ''activation schema version is invalid''),
      validate_routine_id (av_activation_id a) ''activation_id'',
      validate_routine_id (av_routine_id a) ''activation.routine_id'',
      validate_bounded (av_dedupe_key a) 512 ''dedupe_key'',
      validate_bounded (av_trigger_kind a) 32 ''trigger_kind'',
      validate_bounded (av_created_by a) MAX_ROUTINE_ACTOR_BYTES ''created_by'',
      on_some (av_work_id a) (\<lambda>w. validate_routine_id w ''activation.work_id''),
      on_some (av_error a) (\<lambda>e. validate_bounded e (4 * 1024) ''activation.error''),
      on_some (av_payload a) (\<lambda>p.
        reject (re_json_len env p > MAX_ROUTINE_PAYLOAD_BYTES) (invalid ''activation payload exceeds its bound''))]"

datatype activation_cause = AC_Manual | AC_Scheduled | AC_External

fun cause_str :: "activation_cause \<Rightarrow> string" where
  "cause_str AC_Manual = ''manual''"
| "cause_str AC_Scheduled = ''scheduled''"
| "cause_str AC_External = ''external''"

record activation_request =
  aq_cause :: activation_cause
  aq_dedupe_key :: string
  aq_scheduled_at :: time
  aq_received_at :: time
  aq_payload :: "json option"
  aq_created_by :: string

definition occurrence_dedupe_key :: "routine_env \<Rightarrow> string \<Rightarrow> time \<Rightarrow> string" where
  "occurrence_dedupe_key env routine_id scheduled_at =
     ''sched:'' @ routine_id @ '':'' @ re_rfc3339_ms env scheduled_at"

definition manual_dedupe_key :: "string \<Rightarrow> string \<Rightarrow> string" where
  "manual_dedupe_key routine_id request_id = ''manual:'' @ routine_id @ '':'' @ request_id"

definition is_secret_key :: "string \<Rightarrow> bool" where
  "is_secret_key key =
     (map to_ascii_lower key \<in>
        {''token'', ''access_token'', ''accesstoken'', ''refresh_token'', ''password'', ''secret'',
         ''authorization'', ''api_key'', ''apikey'', ''bearer'', ''cookie'', ''set-cookie''})"

fun redact_activation_payload :: "json \<Rightarrow> json" where
  "redact_activation_payload (J_Object kvs) =
     J_Object (map (\<lambda>(key, child).
       (key, if is_secret_key key then J_String ''[redacted]'' else redact_activation_payload child)) kvs)"
| "redact_activation_payload (J_Array items) = J_Array (map redact_activation_payload items)"
| "redact_activation_payload other = other"

definition validate_activation_payload :: "routine_env \<Rightarrow> json option \<Rightarrow> json option result" where
  "validate_activation_payload env payload =
     (case payload of
        None \<Rightarrow> Inr None
      | Some p \<Rightarrow>
          if re_json_len env p > MAX_ROUTINE_PAYLOAD_BYTES
          then Inl (invalid ''activation payload exceeds 8192 bytes'')
          else Inr (Some (redact_activation_payload p)))"

subsection \<open>What is due\<close>

definition due_occurrences :: "routine_env \<Rightarrow> routine_record \<Rightarrow> time \<Rightarrow> time list result" where
  "due_occurrences env routine now =
     (case rt_next_fire_at routine of
        None \<Rightarrow> Inr []
      | Some due \<Rightarrow>
          if due > now then Inr []
          else (case rt_trigger routine of
            RT_OneShot at expires_at \<Rightarrow>
              Inr (if is_some_and expires_at (\<lambda>expires. expires < now) then [] else [due])
          | trigger \<Rightarrow>
              rbind (occurrences_through env trigger due now (MAX_CATCH_UP_OCCURRENCES + 1)) (\<lambda>missed.
                if missed = [] then Inr [due]
                else Inr (case rt_missed_run_policy routine of
                            MR_Skip \<Rightarrow> if length missed = 1 then missed else []
                          | MR_Coalesce \<Rightarrow> [last missed]
                          | MR_CatchUp \<Rightarrow> drop (length missed - MAX_CATCH_UP_OCCURRENCES) missed))))"

definition in_flight_count :: "work_item list \<Rightarrow> string \<Rightarrow> nat" where
  "in_flight_count items routine_id =
     length (filter (\<lambda>i. wi_source_routine_id i = Some routine_id \<and> \<not> ws_is_terminal (wi_state i)) items)"

definition decide_lifecycle_skip :: "routine_record \<Rightarrow> activation_cause \<Rightarrow> activation_disposition option" where
  "decide_lifecycle_skip routine cause =
     (if rt_circuit_open routine then Some AD_CircuitOpen
      else case rt_lifecycle routine of
             RL_Disabled \<Rightarrow> Some AD_SkippedDisabled
           | RL_Paused \<Rightarrow> (if cause = AC_Manual then None else Some AD_SkippedPaused)
           | RL_Enabled \<Rightarrow> None)"

definition advance_next_fire :: "routine_env \<Rightarrow> routine_trigger \<Rightarrow> time \<Rightarrow> time list \<Rightarrow> time option result" where
  "advance_next_fire env trigger now fired =
     next_after env trigger (max (if fired = [] then now else Max (set fired)) now)"

end
