(* ===== verification/Routine_Store.thy ===== *)
theory Routine_Store
  imports Routines Ledger_Part Ledger_Intents
begin

section \<open>Routines in the store\<close>

text \<open>
  \<^verbatim>\<open>orchestration/store.rs\<close>: saving and loading routines, changing their lifecycle, activating a
  routine, firing what is due, and recovering interrupted activations. \<open>routine_store\<close> is the
  ledger with four more directories: routines, activations by routine, dedupe receipts by
  routine and key, and activation intents. An activation that creates work writes an intent,
  then the work item, the activation and the dedupe receipt, and removes the intent.
\<close>

record dedupe_record =
  dd_dedupe_key :: string
  dd_activation_id :: string
  dd_work_id :: "string option"
  dd_disposition :: "activation_disposition option"
  dd_created_at :: time

record fire_intent =
  fi_routine :: routine_record
  fi_activation :: activation_record
  fi_work :: "work_item option"
  fi_dedupe :: "dedupe_record option"

record routine_store =
  rs_ledger :: ledger
  rs_routines :: "(string, routine_record) dir"
  rs_activations :: "(string \<times> string, activation_record) dir"
  rs_dedupe :: "(string \<times> string, dedupe_record) dir"
  rs_intents :: "(string, fire_intent) dir"

type_synonym 'a routine_op = "(routine_store, orch_error, 'a) op"

interpretation routines: ledger_part rs_ledger rs_ledger_update
  by unfold_locales simp_all

abbreviation in_ledger :: "(ledger, 'e, 'a) op \<Rightarrow> (routine_store, 'e, 'a) op" where
  "in_ledger \<equiv> part_op rs_ledger rs_ledger_update"

abbreviation routine_durable :: "routine_env \<Rightarrow> (routine_store \<Rightarrow> routine_store) \<Rightarrow> unit routine_op" where
  "routine_durable env \<equiv> part_durable rs_ledger rs_ledger_update (re_host env)"

subsection \<open>Files\<close>

definition pair_path :: "string \<Rightarrow> string \<Rightarrow> (string \<times> string) result" where
  "pair_path a b = rbind (safe_id_filename a) (\<lambda>x. rbind (safe_id_filename b) (\<lambda>y. Inr (x, y)))"

definition save_routine :: "routine_env \<Rightarrow> routine_record \<Rightarrow> unit routine_op" where
  "save_routine env routine =
     thenE (lift (routine_validate env routine))
     (bindE (lift (safe_id_filename (rt_routine_id routine))) (\<lambda>k.
        routine_durable env (\<lambda>s. s\<lparr>rs_routines := dir_put k routine (rs_routines s)\<rparr>)))"

definition load_routine :: "routine_env \<Rightarrow> string \<Rightarrow> routine_record option routine_op" where
  "load_routine env routine_id =
     reads (\<lambda>s. case file_get (rs_routines s) routine_id of
                  None \<Rightarrow> Inr None
                | Some r \<Rightarrow> rbind (routine_validate env r) (\<lambda>_. Inr (Some r)))"

fun validate_all :: "('a \<Rightarrow> unit result) \<Rightarrow> 'a list \<Rightarrow> unit result" where
  "validate_all v [] = Inr ()"
| "validate_all v (x # xs) = rbind (v x) (\<lambda>_. validate_all v xs)"

definition list_routines :: "routine_env \<Rightarrow> routine_record list routine_op" where
  "list_routines env =
     reads (\<lambda>s. rbind (validate_all (routine_validate env) (dir_list (rs_routines s))) (\<lambda>_.
       Inr (sort_key (\<lambda>r. - rt_updated_at r) (dir_list (rs_routines s)))))"

definition load_activation :: "routine_env \<Rightarrow> string \<Rightarrow> string \<Rightarrow> activation_record option routine_op" where
  "load_activation env routine_id activation_id =
     reads (\<lambda>s. case pair_path routine_id activation_id of
                  Inl _ \<Rightarrow> Inr None
                | Inr k \<Rightarrow>
                    (case dir_get (rs_activations s) k of
                       None \<Rightarrow> Inr None
                     | Some a \<Rightarrow> rbind (activation_validate env a) (\<lambda>_. Inr (Some a))))"

definition activations_of :: "routine_store \<Rightarrow> string \<Rightarrow> activation_record list" where
  "activations_of s r = map snd (filter (\<lambda>((r', _), _). r' = r) (rs_activations s))"

text \<open>A \<open>limit\<close> of \<open>None\<close> stands for \<open>usize::MAX\<close>.\<close>

definition list_activations :: "routine_env \<Rightarrow> string \<Rightarrow> nat option \<Rightarrow> activation_record list routine_op" where
  "list_activations env routine_id limit =
     reads (\<lambda>s. rbind (safe_id_filename routine_id) (\<lambda>r.
       rbind (validate_all (activation_validate env) (activations_of s r)) (\<lambda>_.
       let out = sort_key (\<lambda>a. - av_fired_at a) (activations_of s r)
       in Inr (if is_some_and limit (\<lambda>n. n > 0 \<and> length out > n) then take (the limit) out else out))))"

record routine_snapshot =
  sn_routine :: routine_record
  sn_activations :: "activation_record list"

definition load_routine_snapshot :: "routine_env \<Rightarrow> string \<Rightarrow> nat \<Rightarrow> routine_snapshot option routine_op" where
  "load_routine_snapshot env routine_id history_limit =
     bindE (load_routine env routine_id) (\<lambda>found.
       case found of
         None \<Rightarrow> ret None
       | Some routine \<Rightarrow>
           bindE (list_activations env routine_id (Some history_limit)) (\<lambda>activations.
             ret (Some \<lparr>sn_routine = routine, sn_activations = activations\<rparr>)))"

definition load_dedupe :: "string \<Rightarrow> string \<Rightarrow> dedupe_record option routine_op" where
  "load_dedupe routine_id dedupe_key =
     bindE (lift (pair_path routine_id dedupe_key)) (\<lambda>k. gets (\<lambda>s. dir_get (rs_dedupe s) k))"

subsection \<open>Committing an activation\<close>

definition persist_routine_intent :: "routine_env \<Rightarrow> fire_intent \<Rightarrow> unit routine_op" where
  "persist_routine_intent env intent =
     bindE (lift (safe_id_filename (av_activation_id (fi_activation intent)))) (\<lambda>k.
       routine_durable env (\<lambda>s. s\<lparr>rs_intents := dir_put k intent (rs_intents s)\<rparr>))"

definition commit_routine_intent :: "routine_env \<Rightarrow> fire_intent \<Rightarrow> unit routine_op" where
  "commit_routine_intent env intent =
     thenE (case fi_work intent of
              None \<Rightarrow> ret ()
            | Some work \<Rightarrow> map_err internal_of (in_ledger (save_work_item (re_host env) work)))
     (bindE (lift (pair_path (av_routine_id (fi_activation intent)) (av_activation_id (fi_activation intent)))) (\<lambda>k.
      thenE (routine_durable env (\<lambda>s. s\<lparr>rs_activations := dir_put k (fi_activation intent) (rs_activations s)\<rparr>))
      (case fi_dedupe intent of
         None \<Rightarrow> ret ()
       | Some dedupe \<Rightarrow>
           bindE (lift (pair_path (av_routine_id (fi_activation intent)) (dd_dedupe_key dedupe))) (\<lambda>d.
             routine_durable env (\<lambda>s. s\<lparr>rs_dedupe := dir_put d dedupe (rs_dedupe s)\<rparr>)))))"

definition clear_routine_intent :: "routine_env \<Rightarrow> string \<Rightarrow> unit routine_op" where
  "clear_routine_intent env activation_id =
     bindE (lift (safe_id_filename activation_id)) (\<lambda>k.
       routine_durable env (\<lambda>s. s\<lparr>rs_intents := dir_del k (rs_intents s)\<rparr>))"

definition remove_activation :: "routine_env \<Rightarrow> string \<Rightarrow> activation_record \<Rightarrow> unit routine_op" where
  "remove_activation env routine_id a =
     bindE (lift (pair_path routine_id (av_activation_id a))) (\<lambda>k s.
       (Inr (), snd (routine_durable env (\<lambda>s. s\<lparr>rs_activations := dir_del k (rs_activations s)\<rparr>) s)))"

definition prune_activations :: "routine_env \<Rightarrow> string \<Rightarrow> unit routine_op" where
  "prune_activations env routine_id =
     bindE (list_activations env routine_id None) (\<lambda>activations.
       if length activations \<le> MAX_ACTIVATION_HISTORY then ret ()
       else for_each (drop MAX_ACTIVATION_HISTORY activations) (remove_activation env routine_id))"

definition commit_activation :: "routine_env \<Rightarrow> string \<Rightarrow> fire_intent \<Rightarrow> activation_record routine_op" where
  "commit_activation env routine_id intent =
     thenE (persist_routine_intent env intent)
     (thenE (commit_routine_intent env intent)
     (thenE (clear_routine_intent env (av_activation_id (fi_activation intent)))
     (thenE (prune_activations env routine_id)
        (ret (fi_activation intent)))))"

subsection \<open>Activating\<close>

definition capture_or_template :: "routine_record \<Rightarrow> run_bounds \<Rightarrow> captured_activation_policy" where
  "capture_or_template routine ceiling =
     (case capture (rt_revision routine) (Some (rt_agent_id routine)) None (rt_work_template routine) ceiling of
        Inr c \<Rightarrow> c
      | Inl _ \<Rightarrow>
          \<lparr>cp_routine_revision = rt_revision routine, cp_agent_id = Some (rt_agent_id routine),
           cp_agent_spec_revision = None, cp_run_bounds = wp_bounds (wt_policy (rt_work_template routine)),
           cp_work_policy = wt_policy (rt_work_template routine), cp_sandbox_profile = ''workspace-write'',
           cp_computer_use_allowed = False, cp_auto_approve_tools = False\<rparr>)"

definition replay_dedupe ::
  "routine_env \<Rightarrow> routine_record \<Rightarrow> activation_request \<Rightarrow> dedupe_record \<Rightarrow> time \<Rightarrow> activation_record routine_op" where
  "replay_dedupe env routine request record now =
     bindE (load_activation env (rt_routine_id routine) (dd_activation_id record)) (\<lambda>found.
       case found of
         Some existing \<Rightarrow> ret existing
       | None \<Rightarrow>
           ret \<lparr>av_schema_version = ROUTINE_SCHEMA_VERSION, av_activation_id = dd_activation_id record,
                av_routine_id = rt_routine_id routine, av_routine_revision = rt_revision routine,
                av_trigger_kind = cause_str (aq_cause request), av_dedupe_key = aq_dedupe_key request,
                av_scheduled_at = aq_scheduled_at request, av_received_at = aq_received_at request,
                av_fired_at = now, av_work_id = dd_work_id record, av_disposition = AD_Deduplicated,
                av_error = None, av_captured_policy = capture_or_template routine run_bounds_default,
                av_payload = None, av_created_by = aq_created_by request\<rparr>)"

definition record_non_work_activation ::
  "routine_env \<Rightarrow> routine_record \<Rightarrow> activation_request \<Rightarrow> json option \<Rightarrow> activation_disposition
     \<Rightarrow> string option \<Rightarrow> run_bounds \<Rightarrow> time \<Rightarrow> activation_record routine_op" where
  "record_non_work_activation env routine request payload disposition error server_ceiling now =
     bindE (in_ledger (uuid_op (re_host env))) (\<lambda>activation_id.
     let activation =
       \<lparr>av_schema_version = ROUTINE_SCHEMA_VERSION, av_activation_id = activation_id,
        av_routine_id = rt_routine_id routine, av_routine_revision = rt_revision routine,
        av_trigger_kind = cause_str (aq_cause request), av_dedupe_key = aq_dedupe_key request,
        av_scheduled_at = aq_scheduled_at request, av_received_at = aq_received_at request,
        av_fired_at = now, av_work_id = None, av_disposition = disposition, av_error = error,
        av_captured_policy = capture_or_template routine server_ceiling, av_payload = payload,
        av_created_by = aq_created_by request\<rparr>
     in thenE (lift (activation_validate env activation))
          (commit_activation env (rt_routine_id routine)
            \<lparr>fi_routine = routine, fi_activation = activation, fi_work = None,
             fi_dedupe = Some \<lparr>dd_dedupe_key = aq_dedupe_key request, dd_activation_id = activation_id,
                               dd_work_id = None, dd_disposition = Some disposition, dd_created_at = now\<rparr>\<rparr>))"

definition failed_routine :: "routine_record \<Rightarrow> time \<Rightarrow> routine_record" where
  "failed_routine routine now =
     (let failures = min (rt_consecutive_failures routine + 1) (2 ^ 32 - 1);
          counted = routine\<lparr>rt_consecutive_failures := failures, rt_updated_at := now\<rparr>
      in if failures \<ge> rr_circuit_failures (rt_retry routine)
         then counted\<lparr>rt_circuit_open := True, rt_lifecycle := RL_Paused, rt_next_fire_at := None\<rparr>
         else counted\<lparr>rt_next_fire_at := Some (now + delay_after (rt_retry routine) failures)\<rparr>)"

definition fail_activation ::
  "routine_env \<Rightarrow> routine_record \<Rightarrow> activation_request \<Rightarrow> json option \<Rightarrow> string \<Rightarrow> run_bounds \<Rightarrow> time
     \<Rightarrow> activation_record routine_op" where
  "fail_activation env routine request payload message server_ceiling now =
     (let failed = failed_routine routine now in
      thenE (save_routine env failed)
        (record_non_work_activation env failed request payload
           (if rt_circuit_open failed then AD_CircuitOpen else AD_Backoff) (Some message) server_ceiling now))"

definition routine_work :: "routine_record \<Rightarrow> string \<Rightarrow> work_item \<Rightarrow> work_item" where
  "routine_work routine activation_id work =
     work\<lparr>wi_priority := wt_priority (rt_work_template routine),
          wi_assigned_agent_id := Some (rt_agent_id routine), wi_assignment_status := Accepted,
          wi_source_routine_id := Some (rt_routine_id routine),
          wi_source_activation_id := Some activation_id\<rparr>"

definition create_work_activation ::
  "routine_env \<Rightarrow> routine_record \<Rightarrow> string \<Rightarrow> activation_request \<Rightarrow> json option \<Rightarrow> captured_activation_policy
     \<Rightarrow> time \<Rightarrow> work_item \<Rightarrow> activation_record routine_op" where
  "create_work_activation env routine routine_id request payload captured now new_work =
     bindE (in_ledger (uuid_op (re_host env))) (\<lambda>activation_id.
     let work = routine_work routine activation_id new_work;
         activation =
           \<lparr>av_schema_version = ROUTINE_SCHEMA_VERSION, av_activation_id = activation_id,
            av_routine_id = rt_routine_id routine, av_routine_revision = rt_revision routine,
            av_trigger_kind = cause_str (aq_cause request), av_dedupe_key = aq_dedupe_key request,
            av_scheduled_at = aq_scheduled_at request, av_received_at = aq_received_at request,
            av_fired_at = now, av_work_id = Some (wi_work_id work), av_disposition = AD_CreatedWork,
            av_error = None, av_captured_policy = captured, av_payload = payload,
            av_created_by = aq_created_by request\<rparr>
     in thenE (lift (case item_validate work of
                       Inl e \<Rightarrow> Inl (orch_error_new InvalidRequest (orch_error_fmt e))
                     | Inr u \<Rightarrow> Inr u))
        (thenE (lift (activation_validate env activation))
          (commit_activation env routine_id
            \<lparr>fi_routine = routine, fi_activation = activation, fi_work = Some work,
             fi_dedupe = Some \<lparr>dd_dedupe_key = aq_dedupe_key request, dd_activation_id = activation_id,
                               dd_work_id = Some (wi_work_id work),
                               dd_disposition = Some AD_CreatedWork, dd_created_at = now\<rparr>\<rparr>)))"

definition admit_activation ::
  "routine_env \<Rightarrow> routine_record \<Rightarrow> string \<Rightarrow> activation_request \<Rightarrow> json option \<Rightarrow> run_bounds \<Rightarrow> time
     \<Rightarrow> activation_record routine_op" where
  "admit_activation env routine routine_id request payload server_ceiling now =
     bindE (map_err internal_of (in_ledger (load_agent (rt_agent_id routine)))) (\<lambda>found.
       case found of
         None \<Rightarrow> fail_activation env routine request payload ''owning agent is unknown'' server_ceiling now
       | Some agent \<Rightarrow>
           if \<not> workspaces_match (re_host env) (ag_workspace agent) (rt_workspace routine)
           then fail_activation env routine request payload
                  ''agent source workspace does not match the routine workspace'' server_ceiling now
           else (case capture (rt_revision routine) (Some (rt_agent_id routine)) (ag_spec agent)
                        (rt_work_template routine) server_ceiling of
             Inl e \<Rightarrow> fail_activation env routine request payload (err_message e) server_ceiling now
           | Inr captured \<Rightarrow>
               bindE (in_ledger (uuid_op (re_host env))) (\<lambda>work_id.
               case item_new_at work_id (wt_kind (rt_work_template routine))
                      (wt_objective (rt_work_template routine)) (rt_session_id routine)
                      (rt_workspace routine) (''routine:'' @ rt_routine_id routine)
                      (cp_work_policy captured) now of
                 Inl e \<Rightarrow> fail_activation env routine request payload (err_message e) server_ceiling now
               | Inr work \<Rightarrow> create_work_activation env routine routine_id request payload captured now work)))"

definition one_shot_expiry :: "routine_trigger \<Rightarrow> time option" where
  "one_shot_expiry trigger = (case trigger of RT_OneShot _ expires_at \<Rightarrow> expires_at | _ \<Rightarrow> None)"

definition activate_fresh ::
  "routine_env \<Rightarrow> routine_record \<Rightarrow> string \<Rightarrow> activation_request \<Rightarrow> run_bounds \<Rightarrow> time
     \<Rightarrow> activation_record routine_op" where
  "activate_fresh env routine routine_id request server_ceiling now =
     bindE (lift (validate_activation_payload env (aq_payload request))) (\<lambda>payload.
       if aq_cause request \<noteq> AC_Manual
          \<and> is_some_and (one_shot_expiry (rt_trigger routine)) (\<lambda>expires. expires < now)
       then record_non_work_activation env routine request payload AD_SkippedExpired
              (Some ''activation expired before it could create work'') server_ceiling now
       else if aq_cause request = AC_External
       then raise (orch_error_new Unsupported
              ''webhook, GitHub, and message adapters are reserved for a later slice'')
       else (case decide_lifecycle_skip routine (aq_cause request) of
         Some disposition \<Rightarrow>
           record_non_work_activation env routine request payload disposition None server_ceiling now
       | None \<Rightarrow>
           bindE (map_err internal_of (in_ledger list_work_items)) (\<lambda>items.
             if in_flight_count items routine_id \<ge> rt_max_in_flight routine
             then record_non_work_activation env routine request payload AD_SkippedOverlap
                    (Some ''routine already has the maximum in-flight Work items'') server_ceiling now
             else admit_activation env routine routine_id request payload server_ceiling now)))"

definition activate_routine ::
  "routine_env \<Rightarrow> string \<Rightarrow> activation_request \<Rightarrow> run_bounds \<Rightarrow> time \<Rightarrow> activation_record routine_op" where
  "activate_routine env routine_id request server_ceiling now =
     bindE (load_routine env routine_id) (\<lambda>found.
     bindE (some_or (orch_error_new InvalidRequest ''unknown routine_id'') found) (\<lambda>routine.
     bindE (load_dedupe routine_id (aq_dedupe_key request)) (\<lambda>known.
       case known of
         Some existing \<Rightarrow> replay_dedupe env routine request existing now
       | None \<Rightarrow> activate_fresh env routine routine_id request server_ceiling now)))"

subsection \<open>Lifecycle, firing and recovery\<close>

definition set_routine_lifecycle ::
  "routine_env \<Rightarrow> string \<Rightarrow> routine_lifecycle \<Rightarrow> u64 option \<Rightarrow> time \<Rightarrow> routine_record routine_op" where
  "set_routine_lifecycle env routine_id lifecycle expected_revision now =
     bindE (load_routine env routine_id) (\<lambda>found.
     bindE (some_or (orch_error_new InvalidRequest ''unknown routine_id'') found) (\<lambda>routine.
       if is_some_and expected_revision (\<lambda>e. e \<noteq> rt_revision routine)
       then raise (orch_error_new StaleVersion ''routine revision does not match expected_revision'')
       else
         bindE (lift (if lifecycle = RL_Enabled \<and> rt_next_fire_at routine = None
                      then initial_next_fire env (rt_trigger routine) now
                      else Inr (rt_next_fire_at routine))) (\<lambda>next_fire_at.
         let moved = routine\<lparr>rt_lifecycle := lifecycle\<rparr>;
             enabled = (if lifecycle = RL_Enabled
                        then moved\<lparr>rt_circuit_open := False, rt_consecutive_failures := 0,
                                   rt_next_fire_at := next_fire_at\<rparr>
                        else if lifecycle = RL_Disabled then moved\<lparr>rt_next_fire_at := None\<rparr>
                        else moved);
             bumped = routine_bump_at now enabled
         in thenE (save_routine env bumped) (ret bumped))))"

record routine_fire_report =
  fr_scanned_routines :: nat
  fr_created_work :: nat
  fr_skipped :: nat
  fr_rejected :: nat
  fr_deduplicated :: nat

definition count_disposition :: "activation_disposition \<Rightarrow> routine_fire_report \<Rightarrow> routine_fire_report" where
  "count_disposition d r =
     (case d of
        AD_CreatedWork \<Rightarrow> r\<lparr>fr_created_work := fr_created_work r + 1\<rparr>
      | AD_Deduplicated \<Rightarrow> r\<lparr>fr_deduplicated := fr_deduplicated r + 1\<rparr>
      | AD_Rejected \<Rightarrow> r\<lparr>fr_rejected := fr_rejected r + 1\<rparr>
      | AD_Backoff \<Rightarrow> r\<lparr>fr_rejected := fr_rejected r + 1\<rparr>
      | AD_CircuitOpen \<Rightarrow> r\<lparr>fr_rejected := fr_rejected r + 1\<rparr>
      | _ \<Rightarrow> r\<lparr>fr_skipped := fr_skipped r + 1\<rparr>)"

text \<open>The operation inside a loop that goes on after a failure, and an update whose failure is ignored.\<close>

definition outcome :: "('s, 'e, 'a) op \<Rightarrow> ('s, 'f, 'e + 'a) op" where
  "outcome m = (\<lambda>s. case m s of (r, s') \<Rightarrow> (Inr r, s'))"

definition occurrence_request :: "routine_env \<Rightarrow> string \<Rightarrow> time \<Rightarrow> time \<Rightarrow> activation_request" where
  "occurrence_request env routine_id now scheduled_at =
     \<lparr>aq_cause = AC_Scheduled, aq_dedupe_key = occurrence_dedupe_key env routine_id scheduled_at,
      aq_scheduled_at = scheduled_at, aq_received_at = now, aq_payload = None,
      aq_created_by = ''routine:'' @ routine_id\<rparr>"

definition fire_occurrence ::
  "routine_env \<Rightarrow> string \<Rightarrow> time \<Rightarrow> time \<Rightarrow> routine_fire_report \<Rightarrow> routine_fire_report routine_op" where
  "fire_occurrence env routine_id now scheduled_at report =
     bindE (outcome (activate_routine env routine_id (occurrence_request env routine_id now scheduled_at)
                       run_bounds_default now)) (\<lambda>r.
       ret (case r of
              Inr activation \<Rightarrow> count_disposition (av_disposition activation) report
            | Inl _ \<Rightarrow> report\<lparr>fr_rejected := fr_rejected report + 1\<rparr>))"

definition advanced :: "routine_env \<Rightarrow> routine_record \<Rightarrow> time \<Rightarrow> time list \<Rightarrow> time option" where
  "advanced env routine now due =
     (case advance_next_fire env (rt_trigger routine) now due of Inr n \<Rightarrow> n | Inl _ \<Rightarrow> None)"

definition reschedule ::
  "routine_env \<Rightarrow> string \<Rightarrow> (routine_record \<Rightarrow> routine_record option) \<Rightarrow> unit routine_op" where
  "reschedule env routine_id change =
     bindE (outcome (load_routine env routine_id)) (\<lambda>r.
       case r of
         Inr (Some current) \<Rightarrow>
           (case change current of
              None \<Rightarrow> ret ()
            | Some moved \<Rightarrow> bindE (outcome (save_routine env moved)) (\<lambda>_. ret ()))
       | _ \<Rightarrow> ret ())"

definition fire_routine ::
  "routine_env \<Rightarrow> time \<Rightarrow> routine_record \<Rightarrow> routine_fire_report \<Rightarrow> routine_fire_report routine_op" where
  "fire_routine env now routine report =
     (case due_occurrences env routine now of
        Inl _ \<Rightarrow> ret (report\<lparr>fr_rejected := fr_rejected report + 1\<rparr>)
      | Inr [] \<Rightarrow>
          if is_some_and (rt_next_fire_at routine) (\<lambda>n. n \<le> now)
          then thenE (reschedule env (rt_routine_id routine) (\<lambda>current.
                 Some (current\<lparr>rt_next_fire_at := advanced env current now [], rt_updated_at := now\<rparr>)))
               (ret (report\<lparr>fr_skipped := fr_skipped report + 1\<rparr>))
          else ret report
      | Inr due \<Rightarrow>
          bindE (fold_op (fire_occurrence env (rt_routine_id routine) now) due report) (\<lambda>report'.
          thenE (reschedule env (rt_routine_id routine) (\<lambda>current.
                   if allows_scheduled_fire (rt_lifecycle current) \<and> \<not> rt_circuit_open current
                   then Some (current\<lparr>rt_next_fire_at := advanced env current now due,
                                      rt_last_fire_at := Some now, rt_updated_at := now\<rparr>)
                   else None))
          (ret report')))"

definition fire_due_routines_at :: "routine_env \<Rightarrow> time \<Rightarrow> routine_fire_report routine_op" where
  "fire_due_routines_at env now =
     bindE (list_routines env) (\<lambda>routines.
       fold_op (fire_routine env now) routines
         \<lparr>fr_scanned_routines = length routines, fr_created_work = 0, fr_skipped = 0, fr_rejected = 0,
          fr_deduplicated = 0\<rparr>)"

definition recover_routine_intent :: "routine_env \<Rightarrow> string \<times> fire_intent \<Rightarrow> (routine_store, anyhow, unit) op" where
  "recover_routine_intent env = (\<lambda>(k, intent).
     thenE (map_err opaque_of (commit_routine_intent env intent))
       (map_err (\<lambda>e. Opaque (err_message e))
          (routine_durable env (\<lambda>s. s\<lparr>rs_intents := dir_del k (rs_intents s)\<rparr>))))"

definition recover_routine_intents :: "routine_env \<Rightarrow> (routine_store, anyhow, unit) op" where
  "recover_routine_intents env =
     bindE (gets rs_intents) (\<lambda>intents. for_each intents (recover_routine_intent env))"

end
