(* ===== verification/Routine_Schedule.thy ===== *)
theory Routine_Schedule
  imports Routines Example_Run
begin

section \<open>What the schedule of a routine promises\<close>

text \<open>
  The next firing of an interval is its least slot after the given instant, as long as fewer
  than \<open>2 ^ 31\<close> steps have passed since the anchor; the next firing of a calendar trigger is its
  least slot, in zones whose local date never moves back. What a pass finds due is a strictly
  increasing list of at most eight instants between the stored next firing and now. The backoff
  after a failure lies between the first delay and the maximum. Two theorems at the end show
  where the code falls short of its documentation.
\<close>

subsection \<open>Intervals\<close>

definition interval_slot :: "nat \<Rightarrow> time \<Rightarrow> int \<Rightarrow> time" where
  "interval_slot every_ms anchor k = anchor + span_ms (int every_ms * k)"

lemma as_i32_small: "0 \<le> n \<Longrightarrow> n < 2 ^ 31 \<Longrightarrow> as_i32 n = n"
  by (simp add: as_i32_def)

lemma as_i64_small: "0 \<le> n \<Longrightarrow> n < 2 ^ 63 \<Longrightarrow> as_i64 n = n"
  by (simp add: as_i64_def)

lemma ms_div: "t div 1000000 div int e = t div span_ms (int e)"
  using zdiv_zmult2_eq [of "int e" t 1000000] by (simp add: span_ms_def mult.commute)

lemma next_slot_bounds:
  assumes "0 < (e :: int)" "0 \<le> t"
  shows "t < e * (t div e + 1)" "e * (t div e) \<le> t"
proof -
  have "t = e * (t div e) + t mod e" "0 \<le> t mod e" "t mod e < e" using assms by simp_all
  moreover have "e * (t div e + 1) = e * (t div e) + e" by (simp add: distrib_left)
  ultimately show "t < e * (t div e + 1)" "e * (t div e) \<le> t" by linarith+
qed

lemma interval_step:
  assumes "trigger_validate env (RT_Interval every_ms timezone anchor) = Inr ()"
  shows "as_i64 (int every_ms) = int every_ms" "0 < every_ms" "parse_timezone env timezone = Inr timezone"
  using assms
  by (auto simp: MIN_ROUTINE_INTERVAL_MS_def MAX_ROUTINE_INTERVAL_MS_def rbind_ok parse_timezone_def
      intro!: as_i64_small split: if_splits)

lemma interval_next:
  assumes valid: "trigger_validate env (RT_Interval every_ms timezone anchor) = Inr ()"
    and range: "after - anchor < span_ms (int every_ms * (2 ^ 31 - 1))"
  shows "next_after env (RT_Interval every_ms timezone anchor) after =
    Inr (Some (if anchor > after then anchor
               else interval_slot every_ms anchor ((after - anchor) div span_ms (int every_ms) + 1)))"
proof (cases "anchor > after")
  case True
  then show ?thesis using interval_step [OF valid] by (simp add: rbind_def)
next
  case False
  let ?e = "span_ms (int every_ms)" and ?t = "after - anchor"
  have e: "0 < ?e" using interval_step(2) [OF valid] by (simp add: span_ms_def)
  have "?t < ?e * (2 ^ 31 - 1)" using range by (simp add: span_ms_def algebra_simps)
  then have "?e * (?t div ?e) < ?e * (2 ^ 31 - 1)" using next_slot_bounds(2) [OF e, of ?t] False by linarith
  then have "?t div ?e < 2 ^ 31 - 1" using e by (simp only: mult_less_cancel_left_pos)
  moreover have "0 \<le> ?t div ?e" using False e by (simp add: pos_imp_zdiv_nonneg_iff)
  ultimately have "as_i32 (?t div ?e + 1) = ?t div ?e + 1" by (intro as_i32_small) simp_all
  then show ?thesis
    using False interval_step [OF valid] by (simp add: rbind_def ms_div interval_slot_def Let_def)
qed

text \<open>
  C14. For a valid interval, fewer than \<open>2 ^ 31\<close> steps after its anchor, \<open>next_after\<close> gives the first
  slot strictly after the given instant: it is a slot, it is later, and no slot lies between.
\<close>

theorem interval_next_exact:
  assumes valid: "trigger_validate env (RT_Interval every_ms timezone anchor) = Inr ()"
    and range: "after - anchor < span_ms (int every_ms * (2 ^ 31 - 1))"
  shows "\<exists>k \<ge> 0. next_after env (RT_Interval every_ms timezone anchor) after
      = Inr (Some (interval_slot every_ms anchor k))
    \<and> after < interval_slot every_ms anchor k
    \<and> (\<forall>j \<ge> 0. after < interval_slot every_ms anchor j \<longrightarrow>
          interval_slot every_ms anchor k \<le> interval_slot every_ms anchor j)"
proof (cases "anchor > after")
  case True
  have "next_after env (RT_Interval every_ms timezone anchor) after = Inr (Some (interval_slot every_ms anchor 0))"
    using interval_next [OF valid range] True by (simp add: interval_slot_def span_ms_def)
  then show ?thesis using True by (intro exI [of _ 0]) (simp add: interval_slot_def span_ms_def)
next
  case False
  let ?e = "span_ms (int every_ms)" and ?t = "after - anchor"
  let ?k = "?t div ?e + 1"
  have e: "0 < ?e" using interval_step(2) [OF valid] by (simp add: span_ms_def)
  have slot: "interval_slot every_ms anchor j = anchor + ?e * j" for j
    by (simp add: interval_slot_def span_ms_def algebra_simps)
  note b = next_slot_bounds [of ?e ?t, OF e]
  have "0 \<le> ?k" using False e by (simp add: pos_imp_zdiv_nonneg_iff add_increasing2)
  moreover have "?k \<le> j" if "?t < ?e * j" for j
  proof -
    have "?e * (?t div ?e) < ?e * j" using b(2) False that by linarith
    then show ?thesis using e by simp
  qed
  ultimately show ?thesis
    using interval_next [OF valid range] False b(1) e
    by (intro exI [of _ ?k]) (auto simp: slot mult_left_mono)
qed

definition utc_env :: routine_env where
  "utc_env = \<lparr>re_host = exact_host, re_json_len = (\<lambda>_. 0), re_zone_known = (\<lambda>z. z = ''UTC''),
     re_local_date = (\<lambda>_ t. t div 86400000000000),
     re_from_local = (\<lambda>_ d h m. LR_Single (d * 86400000000000 + int h * 3600000000000 + int m * 60000000000)),
     re_date_ok = (\<lambda>d. \<bar>d\<bar> < 90000000), re_rfc3339_ms = (\<lambda>t. decimal (nat t))\<rparr>"

lemma utc_valid:
  "parse_timezone utc_env ''UTC'' = Inr ''UTC''"
  "trigger_validate utc_env (RT_Interval 1000 ''UTC'' 0) = Inr ()"
  by (simp_all add: utc_env_def parse_timezone_def validate_bounded_def MAX_ROUTINE_TIMEZONE_BYTES_def
      reject_def NUL_def rbind_def MIN_ROUTINE_INTERVAL_MS_def MAX_ROUTINE_INTERVAL_MS_def)

theorem interval_next_exact_witness:
  "\<exists>k \<ge> 0. next_after utc_env (RT_Interval 1000 ''UTC'' 0) 2500000000
      = Inr (Some (interval_slot 1000 0 k)) \<and> 2500000000 < interval_slot 1000 0 k"
proof -
  have "2500000000 - 0 < span_ms (int 1000 * (2 ^ 31 - 1))" by (simp add: span_ms_def)
  from interval_next_exact [OF utc_valid(2) this] show ?thesis by blast
qed

subsection \<open>Calendar days\<close>

definition calendar_slot ::
  "routine_env \<Rightarrow> string \<Rightarrow> nat \<Rightarrow> nat \<Rightarrow> nat option \<Rightarrow> int \<Rightarrow> time \<Rightarrow> bool" where
  "calendar_slot env tz hour minute weekday date t \<longleftrightarrow>
     is_none_or weekday (\<lambda>wanted. weekday_monday0 date = wanted)
     \<and> resolve_local_wall env tz date hour minute = Some t"

text \<open>A zone whose clock times lie on their date and whose local date never moves back.\<close>

definition zone_ordered :: "routine_env \<Rightarrow> string \<Rightarrow> bool" where
  "zone_ordered env tz \<longleftrightarrow>
     (\<forall>date hour minute t. resolve_local_wall env tz date hour minute = Some t \<longrightarrow> re_local_date env tz t = date)
     \<and> (\<forall>t u. t \<le> u \<longrightarrow> re_local_date env tz t \<le> re_local_date env tz u)"

text \<open>A zone with one offset from UTC for ever, as UTC itself.\<close>

definition fixed_offset :: "routine_env \<Rightarrow> string \<Rightarrow> int \<Rightarrow> bool" where
  "fixed_offset env tz offset \<longleftrightarrow>
     (\<forall>t. re_local_date env tz t = (t + offset) div 86400000000000)
     \<and> (\<forall>d h m. re_from_local env tz d h m
          = LR_Single (d * 86400000000000 + int h * 3600000000000 + int m * 60000000000 - offset))"

lemma fixed_ordered: "fixed_offset env tz offset \<Longrightarrow> zone_ordered env tz"
proof -
  have "(d * 86400000000000 + int h * 3600000000000 + int m * 60000000000) div 86400000000000 = d"
    if "h \<le> 23" "m \<le> 59" for d h m
    using that by (intro int_div_pos_eq [of _ _ _ "int h * 3600000000000 + int m * 60000000000"]) simp_all
  then show "fixed_offset env tz offset \<Longrightarrow> zone_ordered env tz"
    by (auto simp: zone_ordered_def fixed_offset_def resolve_local_wall_def zdiv_mono1 split: if_splits)
qed

lemma calendar_scan_Some:
  "calendar_scan env tz hour minute weekday after start [a..<n] = Some t \<Longrightarrow>
     \<exists>d. a \<le> d \<and> d < n \<and> calendar_slot env tz hour minute weekday (start + int d) t \<and> after < t
       \<and> (\<forall>i. a \<le> i \<longrightarrow> i \<le> d \<longrightarrow> re_date_ok env (start + int i))
       \<and> (\<forall>i u. a \<le> i \<longrightarrow> i < d \<longrightarrow> calendar_slot env tz hour minute weekday (start + int i) u \<longrightarrow> u \<le> after)"
proof (induction "n - a" arbitrary: a)
  case 0
  then show ?case by simp
next
  case (Suc k)
  then have "a < n" by simp
  then have upt: "[a..<n] = a # [Suc a..<n]" by (simp add: upt_conv_Cons)
  let ?slot = "calendar_slot env tz hour minute weekday" and ?ok = "\<lambda>i. re_date_ok env (start + int i)"
  let ?rest = "calendar_scan env tz hour minute weekday after start [Suc a..<n] = Some t"
  have found: "?ok a" "?slot (start + int a) t \<and> after < t \<or> ?rest \<and> (\<forall>u. ?slot (start + int a) u \<longrightarrow> u \<le> after)"
    using Suc.prems unfolding upt
    by (cases weekday; auto simp: calendar_slot_def Let_def split: if_splits option.splits)+
  from found(2) show ?case
  proof
    assume "?slot (start + int a) t \<and> after < t"
    then show ?thesis using \<open>a < n\<close> found(1) by (intro exI [of _ a]) auto
  next
    assume rest: "?rest \<and> (\<forall>u. ?slot (start + int a) u \<longrightarrow> u \<le> after)"
    have "k = n - Suc a" using Suc.hyps(2) by simp
    from Suc.hyps(1) [OF this] rest obtain d where d: "Suc a \<le> d" "d < n" "?slot (start + int d) t" "after < t"
      "\<forall>i. Suc a \<le> i \<longrightarrow> i \<le> d \<longrightarrow> ?ok i"
      "\<forall>i u. Suc a \<le> i \<longrightarrow> i < d \<longrightarrow> ?slot (start + int i) u \<longrightarrow> u \<le> after" by auto
    have "?ok i \<and> (i < d \<longrightarrow> (\<forall>u. ?slot (start + int i) u \<longrightarrow> u \<le> after))" if i: "a \<le> i" "i \<le> d" for i
    proof (cases "i = a")
      case True
      then show ?thesis using rest found(1) by blast
    next
      case False
      then have "Suc a \<le> i" using i(1) by simp
      then show ?thesis using d(5,6) i(2) by blast
    qed
    then show ?thesis using d by (intro exI [of _ d]) auto
  qed
qed

lemma calendar_scan_finds:
  assumes "a \<le> d" "d < n" "calendar_slot env tz hour minute weekday (start + int d) u" "after < u"
    and "\<And>i. a \<le> i \<Longrightarrow> i \<le> d \<Longrightarrow> re_date_ok env (start + int i)"
  shows "\<exists>t. calendar_scan env tz hour minute weekday after start [a..<n] = Some t"
  using assms
proof (induction "d - a" arbitrary: a)
  case 0
  then have "[a..<n] = d # [Suc d..<n]" by (simp add: upt_conv_Cons)
  then show ?case using 0 by (cases weekday) (auto simp: calendar_slot_def Let_def)
next
  case (Suc k)
  then have upt: "[a..<n] = a # [Suc a..<n]" by (simp add: upt_conv_Cons)
  have "\<exists>t. calendar_scan env tz hour minute weekday after start [Suc a..<n] = Some t"
    using Suc.prems by (intro Suc.hyps(1)) (use Suc.hyps(2) in auto)
  moreover have "re_date_ok env (start + int a)" using Suc.prems by simp
  ultimately show ?case unfolding upt by (auto simp: Let_def split: option.split)
qed

lemma least_slot:
  assumes zone: "zone_ordered env tz" and u: "calendar_slot env tz hour minute weekday d u" "after < u"
    and n: "calendar_slot env tz hour minute weekday (re_local_date env tz after + int n) t"
      "\<And>i v. i < n \<Longrightarrow> calendar_slot env tz hour minute weekday (re_local_date env tz after + int i) v \<Longrightarrow> v \<le> after"
  shows "t \<le> u"
proof -
  let ?slot = "calendar_slot env tz hour minute weekday" and ?start = "re_local_date env tz after"
  have date: "re_local_date env tz v = e" if "?slot e v" for e v
    using zone that by (auto simp: zone_ordered_def calendar_slot_def)
  have mono: "re_local_date env tz x \<le> re_local_date env tz y" if "x \<le> y" for x y
    using zone that by (auto simp: zone_ordered_def)
  have "?start \<le> d" using mono [of after u] date [OF u(1)] u(2) by simp
  then obtain i where i: "d = ?start + int i" by (metis zle_iff_zadd)
  have "\<not> i < n" using n(2) [of i u] u i by auto
  then consider "i = n" | "n < i" by linarith
  then show "t \<le> u"
  proof cases
    case 1
    then show ?thesis using n(1) u(1) i by (simp add: calendar_slot_def)
  next
    case 2
    then have "re_local_date env tz t < re_local_date env tz u" using date [OF n(1)] date [OF u(1)] i by simp
    then show ?thesis using mono [of u t] by linarith
  qed
qed

text \<open>
  C15. The next firing of a calendar trigger, in any time zone. The search succeeds exactly when, counting days from the
  local date of the given instant, one of the first 400 has its slot (the wanted weekday, and a wall time that exists; the
  earlier of two) after the instant and all dates up to it can be represented; it then returns the slot of the
  first such day, and otherwise an error. In a zone with a fixed offset this is the least of all slots after the instant.
\<close>

theorem calendar_next_exact:
  "(next_calendar_after env tz hour minute weekday after = Inr (Some t) \<longleftrightarrow>
      (\<exists>n < 400. calendar_slot env tz hour minute weekday (re_local_date env tz after + int n) t \<and> after < t
         \<and> (\<forall>i \<le> n. re_date_ok env (re_local_date env tz after + int i))
         \<and> (\<forall>i < n. \<forall>u. calendar_slot env tz hour minute weekday (re_local_date env tz after + int i) u \<longrightarrow> u \<le> after)))
    \<and> next_calendar_after env tz hour minute weekday after \<noteq> Inr None
    \<and> (fixed_offset env tz offset \<longrightarrow> next_calendar_after env tz hour minute weekday after = Inr (Some t) \<longrightarrow>
         (\<forall>d u. calendar_slot env tz hour minute weekday d u \<longrightarrow> after < u \<longrightarrow> t \<le> u))"
proof -
  let ?slot = "calendar_slot env tz hour minute weekday" and ?start = "re_local_date env tz after"
  let ?first = "\<lambda>n t. ?slot (?start + int n) t \<and> after < t \<and> (\<forall>i \<le> n. re_date_ok env (?start + int i))
    \<and> (\<forall>i < n. \<forall>u. ?slot (?start + int i) u \<longrightarrow> u \<le> after)"
  have scan: "next_calendar_after env tz hour minute weekday after = Inr (Some x)
      \<longleftrightarrow> calendar_scan env tz hour minute weekday after ?start [0..<400] = Some x" for x
    by (simp add: next_calendar_after_def split: option.split)
  have only: "\<exists>n < 400. ?first n x" if "calendar_scan env tz hour minute weekday after ?start [0..<400] = Some x" for x
    using calendar_scan_Some [OF that] by auto
  have found: "calendar_scan env tz hour minute weekday after ?start [0..<400] = Some t" if n: "n < 400" "?first n t" for n
  proof -
    obtain x where x: "calendar_scan env tz hour minute weekday after ?start [0..<400] = Some x"
      using calendar_scan_finds [of 0 n 400 env tz hour minute weekday ?start t after] n by auto
    then obtain m where m: "?first m x" using only by blast
    have "m = n" using m n by (meson linorder_neqE_nat not_le)
    then show ?thesis using m n x by (simp add: calendar_slot_def)
  qed
  have "t \<le> u" if "fixed_offset env tz offset" "calendar_scan env tz hour minute weekday after ?start [0..<400] = Some t"
    "?slot d u" "after < u" for d u
    using only [OF that(2)] least_slot [OF fixed_ordered [OF that(1)] that(3,4)] by blast
  moreover have "next_calendar_after env tz hour minute weekday after \<noteq> Inr None"
    by (simp add: next_calendar_after_def split: option.split)
  ultimately show ?thesis using only found unfolding scan by blast
qed

lemma utc_fixed: "fixed_offset utc_env tz 0"
  by (simp add: fixed_offset_def utc_env_def)

theorem calendar_next_exact_witness:
  "next_calendar_after utc_env ''UTC'' 9 30 (Some 4) 0 = Inr (Some 120600000000000)
   \<and> calendar_slot utc_env ''UTC'' 9 30 (Some 4) 8 725400000000000 \<and> (120600000000000 :: int) \<le> 725400000000000"
proof -
  have slots: "calendar_slot utc_env ''UTC'' 9 30 (Some 4) 1 120600000000000" "\<not> calendar_slot utc_env ''UTC'' 9 30 (Some 4) 0 u"
    "calendar_slot utc_env ''UTC'' 9 30 (Some 4) 8 725400000000000" for u
    by (simp_all add: calendar_slot_def weekday_monday0_def resolve_local_wall_def utc_env_def)
  have "re_local_date utc_env ''UTC'' 0 = 0" "\<forall>i \<le> 1. re_date_ok utc_env (int i)" by (auto simp: utc_env_def)
  then have "next_calendar_after utc_env ''UTC'' 9 30 (Some 4) 0 = Inr (Some 120600000000000)"
    using calendar_next_exact [of utc_env "''UTC''" 9 30 "Some 4" 0 120600000000000 0] slots(1,2)
    by (auto intro!: exI [of _ 1])
  then show ?thesis
    using calendar_next_exact [of utc_env "''UTC''" 9 30 "Some 4" 0 120600000000000 0] utc_fixed slots(3) by simp
qed

subsection \<open>What is due\<close>

definition increasing_within :: "time \<Rightarrow> time \<Rightarrow> time list \<Rightarrow> bool" where
  "increasing_within lo hi ts \<longleftrightarrow> sorted_wrt (<) ts \<and> (\<forall>t \<in> set ts. lo \<le> t \<and> t \<le> hi)"

lemma increasing_append:
  "increasing_within lo hi ts \<Longrightarrow> (\<And>t. t \<in> set ts \<Longrightarrow> t \<le> c) \<Longrightarrow> c < n \<Longrightarrow> lo \<le> n \<Longrightarrow> n \<le> hi
     \<Longrightarrow> increasing_within lo hi (ts @ [n])"
  by (fastforce simp: increasing_within_def sorted_wrt_append)

lemma increasing_drop: "increasing_within lo hi ts \<Longrightarrow> increasing_within lo hi (drop n ts)"
  by (auto simp: increasing_within_def sorted_wrt_drop dest: in_set_dropD)

lemma increasing_Nil [simp]: "increasing_within lo hi []"
  by (simp add: increasing_within_def)

lemma increasing_last: "increasing_within lo hi ts \<Longrightarrow> ts \<noteq> [] \<Longrightarrow> increasing_within lo hi [last ts]"
  by (simp add: increasing_within_def)

definition nothing_left :: "routine_env \<Rightarrow> routine_trigger \<Rightarrow> time \<Rightarrow> time \<Rightarrow> bool" where
  "nothing_left env trigger cursor through \<longleftrightarrow>
     (\<forall>n. next_after env trigger cursor = Inr (Some n) \<longrightarrow> n > through \<or> n \<le> cursor)"

lemma occurrences_loop_ok:
  assumes "occurrences_loop env trigger through limit out cursor = Inr ts"
    and "increasing_within lo through out" "\<And>t. t \<in> set out \<Longrightarrow> t \<le> cursor" "lo \<le> cursor" "length out \<le> limit"
    and "out \<noteq> [] \<Longrightarrow> last out = cursor"
  shows "increasing_within lo through ts \<and> length ts \<le> limit
    \<and> (ts \<noteq> [] \<longrightarrow> length ts < limit \<longrightarrow> nothing_left env trigger (last ts) through)"
  using assms
proof (induction env trigger through limit out cursor arbitrary: ts rule: occurrences_loop.induct)
  case (1 env trigger through limit out cursor)
  let ?more = "\<lambda>n. occurrences_loop env trigger through limit (out @ [n]) n"
  have cases: "ts = out \<and> (out \<noteq> [] \<longrightarrow> length out < limit \<longrightarrow> nothing_left env trigger cursor through)
    \<or> (\<exists>n. length out < limit \<and> next_after env trigger cursor = Inr (Some n) \<and> \<not> n > through \<and> \<not> n \<le> cursor
         \<and> ?more n = Inr ts)"
    using "1.prems"(1)
    by (subst (asm) occurrences_loop.simps)
       (cases "next_after env trigger cursor", auto simp: rbind_def nothing_left_def split: if_splits option.splits)
  then show ?case
  proof
    assume "ts = out \<and> (out \<noteq> [] \<longrightarrow> length out < limit \<longrightarrow> nothing_left env trigger cursor through)"
    then show ?thesis using "1.prems"(2,5,6) by auto
  next
    assume "\<exists>n. length out < limit \<and> next_after env trigger cursor = Inr (Some n) \<and> \<not> n > through \<and> \<not> n \<le> cursor
         \<and> ?more n = Inr ts"
    then obtain n where n: "length out < limit" "next_after env trigger cursor = Inr (Some n)" "\<not> n > through"
      "\<not> n \<le> cursor" "?more n = Inr ts" by blast
    show ?thesis
    proof (rule "1.IH" [OF n(1,3,4,5)])
      show "increasing_within lo through (out @ [n])"
        using "1.prems"(2,3,4) n(3,4) by (intro increasing_append [where c = cursor]) auto
      show "t \<le> n" if "t \<in> set (out @ [n])" for t using that "1.prems"(3) [of t] n(4) by auto
    qed (use "1.prems"(4) n(1,4) in auto)
  qed
qed

lemma occurrences_through_ok:
  assumes "occurrences_through env trigger from through limit = Inr ts"
  shows "increasing_within from through ts \<and> length ts \<le> limit
    \<and> (ts \<noteq> [] \<longrightarrow> length ts < limit \<longrightarrow> nothing_left env trigger (last ts) through)"
proof (cases "through < from \<or> limit = 0")
  case True
  then show ?thesis using assms by (auto simp: occurrences_through_def increasing_within_def)
next
  case False
  then obtain first where first: "first_occurrence env trigger from through = Inr first"
    and loop: "(case first of
        Some f \<Rightarrow> if f \<le> through then occurrences_loop env trigger through limit [f] f
                  else occurrences_loop env trigger through limit [] from
      | None \<Rightarrow> occurrences_loop env trigger through limit [] from) = Inr ts"
    using assms by (auto simp: occurrences_through_def rbind_ok)
  have "from \<le> f" if "first = Some f" for f
    using first that
    by (auto simp: first_occurrence_def rbind_ok split: routine_trigger.splits if_splits option.splits)
  then consider "occurrences_loop env trigger through limit [] from = Inr ts"
    | f where "from \<le> f" "f \<le> through" "occurrences_loop env trigger through limit [f] f = Inr ts"
    using loop by (auto split: option.splits if_splits)
  then show ?thesis
  proof cases
    case 1
    then show ?thesis by (rule occurrences_loop_ok) (auto simp: increasing_within_def)
  next
    case 2
    from 2(3) show ?thesis
      by (rule occurrences_loop_ok) (use 2 False in \<open>auto simp: increasing_within_def\<close>)
  qed
qed

lemma due_bounds:
  assumes "due_occurrences env routine now = Inr due" "rt_next_fire_at routine = Some planned"
  shows "increasing_within planned now due \<and> length due \<le> MAX_CATCH_UP_OCCURRENCES
    \<and> (rt_missed_run_policy routine = MR_CatchUp \<or> length due \<le> 1)
    \<and> (rt_missed_run_policy routine = MR_CatchUp \<and> (\<forall>at e. rt_trigger routine \<noteq> RT_OneShot at e)
        \<and> 1 < length due \<and> length due < MAX_CATCH_UP_OCCURRENCES
        \<longrightarrow> nothing_left env (rt_trigger routine) (last due) now)"
proof (cases "planned > now \<or> (\<exists>at e. rt_trigger routine = RT_OneShot at e)")
  case True
  then have "due = [] \<or> due = [planned] \<and> planned \<le> now"
    using assms by (auto simp: due_occurrences_def split: if_splits)
  then show ?thesis by (auto simp: increasing_within_def MAX_CATCH_UP_OCCURRENCES_def)
next
  case False
  then obtain missed where missed: "occurrences_through env (rt_trigger routine) planned now 9 = Inr missed"
    and due: "due = (if missed = [] then [planned] else case rt_missed_run_policy routine of
      MR_Skip \<Rightarrow> if length missed = 1 then missed else []
    | MR_Coalesce \<Rightarrow> [last missed]
    | MR_CatchUp \<Rightarrow> drop (length missed - MAX_CATCH_UP_OCCURRENCES) missed)"
    using assms
    by (cases "rt_trigger routine")
       (auto simp: due_occurrences_def rbind_ok MAX_CATCH_UP_OCCURRENCES_def split: if_splits)
  note ok = occurrences_through_ok [OF missed]
  show ?thesis
  proof (cases "missed = []")
    case True
    then show ?thesis using due False by (auto simp: increasing_within_def MAX_CATCH_UP_OCCURRENCES_def)
  next
    case False
    then show ?thesis
      using ok due
      by (cases "rt_missed_run_policy routine")
         (auto simp: MAX_CATCH_UP_OCCURRENCES_def increasing_drop increasing_last last_drop)
  qed
qed

text \<open>
  What a pass finds due is a strictly increasing list of at most eight instants, none before
  the stored next firing and none in the future; only the catch-up policy yields more than one.
  When catching up yields fewer than eight, no further occurrence is due after the last of them.
\<close>

theorem due_occurrences_bounded:
  assumes "due_occurrences env routine now = Inr due" "rt_next_fire_at routine = Some planned"
  shows "increasing_within planned now due \<and> length due \<le> MAX_CATCH_UP_OCCURRENCES
    \<and> (rt_missed_run_policy routine = MR_CatchUp \<or> length due \<le> 1)
    \<and> (rt_missed_run_policy routine = MR_CatchUp \<and> (\<forall>at e. rt_trigger routine \<noteq> RT_OneShot at e)
        \<and> 1 < length due \<and> length due < MAX_CATCH_UP_OCCURRENCES
        \<longrightarrow> nothing_left env (rt_trigger routine) (last due) now)"
  using assms by (rule due_bounds)

subsection \<open>Backoff\<close>

lemma delay_bounds:
  assumes "routine_retry_validate p = Inr ()"
  shows "span_ms (int (rr_backoff_ms p)) \<le> delay_after p n \<and> delay_after p n \<le> span_ms (int (rr_max_backoff_ms p))"
proof -
  have "rr_backoff_ms p \<le> rr_max_backoff_ms p" "rr_max_backoff_ms p \<le> 3600000"
    using assms by (auto simp: routine_retry_validate_def MAX_BACKOFF_MS_def)
  moreover have "rr_backoff_ms p \<le> rr_backoff_ms p * 2 ^ k" for k by simp
  ultimately show ?thesis by (simp add: delay_after_def span_ms_def Let_def min_def)
qed

subsection \<open>Where the schedule differs from its documentation\<close>

definition every_second :: "missed_run_policy \<Rightarrow> routine_record" where
  "every_second policy =
     \<lparr>rt_schema_version = 1, rt_routine_id = ''r'', rt_name = ''n'', rt_agent_id = ''a'', rt_session_id = 7,
      rt_workspace = ''/w'', rt_lifecycle = RL_Enabled, rt_trigger = RT_Interval 1000 ''UTC'' 0,
      rt_work_template = \<lparr>wt_kind = ''k'', wt_objective = ''o'', wt_priority = 0, wt_policy = example_policy\<rparr>,
      rt_missed_run_policy = policy, rt_max_in_flight = 1,
      rt_retry = \<lparr>rr_backoff_ms = 5000, rr_max_backoff_ms = 60000, rr_circuit_failures = 2\<rparr>,
      rt_revision = 1, rt_next_fire_at = Some 0, rt_last_fire_at = None, rt_consecutive_failures = 0,
      rt_circuit_open = False, rt_created_by = ''c'', rt_created_at = 0, rt_updated_at = 0\<rparr>"

lemma every_second_next:
  "- 1000000000 \<le> t \<Longrightarrow> t < 1000000000000 \<Longrightarrow>
     next_after utc_env (RT_Interval 1000 ''UTC'' 0) t = Inr (Some ((t div 1000000000 + 1) * 1000000000))"
  using interval_next [OF utc_valid(2), of t] int_div_pos_eq [of t 1000000000 "- 1" "t + 1000000000"]
  by (auto simp: span_ms_def interval_slot_def algebra_simps simp del: next_after.simps)

lemma late_due:
  "due_occurrences utc_env (every_second MR_Coalesce) 20000000000 = Inr [8000000000]"
  "due_occurrences utc_env (every_second MR_CatchUp) 20000000000
     = Inr [1000000000, 2000000000, 3000000000, 4000000000, 5000000000, 6000000000, 7000000000, 8000000000]"
proof -
  have "occurrences_through utc_env (RT_Interval 1000 ''UTC'' 0) 0 20000000000 9
    = Inr [0, 1000000000, 2000000000, 3000000000, 4000000000, 5000000000, 6000000000, 7000000000, 8000000000]"
    by (simp add: occurrences_through_def first_occurrence_def every_second_next rbind_def span_ms_def
        occurrences_loop.simps del: next_after.simps)
  then show "due_occurrences utc_env (every_second MR_Coalesce) 20000000000 = Inr [8000000000]"
    "due_occurrences utc_env (every_second MR_CatchUp) 20000000000
       = Inr [1000000000, 2000000000, 3000000000, 4000000000, 5000000000, 6000000000, 7000000000, 8000000000]"
    by (simp_all add: due_occurrences_def every_second_def MAX_CATCH_UP_OCCURRENCES_def rbind_def)
qed

theorem due_occurrences_bounded_witness:
  "increasing_within 0 20000000000 [1000000000, 2000000000, 3000000000, 4000000000, 5000000000, 6000000000,
     7000000000, 8000000000] \<and> rt_next_fire_at (every_second MR_CatchUp) = Some 0"
proof -
  have "rt_next_fire_at (every_second MR_CatchUp) = Some 0" by (simp add: every_second_def)
  with due_occurrences_bounded [OF late_due(2) this] show ?thesis by blast
qed

text \<open>
  Twenty seconds late, an every-second routine that coalesces fires the slot of second 8, not
  the latest missed slot, and one that catches up fires seconds 1 to 8, the oldest slots but one.
\<close>

theorem late_pass_fires_old_slots:
  "due_occurrences utc_env (every_second MR_Coalesce) 20000000000 = Inr [8000000000]
   \<and> due_occurrences utc_env (every_second MR_CatchUp) 20000000000
       = Inr [1000000000, 2000000000, 3000000000, 4000000000, 5000000000, 6000000000, 7000000000, 8000000000]"
  using late_due by blast

text \<open>
  From \<open>2 ^ 31\<close> steps after the anchor on, the cast to \<open>i32\<close> turns the number of steps negative:
  68 years after its anchor the next firing of an every-second routine lies before the anchor.
\<close>

theorem next_slot_wraps:
  "next_after utc_env (RT_Interval 1000 ''UTC'' 0) (2 ^ 31 * 1000000000)
     = Inr (Some (- 2147483647 * 1000000000))"
  using utc_valid(1) by (simp add: rbind_def as_i64_def as_i32_def span_ms_def Let_def)

end
