(* ===== verification/Ledger_Save.thy ===== *)
theory Ledger_Save
  imports Ledger_Part Ledger_Records
begin

section \<open>Saving work for other components\<close>

text \<open>
  What a component beside the ledger can rely on when it saves a work item: the item is stored
  or the items are as before, and a full lane refuses a new item without a write.
\<close>

lemma wp_pure_bind:
  assumes "\<And>e. r = Inl e \<Longrightarrow> E e s" "\<And>x. r = Inr x \<Longrightarrow> wp (f x) Q E s"
  shows "wp (bindE (lift r) f) Q E s"
  using assms by (auto simp: wp split: sum.split)

lemma wp_pure_then:
  assumes "\<And>e. r = Inl e \<Longrightarrow> E e s" "r = Inr () \<Longrightarrow> wp k Q E s"
  shows "wp (thenE (lift r) k) Q E s"
  using assms by (auto simp: wp split: sum.split)

lemma wp_put_work:
  "wp (write_work_item h w)
     (\<lambda>_ m. lg_items m = dir_put (wi_work_id w) w (lg_items l) \<and> lg_uuids m = lg_uuids l)
     (\<lambda>_ m. (lg_items m = lg_items l \<or> lg_items m = dir_put (wi_work_id w) w (lg_items l)) \<and> lg_uuids m = lg_uuids l) l"
  by (auto simp: write_work_item_def work_path_def wp intro!: wp_durable
      dest!: safe_id_filename_same split: sum.split)

lemma wp_save_item:
  "wp (save_work_item h w)
     (\<lambda>_ m. lg_items m = dir_put (wi_work_id w) w (lg_items l) \<and> lg_uuids m = lg_uuids l)
     (\<lambda>_ m. (lg_items m = lg_items l \<or> lg_items m = dir_put (wi_work_id w) w (lg_items l)) \<and> lg_uuids m = lg_uuids l) l"
proof -
  let ?Q = "\<lambda>_ m. lg_items m = dir_put (wi_work_id w) w (lg_items l) \<and> lg_uuids m = lg_uuids l"
    and ?E = "\<lambda>_ m. (lg_items m = lg_items l \<or> lg_items m = dir_put (wi_work_id w) w (lg_items l)) \<and> lg_uuids m = lg_uuids l"
  have "wp (validate_work_item_for_save h w) (\<lambda>_. wp (write_work_item h w) ?Q ?E) ?E l"
    using wp_put_work [of h w l]
    by (intro wp_mono [OF keepsD [OF keeps_validate_for_save [of "\<lambda>m. m = l"]]]) auto
  then show ?thesis by (simp add: save_work_item_def wp_thenE)
qed

definition lane_full :: "host \<Rightarrow> work_item \<Rightarrow> ledger \<Rightarrow> bool" where
  "lane_full h w l \<longleftrightarrow> item_validate w = Inr () \<and> file_get (lg_items l) (wi_work_id w) = None
     \<and> (\<forall>lane. scoped_items h (scope_of w) (dir_list (lg_items l)) [] = Inr lane \<longrightarrow> MAX_GRAPH_SCOPE_ITEMS \<le> length lane)"

lemma full_refuses: "lane_full h w l \<Longrightarrow> \<exists>e. save_work_item h w l = (Inl e, l)"
  by (auto simp: lane_full_def save_work_item_def validate_work_item_for_save_def load_work_item_def
      checked_def scoped_work_items_def bindE_def thenE_def ret_def raise_def lift_def reads_def map_err_def
      split: sum.split)

end
