(* ===== verification/Routine_Contract.thy ===== *)
theory Routine_Contract
  imports Routine_Store Routine_Schedule Ledger_Save
begin

section \<open>What an activation does to the store\<close>

text \<open>
  The effect of every step of an activation, for all outcomes of its writes. \<open>touched\<close> says what
  committing an intent may leave behind, \<open>recorded\<close> what it leaves when it succeeds. On top of
  them \<open>activation_effect\<close> describes a whole activation: one intent, with identifiers that were
  not used before, and a new work item only where the routine may create one.
\<close>

abbreviation items_of :: "routine_store \<Rightarrow> (string, work_item) dir" where
  "items_of s \<equiv> lg_items (rs_ledger s)"

abbreviation uuids_of :: "routine_store \<Rightarrow> nat" where
  "uuids_of s \<equiv> lg_uuids (rs_ledger s)"

definition activation_key :: "fire_intent \<Rightarrow> string \<times> string" where
  "activation_key i = (av_routine_id (fi_activation i), av_activation_id (fi_activation i))"

definition touched :: "fire_intent \<Rightarrow> routine_store \<Rightarrow> routine_store \<Rightarrow> bool" where
  "touched i s t \<longleftrightarrow>
     rs_routines t = rs_routines s \<and> uuids_of t = uuids_of s
     \<and> (items_of t = items_of s
        \<or> (\<exists>w. fi_work i = Some w \<and> items_of t = dir_put (wi_work_id w) w (items_of s)))
     \<and> (\<forall>k a. dir_get (rs_activations t) k = Some a \<longrightarrow>
           dir_get (rs_activations s) k = Some a \<or> k = activation_key i \<and> a = fi_activation i)
     \<and> (rs_dedupe t = rs_dedupe s
        \<or> (\<exists>d. fi_dedupe i = Some d
             \<and> rs_dedupe t = dir_put (av_routine_id (fi_activation i), dd_dedupe_key d) d (rs_dedupe s)))"

definition recorded :: "fire_intent \<Rightarrow> routine_store \<Rightarrow> routine_store \<Rightarrow> bool" where
  "recorded i s t \<longleftrightarrow>
     (\<forall>w. fi_work i = Some w \<longrightarrow> items_of t = dir_put (wi_work_id w) w (items_of s))
     \<and> (\<forall>d. fi_dedupe i = Some d \<longrightarrow>
          rs_dedupe t = dir_put (av_routine_id (fi_activation i), dd_dedupe_key d) d (rs_dedupe s))"

lemma counted_files [simp]:
  "rs_routines (count_write_in rs_ledger_update s) = rs_routines s"
  "rs_activations (count_write_in rs_ledger_update s) = rs_activations s"
  "rs_dedupe (count_write_in rs_ledger_update s) = rs_dedupe s"
  "rs_intents (count_write_in rs_ledger_update s) = rs_intents s"
  "items_of (count_write_in rs_ledger_update s) = items_of s"
  "uuids_of (count_write_in rs_ledger_update s) = uuids_of s"
  by (simp_all add: count_write_in_def)

lemma touched_refl [simp]: "touched i s s"
  by (simp add: touched_def)

lemma touched_frame [simp]:
  "touched i s (count_write_in rs_ledger_update t) = touched i s t"
  "touched i s (t\<lparr>rs_intents := d\<rparr>) = touched i s t"
  "recorded i s (count_write_in rs_ledger_update t) = recorded i s t"
  "recorded i s (t\<lparr>rs_intents := d\<rparr>) = recorded i s t"
  by (simp_all add: touched_def recorded_def)

lemma touched_del:
  "touched i s t \<Longrightarrow> touched i s (t\<lparr>rs_activations := dir_del k (rs_activations t)\<rparr>)"
  by (auto simp: touched_def split: if_splits)

lemma recorded_activations [simp]: "recorded i s (t\<lparr>rs_activations := d\<rparr>) = recorded i s t"
  by (simp add: recorded_def)

lemma pair_path_same: "pair_path a b = Inr k \<Longrightarrow> k = (a, b)"
  by (auto simp: pair_path_def rbind_ok dest!: safe_id_filename_same)

subsection \<open>Committing an intent\<close>

lemma wp_routine_durable:
  assumes "Q () (f (count_write_in rs_ledger_update s))"
    and "\<And>e. E e (count_write_in rs_ledger_update s)" "\<And>e. E e (f (count_write_in rs_ledger_update s))"
  shows "wp (routine_durable env f) Q E s"
  using assms by (intro wp_part_durable)

text \<open>States that differ only in intents and the counters of the host.\<close>

definition same_files :: "routine_store \<Rightarrow> routine_store \<Rightarrow> bool" where
  "same_files s t \<longleftrightarrow>
     rs_routines t = rs_routines s \<and> uuids_of t = uuids_of s \<and> items_of t = items_of s
     \<and> rs_activations t = rs_activations s \<and> rs_dedupe t = rs_dedupe s"

lemma same_files_frame [simp]:
  "same_files s s"
  "same_files s (count_write_in rs_ledger_update t) = same_files s t"
  "same_files s (t\<lparr>rs_intents := d\<rparr>) = same_files s t"
  by (simp_all add: same_files_def)

lemma same_files_touched: "same_files s t \<Longrightarrow> touched i s t"
  by (simp add: same_files_def touched_def)

lemma touched_same_files: "same_files s u \<Longrightarrow> touched i u t = touched i s t"
  by (simp add: same_files_def touched_def)

lemma recorded_same_files: "same_files s u \<Longrightarrow> recorded i u t = recorded i s t"
  by (simp add: same_files_def recorded_def)

lemma wp_persist_intent:
  "wp (persist_routine_intent env i) (\<lambda>_. same_files s) (\<lambda>_. same_files s) s"
  unfolding persist_routine_intent_def by (intro wp_pure_bind wp_routine_durable) auto

text \<open>The ledger part of a commit: nothing, or the work item of the intent, is written.\<close>

definition work_written :: "fire_intent \<Rightarrow> routine_store \<Rightarrow> routine_store \<Rightarrow> bool" where
  "work_written i s t \<longleftrightarrow>
     rs_routines t = rs_routines s \<and> uuids_of t = uuids_of s \<and> rs_activations t = rs_activations s
     \<and> rs_dedupe t = rs_dedupe s
     \<and> items_of t = (case fi_work i of None \<Rightarrow> items_of s | Some w \<Rightarrow> dir_put (wi_work_id w) w (items_of s))"

lemma work_written_frame [simp]:
  "work_written i s (count_write_in rs_ledger_update t) = work_written i s t"
  by (simp add: work_written_def)

lemma work_written_touched: "work_written i s t \<Longrightarrow> touched i s t"
  by (auto simp: work_written_def touched_def split: option.splits)

lemma put_activation_touched:
  "work_written i s t \<Longrightarrow>
     touched i s (t\<lparr>rs_activations := dir_put (activation_key i) (fi_activation i) (rs_activations t)\<rparr>)"
  by (auto simp: work_written_def touched_def split: option.splits if_splits)

lemma put_receipt_touched:
  assumes "work_written i s t" "fi_dedupe i = Some d"
  shows "touched i s (t\<lparr>rs_activations := dir_put (activation_key i) (fi_activation i) (rs_activations t),
      rs_dedupe := dir_put (av_routine_id (fi_activation i), dd_dedupe_key d) d (rs_dedupe t)\<rparr>)"
    and "recorded i s (t\<lparr>rs_activations := dir_put (activation_key i) (fi_activation i) (rs_activations t),
      rs_dedupe := dir_put (av_routine_id (fi_activation i), dd_dedupe_key d) d (rs_dedupe t)\<rparr>)"
  using assms by (auto simp: work_written_def touched_def recorded_def split: option.splits if_splits)

lemma wp_save_intent_work:
  "wp (case fi_work i of None \<Rightarrow> ret () | Some work \<Rightarrow> map_err internal_of (in_ledger (save_work_item h work)))
     (\<lambda>_. work_written i s) (\<lambda>_. touched i s) s"
proof (cases "fi_work i")
  case None
  then show ?thesis by (simp add: wp_ret work_written_def)
next
  case (Some w)
  have "wp (save_work_item h w) (\<lambda>_ m. work_written i s (s\<lparr>rs_ledger := m\<rparr>)) (\<lambda>_ m. touched i s (s\<lparr>rs_ledger := m\<rparr>)) (rs_ledger s)"
    by (rule wp_mono [OF wp_save_item]) (auto simp: Some work_written_def touched_def)
  then show ?thesis by (simp add: Some wp)
qed

lemma wp_commit_intent:
  "wp (commit_routine_intent env i) (\<lambda>_ t. touched i s t \<and> recorded i s t) (\<lambda>_. touched i s) s"
proof -
  have files: "wp (bindE (lift (pair_path (av_routine_id (fi_activation i)) (av_activation_id (fi_activation i)))) (\<lambda>k.
      thenE (routine_durable env (\<lambda>s. s\<lparr>rs_activations := dir_put k (fi_activation i) (rs_activations s)\<rparr>))
      (case fi_dedupe i of
         None \<Rightarrow> ret ()
       | Some dedupe \<Rightarrow>
           bindE (lift (pair_path (av_routine_id (fi_activation i)) (dd_dedupe_key dedupe))) (\<lambda>d.
             routine_durable env (\<lambda>s. s\<lparr>rs_dedupe := dir_put d dedupe (rs_dedupe s)\<rparr>)))))
      (\<lambda>_ t. touched i s t \<and> recorded i s t) (\<lambda>_. touched i s) t" if t: "work_written i s t" for t
  proof (rule wp_pure_bind)
    fix k assume "pair_path (av_routine_id (fi_activation i)) (av_activation_id (fi_activation i)) = Inr k"
    then have k: "k = activation_key i" by (simp add: pair_path_same activation_key_def)
    let ?c = "count_write_in rs_ledger_update"
    let ?u = "(?c t)\<lparr>rs_activations := dir_put k (fi_activation i) (rs_activations (?c t))\<rparr>"
    have u: "touched i s ?u" using put_activation_touched [of i s "?c t"] t k by simp
    have "wp (case fi_dedupe i of None \<Rightarrow> ret () | Some dedupe \<Rightarrow>
           bindE (lift (pair_path (av_routine_id (fi_activation i)) (dd_dedupe_key dedupe))) (\<lambda>d.
             routine_durable env (\<lambda>s. s\<lparr>rs_dedupe := dir_put d dedupe (rs_dedupe s)\<rparr>)))
        (\<lambda>_ t. touched i s t \<and> recorded i s t) (\<lambda>_. touched i s) ?u"
    proof (cases "fi_dedupe i")
      case None
      then show ?thesis using u t by (auto simp: wp_ret recorded_def work_written_def count_write_in_def)
    next
      case (Some d)
      have put: "touched i s (x\<lparr>rs_dedupe := y\<rparr>) \<and> recorded i s (x\<lparr>rs_dedupe := y\<rparr>)"
        if "x = ?c ?u" "y = dir_put (av_routine_id (fi_activation i), dd_dedupe_key d) d (rs_dedupe t)" for x y
        using put_receipt_touched [of i s t d] t Some k that
        by (simp add: touched_def recorded_def count_write_in_def)
      show ?thesis
        unfolding Some option.case
      proof (rule wp_pure_bind)
        fix j assume "pair_path (av_routine_id (fi_activation i)) (dd_dedupe_key d) = Inr j"
        then have j: "j = (av_routine_id (fi_activation i), dd_dedupe_key d)" by (rule pair_path_same)
        show "wp (routine_durable env (\<lambda>s. s\<lparr>rs_dedupe := dir_put j d (rs_dedupe s)\<rparr>))
            (\<lambda>_ t. touched i s t \<and> recorded i s t) (\<lambda>_. touched i s) ?u"
          using u put [OF refl] by (intro wp_routine_durable) (simp_all add: j)
      qed (use u in simp)
    qed
    then show "wp (thenE (routine_durable env (\<lambda>s. s\<lparr>rs_activations := dir_put k (fi_activation i) (rs_activations s)\<rparr>))
        (case fi_dedupe i of None \<Rightarrow> ret () | Some dedupe \<Rightarrow>
           bindE (lift (pair_path (av_routine_id (fi_activation i)) (dd_dedupe_key dedupe))) (\<lambda>d.
             routine_durable env (\<lambda>s. s\<lparr>rs_dedupe := dir_put d dedupe (rs_dedupe s)\<rparr>))))
        (\<lambda>_ t. touched i s t \<and> recorded i s t) (\<lambda>_. touched i s) t"
      unfolding wp_thenE using u work_written_touched [OF t] by (intro wp_routine_durable) simp_all
  qed (use work_written_touched [OF t] in simp)
  show ?thesis
    unfolding commit_routine_intent_def wp_thenE
    by (rule wp_mono [OF wp_save_intent_work]) (simp_all add: files)
qed

lemma wp_clear_activation_intent:
  "P s \<Longrightarrow> (\<And>t. P t \<Longrightarrow> P (count_write_in rs_ledger_update t)) \<Longrightarrow> (\<And>t d. P t \<Longrightarrow> P (t\<lparr>rs_intents := d\<rparr>)) \<Longrightarrow>
     wp (clear_routine_intent env k) (\<lambda>_. P) (\<lambda>_. P) s"
  unfolding clear_routine_intent_def by (intro wp_pure_bind wp_routine_durable) auto

lemma wp_prune_activations:
  assumes "P s" "\<And>t. P t \<Longrightarrow> P (count_write_in rs_ledger_update t)"
    and del: "\<And>t k. P t \<Longrightarrow> P (t\<lparr>rs_activations := dir_del k (rs_activations t)\<rparr>)"
  shows "wp (prune_activations env rid) (\<lambda>_. P) (\<lambda>_. P) s"
proof -
  have remove: "wp (remove_activation env rid a) (\<lambda>_. P) (\<lambda>_. P) t" if "P t" for a t
    using assms(2) del [OF assms(2)] that
    by (auto simp: remove_activation_def part_durable_def wp_def lift_def bindE_def
        split: sum.split write_outcome.split)
  show ?thesis
    using assms(1)
    by (auto simp: prune_activations_def list_activations_def wp intro!: wp_for_each remove split: sum.split)
qed

lemma wp_commit_activation:
  "wp (commit_activation env rid i) (\<lambda>a t. a = fi_activation i \<and> touched i s t \<and> recorded i s t) (\<lambda>_. touched i s) s"
proof -
  let ?R = "\<lambda>t. touched i s t \<and> recorded i s t"
  have prune: "wp (prune_activations env rid) (\<lambda>_. ?R) (\<lambda>_. ?R) t" if "?R t" for t
    by (rule wp_prune_activations) (use that touched_del in auto)
  have clear: "wp (clear_routine_intent env k) (\<lambda>_. ?R) (\<lambda>_. ?R) t" if "?R t" for k t
    by (rule wp_clear_activation_intent) (use that in auto)
  have last: "wp (thenE (prune_activations env rid) (ret (fi_activation i)))
      (\<lambda>a t. a = fi_activation i \<and> ?R t) (\<lambda>_. touched i s) t" if "?R t" for t
    unfolding wp_thenE by (rule wp_mono [OF prune [OF that]]) (auto simp: wp_ret)
  have tail: "wp (thenE (clear_routine_intent env k) (thenE (prune_activations env rid) (ret (fi_activation i))))
      (\<lambda>a t. a = fi_activation i \<and> ?R t) (\<lambda>_. touched i s) t" if "?R t" for k t
    unfolding wp_thenE [of "clear_routine_intent env k"]
    by (rule wp_mono [OF clear [OF that]]) (auto intro: last)
  have commit: "wp (thenE (commit_routine_intent env i) (thenE (clear_routine_intent env k)
      (thenE (prune_activations env rid) (ret (fi_activation i)))))
      (\<lambda>a t. a = fi_activation i \<and> ?R t) (\<lambda>_. touched i s) u" if u: "same_files s u" for k u
    unfolding wp_thenE [of "commit_routine_intent env i"]
    by (rule wp_mono [OF wp_commit_intent])
       (auto simp: touched_same_files [OF u] recorded_same_files [OF u] intro: tail)
  show ?thesis
    unfolding commit_activation_def wp_thenE [of "persist_routine_intent env i"]
    by (rule wp_mono [OF wp_persist_intent [of env i s]]) (auto intro: commit same_files_touched)
qed

subsection \<open>One activation\<close>

text \<open>The intent of an activation: its own identifier, one receipt, and work iff it reports work.\<close>

definition intent_for :: "routine_env \<Rightarrow> string \<Rightarrow> string \<Rightarrow> nat \<Rightarrow> fire_intent \<Rightarrow> bool" where
  "intent_for env rid key n i \<longleftrightarrow>
     av_routine_id (fi_activation i) = rid \<and> av_activation_id (fi_activation i) = new_uuid (re_host env) n
     \<and> av_work_id (fi_activation i) = map_option wi_work_id (fi_work i)
     \<and> (av_disposition (fi_activation i) = AD_CreatedWork \<longleftrightarrow> fi_work i \<noteq> None)
     \<and> (\<exists>d. fi_dedupe i = Some d \<and> dd_dedupe_key d = key \<and> dd_activation_id d = new_uuid (re_host env) n
          \<and> dd_work_id d = map_option wi_work_id (fi_work i))"

text \<open>When a routine may create a work item, and which.\<close>

definition work_justified ::
  "routine_env \<Rightarrow> routine_record \<Rightarrow> activation_request \<Rightarrow> run_bounds \<Rightarrow> routine_store \<Rightarrow> fire_intent \<Rightarrow> work_item \<Rightarrow> bool" where
  "work_justified env routine request ceiling s i w \<longleftrightarrow>
     decide_lifecycle_skip routine (aq_cause request) = None
     \<and> in_flight_count (dir_list (items_of s)) (rt_routine_id routine) < rt_max_in_flight routine
     \<and> wi_source_routine_id w = Some (rt_routine_id routine)
     \<and> wi_policy w = cp_work_policy (av_captured_policy (fi_activation i))
     \<and> (\<exists>agent. file_get (lg_agents (rs_ledger s)) (rt_agent_id routine) = Some agent
          \<and> workspaces_match (re_host env) (ag_workspace agent) (rt_workspace routine)
          \<and> capture (rt_revision routine) (Some (rt_agent_id routine)) (ag_spec agent)
               (rt_work_template routine) ceiling = Inr (av_captured_policy (fi_activation i)))"

text \<open>Before the intent is written only identifiers are drawn and a failure is counted.\<close>

definition prepared :: "routine_record \<Rightarrow> time \<Rightarrow> bool \<Rightarrow> routine_store \<Rightarrow> routine_store \<Rightarrow> bool" where
  "prepared routine now failed s u \<longleftrightarrow>
     items_of u = items_of s \<and> rs_activations u = rs_activations s \<and> rs_dedupe u = rs_dedupe s
     \<and> uuids_of s \<le> uuids_of u \<and> lg_agents (rs_ledger u) = lg_agents (rs_ledger s)
     \<and> (rs_routines u = rs_routines s
        \<or> failed \<and> rs_routines u = dir_put (rt_routine_id routine) (failed_routine routine now) (rs_routines s))"

definition activation_effect ::
  "routine_env \<Rightarrow> routine_record \<Rightarrow> activation_request \<Rightarrow> run_bounds \<Rightarrow> time \<Rightarrow> routine_store
     \<Rightarrow> activation_record option \<Rightarrow> routine_store \<Rightarrow> bool" where
  "activation_effect env routine request ceiling now s a t \<longleftrightarrow>
     (\<exists>i n u. intent_for env (rt_routine_id routine) (aq_dedupe_key request) n i
        \<and> uuids_of s \<le> n \<and> n < uuids_of u \<and> prepared routine now (fi_work i = None) s u \<and> touched i u t
        \<and> (\<forall>w. fi_work i = Some w \<longrightarrow> work_justified env routine request ceiling s i w)
        \<and> (\<forall>x. a = Some x \<longrightarrow> x = fi_activation i \<and> recorded i u t))"

definition activation_left ::
  "routine_env \<Rightarrow> routine_record \<Rightarrow> activation_request \<Rightarrow> run_bounds \<Rightarrow> time \<Rightarrow> routine_store \<Rightarrow> routine_store \<Rightarrow> bool" where
  "activation_left env routine request ceiling now s t \<longleftrightarrow>
     prepared routine now True s t \<or> activation_effect env routine request ceiling now s None t"

lemma prepared_frame [simp]:
  "prepared r now f s s"
  "prepared r now f s (count_write_in rs_ledger_update u) = prepared r now f s u"
  by (simp_all add: prepared_def count_write_in_def)

lemma prepared_uuid: "prepared r now f s u \<Longrightarrow> prepared r now f s (u\<lparr>rs_ledger := (rs_ledger u)\<lparr>lg_uuids := Suc (uuids_of u)\<rparr>\<rparr>)"
  by (auto simp: prepared_def)

lemma prepared_weaken: "prepared r now f s u \<Longrightarrow> prepared r now True s u"
  by (auto simp: prepared_def)

lemma wp_commit_effect:
  assumes "intent_for env (rt_routine_id routine) (aq_dedupe_key request) n i" "uuids_of s \<le> n" "n < uuids_of u"
    and "prepared routine now (fi_work i = None) s u"
    and "\<And>w. fi_work i = Some w \<Longrightarrow> work_justified env routine request ceiling s i w"
  shows "wp (commit_activation env rid i)
    (\<lambda>a t. a = fi_activation i \<and> activation_effect env routine request ceiling now s (Some a) t)
    (\<lambda>_. activation_left env routine request ceiling now s) u"
  using assms
  by (intro wp_mono [OF wp_commit_activation]) (auto simp: activation_effect_def activation_left_def)

lemma wp_record_non_work:
  assumes u: "prepared routine now True s u" and r: "rt_routine_id r = rt_routine_id routine"
    and d: "disposition \<noteq> AD_CreatedWork"
  shows "wp (record_non_work_activation env r request payload disposition err c now)
    (\<lambda>a t. av_disposition a = disposition \<and> activation_effect env routine request ceiling now s (Some a) t)
    (\<lambda>_. activation_left env routine request ceiling now s) u"
proof -
  let ?u = "u\<lparr>rs_ledger := (rs_ledger u)\<lparr>lg_uuids := Suc (uuids_of u)\<rparr>\<rparr>"
  have u': "prepared routine now True s ?u" "uuids_of s \<le> uuids_of u" "uuids_of u < uuids_of ?u"
    using prepared_uuid [OF u] u by (simp_all add: prepared_def)
  have commit: "wp (commit_activation env rid i)
      (\<lambda>a t. av_disposition a = disposition \<and> activation_effect env routine request ceiling now s (Some a) t)
      (\<lambda>_. activation_left env routine request ceiling now s) ?u"
    if "intent_for env (rt_routine_id routine) (aq_dedupe_key request) (uuids_of u) i" "fi_work i = None"
      "av_disposition (fi_activation i) = disposition" for rid i
    by (rule wp_mono [OF wp_commit_effect [OF that(1) u'(2,3)]]) (use that u'(1) in auto)
  have "activation_left env routine request ceiling now s ?u" using u'(1) by (simp add: activation_left_def)
  then show ?thesis
    using r d
    by (auto simp: record_non_work_activation_def wp_bindE wp_thenE wp_part_op wp_uuid_op wp_lift Let_def
        intro!: commit split: sum.split) (simp_all add: intent_for_def)
qed

lemma wp_fail_activation:
  assumes u: "prepared routine now False s u"
  shows "wp (fail_activation env routine request payload message c now)
    (\<lambda>a t. av_disposition a \<noteq> AD_CreatedWork \<and> activation_effect env routine request ceiling now s (Some a) t)
    (\<lambda>_. activation_left env routine request ceiling now s) u"
proof -
  let ?f = "failed_routine routine now"
  have id: "rt_routine_id ?f = rt_routine_id routine" by (simp add: failed_routine_def Let_def)
  let ?K = "record_non_work_activation env ?f request payload
      (if rt_circuit_open ?f then AD_CircuitOpen else AD_Backoff) (Some message) c now"
  have "wp (record_non_work_activation env ?f request payload d (Some message) c now)
      (\<lambda>a t. av_disposition a \<noteq> AD_CreatedWork \<and> activation_effect env routine request ceiling now s (Some a) t)
      (\<lambda>_. activation_left env routine request ceiling now s) v"
    if "prepared routine now True s v" "d \<noteq> AD_CreatedWork" for v d
    by (rule wp_mono [OF wp_record_non_work [OF that(1) id that(2)]]) (use that(2) in auto)
  then have rest: "wp ?K
      (\<lambda>a t. av_disposition a \<noteq> AD_CreatedWork \<and> activation_effect env routine request ceiling now s (Some a) t)
      (\<lambda>_. activation_left env routine request ceiling now s) v" if "prepared routine now True s v" for v
    using that by auto
  have u': "prepared routine now True s u" using u by (rule prepared_weaken)
  have saved: "prepared routine now True s ((count_write_in rs_ledger_update u)
      \<lparr>rs_routines := dir_put (rt_routine_id routine) ?f (rs_routines u)\<rparr>)"
    using u by (auto simp: prepared_def count_write_in_def)
  have "wp (save_routine env ?f) (\<lambda>_. prepared routine now True s) (\<lambda>_. prepared routine now True s) u"
    using u' saved unfolding save_routine_def wp_thenE wp_lift
    by (auto intro!: wp_pure_bind wp_routine_durable dest!: safe_id_filename_same simp: id split: sum.split)
  then have "wp (save_routine env ?f) (\<lambda>_. wp ?K
      (\<lambda>a t. av_disposition a \<noteq> AD_CreatedWork \<and> activation_effect env routine request ceiling now s (Some a) t)
      (\<lambda>_. activation_left env routine request ceiling now s)) (\<lambda>_. activation_left env routine request ceiling now s) u"
    by (rule wp_mono) (use rest in \<open>simp_all add: activation_left_def\<close>)
  then show ?thesis by (simp add: fail_activation_def wp_thenE Let_def)
qed

lemma wp_create_work:
  assumes u: "prepared routine now False s u" and skip: "decide_lifecycle_skip routine (aq_cause request) = None"
    and room: "in_flight_count (dir_list (items_of s)) (rt_routine_id routine) < rt_max_in_flight routine"
    and agent: "file_get (lg_agents (rs_ledger s)) (rt_agent_id routine) = Some agent"
      "workspaces_match (re_host env) (ag_workspace agent) (rt_workspace routine)"
      "capture (rt_revision routine) (Some (rt_agent_id routine)) (ag_spec agent) (rt_work_template routine) ceiling = Inr captured"
    and work: "wi_policy w = cp_work_policy captured"
  shows "wp (create_work_activation env routine rid request payload captured now w)
    (\<lambda>a t. av_disposition a = AD_CreatedWork \<and> activation_effect env routine request ceiling now s (Some a) t)
    (\<lambda>_. activation_left env routine request ceiling now s) u"
proof -
  let ?u = "u\<lparr>rs_ledger := (rs_ledger u)\<lparr>lg_uuids := Suc (uuids_of u)\<rparr>\<rparr>"
  have u': "prepared routine now False s ?u" "uuids_of s \<le> uuids_of u" "uuids_of u < uuids_of ?u"
    using prepared_uuid [OF u] u by (simp_all add: prepared_def)
  have commit: "wp (commit_activation env rid i)
      (\<lambda>a t. av_disposition a = AD_CreatedWork \<and> activation_effect env routine request ceiling now s (Some a) t)
      (\<lambda>_. activation_left env routine request ceiling now s) ?u"
    if i: "intent_for env (rt_routine_id routine) (aq_dedupe_key request) (uuids_of u) i"
      "fi_work i = Some (routine_work routine (new_uuid (re_host env) (uuids_of u)) w)"
      "av_captured_policy (fi_activation i) = captured" for i
  proof (rule wp_mono [OF wp_commit_effect [OF i(1) u'(2,3)]])
    show "work_justified env routine request ceiling s i v" if "fi_work i = Some v" for v
      using that i skip room agent work by (auto simp: work_justified_def routine_work_def)
  qed (use i u'(1) in \<open>auto simp: intent_for_def\<close>)
  have "activation_left env routine request ceiling now s ?u"
    using u'(1) by (auto simp: activation_left_def intro: prepared_weaken)
  then show ?thesis
    by (auto simp: create_work_activation_def wp_bindE wp_thenE wp_part_op wp_uuid_op wp_lift Let_def
        intro!: commit split: sum.split) (simp_all add: intent_for_def routine_work_def)
qed

lemma wp_admit:
  assumes skip: "decide_lifecycle_skip routine (aq_cause request) = None"
    and room: "in_flight_count (dir_list (items_of s)) (rt_routine_id routine) < rt_max_in_flight routine"
  shows "wp (admit_activation env routine rid request payload ceiling now)
    (\<lambda>a. activation_effect env routine request ceiling now s (Some a))
    (\<lambda>_. activation_left env routine request ceiling now s) s"
proof -
  let ?Q = "\<lambda>a. activation_effect env routine request ceiling now s (Some a)"
    and ?E = "\<lambda>_. activation_left env routine request ceiling now s"
  have fail: "wp (fail_activation env routine request payload m c now) ?Q ?E u"
    if "prepared routine now False s u" for m c u
    by (rule wp_mono [OF wp_fail_activation [OF that]]) auto
  have create: "wp (create_work_activation env routine rid request payload captured now w) ?Q ?E u"
    if "prepared routine now False s u" "file_get (lg_agents (rs_ledger s)) (rt_agent_id routine) = Some agent"
      "workspaces_match (re_host env) (ag_workspace agent) (rt_workspace routine)"
      "capture (rt_revision routine) (Some (rt_agent_id routine)) (ag_spec agent) (rt_work_template routine) ceiling = Inr captured"
      "wi_policy w = cp_work_policy captured" for captured w u agent
    by (rule wp_mono [OF wp_create_work [OF that(1) skip room that(2-5)]]) auto
  have policy: "wi_policy w = p" if "item_new_at k kd ob sid ws cb p t = Inr w" for k kd ob sid ws cb p t w
    using that by (auto simp: item_new_at_def rbind_ok Let_def)
  have drawn: "prepared routine now False s (s\<lparr>rs_ledger := (rs_ledger s)\<lparr>lg_uuids := Suc (uuids_of s)\<rparr>\<rparr>)"
    by (rule prepared_uuid) simp
  have made: "wp (bindE (in_ledger (uuid_op (re_host env))) (\<lambda>work_id.
      case item_new_at work_id kd ob sid ws cb (cp_work_policy captured) now of
        Inl e \<Rightarrow> fail_activation env routine request payload (err_message e) ceiling now
      | Inr work \<Rightarrow> create_work_activation env routine rid request payload captured now work)) ?Q ?E s"
    if a: "file_get (lg_agents (rs_ledger s)) (rt_agent_id routine) = Some agent"
      "workspaces_match (re_host env) (ag_workspace agent) (rt_workspace routine)"
      "capture (rt_revision routine) (Some (rt_agent_id routine)) (ag_spec agent) (rt_work_template routine) ceiling = Inr captured"
    for agent captured kd ob sid ws cb
    using fail [OF drawn] create [OF drawn a] policy
    by (auto simp: wp_bindE wp_part_op wp_uuid_op split: sum.split)
  show ?thesis
    unfolding admit_activation_def load_agent_def wp_bindE wp_map_err wp_part_op wp_reads
    using fail made by (auto split: option.split sum.split)
qed

lemma count_order_work [simp]: "in_flight_count (order_work items) rid = in_flight_count items rid"
proof -
  have "size (mset (filter P (order_work items))) = size (mset (filter P items))" for P
    by (simp only: order_work_key mset_filter mset_sort)
  then show ?thesis by (simp only: in_flight_count_def size_mset)
qed

lemma validated_same: "validated v xs = Inr ys \<Longrightarrow> ys = xs"
  by (induction xs arbitrary: ys) (auto simp: rbind_ok split: sum.splits)

lemma wp_fresh:
  assumes rid: "rid = rt_routine_id routine"
  shows "wp (activate_fresh env routine rid request ceiling now)
    (\<lambda>a. activation_effect env routine request ceiling now s (Some a))
    (\<lambda>_. activation_left env routine request ceiling now s) s"
proof -
  let ?Q = "\<lambda>a. activation_effect env routine request ceiling now s (Some a)"
    and ?E = "\<lambda>_. activation_left env routine request ceiling now s"
  have none: "activation_left env routine request ceiling now s s" by (simp add: activation_left_def)
  have noted: "wp (record_non_work_activation env routine request payload d m ceiling now) ?Q ?E s"
    if "d \<noteq> AD_CreatedWork" for payload d m
    by (rule wp_mono [OF wp_record_non_work [OF _ refl that]]) (simp_all)
  have skip: "d \<noteq> AD_CreatedWork" if "decide_lifecycle_skip routine c = Some d" for c d
    using that by (auto simp: decide_lifecycle_skip_def split: if_splits routine_lifecycle.splits)
  have listed: "wp (bindE (map_err internal_of (in_ledger list_work_items)) (\<lambda>items.
      if in_flight_count items rid \<ge> rt_max_in_flight routine
      then record_non_work_activation env routine request payload AD_SkippedOverlap m ceiling now
      else admit_activation env routine rid request payload ceiling now)) ?Q ?E s"
    if "decide_lifecycle_skip routine (aq_cause request) = None" for payload m
    using that none rid
    by (auto simp: wp_bindE wp_map_err wp_part_op list_work_items_def wp_reads rbind_ok not_le
        dest!: validated_same intro!: noted wp_admit split: sum.split)
  show ?thesis
    unfolding activate_fresh_def
    using none noted skip listed
    by (auto simp: wp_raise intro!: wp_pure_bind split: option.split)
qed

text \<open>Everything an activation can do: replay a receipt, or one fresh activation.\<close>

lemma wp_activate:
  assumes ok: "dir_ok rt_routine_id (rs_routines s)"
  shows "wp (activate_routine env rid request ceiling now)
    (\<lambda>a t. \<exists>routine. dir_get (rs_routines s) rid = Some routine \<and> rt_routine_id routine = rid
       \<and> (case dir_get (rs_dedupe s) (rid, aq_dedupe_key request) of
            Some d \<Rightarrow> t = s \<and> (dir_get (rs_activations s) (rid, dd_activation_id d) = Some a
                        \<or> av_work_id a = dd_work_id d)
          | None \<Rightarrow> activation_effect env routine request ceiling now s (Some a) t))
    (\<lambda>e t. t = s \<or> (\<exists>routine. dir_get (rs_routines s) rid = Some routine \<and> rt_routine_id routine = rid
       \<and> dir_get (rs_dedupe s) (rid, aq_dedupe_key request) = None
       \<and> activation_left env routine request ceiling now s t)) s"
proof (cases "file_get (rs_routines s) rid")
  case None
  then show ?thesis by (simp add: activate_routine_def load_routine_def wp)
next
  case (Some routine)
  then have r: "dir_get (rs_routines s) rid = Some routine" "rt_routine_id routine = rid"
    using dir_ok_key [OF ok] by (auto simp: file_get_def split: sum.splits dest!: safe_id_filename_same)
  have replay: "wp (replay_dedupe env routine request d now)
      (\<lambda>a t. t = s \<and> (dir_get (rs_activations s) (rid, dd_activation_id d) = Some a \<or> av_work_id a = dd_work_id d))
      (\<lambda>_ t. t = s) s" for d
    using r by (auto simp: replay_dedupe_def load_activation_def wp rbind_ok dest!: pair_path_same
        split: sum.split option.splits)
  show ?thesis
  proof (cases "pair_path rid (aq_dedupe_key request)")
    case (Inl e)
    then show ?thesis
      using Some by (auto simp: activate_routine_def load_routine_def load_dedupe_def wp rbind_ok split: sum.split)
  next
    case (Inr k)
    then have k: "k = (rid, aq_dedupe_key request)" by (rule pair_path_same)
    have fresh: "wp (activate_fresh env routine rid request ceiling now)
        (\<lambda>a. activation_effect env routine request ceiling now s (Some a))
        (\<lambda>_. activation_left env routine request ceiling now s) s"
      using wp_fresh r(2) by metis
    have known: "wp (case dir_get (rs_dedupe s) k of
          Some existing \<Rightarrow> replay_dedupe env routine request existing now
        | None \<Rightarrow> activate_fresh env routine rid request ceiling now)
      (\<lambda>a t. case dir_get (rs_dedupe s) (rid, aq_dedupe_key request) of
            Some d \<Rightarrow> t = s \<and> (dir_get (rs_activations s) (rid, dd_activation_id d) = Some a
                        \<or> av_work_id a = dd_work_id d)
          | None \<Rightarrow> activation_effect env routine request ceiling now s (Some a) t)
      (\<lambda>e t. t = s \<or> dir_get (rs_dedupe s) (rid, aq_dedupe_key request) = None
         \<and> activation_left env routine request ceiling now s t) s"
    proof (cases "dir_get (rs_dedupe s) k")
      case None
      then show ?thesis using fresh k by (auto elim!: wp_mono)
    next
      case (Some d)
      then show ?thesis using replay [of d] k by (auto elim!: wp_mono)
    qed
    have loaded: "wp (activate_routine env rid request ceiling now) Q E s =
      wp (thenE (lift (routine_validate env routine)) (case dir_get (rs_dedupe s) k of
          Some existing \<Rightarrow> replay_dedupe env routine request existing now
        | None \<Rightarrow> activate_fresh env routine rid request ceiling now)) Q E s" for Q E
      by (simp add: activate_routine_def load_routine_def load_dedupe_def Some Inr wp_bindE wp_reads
          wp_some_or wp_lift wp_gets wp_thenE rbind_def split: sum.split)
    show ?thesis
      unfolding loaded wp_thenE wp_lift
      using wp_mono [OF known] r by (auto split: sum.split)
  qed
qed

end
