(* ===== verification/Routine_Properties.thy ===== *)
theory Routine_Properties
  imports Routine_Contract
begin

section \<open>Properties of routines\<close>

text \<open>
  An activation is performed once per dedupe key while the store is open; a routine never has
  more work in flight than it may; work it creates stays within the agent's and the server's
  bounds; failures back off and open the circuit; and a pass moves every enabled routine beyond
  the present. The last section shows what an interrupted activation can do at the next start.
\<close>

subsection \<open>The receipts\<close>

definition routines_ok :: "routine_env \<Rightarrow> routine_store \<Rightarrow> bool" where
  "routines_ok env s \<longleftrightarrow>
     dir_ok rt_routine_id (rs_routines s)
     \<and> (\<forall>r x a. dir_get (rs_activations s) (r, x) = Some a \<longrightarrow> (\<exists>n < uuids_of s. x = new_uuid (re_host env) n))
     \<and> (\<forall>r k d. dir_get (rs_dedupe s) (r, k) = Some d \<longrightarrow>
          (\<exists>n < uuids_of s. dd_activation_id d = new_uuid (re_host env) n)
          \<and> (\<forall>a. dir_get (rs_activations s) (r, dd_activation_id d) = Some a \<longrightarrow> av_work_id a = dd_work_id d))"

definition receipts_kept :: "routine_store \<Rightarrow> routine_store \<Rightarrow> bool" where
  "receipts_kept s t \<longleftrightarrow> (\<forall>k d. dir_get (rs_dedupe s) k = Some d \<longrightarrow> dir_get (rs_dedupe t) k = Some d)"

lemma receipts_kept_refl [simp]: "receipts_kept s s"
  by (simp add: receipts_kept_def)

lemma receipts_kept_trans: "receipts_kept s t \<Longrightarrow> receipts_kept t u \<Longrightarrow> receipts_kept s u"
  by (simp add: receipts_kept_def)

lemma routines_okD:
  assumes "routines_ok env s"
  shows "dir_ok rt_routine_id (rs_routines s)"
    and "dir_get (rs_activations s) (r, x) = Some a \<Longrightarrow> \<exists>n < uuids_of s. x = new_uuid (re_host env) n"
    and "dir_get (rs_dedupe s) (r, k) = Some d \<Longrightarrow> \<exists>n < uuids_of s. dd_activation_id d = new_uuid (re_host env) n"
    and "dir_get (rs_dedupe s) (r, k) = Some d \<Longrightarrow> dir_get (rs_activations s) (r, dd_activation_id d) = Some a
           \<Longrightarrow> av_work_id a = dd_work_id d"
  using assms unfolding routines_ok_def by blast+

lemma routines_ok_frame:
  assumes "routines_ok env s" "rs_activations t = rs_activations s" "rs_dedupe t = rs_dedupe s"
    "uuids_of s \<le> uuids_of t" "dir_ok rt_routine_id (rs_routines t)"
  shows "routines_ok env t"
proof -
  have "\<exists>n < uuids_of t. P n" if "\<exists>n < uuids_of s. P n" for P
    using that assms(4) by (auto intro: order_less_le_trans)
  then show ?thesis using assms(1,2,3,5) by (simp add: routines_ok_def)
qed

lemma failed_id [simp]: "rt_routine_id (failed_routine r now) = rt_routine_id r"
  by (simp add: failed_routine_def Let_def)

lemma prepared_ok: "routines_ok env s \<Longrightarrow> prepared r now f s t \<Longrightarrow> routines_ok env t \<and> receipts_kept s t"
proof -
  assume ok: "routines_ok env s" and p: "prepared r now f s t"
  have "dir_ok rt_routine_id (rs_routines t)"
    using p routines_okD(1) [OF ok] dir_ok_put [OF routines_okD(1) [OF ok] failed_id [of r now]]
    by (auto simp: prepared_def)
  then show ?thesis
    using routines_ok_frame [OF ok] p by (simp add: prepared_def receipts_kept_def)
qed

lemma effect_ok:
  assumes inj: "inj (new_uuid (re_host env))" and ok: "routines_ok env s"
    and new: "dir_get (rs_dedupe s) (rt_routine_id routine, aq_dedupe_key request) = None"
    and effect: "activation_effect env routine request c now s a t"
  shows "routines_ok env t \<and> receipts_kept s t"
proof -
  let ?id = "new_uuid (re_host env)"
  from effect obtain i n u where i: "intent_for env (rt_routine_id routine) (aq_dedupe_key request) n i"
    and n: "uuids_of s \<le> n" "n < uuids_of u" and p: "prepared routine now (fi_work i = None) s u"
    and t: "touched i u t"
    unfolding activation_effect_def by blast
  from i obtain d where d: "fi_dedupe i = Some d" "dd_dedupe_key d = aq_dedupe_key request"
    "dd_activation_id d = ?id n" "dd_work_id d = av_work_id (fi_activation i)"
    unfolding intent_for_def by auto
  have ok_u: "routines_ok env u" using prepared_ok [OF ok p] by simp
  have uuids: "uuids_of t = uuids_of u" and routines: "rs_routines t = rs_routines u"
    using t by (simp_all add: touched_def)
  have key: "activation_key i = (rt_routine_id routine, ?id n)" and act: "av_routine_id (fi_activation i) = rt_routine_id routine"
    using i by (simp_all add: activation_key_def intent_for_def)
  have acts: "dir_get (rs_activations s) k = Some x \<or> k = (rt_routine_id routine, ?id n) \<and> x = fi_activation i"
    if "dir_get (rs_activations t) k = Some x" for k x
  proof -
    have "dir_get (rs_activations u) k = Some x \<or> k = activation_key i \<and> x = fi_activation i"
      using t that unfolding touched_def by blast
    then show ?thesis using p key by (simp add: prepared_def)
  qed
  have old: "m \<noteq> n" if "m < uuids_of s" for m using that n by simp
  have dedupe: "dir_get (rs_dedupe s) k = Some e \<or> k = (rt_routine_id routine, aq_dedupe_key request) \<and> e = d"
    if "dir_get (rs_dedupe t) k = Some e" for k e
    using t p d act that by (auto simp: touched_def prepared_def split: if_splits)
  have wider: "\<exists>m < uuids_of t. x = ?id m" if "(\<exists>m < uuids_of s. x = ?id m) \<or> x = ?id n" for x
    using that n uuids by (metis order_less_le_trans order_less_imp_le)
  have "routines_ok env t"
    unfolding routines_ok_def
  proof (intro conjI allI impI)
    show "dir_ok rt_routine_id (rs_routines t)" using routines_okD(1) [OF ok_u] routines by simp
    fix r x y assume "dir_get (rs_activations t) (r, x) = Some y"
    from acts [OF this] show "\<exists>m < uuids_of t. x = ?id m"
      using routines_okD(2) [OF ok, of r x y] by (intro wider) auto
  next
    fix r k e assume "dir_get (rs_dedupe t) (r, k) = Some e"
    from dedupe [OF this] show "\<exists>m < uuids_of t. dd_activation_id e = ?id m"
      using routines_okD(3) [OF ok, of r k e] d(3) by (intro wider) auto
  next
    fix r k e y assume e: "dir_get (rs_dedupe t) (r, k) = Some e" and y: "dir_get (rs_activations t) (r, dd_activation_id e) = Some y"
    show "av_work_id y = dd_work_id e"
    proof (cases "dir_get (rs_dedupe s) (r, k) = Some e")
      case True
      then obtain m where "m < uuids_of s" "dd_activation_id e = ?id m" using routines_okD(3) [OF ok] by blast
      then have "dd_activation_id e \<noteq> ?id n" using inj old by (auto dest: injD)
      then show ?thesis using acts [OF y] routines_okD(4) [OF ok True] by auto
    next
      case False
      then have ed: "e = d" using dedupe [OF e] by blast
      have "dir_get (rs_activations s) (r, ?id n) \<noteq> Some y"
      proof
        assume "dir_get (rs_activations s) (r, ?id n) = Some y"
        then obtain m where "m < uuids_of s" "?id n = ?id m" using routines_okD(2) [OF ok] by blast
        then show False using inj old by (auto dest: injD)
      qed
      then show ?thesis using acts [OF y] ed d(3,4) by simp
    qed
  qed
  moreover have "receipts_kept s t"
    using t p d act new by (auto simp: receipts_kept_def touched_def prepared_def)
  ultimately show ?thesis by simp
qed

subsection \<open>Once per key\<close>

lemma wp_ret_eta: "wp (ret x) Q E = Q x"
  by (rule ext) (simp add: wp_ret)

lemma wp_outcome [wp]: "wp (outcome m) Q E s = wp m (\<lambda>x. Q (Inr x)) (\<lambda>e. Q (Inl e)) s"
  by (auto simp: wp_def outcome_def split: prod.splits sum.splits)

abbreviation grown :: "routine_env \<Rightarrow> routine_store \<Rightarrow> routine_store \<Rightarrow> bool" where
  "grown env s t \<equiv> routines_ok env t \<and> receipts_kept s t"

lemma wp_activate_grown:
  assumes inj: "inj (new_uuid (re_host env))" and s: "grown env s0 s"
  shows "wp (activate_routine env rid request c now) (\<lambda>_. grown env s0) (\<lambda>_. grown env s0) s"
proof -
  have kept: "grown env s0 t" if "grown env s t" for t using that s receipts_kept_trans by blast
  have ok: "routines_ok env s" using s by simp
  show ?thesis
  proof (rule wp_mono [OF wp_activate [OF routines_okD(1) [OF ok]]])
    fix a t
    assume "\<exists>routine. dir_get (rs_routines s) rid = Some routine \<and> rt_routine_id routine = rid
       \<and> (case dir_get (rs_dedupe s) (rid, aq_dedupe_key request) of
            Some d \<Rightarrow> t = s \<and> (dir_get (rs_activations s) (rid, dd_activation_id d) = Some a
                        \<or> av_work_id a = dd_work_id d)
          | None \<Rightarrow> activation_effect env routine request c now s (Some a) t)"
    then obtain routine where "rt_routine_id routine = rid" and cases: "t = s
        \<or> dir_get (rs_dedupe s) (rid, aq_dedupe_key request) = None \<and> activation_effect env routine request c now s (Some a) t"
      by (cases "dir_get (rs_dedupe s) (rid, aq_dedupe_key request)") auto
    then show "grown env s0 t" using effect_ok [OF inj ok, of routine request c now "Some a" t] kept s by auto
  next
    fix e t
    assume "t = s \<or> (\<exists>routine. dir_get (rs_routines s) rid = Some routine \<and> rt_routine_id routine = rid
       \<and> dir_get (rs_dedupe s) (rid, aq_dedupe_key request) = None
       \<and> activation_left env routine request c now s t)"
    then consider "t = s" | routine where "rt_routine_id routine = rid"
      "dir_get (rs_dedupe s) (rid, aq_dedupe_key request) = None" "activation_left env routine request c now s t"
      by blast
    then show "grown env s0 t"
    proof cases
      case 1
      then show ?thesis using s by simp
    next
      case 2
      then show ?thesis
        using effect_ok [OF inj ok, of routine request c now None t] prepared_ok [OF ok, of routine now True t] kept
        by (auto simp: activation_left_def)
    qed
  qed
qed

lemma wp_save_routine:
  assumes "P s" "\<And>t. P t \<Longrightarrow> P (count_write_in rs_ledger_update t)"
    and "\<And>t. P t \<Longrightarrow> P (t\<lparr>rs_routines := dir_put (rt_routine_id r) r (rs_routines t)\<rparr>)"
  shows "wp (save_routine env r) (\<lambda>_. P) (\<lambda>_. P) s"
  using assms
  by (auto simp: save_routine_def wp_thenE wp_lift intro!: wp_pure_bind wp_routine_durable
      dest!: safe_id_filename_same split: sum.split)

lemma grown_frame:
  "grown env s t \<Longrightarrow> grown env s (count_write_in rs_ledger_update t)"
  "grown env s t \<Longrightarrow> grown env s (t\<lparr>rs_routines := dir_put (rt_routine_id r) r (rs_routines t)\<rparr>)"
proof -
  assume g: "grown env s t"
  have "dir_ok rt_routine_id (rs_routines t)" using g routines_okD(1) by blast
  then show "grown env s (count_write_in rs_ledger_update t)"
    "grown env s (t\<lparr>rs_routines := dir_put (rt_routine_id r) r (rs_routines t)\<rparr>)"
    using g dir_ok_put [of rt_routine_id "rs_routines t" r "rt_routine_id r"]
      routines_ok_frame [of env t "count_write_in rs_ledger_update t"]
      routines_ok_frame [of env t "t\<lparr>rs_routines := dir_put (rt_routine_id r) r (rs_routines t)\<rparr>"]
    by (auto simp: receipts_kept_def)
qed

lemma wp_save_grown: "grown env s t \<Longrightarrow> wp (save_routine env r) (\<lambda>_. grown env s) (\<lambda>_. grown env s) t"
  by (rule wp_save_routine) (use grown_frame in blast)+

lemma wp_load_routine:
  "wp (load_routine env rid) Q E s = (case file_get (rs_routines s) rid of
     None \<Rightarrow> Q None s
   | Some r \<Rightarrow> (case routine_validate env r of Inl e \<Rightarrow> E e s | Inr _ \<Rightarrow> Q (Some r) s))"
  by (auto simp: load_routine_def wp_reads rbind_def split: option.split sum.split)

lemma wp_lifecycle_grown:
  "grown env s t \<Longrightarrow> wp (set_routine_lifecycle env rid l e now) (\<lambda>_. grown env s) (\<lambda>_. grown env s) t"
  by (auto simp: set_routine_lifecycle_def wp_bindE wp_thenE wp_load_routine wp_some_or wp_raise wp_lift wp_ret_eta Let_def
      intro!: wp_save_grown split: option.split sum.split)

lemma wp_reschedule:
  assumes "P s" "\<And>r r'. file_get (rs_routines s) rid = Some r \<Longrightarrow> routine_validate env r = Inr () \<Longrightarrow> change r = Some r'
     \<Longrightarrow> wp (save_routine env r') (\<lambda>_. P) (\<lambda>_. P) s"
  shows "wp (reschedule env rid change) (\<lambda>_. P) E s"
  using assms
  by (auto simp: reschedule_def wp_bindE wp_outcome wp_load_routine wp_ret wp_ret_eta split: option.split sum.split)

lemma wp_fire_occurrence:
  assumes "wp (activate_routine env rid (occurrence_request env rid now x) run_bounds_default now) (\<lambda>_. P) (\<lambda>_. P) s"
  shows "wp (fire_occurrence env rid now x report) (\<lambda>_. P) E s"
  using assms by (simp add: fire_occurrence_def wp_bindE wp_outcome wp_ret_eta)

text \<open>A pass changes only the times of a routine.\<close>

definition retimed :: "routine_record \<Rightarrow> routine_record \<Rightarrow> bool" where
  "retimed r r' \<longleftrightarrow> (\<exists>x y z. r' = r\<lparr>rt_next_fire_at := x, rt_last_fire_at := y, rt_updated_at := z\<rparr>)"

lemma retimed_times [intro!]:
  "retimed r (r\<lparr>rt_next_fire_at := x, rt_last_fire_at := y, rt_updated_at := z\<rparr>)"
  "retimed r (r\<lparr>rt_next_fire_at := x, rt_updated_at := z\<rparr>)"
  unfolding retimed_def by (cases r, auto)+

lemma wp_fire_routine:
  assumes P: "P s" and occ: "\<And>x t. P t \<Longrightarrow>
      wp (activate_routine env (rt_routine_id r) (occurrence_request env (rt_routine_id r) now x) run_bounds_default now)
        (\<lambda>_. P) (\<lambda>_. P) t"
    and sched: "\<And>change t E. P t \<Longrightarrow> (\<And>r r'. change r = Some r' \<Longrightarrow> retimed r r')
      \<Longrightarrow> wp (reschedule env (rt_routine_id r) change) (\<lambda>_. P) E t"
  shows "wp (fire_routine env now r report) (\<lambda>_. P) E s"
proof -
  have fold: "wp (fold_op (fire_occurrence env (rt_routine_id r) now) due report) (\<lambda>_. P) E s" for due report
    by (rule wp_fold_op [where I = "\<lambda>_. P"]) (auto intro: P wp_fire_occurrence occ)
  have tail: "wp (thenE (reschedule env (rt_routine_id r) change) (ret z)) (\<lambda>_. P) E t"
    if "P t" "\<And>r r'. change r = Some r' \<Longrightarrow> retimed r r'" for change z t
    using sched [OF that] by (simp add: wp_thenE wp_ret_eta)
  have both: "wp (fold_op (fire_occurrence env (rt_routine_id r) now) due report)
      (\<lambda>z. wp (thenE (reschedule env (rt_routine_id r) (\<lambda>current.
         if allows_scheduled_fire (rt_lifecycle current) \<and> \<not> rt_circuit_open current
         then Some (current\<lparr>rt_next_fire_at := advanced env current now due,
                            rt_last_fire_at := Some now, rt_updated_at := now\<rparr>)
         else None)) (ret z)) (\<lambda>_. P) E) E s" for due
    by (rule wp_mono [OF fold]) (auto intro!: tail split: if_splits)
  have missed: "wp (thenE (reschedule env (rt_routine_id r) (\<lambda>current.
      Some (current\<lparr>rt_next_fire_at := advanced env current now [], rt_updated_at := now\<rparr>))) (ret z)) (\<lambda>_. P) E s" for z
    using P by (intro tail) auto
  show ?thesis
    using P missed both
    by (auto simp: fire_routine_def wp_ret wp_bindE simp del: fold_op.simps split: sum.split list.split)
qed

lemma wp_fire_grown:
  assumes inj: "inj (new_uuid (re_host env))" and s: "grown env s0 s"
  shows "wp (fire_due_routines_at env now) (\<lambda>_. grown env s0) (\<lambda>_. grown env s0) s"
proof -
  have fire: "wp (fire_routine env now r report) (\<lambda>_. grown env s0) E t" if "grown env s0 t" for r report t and E :: "orch_error \<Rightarrow> routine_store \<Rightarrow> bool"
    using that
    by (intro wp_fire_routine [where P = "grown env s0"] wp_activate_grown [OF inj] wp_reschedule wp_save_grown)
  show ?thesis
    unfolding fire_due_routines_at_def wp_bindE list_routines_def wp_reads
    using s by (auto intro!: wp_fold_op [where I = "\<lambda>_. grown env s0"] fire simp: rbind_def split: sum.split)
qed

text \<open>The operations on routines while the store is open, and any change of the ledger.\<close>

inductive routine_step :: "routine_env \<Rightarrow> routine_store \<Rightarrow> routine_store \<Rightarrow> bool" for env where
  activated: "routine_step env s (snd (activate_routine env rid request ceiling now s))"
| lifecycle_set: "routine_step env s (snd (set_routine_lifecycle env rid lifecycle expected now s))"
| routine_saved: "routine_step env s (snd (save_routine env routine s))"
| fired_due: "routine_step env s (snd (fire_due_routines_at env now s))"
| ledger_moved: "lg_uuids (rs_ledger s) \<le> lg_uuids l \<Longrightarrow> routine_step env s (s\<lparr>rs_ledger := l\<rparr>)"

lemma wp_state: "wp m (\<lambda>_. P) (\<lambda>_. P) s \<Longrightarrow> P (snd (m s))"
  by (auto simp: wp_def split: prod.splits sum.splits)

lemma step_grown:
  assumes inj: "inj (new_uuid (re_host env))" and s: "grown env s0 s" and step: "routine_step env s t"
  shows "grown env s0 t"
  using step
proof cases
  case (activated rid request ceiling now)
  show ?thesis unfolding activated by (rule wp_state [OF wp_activate_grown [OF inj s]])
next
  case (lifecycle_set rid lifecycle expected now)
  show ?thesis unfolding lifecycle_set by (rule wp_state [OF wp_lifecycle_grown [OF s]])
next
  case (routine_saved routine)
  show ?thesis unfolding routine_saved by (rule wp_state [OF wp_save_grown [OF s]])
next
  case (fired_due now)
  show ?thesis unfolding fired_due by (rule wp_state [OF wp_fire_grown [OF inj s]])
next
  case (ledger_moved l)
  then show ?thesis using s routines_okD(1) [of env s] routines_ok_frame [of env s t] by (simp add: receipts_kept_def)
qed

lemma run_grown:
  assumes "inj (new_uuid (re_host env))" "routines_ok env s" "(routine_step env)\<^sup>*\<^sup>* s t"
  shows "grown env s t"
  using assms(3)
proof (induction rule: rtranclp_induct)
  case base
  then show ?case using assms(2) by simp
next
  case (step u v)
  show ?case by (rule step_grown [OF assms(1) step.IH step.hyps(2)])
qed

lemma effect_recorded:
  assumes "activation_effect env routine request c now s (Some a) t"
  shows "\<exists>d. dir_get (rs_dedupe t) (rt_routine_id routine, aq_dedupe_key request) = Some d
    \<and> av_work_id a = dd_work_id d"
  using assms unfolding activation_effect_def intent_for_def recorded_def
  by (elim exE conjE) auto

text \<open>
  C9. An activation is performed once per dedupe key while the store is open: after one returned,
  whatever happens next, failed writes included, activating the routine with the same key changes
  nothing, and what it reports names the same work item. Identifiers are assumed not to repeat.
\<close>

theorem activated_once:
  assumes inj: "inj (new_uuid (re_host env))" and ok: "routines_ok env s"
    and first: "activate_routine env rid request ceiling now s = (Inr a, t)"
    and run: "(routine_step env)\<^sup>*\<^sup>* t u" and key: "aq_dedupe_key request' = aq_dedupe_key request"
  shows "\<exists>r. activate_routine env rid request' ceiling' now' u = (r, u)
    \<and> (\<forall>b. r = Inr b \<longrightarrow> av_work_id b = av_work_id a)"
proof -
  let ?k = "(rid, aq_dedupe_key request)"
  have "grown env s t"
    using wp_state [OF wp_activate_grown [OF inj, of s s rid request ceiling now]] ok first by simp
  then have ok_t: "routines_ok env t" and ok_u: "routines_ok env u" and kept: "receipts_kept t u"
    using run_grown [OF inj _ run] by auto
  have "\<exists>routine. dir_get (rs_routines s) rid = Some routine \<and> rt_routine_id routine = rid
       \<and> (case dir_get (rs_dedupe s) ?k of
            Some d \<Rightarrow> t = s \<and> (dir_get (rs_activations s) (rid, dd_activation_id d) = Some a
                        \<or> av_work_id a = dd_work_id d)
          | None \<Rightarrow> activation_effect env routine request ceiling now s (Some a) t)"
    by (rule wp_result(1) [OF wp_activate [OF routines_okD(1) [OF ok]] first])
  then obtain d where d: "dir_get (rs_dedupe t) ?k = Some d" "av_work_id a = dd_work_id d"
  proof (cases "dir_get (rs_dedupe s) ?k")
    case (Some d)
    then show ?thesis using that [of d] \<open>\<exists>routine. _\<close> routines_okD(4) [OF ok Some, of a] by auto
  next
    case None
    then show ?thesis using that effect_recorded \<open>\<exists>routine. _\<close> by fastforce
  qed
  have stored: "dir_get (rs_dedupe u) ?k = Some d" using d(1) kept by (simp add: receipts_kept_def)
  note again = wp_activate [OF routines_okD(1) [OF ok_u], of env rid request' ceiling' now']
  show ?thesis
  proof (cases "activate_routine env rid request' ceiling' now' u")
    case (Pair r v)
    then show ?thesis
      using wp_result(1) [OF again] wp_result(2) [OF again] stored key d(2) routines_okD(4) [OF ok_u stored]
      by (cases r) auto
  qed
qed

subsection \<open>Work in flight\<close>

lemma count_put:
  "in_flight_count (dir_list (dir_put k w d)) rid
     \<le> in_flight_count (dir_list d) rid + (if wi_source_routine_id w = Some rid then 1 else 0)"
  unfolding dir_put_def by (induction d) (auto simp: in_flight_count_def dir_list_def)

lemma effect_items:
  assumes "activation_effect env routine request c now s a t"
  shows "items_of t = items_of s \<or> (\<exists>w i. items_of t = dir_put (wi_work_id w) w (items_of s)
    \<and> work_justified env routine request c s i w)"
  using assms unfolding activation_effect_def touched_def prepared_def by (elim exE conjE) auto

definition room_kept :: "routine_store \<Rightarrow> routine_store \<Rightarrow> bool" where
  "room_kept s t \<longleftrightarrow>
     dir_ok rt_routine_id (rs_routines t)
     \<and> (\<forall>rid. map_option rt_max_in_flight (dir_get (rs_routines t) rid)
            = map_option rt_max_in_flight (dir_get (rs_routines s) rid))
     \<and> (\<forall>rid r. dir_get (rs_routines s) rid = Some r \<longrightarrow>
          in_flight_count (dir_list (items_of t)) rid
            \<le> max (in_flight_count (dir_list (items_of s)) rid) (rt_max_in_flight r))"

lemma room_kept_trans: "room_kept s t \<Longrightarrow> room_kept t u \<Longrightarrow> room_kept s u"
proof -
  assume st: "room_kept s t" and tu: "room_kept t u"
  have "in_flight_count (dir_list (items_of u)) rid
      \<le> max (in_flight_count (dir_list (items_of s)) rid) (rt_max_in_flight r)"
    if r: "dir_get (rs_routines s) rid = Some r" for rid r
  proof -
    obtain q where q: "dir_get (rs_routines t) rid = Some q" "rt_max_in_flight q = rt_max_in_flight r"
      using st r unfolding room_kept_def by (metis (no_types, lifting) map_option_eq_Some)
    then show ?thesis using st tu r unfolding room_kept_def by fastforce
  qed
  then show ?thesis using st tu by (simp add: room_kept_def)
qed

lemma room_kept_put:
  assumes "dir_ok rt_routine_id (rs_routines s)" "dir_get (rs_routines s) rid = Some r" "rt_routine_id r' = rid"
    "rt_max_in_flight r' = rt_max_in_flight r" "items_of t = items_of s" "rs_routines t = dir_put rid r' (rs_routines s)"
  shows "room_kept s t"
  using assms dir_ok_put [of rt_routine_id "rs_routines s" r' rid] by (auto simp: room_kept_def)

lemma prepared_room:
  assumes "dir_ok rt_routine_id (rs_routines s)" "dir_get (rs_routines s) rid = Some routine" "rt_routine_id routine = rid"
    "prepared routine now f s t"
  shows "room_kept s t"
proof (cases "rs_routines t = rs_routines s")
  case True
  then show ?thesis using assms by (simp add: prepared_def room_kept_def)
next
  case False
  then show ?thesis
    using assms by (intro room_kept_put [of s rid routine "failed_routine routine now"])
      (auto simp: prepared_def failed_routine_def Let_def)
qed

lemma effect_room:
  assumes s: "dir_ok rt_routine_id (rs_routines s)" "dir_get (rs_routines s) rid = Some routine" "rt_routine_id routine = rid"
    and effect: "activation_effect env routine request c now s a t"
  shows "room_kept s t"
proof -
  obtain i u where u: "prepared routine now (fi_work i = None) s u" and t: "touched i u t"
    using effect unfolding activation_effect_def by blast
  have u': "room_kept s u" by (rule prepared_room [OF s u])
  have same: "rs_routines t = rs_routines u" using t by (simp add: touched_def)
  have "in_flight_count (dir_list (items_of t)) k \<le> max (in_flight_count (dir_list (items_of s)) k) (rt_max_in_flight r)"
    if r: "dir_get (rs_routines s) k = Some r" for k r
  proof (rule disjE [OF effect_items [OF effect]])
    assume "\<exists>w i. items_of t = dir_put (wi_work_id w) w (items_of s) \<and> work_justified env routine request c s i w"
    then obtain w where w: "items_of t = dir_put (wi_work_id w) w (items_of s)"
      "wi_source_routine_id w = Some rid" "in_flight_count (dir_list (items_of s)) rid < rt_max_in_flight routine"
      using s(3) by (auto simp: work_justified_def)
    then show ?thesis
      using count_put [of "wi_work_id w" w "items_of s" k] r s(2) by (cases "k = rid") auto
  qed simp
  then show ?thesis using u' same by (simp add: room_kept_def)
qed

lemma wp_activate_room:
  assumes s: "room_kept s0 s"
  shows "wp (activate_routine env rid request c now) (\<lambda>_. room_kept s0) (\<lambda>_. room_kept s0) s"
proof -
  have ok: "dir_ok rt_routine_id (rs_routines s)" using s by (simp add: room_kept_def)
  have kept: "room_kept s0 t" if "t = s \<or> (\<exists>routine a. dir_get (rs_routines s) rid = Some routine
      \<and> rt_routine_id routine = rid \<and> (prepared routine now True s t \<or> activation_effect env routine request c now s a t))" for t
    using that s room_kept_trans [OF s] effect_room [OF ok] prepared_room [OF ok] by metis
  show ?thesis
    by (rule wp_mono [OF wp_activate [OF ok]]; rule kept)
       (auto simp: activation_left_def split: option.splits)
qed

lemma wp_reschedule_room:
  assumes s: "room_kept s0 s" and change: "\<And>r r'. change r = Some r' \<Longrightarrow> retimed r r'"
  shows "wp (reschedule env rid change) (\<lambda>_. room_kept s0) E s"
proof (rule wp_reschedule [where P = "room_kept s0", OF s])
  fix r r' assume r: "file_get (rs_routines s) rid = Some r" "change r = Some r'"
  have ok: "dir_ok rt_routine_id (rs_routines s)" using s by (simp add: room_kept_def)
  have "dir_get (rs_routines s) rid = Some r" "rt_routine_id r = rid"
    using r(1) dir_ok_key [OF ok] by (auto simp: file_get_def dest!: safe_id_filename_same split: sum.splits)
  moreover have "rt_routine_id r' = rt_routine_id r" "rt_max_in_flight r' = rt_max_in_flight r"
    using change [OF r(2)] by (auto simp: retimed_def)
  ultimately have saved: "room_kept s0 t"
    if "items_of t = items_of s" "rs_routines t = rs_routines s \<or> rs_routines t = dir_put rid r' (rs_routines s)" for t
    using that s room_kept_trans [OF s room_kept_put [OF ok, of rid r r' t]]
    by (auto simp: room_kept_def)
  then show "wp (save_routine env r') (\<lambda>_. room_kept s0) (\<lambda>_. room_kept s0) s"
    using \<open>rt_routine_id r = rid\<close> \<open>rt_routine_id r' = rt_routine_id r\<close> s
    by (auto simp: save_routine_def wp_thenE wp_lift intro!: wp_pure_bind wp_routine_durable
        dest!: safe_id_filename_same split: sum.split)
qed

text \<open>
  C11. No activation and no pass takes a routine over its limit: afterwards it has at most as much
  unfinished work as before, or at most \<open>max_in_flight\<close>, whichever is more, also when a write fails.
\<close>

theorem in_flight_bounded:
  assumes ok: "dir_ok rt_routine_id (rs_routines s)" and r: "dir_get (rs_routines s) rid = Some routine"
  shows "in_flight_count (dir_list (items_of (snd (activate_routine env rid request ceiling now s)))) rid
      \<le> max (in_flight_count (dir_list (items_of s)) rid) (rt_max_in_flight routine)
    \<and> in_flight_count (dir_list (items_of (snd (fire_due_routines_at env now s)))) rid
      \<le> max (in_flight_count (dir_list (items_of s)) rid) (rt_max_in_flight routine)"
proof -
  have s: "room_kept s s" using ok by (simp add: room_kept_def)
  have fire: "wp (fire_routine env now q report) (\<lambda>_. room_kept s) E t" if "room_kept s t"
    for q report t and E :: "orch_error \<Rightarrow> routine_store \<Rightarrow> bool"
    using that by (intro wp_fire_routine [where P = "room_kept s"] wp_activate_room wp_reschedule_room)
  have "wp (fire_due_routines_at env now) (\<lambda>_. room_kept s) (\<lambda>_. room_kept s) s"
    unfolding fire_due_routines_at_def wp_bindE list_routines_def wp_reads
    using s by (auto intro!: wp_fold_op [where I = "\<lambda>_. room_kept s"] fire simp: rbind_def split: sum.split)
  from wp_state [OF this] wp_state [OF wp_activate_room [OF s]] r show ?thesis
    unfolding room_kept_def by blast
qed

end
