(* ===== verification/Routine_Pass.thy ===== *)
theory Routine_Pass
  imports Routine_Properties
begin

section \<open>Captured policy, failures and passes\<close>

text \<open>
  What a new work item may do is captured when it is created and only narrows; a failing
  activation backs off and finally opens the circuit, and an open circuit creates no work; and
  a pass leaves no enabled routine due.
\<close>

subsection \<open>The captured policy\<close>

lemma token_limit_min:
  "token_limit_within t (case (a, s) of (Some x, Some y) \<Rightarrow> Some (min x y) | (Some x, None) \<Rightarrow> Some x | (None, y) \<Rightarrow> y)
     \<Longrightarrow> token_limit_within t a \<and> token_limit_within t s"
  by (cases a; cases s; cases t) (auto simp: token_limit_within_def)

lemma within_narrowed:
  "bounds_within b (narrowed_ceiling agent server) \<Longrightarrow> bounds_within b agent \<and> bounds_within b server"
  using token_limit_min [of "rb_max_total_tokens b" "rb_max_total_tokens agent" "rb_max_total_tokens server"]
  by (auto simp: bounds_within_def narrowed_ceiling_def)

lemma capture_narrows:
  assumes "capture version agent spec template ceiling = Inr c"
  shows "bounds_within (wp_bounds (cp_work_policy c)) ceiling"
    and "spec = Some sp \<Longrightarrow> bounds_within (wp_bounds (cp_work_policy c)) (as_default_run_bounds sp)"
    and "work_policy_validate (cp_work_policy c) = Inr ()"
    and "\<not> cp_computer_use_allowed c" "\<not> cp_auto_approve_tools c"
proof -
  let ?agent = "case spec of Some sp \<Rightarrow> as_default_run_bounds sp | None \<Rightarrow> ceiling"
  obtain b where b: "merge_bounds (narrowed_ceiling ?agent ceiling) (Some (bounds_value (wp_bounds (wt_policy template)))) = Inr b"
    and c: "cp_work_policy c = (wt_policy template)\<lparr>wp_bounds := b\<rparr>" "work_policy_validate (cp_work_policy c) = Inr ()"
      "\<not> cp_computer_use_allowed c" "\<not> cp_auto_approve_tools c"
    using assms by (auto simp: capture_def rbind_ok Let_def)
  have "bounds_within b ?agent \<and> bounds_within b ceiling"
    using merge_bounds_within [OF b] within_narrowed by blast
  then show "bounds_within (wp_bounds (cp_work_policy c)) ceiling"
    "spec = Some sp \<Longrightarrow> bounds_within (wp_bounds (cp_work_policy c)) (as_default_run_bounds sp)"
    using c(1) by auto
  show "work_policy_validate (cp_work_policy c) = Inr ()" "\<not> cp_computer_use_allowed c" "\<not> cp_auto_approve_tools c"
    by (rule c)+
qed

text \<open>
  C12. Work a routine creates never widens what its agent or the server allows: the stored item is
  the routine's, its bounds lie within the server's ceiling and the agent's own bounds in every
  dimension, its policy is valid, and the captured policy grants neither Computer Use nor
  automatic approval of tools.
\<close>

theorem created_work_narrowed:
  assumes ok: "dir_ok rt_routine_id (rs_routines s)"
    and fresh: "dir_get (rs_dedupe s) (rid, aq_dedupe_key request) = None"
    and run: "activate_routine env rid request ceiling now s = (Inr a, t)"
    and made: "av_disposition a = AD_CreatedWork"
  shows "\<exists>w agent. av_work_id a = Some (wi_work_id w) \<and> dir_get (items_of t) (wi_work_id w) = Some w
    \<and> wi_source_routine_id w = Some rid
    \<and> map_option (\<lambda>r. file_get (lg_agents (rs_ledger s)) (rt_agent_id r)) (dir_get (rs_routines s) rid) = Some (Some agent)
    \<and> bounds_within (wp_bounds (wi_policy w)) ceiling
    \<and> is_none_or (ag_spec agent) (\<lambda>spec. bounds_within (wp_bounds (wi_policy w)) (as_default_run_bounds spec))
    \<and> work_policy_validate (wi_policy w) = Inr ()
    \<and> \<not> cp_computer_use_allowed (av_captured_policy a) \<and> \<not> cp_auto_approve_tools (av_captured_policy a)"
proof -
  have "\<exists>routine. dir_get (rs_routines s) rid = Some routine \<and> rt_routine_id routine = rid
       \<and> (case dir_get (rs_dedupe s) (rid, aq_dedupe_key request) of
            Some d \<Rightarrow> t = s \<and> (dir_get (rs_activations s) (rid, dd_activation_id d) = Some a
                        \<or> av_work_id a = dd_work_id d)
          | None \<Rightarrow> activation_effect env routine request ceiling now s (Some a) t)"
    by (rule wp_result(1) [OF wp_activate [OF ok] run])
  then obtain routine where r: "dir_get (rs_routines s) rid = Some routine" "rt_routine_id routine = rid"
    and effect: "activation_effect env routine request ceiling now s (Some a) t"
    using fresh by auto
  from effect obtain i n u where i: "intent_for env (rt_routine_id routine) (aq_dedupe_key request) n i"
    and "a = fi_activation i" "recorded i u t"
    and justified: "\<forall>w. fi_work i = Some w \<longrightarrow> work_justified env routine request ceiling s i w"
    unfolding activation_effect_def by blast
  moreover from this obtain w where w: "fi_work i = Some w" using made by (auto simp: intent_for_def)
  ultimately have "av_work_id a = Some (wi_work_id w)" "dir_get (items_of t) (wi_work_id w) = Some w"
    by (auto simp: intent_for_def recorded_def)
  moreover from justified w obtain agent where "wi_source_routine_id w = Some (rt_routine_id routine)"
    "wi_policy w = cp_work_policy (av_captured_policy a)"
    "file_get (lg_agents (rs_ledger s)) (rt_agent_id routine) = Some agent"
    "capture (rt_revision routine) (Some (rt_agent_id routine)) (ag_spec agent) (rt_work_template routine) ceiling
       = Inr (av_captured_policy a)"
    using \<open>a = fi_activation i\<close> by (auto simp: work_justified_def)
  moreover note capture_narrows [OF this(4)]
  ultimately show ?thesis
    using r by (intro exI [of _ w] exI [of _ agent]) (auto simp: is_none_or_def split: option.split)
qed

subsection \<open>Failures\<close>

lemma failed_routine_times:
  assumes "routine_retry_validate (rt_retry r) = Inr ()" "rt_consecutive_failures r < 2 ^ 32 - 1"
  shows "rt_consecutive_failures (failed_routine r now) = Suc (rt_consecutive_failures r)"
    and "Suc (rt_consecutive_failures r) < rr_circuit_failures (rt_retry r) \<Longrightarrow>
      \<exists>n. rt_next_fire_at (failed_routine r now) = Some n \<and> now + span_ms (int (rr_backoff_ms (rt_retry r))) \<le> n
        \<and> n \<le> now + span_ms (int (rr_max_backoff_ms (rt_retry r)))"
    and "Suc (rt_consecutive_failures r) \<ge> rr_circuit_failures (rt_retry r) \<Longrightarrow>
      rt_circuit_open (failed_routine r now) \<and> rt_lifecycle (failed_routine r now) = RL_Paused
      \<and> rt_next_fire_at (failed_routine r now) = None"
  using assms delay_bounds [OF assms(1)] by (simp_all add: failed_routine_def Let_def min_def)

lemma skip_no_work:
  "work_justified env r request c s i w \<Longrightarrow> \<not> rt_circuit_open r \<and> rt_lifecycle r \<noteq> RL_Disabled"
  by (auto simp: work_justified_def decide_lifecycle_skip_def split: if_splits)

text \<open>
  When an activation fails: the record says so, or the routine may run and its agent is unknown, lies in another
  workspace or leaves no policy within its bounds.
\<close>

definition reports_failure :: "routine_record \<Rightarrow> activation_record \<Rightarrow> bool" where
  "reports_failure r a \<longleftrightarrow> av_disposition a = AD_Backoff \<or> av_disposition a = AD_CircuitOpen \<and> \<not> rt_circuit_open r"

definition may_run :: "routine_record \<Rightarrow> activation_request \<Rightarrow> time \<Rightarrow> routine_store \<Rightarrow> bool" where
  "may_run r request now s \<longleftrightarrow>
     (aq_cause request = AC_Manual \<or> is_none_or (one_shot_expiry (rt_trigger r)) (\<lambda>expires. now \<le> expires))
     \<and> aq_cause request \<noteq> AC_External \<and> decide_lifecycle_skip r (aq_cause request) = None
     \<and> in_flight_count (dir_list (items_of s)) (rt_routine_id r) < rt_max_in_flight r"

definition unfit_agent :: "routine_env \<Rightarrow> routine_record \<Rightarrow> run_bounds \<Rightarrow> routine_store \<Rightarrow> bool" where
  "unfit_agent env r ceiling s \<longleftrightarrow>
     (case file_get (lg_agents (rs_ledger s)) (rt_agent_id r) of
        None \<Rightarrow> True
      | Some agent \<Rightarrow> \<not> workspaces_match (re_host env) (ag_workspace agent) (rt_workspace r)
          \<or> \<not> is_ok (capture (rt_revision r) (Some (rt_agent_id r)) (ag_spec agent) (rt_work_template r) ceiling))"

definition counts_failure :: "time \<Rightarrow> routine_record \<Rightarrow> routine_record \<Rightarrow> bool" where
  "counts_failure now r f \<longleftrightarrow> rt_consecutive_failures f = Suc (rt_consecutive_failures r)
     \<and> (if rt_consecutive_failures f < rr_circuit_failures (rt_retry r)
        then \<exists>n. rt_next_fire_at f = Some n \<and> now + span_ms (int (rr_backoff_ms (rt_retry r))) \<le> n
               \<and> n \<le> now + span_ms (int (rr_max_backoff_ms (rt_retry r)))
        else rt_circuit_open f \<and> rt_lifecycle f = RL_Paused \<and> rt_next_fire_at f = None)"

lemma wp_note_keeps:
  "wp (record_non_work_activation env q request payload d m c now)
     (\<lambda>a t. av_disposition a = d \<and> rs_routines t = rs_routines u) (\<lambda>_ _. True) u"
  unfolding record_non_work_activation_def wp_bindE wp_part_op wp_uuid_op Let_def wp_thenE wp_lift
  by (auto split: sum.split intro!: wp_mono [OF wp_commit_activation] simp: touched_def)

lemma wp_fail_counted:
  "wp (fail_activation env r request payload m c now)
     (\<lambda>_ t. rs_routines t = dir_put (rt_routine_id r) (failed_routine r now) (rs_routines u)) (\<lambda>_ _. True) u"
proof -
  have id: "rt_routine_id (failed_routine r now) = rt_routine_id r" by (simp add: failed_routine_def Let_def)
  have "wp (save_routine env (failed_routine r now))
      (\<lambda>_ v. rs_routines v = dir_put (rt_routine_id r) (failed_routine r now) (rs_routines u)) (\<lambda>_ _. True) u"
    unfolding save_routine_def wp_thenE wp_lift
    by (auto intro!: wp_pure_bind wp_routine_durable dest!: safe_id_filename_same simp: id split: sum.split)
  then show ?thesis
    unfolding fail_activation_def Let_def wp_thenE
    by (rule wp_mono) (auto intro!: wp_mono [OF wp_note_keeps])
qed

lemma wp_create_reports:
  "wp (create_work_activation env r rid request payload captured now w) (\<lambda>a _. av_disposition a = AD_CreatedWork) (\<lambda>_ _. True) u"
  unfolding create_work_activation_def wp_bindE wp_part_op wp_uuid_op Let_def wp_thenE wp_lift
  by (auto split: sum.split intro!: wp_mono [OF wp_commit_activation])

lemma wp_admit_counts:
  "wp (admit_activation env r rid request payload ceiling now)
     (\<lambda>a t. reports_failure r a \<or> unfit_agent env r ceiling s
        \<longrightarrow> rs_routines t = dir_put (rt_routine_id r) (failed_routine r now) (rs_routines s)) (\<lambda>_ _. True) s"
proof -
  let ?Q = "\<lambda>a t. reports_failure r a \<or> unfit_agent env r ceiling s
        \<longrightarrow> rs_routines t = dir_put (rt_routine_id r) (failed_routine r now) (rs_routines s)"
  have fail: "wp (fail_activation env r request payload m ceiling now) ?Q (\<lambda>_ _. True) u"
    if "rs_routines u = rs_routines s" for m u
    by (rule wp_mono [OF wp_fail_counted]) (use that in auto)
  have create: "wp (create_work_activation env r rid request payload captured now w) ?Q (\<lambda>_ _. True) u"
    if "\<not> unfit_agent env r ceiling s" for captured w u
    by (rule wp_mono [OF wp_create_reports]) (use that in \<open>auto simp: reports_failure_def\<close>)
  show ?thesis
    unfolding admit_activation_def load_agent_def wp_bindE wp_map_err wp_part_op wp_reads
    using fail create
    by (auto simp: wp_bindE wp_part_op wp_uuid_op unfit_agent_def is_ok_def split: option.split sum.split)
qed

lemma wp_fresh_counts:
  assumes rid: "rid = rt_routine_id r"
  shows "wp (activate_fresh env r rid request ceiling now)
     (\<lambda>a t. reports_failure r a \<or> may_run r request now s \<and> unfit_agent env r ceiling s
        \<longrightarrow> rs_routines t = dir_put (rt_routine_id r) (failed_routine r now) (rs_routines s)) (\<lambda>_ _. True) s"
proof -
  let ?Q = "\<lambda>a t. reports_failure r a \<or> may_run r request now s \<and> unfit_agent env r ceiling s
        \<longrightarrow> rs_routines t = dir_put (rt_routine_id r) (failed_routine r now) (rs_routines s)"
  have noted: "wp (record_non_work_activation env r request payload d m ceiling now) ?Q (\<lambda>_ _. True) s"
    if "d \<noteq> AD_Backoff" "d = AD_CircuitOpen \<longrightarrow> rt_circuit_open r" "\<not> may_run r request now s" for payload d m
    by (rule wp_mono [OF wp_note_keeps]) (use that in \<open>auto simp: reports_failure_def\<close>)
  have admit: "wp (admit_activation env r rid request payload ceiling now) ?Q (\<lambda>_ _. True) s" for payload
    by (rule wp_mono [OF wp_admit_counts]) auto
  have skip: "d \<noteq> AD_Backoff \<and> (d = AD_CircuitOpen \<longrightarrow> rt_circuit_open r)" if "decide_lifecycle_skip r c = Some d" for c d
    using that by (auto simp: decide_lifecycle_skip_def split: if_splits routine_lifecycle.splits)
  have stopped: "\<not> may_run r request now s"
    if "rt_max_in_flight r \<le> in_flight_count (dir_list (items_of s)) rid \<or> aq_cause request = AC_External
      \<or> decide_lifecycle_skip r (aq_cause request) \<noteq> None
      \<or> aq_cause request \<noteq> AC_Manual \<and> is_some_and (one_shot_expiry (rt_trigger r)) (\<lambda>expires. expires < now)"
    using that rid by (cases "one_shot_expiry (rt_trigger r)") (auto simp: may_run_def is_none_or_def)
  have listed: "wp (bindE (map_err internal_of (in_ledger list_work_items)) (\<lambda>items.
      if in_flight_count items rid \<ge> rt_max_in_flight r
      then record_non_work_activation env r request payload AD_SkippedOverlap m ceiling now
      else admit_activation env r rid request payload ceiling now)) ?Q (\<lambda>_ _. True) s" for payload m
    using admit noted [of AD_SkippedOverlap] stopped
    by (auto simp: wp_bindE wp_map_err wp_part_op list_work_items_def wp_reads rbind_ok
        dest!: validated_same split: sum.split)
  show ?thesis
    unfolding activate_fresh_def
    by (rule wp_pure_bind) (use skip listed noted stopped in \<open>auto simp: wp_raise split: option.split\<close>)
qed

text \<open>
  C13. Failures back off and open the circuit. Whatever the writes do, an activation leaves the routine as it was or
  counts one failure, and then creates no work. A new request whose activation returns counts the failure
  whenever its record reports one, and whenever the routine may run but its agent is unknown, lies in another workspace or leaves no policy
  within its bounds. A counted failure plans the next firing between the first and the largest backoff, until the limit
  is reached, which opens the circuit, pauses the routine and clears its next firing. A routine with an open
  circuit, or a disabled one, creates no work for any request.
\<close>

theorem circuit_breaker:
  assumes ok: "dir_ok rt_routine_id (rs_routines s)" and r: "dir_get (rs_routines s) rid = Some r"
    and retry: "routine_retry_validate (rt_retry r) = Inr ()" "rt_consecutive_failures r < 2 ^ 32 - 1"
    and run: "activate_routine env rid request ceiling now s = (result, t)"
    and f: "dir_get (rs_routines t) rid = Some f"
  shows "(rt_circuit_open r \<or> rt_lifecycle r = RL_Disabled \<longrightarrow> items_of t = items_of s)
    \<and> (f = r \<or> items_of t = items_of s \<and> counts_failure now r f)
    \<and> (\<forall>a. result = Inr a \<longrightarrow> dir_get (rs_dedupe s) (rid, aq_dedupe_key request) = None
         \<longrightarrow> reports_failure r a \<or> may_run r request now s \<and> unfit_agent env r ceiling s
         \<longrightarrow> counts_failure now r f)"
proof -
  have t: "t = snd (activate_routine env rid request ceiling now s)" using run by simp
  let ?cases = "\<lambda>t. (rs_routines t = rs_routines s \<and> (items_of t = items_of s
        \<or> \<not> rt_circuit_open r \<and> rt_lifecycle r \<noteq> RL_Disabled))
      \<or> rs_routines t = dir_put rid (failed_routine r now) (rs_routines s) \<and> items_of t = items_of s"
  have id: "rt_routine_id r = rid" by (rule dir_ok_key [OF ok r])
  have prep: "?cases t" if "prepared r now True s t" for t using that id by (auto simp: prepared_def)
  have eff: "?cases t" if e: "activation_effect env r request ceiling now s a t" for a t
  proof -
    from e obtain i u where u: "prepared r now (fi_work i = None) s u" "touched i u t"
      and j: "\<forall>w. fi_work i = Some w \<longrightarrow> work_justified env r request ceiling s i w"
      unfolding activation_effect_def by blast
    then show ?thesis
      using skip_no_work id by (cases "fi_work i") (auto simp: prepared_def touched_def)
  qed
  have "wp (activate_routine env rid request ceiling now) (\<lambda>_. ?cases) (\<lambda>_. ?cases) s"
    by (rule wp_mono [OF wp_activate [OF ok]]) (use r prep eff in \<open>auto simp: activation_left_def split: option.splits\<close>)
  then have cases: "?cases t" unfolding t by (rule wp_state)
  have failed: "counts_failure now r (failed_routine r now)"
    using failed_routine_times [OF retry, of now] by (auto simp: counts_failure_def)
  have "f = failed_routine r now" if fresh: "dir_get (rs_dedupe s) (rid, aq_dedupe_key request) = None"
    and a: "result = Inr a" "reports_failure r a \<or> may_run r request now s \<and> unfit_agent env r ceiling s" for a
  proof -
    have "activate_fresh env r rid request ceiling now s = (Inr a, t)"
      using run a(1) fresh r
      by (auto simp: activate_routine_def load_routine_def load_dedupe_def file_get_def bindE_def reads_def gets_def lift_def some_or_def
          ret_def raise_def rbind_def split: option.splits sum.splits dest!: safe_id_filename_same pair_path_same)
    from wp_result(1) [OF wp_fresh_counts [OF id [symmetric]] this] a(2) f id show ?thesis by simp
  qed
  then show ?thesis using cases f r failed by auto
qed

subsection \<open>A pass leaves nothing due\<close>







lemma failed_valid [simp]: "routine_validate env (failed_routine q now) = routine_validate env q"
  by (simp add: failed_routine_def routine_validate_def Let_def)

lemma failed_trigger [simp]: "rt_trigger (failed_routine q now) = rt_trigger q"
  by (simp add: failed_routine_def Let_def)











lemma validate_all_ok [simp]: "validate_all v xs = Inr u \<longleftrightarrow> (\<forall>x \<in> set xs. v x = Inr ())"
  by (induction xs) (auto simp: rbind_ok)


end
