(* ===== verification/Routine_Examples.thy ===== *)
theory Routine_Examples
  imports Routine_Pass
begin

section \<open>Routines at work\<close>

text \<open>
  A store with one routine and its agent, on the host of \<open>Example_Run\<close>: the routine is activated
  by hand and creates a work item, and a second routine whose agent is missing fails. The
  witnesses of the routine theorems apply them to these runs. The last section shows what an
  activation that was interrupted, or refused by the ledger, does when the store is opened again.
\<close>

definition routine_agent :: agent_record where
  "routine_agent = \<lparr>ag_agent_id = ''a'', ag_session_id = 7, ag_lane_ids = [7], ag_lane_associations = [],
     ag_workspace = ''/w'', ag_state = Agent_Active, ag_spec = None\<rparr>"

definition start_store :: routine_store where
  "start_store = \<lparr>rs_ledger = empty_ledger\<lparr>lg_agents := [(''a'', routine_agent)]\<rparr>,
     rs_routines = [(''r'', every_second MR_Skip)], rs_activations = [], rs_dedupe = [], rs_intents = []\<rparr>"

definition by_hand :: activation_request where
  "by_hand = \<lparr>aq_cause = AC_Manual, aq_dedupe_key = ''k'', aq_scheduled_at = 5, aq_received_at = 5,
     aq_payload = None, aq_created_by = ''bob''\<rparr>"

definition example_captured :: captured_activation_policy where
  "example_captured = \<lparr>cp_routine_revision = 1, cp_agent_id = Some ''a'', cp_agent_spec_revision = None,
     cp_run_bounds = wp_bounds example_policy, cp_work_policy = example_policy,
     cp_sandbox_profile = ''workspace-write'', cp_computer_use_allowed = False, cp_auto_approve_tools = False\<rparr>"

lemma routine_names:
  "safe_id_filename ''r'' = Inr ''r''" "safe_id_filename ''a'' = Inr ''a''" "safe_id_filename ''k'' = Inr ''k''"
  by (simp_all add: safe_id_filename_def rbind_ok NUL_def BACKSLASH_def)

lemma every_second_valid: "routine_validate utc_env (every_second p) = Inr ()"
proof -
  have "trigger_validate utc_env (rt_trigger (every_second p)) = Inr ()"
    using utc_valid(2) by (simp only: every_second_def routine_record.simps)
  moreover have "template_validate (rt_work_template (every_second p)) = Inr ()"
    using example_policy_valid by (simp add: every_second_def template_validate_def NUL_def)
  ultimately show ?thesis
    by (simp add: routine_validate_def, simp add: every_second_def ROUTINE_SCHEMA_VERSION_def
      validate_routine_id_def validate_bounded_def MAX_ROUTINE_NAME_BYTES_def MAX_ROUTINE_ACTOR_BYTES_def
      concurrency_validate_def routine_retry_validate_def MAX_BACKOFF_MS_def NUL_def BACKSLASH_def)
qed

lemma example_capture:
  "capture 1 (Some ''a'') None (rt_work_template (every_second p)) run_bounds_default = Inr example_captured"
proof -
  let ?b = "wp_bounds example_policy"
  have "narrowed_ceiling run_bounds_default run_bounds_default = run_bounds_default"
    by (simp add: narrowed_ceiling_def run_bounds_default_def)
  moreover have "merge_bounds run_bounds_default (Some (bounds_value ?b)) = Inr (?b\<lparr>rb_max_total_tokens := None\<rparr>)"
    by (rule merge_own_bounds)
       (simp_all add: bounds_fit_def example_policy_def run_bounds_default_def merge_tokens_def run_bounds_validate_def)
  moreover have "?b\<lparr>rb_max_total_tokens := None\<rparr> = ?b" "example_policy\<lparr>wp_bounds := ?b\<rparr> = example_policy"
    by (simp_all add: example_policy_def)
  moreover have "wt_policy (rt_work_template (every_second p)) = example_policy" by (simp add: every_second_def)
  ultimately show ?thesis
    using example_policy_valid by (simp add: capture_def rbind_def Let_def example_captured_def)
qed

definition fresh_work :: work_item where
  "fresh_work =
     \<lparr>wi_schema_version = 1, wi_work_id = ''u'', wi_kind = ''k'', wi_objective = ''o'', wi_session_id = 7,
      wi_workspace = ''/w'', wi_created_by = ''routine:r'', wi_assigned_agent_id = None, wi_priority = 0,
      wi_deadline = None, wi_parent_work_id = None, wi_dependencies = [], wi_policy = example_policy,
      wi_state = W_Queued, wi_revision = 1, wi_attempt_count = 0, wi_progress = None, wi_result = None,
      wi_is_container = False, wi_approval = None, wi_source_routine_id = None, wi_source_activation_id = None,
      wi_source_manager_plan_id = None, wi_source_manager_step_id = None, wi_assignment_status = Unassigned,
      wi_blocked_reason = None, wi_block_provenance = None, wi_last_decision_id = None, wi_created_at = 5,
      wi_updated_at = 5\<rparr>"

definition example_work :: work_item where
  "example_work = routine_work (every_second MR_Skip) ''uu'' fresh_work"

definition example_activation :: activation_record where
  "example_activation = \<lparr>av_schema_version = 1, av_activation_id = ''uu'', av_routine_id = ''r'', av_routine_revision = 1,
     av_trigger_kind = ''manual'', av_dedupe_key = ''k'', av_scheduled_at = 5, av_received_at = 5, av_fired_at = 5,
     av_work_id = Some ''u'', av_disposition = AD_CreatedWork, av_error = None, av_captured_policy = example_captured,
     av_payload = None, av_created_by = ''bob''\<rparr>"

definition example_receipt :: dedupe_record where
  "example_receipt = \<lparr>dd_dedupe_key = ''k'', dd_activation_id = ''uu'', dd_work_id = Some ''u'',
     dd_disposition = Some AD_CreatedWork, dd_created_at = 5\<rparr>"

definition fired_store :: routine_store where
  "fired_store = \<lparr>rs_ledger = empty_ledger\<lparr>lg_agents := [(''a'', routine_agent)], lg_items := [(''u'', example_work)],
       lg_uuids := 2, lg_writes := 5\<rparr>,
     rs_routines = [(''r'', every_second MR_Skip)], rs_activations = [((''r'', ''uu''), example_activation)],
     rs_dedupe = [((''r'', ''k''), example_receipt)], rs_intents = []\<rparr>"

lemma example_work_valid: "item_validate example_work = Inr ()"
  using example_policy_valid
  by (simp add: example_work_def fresh_work_def routine_work_def every_second_def item_validate_def validate_id_def validate_text_def bound_simps)

lemma example_activation_valid: "activation_validate utc_env example_activation = Inr ()"
  by (simp add: activation_validate_def example_activation_def ROUTINE_SCHEMA_VERSION_def validate_routine_id_def
      validate_bounded_def MAX_ROUTINE_ACTOR_BYTES_def NUL_def BACKSLASH_def)

lemma utc_host [simp]: "re_host utc_env = exact_host"
  by (simp add: utc_env_def)

definition example_intent :: fire_intent where
  "example_intent = \<lparr>fi_routine = every_second MR_Skip, fi_activation = example_activation,
     fi_work = Some example_work, fi_dedupe = Some example_receipt\<rparr>"

definition drawn_store :: routine_store where
  "drawn_store = start_store\<lparr>rs_ledger := (rs_ledger start_store)\<lparr>lg_uuids := 2\<rparr>\<rparr>"

lemma example_save:
  "lg_items l = [] \<Longrightarrow> save_work_item exact_host example_work l
     = (Inr (), l\<lparr>lg_items := [(''u'', example_work)], lg_writes := Suc (lg_writes l)\<rparr>)"
proof -
  assume l: "lg_items l = []"
  have w: "wi_work_id example_work = ''u''" "wi_dependencies example_work = []"
    by (simp_all add: example_work_def fresh_work_def routine_work_def)
  show ?thesis
    using l by (simp add: save_work_item_def validate_work_item_for_save_def op_simps example_work_valid w
      load_simps example_files scoped_work_items_def order_work_def sort_by_def MAX_GRAPH_SCOPE_ITEMS_def
      write_work_item_def)
qed

lemma example_commit: "commit_activation utc_env ''r'' example_intent drawn_store = (Inr example_activation, fired_store)"
proof -
  have a: "av_routine_id example_activation = ''r''" "av_activation_id example_activation = ''uu''"
    "dd_dedupe_key example_receipt = ''k''"
    by (simp_all add: example_activation_def example_receipt_def)
  have paths: "pair_path ''r'' ''uu'' = Inr (''r'', ''uu'')" "pair_path ''r'' ''k'' = Inr (''r'', ''k'')"
    by (simp_all add: pair_path_def routine_names example_files rbind_def)
  show ?thesis
    by (simp add: commit_activation_def persist_routine_intent_def commit_routine_intent_def clear_routine_intent_def
        prune_activations_def list_activations_def op_simps part_durable_def part_op_def example_intent_def a paths
        example_files routine_names example_save drawn_store_def start_store_def empty_ledger_def count_write_in_def
        activations_of_def rbind_def example_activation_valid MAX_ACTIVATION_HISTORY_def fired_store_def
        dir_put_def dir_del_def)
qed

lemma activate_example:
  "activate_routine utc_env ''r'' by_hand run_bounds_default 5 start_store = (Inr example_activation, fired_store)"
proof -
  have r: "rt_circuit_open (every_second p) = False" "rt_lifecycle (every_second p) = RL_Enabled"
    "rt_max_in_flight (every_second p) = 1" "rt_agent_id (every_second p) = ''a''" "rt_workspace (every_second p) = ''/w''"
    "rt_routine_id (every_second p) = ''r''" "rt_revision (every_second p) = 1" "rt_session_id (every_second p) = 7"
    "wt_kind (rt_work_template (every_second p)) = ''k''" "wt_objective (rt_work_template (every_second p)) = ''o''"
    "rt_trigger (every_second p) = RT_Interval 1000 ''UTC'' 0" for p
    by (simp_all add: every_second_def)
  have load: "load_routine utc_env ''r'' start_store = (Inr (Some (every_second MR_Skip)), start_store)"
    by (simp add: load_routine_def op_simps file_get_def routine_names start_store_def dir_get_def every_second_valid rbind_def)
  have dedupe: "load_dedupe ''r'' ''k'' start_store = (Inr None, start_store)"
    by (simp add: load_dedupe_def pair_path_def routine_names rbind_def op_simps start_store_def)
  have agent: "load_agent ''a'' (rs_ledger start_store) = (Inr (Some routine_agent), rs_ledger start_store)"
    by (simp add: load_agent_def op_simps file_get_def routine_names start_store_def dir_get_def)
  have items: "list_work_items (rs_ledger start_store) = (Inr [], rs_ledger start_store)"
    by (simp add: list_work_items_def op_simps dir_list_def start_store_def empty_ledger_def rbind_def order_work_def sort_by_def)
  have match: "workspaces_match exact_host (ag_workspace routine_agent) ''/w''" "ag_spec routine_agent = None"
    by (simp_all add: routine_agent_def workspaces_match_def)
  have work: "item_new_at ''u'' ''k'' ''o'' 7 ''/w'' ''routine:r'' example_policy 5 = Inr fresh_work"
    using example_policy_valid
    by (simp add: item_new_at_def fresh_work_def Let_def rbind_def WORKLOAD_SCHEMA_VERSION_def item_validate_def
        validate_id_def validate_text_def bound_simps first_err.simps(2) reject_def on_some_def)
  have id: "wi_work_id (routine_work q k w) = wi_work_id w" "wi_work_id fresh_work = ''u''" for q k w
    by (simp_all add: routine_work_def fresh_work_def)
  have create: "create_work_activation utc_env (every_second MR_Skip) ''r'' by_hand None example_captured 5 fresh_work
      (start_store\<lparr>rs_ledger := (rs_ledger start_store)\<lparr>lg_uuids := 1\<rparr>\<rparr>) = (Inr example_activation, fired_store)"
    using example_commit example_work_valid example_activation_valid
    unfolding example_work_def example_intent_def example_activation_def example_receipt_def drawn_store_def
    by (simp add: create_work_activation_def part_op_def uuid_op_def op_simps Let_def by_hand_def r id
        ROUTINE_SCHEMA_VERSION_def numeral_2_eq_2)
  have admit: "admit_activation utc_env (every_second MR_Skip) ''r'' by_hand None run_bounds_default 5 start_store
      = (Inr example_activation, fired_store)"
  proof -
    have "cp_work_policy example_captured = example_policy" by (simp add: example_captured_def)
    moreover have "lg_uuids (rs_ledger start_store) = 0" by (simp add: start_store_def empty_ledger_def)
    ultimately show ?thesis
      using create
      by (simp add: admit_activation_def part_op_def op_simps agent match r example_capture uuid_op_def work)
  qed
  show ?thesis
    using admit
    by (simp add: activate_routine_def load dedupe activate_fresh_def op_simps by_hand_def [THEN arg_cong [where f = aq_cause]]
        by_hand_def [THEN arg_cong [where f = aq_dedupe_key]] by_hand_def [THEN arg_cong [where f = aq_payload]]
        validate_activation_payload_def decide_lifecycle_skip_def r part_op_def items in_flight_count_def)
qed

lemma store_examples:
  "routines_ok utc_env start_store" "inj (new_uuid (re_host utc_env))" "writes_reliably (re_host utc_env)"
  "dir_get (rs_routines start_store) ''r'' = Some (every_second MR_Skip)"
proof -
  show "routines_ok utc_env start_store"
    by (simp add: routines_ok_def start_store_def dir_ok_def every_second_def)
  show "inj (new_uuid (re_host utc_env))"
    by (auto simp: inj_def dest: arg_cong [where f = length])
qed (simp_all add: writes_reliably_def start_store_def dir_get_def)

theorem activated_once_witness:
  "\<exists>r. activate_routine utc_env ''r'' by_hand run_bounds_default 9 fired_store = (r, fired_store)"
proof -
  have "(routine_step utc_env)\<^sup>*\<^sup>* fired_store fired_store" by simp
  from activated_once [OF store_examples(2,1) activate_example this refl] show ?thesis by blast
qed

theorem in_flight_bounded_witness:
  "in_flight_count (dir_list (items_of (snd (activate_routine utc_env ''r'' by_hand run_bounds_default 5 start_store)))) ''r''
     \<le> max (in_flight_count (dir_list (items_of start_store)) ''r'') 1
   \<and> in_flight_count (dir_list (items_of fired_store)) ''r'' = 1"
proof -
  have "rt_max_in_flight (every_second MR_Skip) = 1" by (simp add: every_second_def)
  moreover have "in_flight_count (dir_list (items_of fired_store)) ''r'' = 1"
    by (simp add: in_flight_count_def dir_list_def fired_store_def example_work_def fresh_work_def routine_work_def every_second_def)
  ultimately show ?thesis
    using in_flight_bounded [OF routines_okD(1) [OF store_examples(1)] store_examples(4)] by metis
qed

theorem created_work_narrowed_witness:
  "\<exists>w. dir_get (items_of fired_store) (wi_work_id w) = Some w \<and> bounds_within (wp_bounds (wi_policy w)) run_bounds_default"
proof -
  have "dir_get (rs_dedupe start_store) (''r'', aq_dedupe_key by_hand) = None" by (simp add: start_store_def)
  moreover have "av_disposition example_activation = AD_CreatedWork" by (simp add: example_activation_def)
  ultimately show ?thesis
    using created_work_narrowed [OF routines_okD(1) [OF store_examples(1)] _ activate_example] by blast
qed

text \<open>The same store without the agent: the activation fails and is counted.\<close>

definition orphan_store :: routine_store where
  "orphan_store = start_store\<lparr>rs_ledger := empty_ledger\<rparr>"

abbreviation failed_once :: routine_record where
  "failed_once \<equiv> failed_routine (every_second MR_Skip) 5"

lemma failed_example:
  "rs_routines (snd (activate_routine utc_env ''r'' by_hand run_bounds_default 5 orphan_store)) = [(''r'', failed_once)]"
proof -
  have r: "rt_circuit_open (every_second MR_Skip) = False" "rt_lifecycle (every_second MR_Skip) = RL_Enabled"
    "rt_max_in_flight (every_second MR_Skip) = 1" "rt_agent_id (every_second MR_Skip) = ''a''"
    "rt_routine_id (every_second MR_Skip) = ''r''" "rt_trigger (every_second MR_Skip) = RT_Interval 1000 ''UTC'' 0"
    by (simp_all add: every_second_def)
  have q: "aq_cause by_hand = AC_Manual" "aq_dedupe_key by_hand = ''k''" "aq_payload by_hand = None"
    by (simp_all add: by_hand_def)
  have load: "load_routine utc_env ''r'' orphan_store = (Inr (Some (every_second MR_Skip)), orphan_store)"
    by (simp add: load_routine_def op_simps file_get_def routine_names orphan_store_def start_store_def dir_get_def
        every_second_valid rbind_def)
  have dedupe: "load_dedupe ''r'' ''k'' orphan_store = (Inr None, orphan_store)"
    by (simp add: load_dedupe_def pair_path_def routine_names rbind_def op_simps orphan_store_def start_store_def)
  have agent: "load_agent ''a'' (rs_ledger orphan_store) = (Inr None, rs_ledger orphan_store)"
    by (simp add: load_agent_def op_simps file_get_def routine_names orphan_store_def empty_ledger_def dir_get_def)
  have items: "list_work_items (rs_ledger orphan_store) = (Inr [], rs_ledger orphan_store)"
    by (simp add: list_work_items_def op_simps dir_list_def orphan_store_def empty_ledger_def rbind_def order_work_def sort_by_def)
  let ?saved = "orphan_store\<lparr>rs_ledger := empty_ledger\<lparr>lg_writes := 1\<rparr>, rs_routines := [(''r'', failed_once)]\<rparr>"
  have save: "save_routine utc_env failed_once orphan_store = (Inr (), ?saved)"
    by (simp add: save_routine_def op_simps every_second_valid r routine_names part_durable_def count_write_in_def
        orphan_store_def start_store_def empty_ledger_def dir_put_def)
  have "activate_routine utc_env ''r'' by_hand run_bounds_default 5 orphan_store
      = fail_activation utc_env (every_second MR_Skip) by_hand None ''owning agent is unknown'' run_bounds_default 5 orphan_store"
    by (simp add: activate_routine_def load dedupe activate_fresh_def op_simps q validate_activation_payload_def
        decide_lifecycle_skip_def r part_op_def items in_flight_count_def admit_activation_def agent)
  also have "\<dots> = record_non_work_activation utc_env failed_once by_hand None
      (if rt_circuit_open failed_once then AD_CircuitOpen else AD_Backoff) (Some ''owning agent is unknown'') run_bounds_default 5 ?saved"
    using save by (simp add: fail_activation_def thenE_def bindE_def Let_def)
  finally have run: "activate_routine utc_env ''r'' by_hand run_bounds_default 5 orphan_store = \<dots>" .
  have "wp (record_non_work_activation utc_env q by_hand None d m c 5)
      (\<lambda>_ t. rs_routines t = rs_routines s) (\<lambda>_ t. rs_routines t = rs_routines s) s" for q d m c s
    unfolding record_non_work_activation_def wp_bindE wp_part_op wp_uuid_op Let_def wp_thenE wp_lift
    by (auto split: sum.split intro!: wp_mono [OF wp_commit_activation] simp: touched_def)
  from wp_state [OF this] show ?thesis unfolding run by simp
qed

theorem circuit_breaker_witness:
  "items_of (snd (activate_routine utc_env ''r'' by_hand run_bounds_default 5 orphan_store)) = items_of orphan_store
   \<and> rt_consecutive_failures failed_once = 1 \<and> rt_next_fire_at failed_once = Some 5000000005"
proof -
  have ok: "dir_ok rt_routine_id (rs_routines orphan_store)" "dir_get (rs_routines orphan_store) ''r'' = Some (every_second MR_Skip)"
    by (simp_all add: orphan_store_def start_store_def dir_ok_def every_second_def dir_get_def)
  have retry: "routine_retry_validate (rt_retry (every_second MR_Skip)) = Inr ()" "rt_consecutive_failures (every_second MR_Skip) < 2 ^ 32 - 1"
    by (simp_all add: routine_retry_validate_def every_second_def MAX_BACKOFF_MS_def)
  have f: "dir_get (rs_routines (snd (activate_routine utc_env ''r'' by_hand run_bounds_default 5 orphan_store))) ''r'' = Some failed_once"
    by (simp add: failed_example dir_get_def)
  have v: "rt_consecutive_failures failed_once = 1" "rt_next_fire_at failed_once = Some 5000000005"
    by (simp_all add: failed_routine_def every_second_def delay_after_def span_ms_def Let_def)
  then have "failed_once \<noteq> every_second MR_Skip" by (auto simp: every_second_def)
  with circuit_breaker [OF ok retry prod.collapse [symmetric] f] v show ?thesis by blast
qed

subsection \<open>A pass\<close>




subsection \<open>What an unfinished activation does at the next start\<close>

text \<open>
  A routine fires while its lane is full. The ledger refuses the work item, but the intent of the
  activation stays on disk although every write succeeded; opening the store again commits it,
  is refused again, and the whole store does not open.
\<close>

theorem full_lane_blocks_opening:
  assumes reliable: "writes_reliably (re_host env)" and work: "fi_work i = Some w" "lane_full (re_host env) w (rs_ledger s)"
    and k: "safe_id_filename (av_activation_id (fi_activation i)) = Inr k" and none: "rs_intents s = []"
  shows "\<exists>e e' t. commit_activation env rid i s = (Inl e, t) \<and> rs_intents t = [(k, i)] \<and> items_of t = items_of s
    \<and> recover_routine_intents env t = (Inl e', t)"
proof -
  let ?t = "(count_write_in rs_ledger_update s)\<lparr>rs_intents := [(k, i)]\<rparr>"
  have "lane_full (re_host env) w (rs_ledger ?t)" using work(2) by (simp add: lane_full_def count_write_in_def)
  then obtain e where e: "save_work_item (re_host env) w (rs_ledger ?t) = (Inl e, rs_ledger ?t)"
    using full_refuses by blast
  have persist: "persist_routine_intent env i s = (Inr (), ?t)"
    using reliable k none
    by (simp add: persist_routine_intent_def op_simps part_durable_def writes_reliably_def dir_put_def)
  have commit: "commit_routine_intent env i ?t = (Inl (internal_of e), ?t)"
    using work(1) e by (simp add: commit_routine_intent_def thenE_def bindE_def map_err_def part_op_def)
  have "recover_routine_intents env ?t = (Inl (opaque_of (internal_of e)), ?t)"
    using commit by (simp add: recover_routine_intents_def recover_routine_intent_def op_simps)
  moreover have "commit_activation env rid i s = (Inl (internal_of e), ?t)"
    using persist commit by (simp add: commit_activation_def thenE_def bindE_def)
  ultimately show ?thesis by auto
qed

text \<open>
  The intent of an activation that could not be removed is committed again at the next start and
  puts its work item back to the state it was created in, whatever has become of it since: here
  a cancelled item is queued again.
\<close>

definition reopened_store :: routine_store where
  "reopened_store = fired_store\<lparr>rs_ledger := (rs_ledger fired_store)
     \<lparr>lg_items := [(''u'', example_work\<lparr>wi_state := W_Cancelled, wi_revision := 2\<rparr>)]\<rparr>,
     rs_intents := [(''uu'', example_intent)]\<rparr>"

theorem recovery_rewinds_work:
  "\<exists>t. recover_routine_intents utc_env reopened_store = (Inr (), t)
     \<and> map_option wi_state (dir_get (items_of reopened_store) ''u'') = Some W_Cancelled
     \<and> map_option wi_state (dir_get (items_of t) ''u'') = Some W_Queued"
proof -
  have w: "wi_work_id example_work = ''u''" "wi_dependencies example_work = []" "wi_state example_work = W_Queued"
    by (simp_all add: example_work_def fresh_work_def routine_work_def)
  have valid: "item_validate (example_work\<lparr>wi_state := W_Cancelled, wi_revision := 2\<rparr>) = Inr ()"
    using example_work_valid by (simp add: item_validate_def)
  have a: "av_routine_id example_activation = ''r''" "av_activation_id example_activation = ''uu''"
    "dd_dedupe_key example_receipt = ''k''"
    by (simp_all add: example_activation_def example_receipt_def)
  have paths: "pair_path ''r'' ''uu'' = Inr (''r'', ''uu'')" "pair_path ''r'' ''k'' = Inr (''r'', ''k'')"
    by (simp_all add: pair_path_def routine_names example_files rbind_def)
  show ?thesis
    by (simp add: recover_routine_intents_def recover_routine_intent_def commit_routine_intent_def op_simps
        part_durable_def part_op_def example_intent_def a paths reopened_store_def fired_store_def empty_ledger_def
        count_write_in_def save_work_item_def validate_work_item_for_save_def example_work_valid valid w
        load_simps example_files write_work_item_def)
qed

end
