(* ===== verification/Workers.thy ===== *)
theory Workers
  imports Ledger_Part Json_Bounds Work_Decisions
begin

section \<open>Workers: presence, load and assignment limits\<close>

text \<open>
  \<^verbatim>\<open>orchestration/worker.rs\<close> and the worker methods of \<^verbatim>\<open>orchestration/store.rs\<close>: heartbeats, the
  projection of a worker's capability, load, liveness and leases, the scoped reads, the public
  view of a worker, and the check that an assignment does not widen what manager, worker or
  server allow. \<open>worker_store\<close> is the ledger with the directory of presence files. The agents of
  the ledger are the ones that validate, with their spec already migrated.
\<close>

definition WORKER_PRESENCE_SCHEMA_VERSION :: nat where "WORKER_PRESENCE_SCHEMA_VERSION = 1"
definition DEFAULT_WORKER_STALE_AFTER_MS :: int where "DEFAULT_WORKER_STALE_AFTER_MS = 30000"

datatype worker_host_kind = WH_Desktop | WH_Service | WH_Unknown
datatype worker_liveness_state = WL_Live | WL_Stale | WL_Unknown

record worker_presence =
  pr_schema_version :: nat
  pr_agent_id :: string
  pr_credential_id :: string
  pr_host_kind :: worker_host_kind
  pr_last_heartbeat_at :: time

definition presence_new :: "string \<Rightarrow> string \<Rightarrow> worker_host_kind \<Rightarrow> time \<Rightarrow> worker_presence" where
  "presence_new agent_id credential_id host_kind now =
     \<lparr>pr_schema_version = WORKER_PRESENCE_SCHEMA_VERSION, pr_agent_id = agent_id,
      pr_credential_id = credential_id, pr_host_kind = host_kind, pr_last_heartbeat_at = now\<rparr>"

record measured_capability =
  mc_qualified_at :: time
  mc_qualified_tools :: "string list"
  mc_provider_route :: string

record worker_load =
  wl_assigned_items :: nat
  wl_queued_items :: nat
  wl_active_leases :: nat

record lease_ownership =
  lo_work_id :: string
  lo_attempt_id :: string
  lo_lease_expires_at :: time

record worker_projection =
  wk_agent_id :: string
  wk_display_name :: string
  wk_workspace :: string
  wk_host_kind :: worker_host_kind
  wk_model :: "agent_model_spec option"
  wk_declared_tools :: "string list"
  wk_measured :: "measured_capability option"
  wk_policy_limits :: run_bounds
  wk_computer_use_allowed :: bool
  wk_load :: worker_load
  wk_liveness :: worker_liveness_state
  wk_last_heartbeat_at :: "time option"
  wk_stale_after_ms :: int
  wk_active_leases :: "lease_ownership list"

record worker_observatory_projection =
  wo_agent_id :: string
  wo_display_name :: string
  wo_host_kind :: worker_host_kind
  wo_computer_use_allowed :: bool
  wo_declared_tool_count :: nat
  wo_load :: worker_load
  wo_liveness :: worker_liveness_state
  wo_last_heartbeat_at :: "time option"
  wo_stale_after_ms :: int

definition from_internal :: "worker_projection \<Rightarrow> worker_observatory_projection" where
  "from_internal w =
     \<lparr>wo_agent_id = wk_agent_id w, wo_display_name = wk_display_name w, wo_host_kind = wk_host_kind w,
      wo_computer_use_allowed = wk_computer_use_allowed w,
      wo_declared_tool_count = length (wk_declared_tools w), wo_load = wk_load w,
      wo_liveness = wk_liveness w, wo_last_heartbeat_at = wk_last_heartbeat_at w,
      wo_stale_after_ms = wk_stale_after_ms w\<rparr>"

subsection \<open>The projection\<close>

definition worker_liveness :: "worker_presence option \<Rightarrow> time \<Rightarrow> worker_liveness_state" where
  "worker_liveness presence now =
     (case presence of
        None \<Rightarrow> WL_Unknown
      | Some p \<Rightarrow> if now - pr_last_heartbeat_at p \<le> DEFAULT_WORKER_STALE_AFTER_MS * 1000000
                  then WL_Live else WL_Stale)"

definition leases_of :: "string \<Rightarrow> work_attempt list \<Rightarrow> time \<Rightarrow> lease_ownership list" where
  "leases_of agent_id attempts now =
     map (\<lambda>a. \<lparr>lo_work_id = wa_work_id a, lo_attempt_id = wa_attempt_id a, lo_lease_expires_at = wa_lease_expires_at a\<rparr>)
       (filter (\<lambda>a. wa_claimant_id a = agent_id \<and> as_is_active (wa_state a) \<and> lease_active_at a now) attempts)"

definition project ::
  "agent_record \<Rightarrow> agent_spec option \<Rightarrow> worker_presence option \<Rightarrow> work_item list \<Rightarrow> work_attempt list
     \<Rightarrow> time \<Rightarrow> measured_capability option \<Rightarrow> worker_projection" where
  "project agent given presence items attempts now measured =
     (let spec = (case given of Some sp \<Rightarrow> Some sp | None \<Rightarrow> ag_spec agent);
          assigned = filter (\<lambda>i. wi_assigned_agent_id i = Some (ag_agent_id agent)) items;
          active_leases = leases_of (ag_agent_id agent) attempts now
      in \<lparr>wk_agent_id = ag_agent_id agent,
          wk_display_name = (case spec of Some sp \<Rightarrow> as_display_name sp | None \<Rightarrow> ag_agent_id agent),
          wk_workspace = (case spec of Some sp \<Rightarrow> as_source_workspace sp | None \<Rightarrow> ag_workspace agent),
          wk_host_kind = (case presence of Some p \<Rightarrow> pr_host_kind p | None \<Rightarrow> WH_Unknown),
          wk_model = map_option as_model spec,
          wk_declared_tools = (case spec of Some sp \<Rightarrow> aa_allowed_tools (as_authority sp) | None \<Rightarrow> []),
          wk_measured = measured,
          wk_policy_limits = (case spec of Some sp \<Rightarrow> as_default_run_bounds sp | None \<Rightarrow> run_bounds_default),
          wk_computer_use_allowed = (case spec of Some sp \<Rightarrow> aa_computer_use_allowed (as_authority sp) | None \<Rightarrow> False),
          wk_load = \<lparr>wl_assigned_items = length assigned,
                     wl_queued_items = length (filter (\<lambda>i. wi_state i = W_Queued) assigned),
                     wl_active_leases = length active_leases\<rparr>,
          wk_liveness = worker_liveness presence now,
          wk_last_heartbeat_at = map_option pr_last_heartbeat_at presence,
          wk_stale_after_ms = DEFAULT_WORKER_STALE_AFTER_MS,
          wk_active_leases = active_leases\<rparr>)"

subsection \<open>Limits of an assignment\<close>

definition min_tokens :: "nat option list \<Rightarrow> nat option" where
  "min_tokens limits =
     (let known = map the (filter (\<lambda>l. l \<noteq> None) limits)
      in if known = [] then None else Some (Min (set known)))"

definition assignment_ceiling :: "agent_spec option \<Rightarrow> agent_spec \<Rightarrow> run_bounds \<Rightarrow> run_bounds" where
  "assignment_ceiling manager worker server =
     (let m = (case manager of Some sp \<Rightarrow> as_default_run_bounds sp | None \<Rightarrow> server);
          w = as_default_run_bounds worker
      in \<lparr>rb_max_prompt_bytes = min (min (rb_max_prompt_bytes m) (rb_max_prompt_bytes w)) (rb_max_prompt_bytes server),
          rb_max_rounds = min (min (rb_max_rounds m) (rb_max_rounds w)) (rb_max_rounds server),
          rb_max_duration_ms = min (min (rb_max_duration_ms m) (rb_max_duration_ms w)) (rb_max_duration_ms server),
          rb_max_total_tokens =
            min_tokens [rb_max_total_tokens m, rb_max_total_tokens w, rb_max_total_tokens server]\<rparr>)"

definition reject_privilege_amplification ::
  "agent_spec option \<Rightarrow> agent_spec \<Rightarrow> run_bounds \<Rightarrow> run_bounds \<Rightarrow> unit result" where
  "reject_privilege_amplification manager worker work server =
     (if aa_computer_use_allowed (as_authority worker)
      then Inl (orch_error_new ForbiddenScope ''assignment cannot select a Computer Use worker in this slice'')
      else
        let ceiling = assignment_ceiling manager worker server
        in if rb_max_prompt_bytes work > rb_max_prompt_bytes ceiling
              \<or> rb_max_rounds work > rb_max_rounds ceiling
              \<or> rb_max_duration_ms work > rb_max_duration_ms ceiling
              \<or> (case (rb_max_total_tokens work, rb_max_total_tokens ceiling) of
                   (Some requested, Some limit) \<Rightarrow> requested > limit
                 | _ \<Rightarrow> False)
           then Inl (orch_error_new ForbiddenScope
                  ''assignment would amplify bounds beyond manager, worker, or server policy'')
           else Inr ())"

subsection \<open>The store\<close>

record worker_store =
  ws_ledger :: ledger
  ws_presence :: "(string, worker_presence) dir"

type_synonym 'a worker_op = "(worker_store, orch_error, 'a) op"

interpretation workers: ledger_part ws_ledger ws_ledger_update
  by unfold_locales simp_all

abbreviation worker_ledger :: "(ledger, 'e, 'a) op \<Rightarrow> (worker_store, 'e, 'a) op" where
  "worker_ledger \<equiv> part_op ws_ledger ws_ledger_update"

definition write_worker_presence ::
  "host \<Rightarrow> string \<Rightarrow> string \<Rightarrow> worker_host_kind \<Rightarrow> time \<Rightarrow> worker_presence worker_op" where
  "write_worker_presence h agent_id credential_id host_kind now =
     (let presence = presence_new agent_id credential_id host_kind now in
      bindE (lift (safe_id_filename agent_id)) (\<lambda>k.
        thenE (part_durable ws_ledger ws_ledger_update h (\<lambda>s. s\<lparr>ws_presence := dir_put k presence (ws_presence s)\<rparr>))
          (ret presence)))"

definition heartbeat_worker ::
  "host \<Rightarrow> string \<Rightarrow> string \<Rightarrow> worker_host_kind \<Rightarrow> time \<Rightarrow> worker_presence worker_op" where
  "heartbeat_worker = write_worker_presence"

definition heartbeat_worker_scoped ::
  "host \<Rightarrow> string \<Rightarrow> string \<Rightarrow> worker_host_kind \<Rightarrow> time \<Rightarrow> uuid \<Rightarrow> string \<Rightarrow> worker_presence worker_op" where
  "heartbeat_worker_scoped h agent_id credential_id host_kind now session_id workspace =
     bindE (worker_ledger (require_agent_in_scope h agent_id session_id workspace)) (\<lambda>agent.
       write_worker_presence h (ag_agent_id agent) credential_id host_kind now)"

definition load_worker_presence :: "string \<Rightarrow> worker_presence option worker_op" where
  "load_worker_presence agent_id =
     bindE (lift (safe_id_filename agent_id)) (\<lambda>k. gets (\<lambda>s. dir_get (ws_presence s) k))"

definition list_agents :: "agent_record list store_op" where
  "list_agents = reads (\<lambda>s. Inr (dir_list (lg_agents s)))"

fun project_agents ::
  "agent_record list \<Rightarrow> work_item list \<Rightarrow> work_attempt list \<Rightarrow> time \<Rightarrow> worker_projection list worker_op" where
  "project_agents [] items attempts now = ret []"
| "project_agents (agent # agents) items attempts now =
     bindE (load_worker_presence (ag_agent_id agent)) (\<lambda>presence.
     bindE (project_agents agents items attempts now) (\<lambda>out.
       ret (project agent (ag_spec agent) presence items attempts now None # out)))"

definition list_workers :: "host \<Rightarrow> string \<Rightarrow> time \<Rightarrow> worker_projection list worker_op" where
  "list_workers h workspace now =
     bindE (map_err internal_of (worker_ledger list_agents)) (\<lambda>agents.
     bindE (map_err internal_of (worker_ledger list_work_items)) (\<lambda>items.
     bindE (map_err internal_of (worker_ledger (list_work_attempts None))) (\<lambda>attempts.
       project_agents (filter (\<lambda>a. workspaces_match h (ag_workspace a) workspace) agents) items attempts now)))"

definition scoped_work_and_attempts ::
  "host \<Rightarrow> uuid \<Rightarrow> string \<Rightarrow> (work_item list \<times> work_attempt list) worker_op" where
  "scoped_work_and_attempts h session_id workspace =
     (let sc = \<lparr>gs_session_id = session_id, gs_workspace = workspace\<rparr> in
      bindE (map_err internal_of (worker_ledger list_work_items)) (\<lambda>all_items.
      let items = filter (scope_contains h sc) all_items;
          scoped_ids = set (map wi_work_id items) in
      bindE (map_err internal_of (worker_ledger (list_work_attempts None))) (\<lambda>attempts.
        ret (items, filter (\<lambda>a. wa_work_id a \<in> scoped_ids) attempts))))"

definition visible_worker :: "host \<Rightarrow> uuid \<Rightarrow> string \<Rightarrow> agent_record \<Rightarrow> bool" where
  "visible_worker h session_id workspace agent \<longleftrightarrow>
     is_active_identity (ag_state agent) \<and> session_id \<in> set (known_lane_ids agent)
     \<and> workspaces_match h (ag_workspace agent) workspace"

definition list_workers_scoped :: "host \<Rightarrow> uuid \<Rightarrow> string \<Rightarrow> time \<Rightarrow> worker_projection list worker_op" where
  "list_workers_scoped h session_id workspace now =
     bindE (map_err internal_of (worker_ledger list_agents)) (\<lambda>agents.
     bindE (scoped_work_and_attempts h session_id workspace) (\<lambda>(items, attempts).
     bindE (project_agents (filter (visible_worker h session_id workspace) agents) items attempts now) (\<lambda>out.
       ret (sort_key wk_agent_id out))))"

definition get_worker :: "string \<Rightarrow> time \<Rightarrow> worker_projection option worker_op" where
  "get_worker agent_id now =
     bindE (map_err internal_of (worker_ledger (load_agent agent_id))) (\<lambda>found.
       case found of
         None \<Rightarrow> ret None
       | Some agent \<Rightarrow>
           bindE (map_err internal_of (worker_ledger list_work_items)) (\<lambda>items.
           bindE (map_err internal_of (worker_ledger (list_work_attempts None))) (\<lambda>attempts.
           bindE (load_worker_presence agent_id) (\<lambda>presence.
             ret (Some (project agent (ag_spec agent) presence items attempts now None))))))"

definition get_worker_scoped ::
  "host \<Rightarrow> string \<Rightarrow> uuid \<Rightarrow> string \<Rightarrow> time \<Rightarrow> worker_projection option worker_op" where
  "get_worker_scoped h agent_id session_id workspace now =
     bindE (map_err internal_of (worker_ledger (load_agent agent_id))) (\<lambda>found.
       case found of
         None \<Rightarrow> ret None
       | Some agent \<Rightarrow>
           if \<not> visible_worker h session_id workspace agent then ret None
           else bindE (scoped_work_and_attempts h session_id workspace) (\<lambda>(items, attempts).
                bindE (load_worker_presence agent_id) (\<lambda>presence.
                  ret (Some (project agent (ag_spec agent) presence items attempts now None)))))"

end
