(* ===== verification/Worker_Properties.thy ===== *)
theory Worker_Properties
  imports Workers Run_Rules Lease_Safety Example_Run
begin

section \<open>Properties of workers\<close>

text \<open>
  Assignments stay within the limits of manager, worker and server; the scoped list of workers
  shows exactly the visible agents with the live leases of the lane, and no two workers are
  shown with the same work item. One theorem shows where the token limit is not enforced.
\<close>

subsection \<open>Assignments\<close>

lemma min_tokens_Some:
  assumes "min_tokens ls = Some m"
  shows "Some m \<in> set ls" "Some n \<in> set ls \<Longrightarrow> m \<le> n"
proof -
  let ?known = "map the (filter (\<lambda>l. l \<noteq> None) ls)"
  have known: "n \<in> set ?known \<longleftrightarrow> Some n \<in> set ls" for n by force
  have m: "?known \<noteq> []" "m = Min (set ?known)"
    using assms unfolding min_tokens_def Let_def by (simp_all split: if_splits)
  then have "m \<in> set ?known" using Min_in [of "set ?known"] by (simp del: set_map)
  then show "Some m \<in> set ls" using known by blast
  show "Some n \<in> set ls \<Longrightarrow> m \<le> n"
    using known m(2) Min_le [of "set ?known" n] by (simp del: set_map)
qed

lemma min_tokens_known: "Some n \<in> set ls \<Longrightarrow> \<exists>m. min_tokens ls = Some m"
proof -
  assume "Some n \<in> set ls"
  then have "filter (\<lambda>l. l \<noteq> None) ls \<noteq> []" by (auto simp: filter_empty_conv)
  then show ?thesis by (simp add: min_tokens_def Let_def)
qed

text \<open>Bounds in which a token limit, where one is named, is within the other's.\<close>

definition named_within :: "run_bounds \<Rightarrow> run_bounds \<Rightarrow> bool" where
  "named_within b c \<longleftrightarrow>
     rb_max_prompt_bytes b \<le> rb_max_prompt_bytes c \<and> rb_max_rounds b \<le> rb_max_rounds c
     \<and> rb_max_duration_ms b \<le> rb_max_duration_ms c
     \<and> (\<forall>n m. rb_max_total_tokens b = Some n \<longrightarrow> rb_max_total_tokens c = Some m \<longrightarrow> n \<le> m)"

text \<open>
  C24. An assignment is accepted exactly when the worker may not use the computer and the bounds of
  the work, with the token limit it names, are within those of the manager (where there is one),
  of the worker, and of the server.
\<close>

theorem assignment_within_limits:
  "reject_privilege_amplification manager worker work server = Inr () \<longleftrightarrow>
     \<not> aa_computer_use_allowed (as_authority worker)
     \<and> is_none_or manager (\<lambda>m. named_within work (as_default_run_bounds m))
     \<and> named_within work (as_default_run_bounds worker) \<and> named_within work server"
proof -
  let ?m = "case manager of Some sp \<Rightarrow> as_default_run_bounds sp | None \<Rightarrow> server" and ?w = "as_default_run_bounds worker"
  let ?limits = "[rb_max_total_tokens ?m, rb_max_total_tokens ?w, rb_max_total_tokens server]"
  have tokens: "(\<forall>n m. rb_max_total_tokens work = Some n \<longrightarrow> min_tokens ?limits = Some m \<longrightarrow> n \<le> m) \<longleftrightarrow>
      (\<forall>n l m. rb_max_total_tokens work = Some n \<longrightarrow> l \<in> set ?limits \<longrightarrow> l = Some m \<longrightarrow> n \<le> m)" (is "?A = ?B")
  proof
    assume a: ?A
    show ?B
    proof (intro allI impI)
      fix n l m assume n: "rb_max_total_tokens work = Some n" and l: "l \<in> set ?limits" "l = Some m"
      obtain k where k: "min_tokens ?limits = Some k" using min_tokens_known l by blast
      then have "n \<le> k" using a n by blast
      then show "n \<le> m" using min_tokens_Some(2) [OF k, of m] l by auto
    qed
  next
    assume b: ?B
    show ?A
    proof (intro allI impI)
      fix n m assume n: "rb_max_total_tokens work = Some n" and m: "min_tokens ?limits = Some m"
      have "Some m \<in> set ?limits" by (rule min_tokens_Some(1) [OF m])
      then show "n \<le> m" using b n by blast
    qed
  qed
  show ?thesis
    using tokens
    by (cases manager)
       (auto simp: reject_privilege_amplification_def assignment_ceiling_def named_within_def Let_def
         not_less split: option.splits if_splits)
qed

text \<open>
  A work item that names no token limit passes, whatever the limits of manager, worker and server.
\<close>

theorem unlimited_tokens_pass:
  assumes "rb_max_total_tokens work = None" "\<not> aa_computer_use_allowed (as_authority worker)"
    and "named_within work (as_default_run_bounds worker)" "named_within work server"
    and "rb_max_total_tokens (as_default_run_bounds worker) = Some 1"
  shows "reject_privilege_amplification None worker work server = Inr ()
    \<and> \<not> bounds_within work (as_default_run_bounds worker)"
  using assms
  by (auto simp: reject_privilege_amplification_def assignment_ceiling_def named_within_def Let_def
      bounds_within_def token_limit_within_def split: option.splits)

subsection \<open>Leases of the workers of a lane\<close>

lemma project_agents_ok:
  "project_agents agents items attempts now s = (Inr out, t) \<Longrightarrow> t = s
    \<and> out = map (\<lambda>a. project a (ag_spec a) (dir_get (ws_presence s) (ag_agent_id a)) items attempts now None) agents"
proof (induction agents arbitrary: out t)
  case Nil
  then show ?case by (simp add: ok_run)
next
  case (Cons a agents)
  then show ?case
    by (auto simp: load_worker_presence_def ok_run dest!: safe_id_filename_same)
qed

lemma project_shows [simp]:
  "wk_active_leases (project a sp pr items attempts now m) = leases_of (ag_agent_id a) attempts now"
  "wk_agent_id (project a sp pr items attempts now m) = ag_agent_id a"
  by (simp_all add: project_def Let_def)

lemma worker_reads:
  assumes "worker_ledger m s = (Inr x, t)" "\<And>l y l'. m l = (Inr y, l') \<Longrightarrow> l' = l"
  shows "t = s" "m (ws_ledger s) = (Inr x, ws_ledger s)"
  using assms by (auto simp: part_op_def split: prod.splits)

lemma validated_ok: "validated v xs = Inr ys \<Longrightarrow> ys = xs"
  by (induction xs arbitrary: ys) (auto simp: rbind_ok split: sum.splits)

lemma attempts_listed:
  assumes "list_work_attempts None l = (Inr xs, l')"
  shows "l' = l" "set xs = attempts_set l"
  using assms
  by (auto simp: list_work_attempts_def reads_def rbind_ok attempts_set_def split: prod.splits sum.splits
      dest!: validated_ok)

lemma scoped_attempts:
  assumes "scoped_work_and_attempts h sid ws s = (Inr (items, attempts), t)"
  shows "t = s" "set attempts \<subseteq> attempts_set (ws_ledger s)"
proof -
  have items: "l' = l" if "list_work_items l = (Inr y, l')" for l y l'
    using that by (simp add: list_work_items_def leaf_ok)
  have attempts: "l' = l" if "list_work_attempts None l = (Inr y, l')" for l y l'
    using that by (rule attempts_listed)
  from assms obtain xs u ys v where xs: "worker_ledger list_work_items s = (Inr xs, u)"
    and ys: "worker_ledger (list_work_attempts None) u = (Inr ys, v)"
    and out: "t = v" "set attempts \<subseteq> set ys"
    by (auto simp: scoped_work_and_attempts_def bindE_ok leaf_ok Let_def)
  have "u = s" using worker_reads(1) [OF xs items] .
  moreover have "v = u" "list_work_attempts None (ws_ledger u) = (Inr ys, ws_ledger u)"
    by (rule worker_reads(1) [OF ys], erule attempts) (rule worker_reads(2) [OF ys], erule attempts)
  ultimately show "t = s" "set attempts \<subseteq> attempts_set (ws_ledger s)"
    using out attempts_listed(2) by blast+
qed

lemma workers_shown:
  assumes "list_workers_scoped h sid ws now s = (Inr out, t)"
  shows "t = s"
    and "p \<in> set out \<Longrightarrow> lo \<in> set (wk_active_leases p) \<Longrightarrow>
      \<exists>a \<in> attempts_set (ws_ledger s). lease_active_at a now \<and> wa_claimant_id a = wk_agent_id p
        \<and> lo = \<lparr>lo_work_id = wa_work_id a, lo_attempt_id = wa_attempt_id a, lo_lease_expires_at = wa_lease_expires_at a\<rparr>"
proof -
  have agents: "l' = l" if "list_agents l = (Inr y, l')" for l y l'
    using that by (simp add: list_agents_def leaf_ok)
  from assms obtain as u where as: "worker_ledger list_agents s = (Inr as, u)"
    and x: "bindE (scoped_work_and_attempts h sid ws) (\<lambda>(items, attempts).
        bindE (project_agents (filter (visible_worker h sid ws) as) items attempts now) (\<lambda>out.
          ret (sort_key wk_agent_id out))) u = (Inr out, t)"
    unfolding list_workers_scoped_def bindE_ok leaf_ok by blast
  then obtain items attempts v shown where at: "scoped_work_and_attempts h sid ws u = (Inr (items, attempts), v)"
    and shown: "project_agents (filter (visible_worker h sid ws) as) items attempts now v = (Inr shown, t)"
    and sorted: "out = sort_key wk_agent_id shown"
    unfolding bindE_ok leaf_ok split_paired_Ex prod.case by blast
  have out: "set out = set shown" unfolding sorted by simp
  have us: "u = s" using worker_reads(1) [OF as agents] .
  note vs = scoped_attempts [OF at]
  note ps = project_agents_ok [OF shown]
  show "t = s" using us vs(1) ps by simp
  assume "p \<in> set out" "lo \<in> set (wk_active_leases p)"
  then have "lo \<in> set (leases_of (wk_agent_id p) attempts now)"
    using out ps by (auto simp del: set_filter)
  then show "\<exists>a \<in> attempts_set (ws_ledger s). lease_active_at a now \<and> wa_claimant_id a = wk_agent_id p
        \<and> lo = \<lparr>lo_work_id = wa_work_id a, lo_attempt_id = wa_attempt_id a, lo_lease_expires_at = wa_lease_expires_at a\<rparr>"
    using vs(2) us by (auto simp: leases_of_def)
qed

text \<open>
  In every ledger reached from an empty one, the list of workers of a lane, read at or after
  the current instant, shows no work item as leased twice: two leases shown with the same work id
  are the same lease, shown for the same worker. The read changes nothing.
\<close>

theorem worker_leases_disjoint:
  assumes host: "sound_host h" and start: "ledger_start l" and run: "(ledger_step h)\<^sup>*\<^sup>* l (ws_ledger s)"
    and now: "utc_now h (lg_clock (ws_ledger s)) \<le> now"
    and read: "list_workers_scoped h sid ws now s = (Inr out, t)"
    and p: "p \<in> set out" "x \<in> set (wk_active_leases p)"
    and q: "q \<in> set out" "y \<in> set (wk_active_leases q)"
    and same: "lo_work_id x = lo_work_id y"
  shows "t = s \<and> x = y \<and> wk_agent_id p = wk_agent_id q"
proof -
  let ?A = "attempts_set (ws_ledger s)"
  from sound_host.reachable_safe [OF host start run] obtain t0 where ok: "ledger_ok h t0 (ws_ledger s)"
    unfolding safe_def stays_def by blast
  then have holders: "holders_ok now ?A" and dir: "dir_ok wa_attempt_id (lg_attempts (ws_ledger s))"
    unfolding ledger_ok_def records_ok_def using now by (auto intro: holders_ok_later)
  from workers_shown(2) [OF read p] obtain a where a: "a \<in> ?A" "lease_active_at a now"
    "wa_claimant_id a = wk_agent_id p"
    "x = \<lparr>lo_work_id = wa_work_id a, lo_attempt_id = wa_attempt_id a, lo_lease_expires_at = wa_lease_expires_at a\<rparr>"
    by blast
  from workers_shown(2) [OF read q] obtain b where b: "b \<in> ?A" "lease_active_at b now"
    "wa_claimant_id b = wk_agent_id q"
    "y = \<lparr>lo_work_id = wa_work_id b, lo_attempt_id = wa_attempt_id b, lo_lease_expires_at = wa_lease_expires_at b\<rparr>"
    by blast
  have "wa_work_id a = wa_work_id b" using same a b by simp
  then have "a = b"
    using holders dir a(1,2) b(1,2) dir_list_get [of wa_attempt_id "lg_attempts (ws_ledger s)"]
    unfolding holders_ok_def attempts_set_def by (metis option.inject)
  then show ?thesis using a b workers_shown(1) [OF read] by simp
qed

subsection \<open>A worker with a lease\<close>

text \<open>The claimed item of \<open>Example_Run\<close>, with the agent that claimed it.\<close>

definition bob :: agent_record where
  "bob = \<lparr>ag_agent_id = ''bob'', ag_session_id = 7, ag_lane_ids = [7], ag_lane_associations = [],
     ag_workspace = ''/w'', ag_state = Agent_Active, ag_spec = None\<rparr>"

definition bob_store :: worker_store where
  "bob_store = \<lparr>ws_ledger = claimed_ledger\<lparr>lg_agents := [(''bob'', bob)]\<rparr>, ws_presence = []\<rparr>"

definition bob_shown :: worker_projection where
  "bob_shown = project bob None None [claimed_item] [claimed_attempt] 4000000 None"

definition bob_lease :: lease_ownership where
  "bob_lease = \<lparr>lo_work_id = ''w'', lo_attempt_id = ''uu'', lo_lease_expires_at = 300001000000\<rparr>"

lemma bob_reachable: "(ledger_step exact_host)\<^sup>*\<^sup>* empty_ledger (ws_ledger bob_store)"
  using claimed_reachable ledger_step.agents_written [of exact_host claimed_ledger "[(''bob'', bob)]"]
  unfolding bob_store_def by (simp add: rtranclp.rtrancl_into_rtrancl)

lemma bob_listed: "list_workers_scoped exact_host 7 ''/w'' 4000000 bob_store = (Inr [bob_shown], bob_store)"
proof -
  have f: "safe_id_filename ''bob'' = Inr ''bob''" by (simp add: safe_id_filename_def rbind_ok NUL_def BACKSLASH_def)
  have items: "worker_ledger list_work_items bob_store = (Inr [claimed_item], bob_store)"
    by (simp add: part_op_def bob_store_def list_work_items_def op_simps load_simps claimed_ledger_def
        claimed_item_valid rbind_def order_work_def sort_by_def)
  have attempts: "worker_ledger (list_work_attempts None) bob_store = (Inr [claimed_attempt], bob_store)"
    by (simp add: part_op_def bob_store_def list_work_attempts_def op_simps load_simps claimed_ledger_def
        claimed_attempt_valid rbind_def sort_by_def)
  have agents: "worker_ledger list_agents bob_store = (Inr [bob], bob_store)"
    by (simp add: part_op_def bob_store_def list_agents_def op_simps load_simps)
  have visible: "visible_worker exact_host 7 ''/w'' bob" "ag_agent_id bob = ''bob''" "ag_spec bob = None"
    by (simp_all add: visible_worker_def bob_def known_lane_ids_def workspaces_match_def)
  have "dir_get (ws_presence bob_store) ''bob'' = None" by (simp add: bob_store_def dir_get_def)
  then show ?thesis
    by (simp add: list_workers_scoped_def scoped_work_and_attempts_def Let_def op_simps agents items attempts
        visible load_worker_presence_def f scope_contains_def workspaces_match_def bob_shown_def sort_key_def)
qed

theorem worker_leases_disjoint_witness:
  "list_workers_scoped exact_host 7 ''/w'' 4000000 bob_store = (Inr [bob_shown], bob_store)
   \<and> {x \<in> set (wk_active_leases bob_shown). lo_work_id x = ''w''} = {bob_lease}"
proof -
  have lease: "bob_lease \<in> set (wk_active_leases bob_shown)"
    by (simp add: bob_shown_def leases_of_def bob_def lease_active_at_def)
       (simp add: claimed_attempt_def bob_lease_def)
  have now: "utc_now exact_host (lg_clock (ws_ledger bob_store)) \<le> 4000000"
    by (simp add: bob_store_def claimed_ledger_def)
  have "x = bob_lease" if "x \<in> set (wk_active_leases bob_shown)" "lo_work_id x = ''w''" for x
  proof -
    have same: "lo_work_id x = lo_work_id bob_lease" using that(2) by (simp add: bob_lease_def)
    have "bob_shown \<in> set [bob_shown]" by simp
    then show ?thesis
      using worker_leases_disjoint [OF exact.sound_host_axioms empty_ledger_start bob_reachable now bob_listed
          _ that(1) _ lease same] by blast
  qed
  moreover have "lo_work_id bob_lease = ''w''" by (simp add: bob_lease_def)
  ultimately have "{x \<in> set (wk_active_leases bob_shown). lo_work_id x = ''w''} = {bob_lease}" using lease by blast
  then show ?thesis by (intro conjI bob_listed)
qed

end
