(* ===== verification/Manager_Plans.thy ===== *)
theory Manager_Plans
  imports Messages Work_Decisions
begin

section \<open>Manager plans\<close>

text \<open>
  \<^verbatim>\<open>orchestration/manager.rs\<close>: plans of dependent steps, each carried out by an ordinary work item.
  Records and their validation with the depth-first search for cycles, directives and decisions
  of a manager, replanning after a failure, the advance of a plan against the ledger, and the
  notifications about steps. A hash map keyed by step is a list of pairs or a function; a hash set is a
  set. The JSON text of a directive is read by \<open>serde_json\<close>, whose functions are the fields of
  \<open>directive_codec\<close>.
\<close>

definition MANAGER_SCHEMA_VERSION :: nat where "MANAGER_SCHEMA_VERSION = 1"
definition MAX_MANAGER_STEPS :: nat where "MAX_MANAGER_STEPS = 64"
definition MAX_MANAGER_IN_FLIGHT :: nat where "MAX_MANAGER_IN_FLIGHT = 16"
definition MAX_MANAGER_REPLANS :: nat where "MAX_MANAGER_REPLANS = 16"
definition MAX_MANAGER_DIRECTIVE_BYTES :: nat where "MAX_MANAGER_DIRECTIVE_BYTES = 16 * 1024"
definition MAX_MANAGER_ID_BYTES :: nat where "MAX_MANAGER_ID_BYTES = 256"
definition MAX_MANAGER_TEXT_BYTES :: nat where "MAX_MANAGER_TEXT_BYTES = 32 * 1024"

datatype manager_plan_state = MP_Active | MP_NeedsReplan | MP_Succeeded | MP_Failed | MP_Cancelled

datatype manager_step_state =
    MS_Pending | MS_Ready | MS_InFlight | MS_AwaitingInput | MS_AwaitingReview
  | MS_Succeeded | MS_Failed | MS_Blocked | MS_Cancelled | MS_Superseded

datatype manager_coordination_mode = MC_Manual | MC_Autonomous
datatype manager_decision_state = MD_AwaitingResult | MD_Proposed | MD_Applied | MD_Rejected | MD_HumanRequired

definition coordination_autonomous :: "manager_coordination_mode \<Rightarrow> bool" where
  "coordination_autonomous mode \<longleftrightarrow> mode = MC_Autonomous"

definition manager_validate_id :: "string \<Rightarrow> string \<Rightarrow> unit result" where
  "manager_validate_id v name =
     reject (v = [] \<or> length v > MAX_MANAGER_ID_BYTES \<or> CHR ''/'' \<in> set v \<or> BACKSLASH \<in> set v
             \<or> str_contains v ''..'' \<or> NUL \<in> set v)
       (invalid (name @ '' is empty or invalid''))"

definition manager_validate_text :: "string \<Rightarrow> string \<Rightarrow> unit result" where
  "manager_validate_text v name =
     reject (v = [] \<or> length v > MAX_MANAGER_TEXT_BYTES \<or> NUL \<in> set v)
       (invalid (name @ '' is empty or exceeds its bound''))"

subsection \<open>Steps\<close>

record manager_step_spec =
  sp_step_id :: string
  sp_kind :: string
  sp_objective :: string
  sp_priority :: int
  sp_dependencies :: "string list"
  sp_assigned_agent_id :: "string option"
  sp_policy :: work_policy

fun spec_dependencies_validate :: "string \<Rightarrow> string set \<Rightarrow> string list \<Rightarrow> unit result" where
  "spec_dependencies_validate me seen [] = Inr ()"
| "spec_dependencies_validate me seen (d # ds) =
     rbind (first_err
       [manager_validate_id d ''step dependency'',
        reject (d = me \<or> d \<in> seen) (invalid ''step dependencies must be unique and acyclic'')])
     (\<lambda>_. spec_dependencies_validate me (insert d seen) ds)"

definition step_spec_validate :: "manager_step_spec \<Rightarrow> unit result" where
  "step_spec_validate sp = first_err
     [manager_validate_id (sp_step_id sp) ''step_id'',
      manager_validate_text (sp_kind sp) ''kind'',
      reject (sp_step_id sp = ''__manager_decision__'' \<or> sp_kind sp = ''manager-decision'')
        (invalid ''manager decision identifiers are reserved''),
      manager_validate_text (sp_objective sp) ''objective'',
      reject (length (sp_dependencies sp) > MAX_MANAGER_STEPS)
        (invalid ''step dependencies exceed the manager bound''),
      spec_dependencies_validate (sp_step_id sp) {} (sp_dependencies sp),
      on_some (sp_assigned_agent_id sp) (\<lambda>a. manager_validate_id a ''assigned_agent_id''),
      work_policy_validate (sp_policy sp)]"

record manager_step =
  ms_step_id :: string
  ms_kind :: string
  ms_objective :: string
  ms_priority :: int
  ms_dependencies :: "string list"
  ms_assigned_agent_id :: "string option"
  ms_policy :: work_policy
  ms_state :: manager_step_state
  ms_work_id :: "string option"
  ms_last_error :: "string option"
  ms_last_notification_work_revision :: "u64 option"
  ms_last_notification_message_id :: "string option"
  ms_created_at :: time
  ms_updated_at :: time

definition step_from_spec :: "time \<Rightarrow> manager_step_spec \<Rightarrow> manager_step" where
  "step_from_spec now sp =
     \<lparr>ms_step_id = sp_step_id sp, ms_kind = sp_kind sp, ms_objective = sp_objective sp,
      ms_priority = sp_priority sp, ms_dependencies = sp_dependencies sp,
      ms_assigned_agent_id = sp_assigned_agent_id sp, ms_policy = sp_policy sp,
      ms_state = MS_Pending, ms_work_id = None, ms_last_error = None,
      ms_last_notification_work_revision = None, ms_last_notification_message_id = None,
      ms_created_at = now, ms_updated_at = now\<rparr>"

definition step_as_spec :: "manager_step \<Rightarrow> manager_step_spec" where
  "step_as_spec st =
     \<lparr>sp_step_id = ms_step_id st, sp_kind = ms_kind st, sp_objective = ms_objective st,
      sp_priority = ms_priority st, sp_dependencies = ms_dependencies st,
      sp_assigned_agent_id = ms_assigned_agent_id st, sp_policy = ms_policy st\<rparr>"

record manager_notification =
  mn_step_id :: string
  mn_work_id :: string
  mn_work_revision :: u64
  mn_kind :: message_kind
  mn_body :: string
  mn_payload :: json

record manager_plan =
  mp_schema_version :: nat
  mp_plan_id :: string
  mp_session_id :: uuid
  mp_workspace :: string
  mp_manager_agent_id :: string
  mp_objective :: string
  mp_root_work_id :: string
  mp_revision :: u64
  mp_state :: manager_plan_state
  mp_max_in_flight :: nat
  mp_max_replans :: nat
  mp_replan_count :: nat
  mp_coordination :: manager_coordination_mode
  mp_steps :: "manager_step list"
  mp_last_error :: "string option"
  mp_created_at :: time
  mp_updated_at :: time

definition plan_bump :: "time \<Rightarrow> manager_plan \<Rightarrow> manager_plan" where
  "plan_bump now p = p\<lparr>mp_revision := saturating_succ (mp_revision p), mp_updated_at := now\<rparr>"

subsection \<open>Validation of a plan\<close>

lemma rbind_cong [fundef_cong]:
  "r = r' \<Longrightarrow> (\<And>x. r' = Inr x \<Longrightarrow> f x = g x) \<Longrightarrow> rbind r f = rbind r' g"
  by (cases r') (auto simp: rbind_def)

text \<open>
  The depth-first search. \<open>visiting\<close> is the path above the step: an element is added on entry,
  where it was absent, and removed on return, so it is passed down and not returned. \<open>visited\<close> is returned. A
  search that fails ends the validation.
\<close>

function assert_acyclic :: "(string \<times> string list) list \<Rightarrow> string set \<Rightarrow> string set \<Rightarrow> string \<Rightarrow> string set result"
  and assert_all_acyclic :: "(string \<times> string list) list \<Rightarrow> string set \<Rightarrow> string set \<Rightarrow> string list \<Rightarrow> string set result" where
  "assert_acyclic deps visiting visited i =
     (if i \<in> visited then Inr visited
      else if i \<in> visiting then Inl (invalid ''manager step dependencies contain a cycle'')
      else case map_of deps i of
             None \<Rightarrow> Inr (insert i visited)
           | Some ds \<Rightarrow> rbind (assert_all_acyclic deps (insert i visiting) visited ds) (\<lambda>v. Inr (insert i v)))"
| "assert_all_acyclic deps visiting visited [] = Inr visited"
| "assert_all_acyclic deps visiting visited (d # ds) =
     rbind (assert_acyclic deps visiting visited d) (\<lambda>v. assert_all_acyclic deps visiting v ds)"
  by pat_completeness auto
termination
proof (relation "inv_image (less_than <*lex*> less_than) (case_sum
    (\<lambda>(deps, visiting, visited, i). (card (set (map fst deps) - visiting), 0))
    (\<lambda>(deps, visiting, visited, ds). (card (set (map fst deps) - visiting), Suc (length ds))))")
  fix deps :: "(string \<times> string list) list" and visiting visited :: "string set" and i ds
  assume "i \<notin> visiting" "map_of deps i = Some ds"
  then have "i \<in> set (map fst deps) - visiting" by (force dest: map_of_SomeD)
  then have "card (set (map fst deps) - insert i visiting) < card (set (map fst deps) - visiting)"
    by (intro psubset_card_mono) auto
  then show "(Inr (deps, insert i visiting, visited, ds), Inl (deps, visiting, visited, i))
    \<in> inv_image (less_than <*lex*> less_than) (case_sum
      (\<lambda>(deps, visiting, visited, i). (card (set (map fst deps) - visiting), 0))
      (\<lambda>(deps, visiting, visited, ds). (card (set (map fst deps) - visiting), Suc (length ds))))"
    by simp
qed auto

fun plan_steps_validate :: "string set \<Rightarrow> manager_step list \<Rightarrow> unit result" where
  "plan_steps_validate ids [] = Inr ()"
| "plan_steps_validate ids (st # sts) =
     rbind (first_err
       [step_spec_validate (step_as_spec st),
        reject (ms_step_id st \<in> ids) (invalid ''manager step IDs must be unique''),
        reject (ms_state st = MS_Pending \<and> ms_work_id st \<noteq> None)
          (invalid ''pending manager step cannot reference Work''),
        on_some (ms_work_id st) (\<lambda>w. manager_validate_id w ''step.work_id''),
        on_some (ms_last_error st) (\<lambda>e. manager_validate_text e ''step.last_error''),
        reject (ms_last_notification_work_revision st = Some 0)
          (invalid ''step.last_notification_work_revision must be positive''),
        on_some (ms_last_notification_message_id st)
          (\<lambda>m. manager_validate_id m ''step.last_notification_message_id'')])
     (\<lambda>_. plan_steps_validate (insert (ms_step_id st) ids) sts)"

fun steps_acyclic :: "(string \<times> string list) list \<Rightarrow> manager_step list \<Rightarrow> unit result" where
  "steps_acyclic deps [] = Inr ()"
| "steps_acyclic deps (st # sts) =
     rbind (assert_acyclic deps {} {} (ms_step_id st)) (\<lambda>_. steps_acyclic deps sts)"

definition step_dependencies :: "manager_step list \<Rightarrow> (string \<times> string list) list" where
  "step_dependencies sts = map (\<lambda>st. (ms_step_id st, ms_dependencies st)) sts"

definition plan_validate :: "manager_plan \<Rightarrow> unit result" where
  "plan_validate p = first_err
     [reject (mp_schema_version p \<noteq> MANAGER_SCHEMA_VERSION \<or> mp_revision p = 0)
        (invalid ''manager plan schema version or revision is invalid''),
      manager_validate_id (mp_plan_id p) ''plan_id'',
      manager_validate_id (mp_manager_agent_id p) ''manager_agent_id'',
      manager_validate_id (mp_root_work_id p) ''root_work_id'',
      manager_validate_text (mp_workspace p) ''workspace'',
      manager_validate_text (mp_objective p) ''objective'',
      reject (mp_max_in_flight p = 0 \<or> mp_max_in_flight p > MAX_MANAGER_IN_FLIGHT)
        (invalid ''max_in_flight exceeds the manager bound''),
      reject (mp_max_replans p > MAX_MANAGER_REPLANS \<or> mp_replan_count p > mp_max_replans p)
        (invalid ''replan count exceeds the manager bound''),
      reject (mp_steps p = [] \<or> length (mp_steps p) > MAX_MANAGER_STEPS)
        (invalid ''manager plan must contain between 1 and 64 steps''),
      plan_steps_validate {} (mp_steps p),
      reject (\<exists>st \<in> set (mp_steps p). \<exists>d \<in> set (ms_dependencies st). d \<notin> ms_step_id ` set (mp_steps p))
        (invalid ''manager step references an unknown dependency''),
      steps_acyclic (step_dependencies (mp_steps p)) (mp_steps p)]"

definition plan_new ::
  "string \<Rightarrow> uuid \<Rightarrow> string \<Rightarrow> string \<Rightarrow> string \<Rightarrow> string \<Rightarrow> manager_step_spec list \<Rightarrow> nat \<Rightarrow> nat \<Rightarrow> time
     \<Rightarrow> manager_plan result" where
  "plan_new fresh_id session_id workspace manager_agent_id objective root_work_id steps max_in_flight max_replans now =
     (let plan =
        \<lparr>mp_schema_version = MANAGER_SCHEMA_VERSION, mp_plan_id = fresh_id, mp_session_id = session_id,
         mp_workspace = workspace, mp_manager_agent_id = manager_agent_id, mp_objective = objective,
         mp_root_work_id = root_work_id, mp_revision = 1, mp_state = MP_Active,
         mp_max_in_flight = max_in_flight, mp_max_replans = max_replans, mp_replan_count = 0,
         mp_coordination = MC_Manual, mp_steps = map (step_from_spec now) steps, mp_last_error = None,
         mp_created_at = now, mp_updated_at = now\<rparr>
      in rbind (plan_validate plan) (\<lambda>_. Inr plan))"

definition require_revision :: "manager_plan \<Rightarrow> u64 option \<Rightarrow> unit result" where
  "require_revision p expected =
     reject (is_some_and expected (\<lambda>r. r \<noteq> mp_revision p))
       (orch_error_new StaleVersion ''manager plan revision does not match expected_revision'')"

subsection \<open>Replanning\<close>

definition step_failed :: "manager_step \<Rightarrow> bool" where
  "step_failed st \<longleftrightarrow> ms_state st \<in> {MS_Failed, MS_Cancelled}"

definition step_settled :: "manager_step \<Rightarrow> bool" where
  "step_settled st \<longleftrightarrow> ms_state st \<in> {MS_Succeeded, MS_Superseded}"

definition failed_steps :: "manager_step list \<Rightarrow> string set" where
  "failed_steps sts = ms_step_id ` {st \<in> set sts. step_failed st}"

definition supersede_pass :: "manager_step list \<Rightarrow> string set \<Rightarrow> string set" where
  "supersede_pass sts superseded =
     foldl (\<lambda>acc st. if \<not> step_settled st \<and> (\<exists>d \<in> set (ms_dependencies st). d \<in> acc)
                      then insert (ms_step_id st) acc else acc) superseded sts"

lemma supersede_pass_grows: "S \<subseteq> supersede_pass sts S"
proof -
  have "S \<subseteq> foldl (\<lambda>acc st. if P acc st then insert (ms_step_id st) acc else acc) S sts" for P
    by (induction sts arbitrary: S) (simp, force)
  then show ?thesis by (simp add: supersede_pass_def)
qed

lemma supersede_pass_bound: "supersede_pass sts S \<subseteq> S \<union> ms_step_id ` set sts"
proof -
  have "foldl (\<lambda>acc st. if P acc st then insert (ms_step_id st) acc else acc) S sts \<subseteq> S \<union> ms_step_id ` set sts" for P
  proof (induction sts arbitrary: S)
    case (Cons st sts)
    show ?case using Cons [of "if P S st then insert (ms_step_id st) S else S"] by (auto split: if_splits)
  qed simp
  then show ?thesis by (simp add: supersede_pass_def)
qed

text \<open>The loop of \<open>append_replan\<close> and \<open>replace_failed_steps\<close>: passes until the set no longer grows.\<close>

function supersede_loop :: "manager_step list \<Rightarrow> string set \<Rightarrow> string set" where
  "supersede_loop sts superseded =
     (let next = supersede_pass sts superseded
      in if card next = card superseded then next else supersede_loop sts next)"
  by pat_completeness auto
termination
proof (relation "measure (\<lambda>(sts, S). card (ms_step_id ` set sts - S))")
  fix sts :: "manager_step list" and S T
  assume "T = supersede_pass sts S" "card T \<noteq> card S"
  then have "S \<subset> T" "T \<subseteq> S \<union> ms_step_id ` set sts"
    using supersede_pass_grows [of S sts] supersede_pass_bound by auto
  then have "ms_step_id ` set sts - T \<subset> ms_step_id ` set sts - S" by blast
  then show "((sts, T), (sts, S)) \<in> measure (\<lambda>(sts, S). card (ms_step_id ` set sts - S))"
    by (simp add: psubset_card_mono)
qed simp

declare supersede_loop.simps [simp del]

fun append_steps :: "time \<Rightarrow> string set \<Rightarrow> manager_step_spec list \<Rightarrow> manager_step list \<Rightarrow> manager_step list result" where
  "append_steps now existing [] acc = Inr acc"
| "append_steps now existing (sp # sps) acc =
     rbind (first_err
       [step_spec_validate sp,
        reject (sp_step_id sp \<in> existing) (invalid ''replan step IDs must be new and unique'')])
     (\<lambda>_. append_steps now (insert (sp_step_id sp) existing) sps (acc @ [step_from_spec now sp]))"

definition supersede :: "time \<Rightarrow> string set \<Rightarrow> manager_step \<Rightarrow> manager_step" where
  "supersede now superseded st =
     (if ms_step_id st \<in> superseded then st\<lparr>ms_state := MS_Superseded, ms_updated_at := now\<rparr> else st)"

definition append_replan :: "string \<Rightarrow> manager_step_spec list \<Rightarrow> time \<Rightarrow> manager_plan \<Rightarrow> manager_plan result" where
  "append_replan reason steps now p =
     rbind (first_err
       [manager_validate_text reason ''replan reason'',
        reject (mp_state p \<noteq> MP_NeedsReplan) (conflict ''manager plan does not currently require re-planning''),
        reject (mp_replan_count p \<ge> mp_max_replans p) (conflict ''manager plan has reached max_replans''),
        reject (steps = [] \<or> length (mp_steps p) + length steps > MAX_MANAGER_STEPS)
          (invalid ''replan would exceed the manager step bound'')])
     (\<lambda>_. let superseded = supersede_loop (mp_steps p) (failed_steps (mp_steps p));
              kept = map (supersede now superseded) (mp_steps p)
          in rbind (append_steps now (ms_step_id ` set (mp_steps p)) steps kept) (\<lambda>all.
             let q = plan_bump now (p\<lparr>mp_steps := all, mp_replan_count := mp_replan_count p + 1,
                       mp_state := MP_Active, mp_last_error := Some reason\<rparr>)
             in rbind (plan_validate q) (\<lambda>_. Inr q)))"

definition replace_failed_steps ::
  "string \<Rightarrow> string list \<Rightarrow> manager_step_spec list \<Rightarrow> time \<Rightarrow> manager_plan \<Rightarrow> manager_plan result" where
  "replace_failed_steps reason replaces steps now p =
     (let replace = set replaces;
          required = supersede_loop (mp_steps p) (failed_steps (mp_steps p))
      in rbind (first_err
        [reject (card replace \<noteq> length replaces) (invalid ''replaced manager step IDs must be unique''),
         reject (replace \<noteq> required)
           (invalid ''replacement must account for every failed step and blocked descendant''),
         reject (\<exists>i \<in> replace. i \<notin> ms_step_id ` set (mp_steps p))
           (invalid ''replacement references an unknown manager step''),
         reject (\<exists>i \<in> replace. i \<notin> required)
           (invalid ''replacement may only supersede failed steps and blocked descendants'')])
      (\<lambda>_. append_replan reason steps now p))"

subsection \<open>Advancing a plan\<close>

definition in_plan_lane :: "manager_plan \<Rightarrow> work_item \<Rightarrow> bool" where
  "in_plan_lane p i \<longleftrightarrow> wi_session_id i = mp_session_id p \<and> wi_workspace i = mp_workspace p"

definition by_work_id :: "manager_plan \<Rightarrow> work_item list \<Rightarrow> string \<Rightarrow> work_item option" where
  "by_work_id p items = map_of (rev (map (\<lambda>i. (wi_work_id i, i)) (filter (in_plan_lane p) items)))"

definition child_of_plan :: "manager_plan \<Rightarrow> work_item \<Rightarrow> bool" where
  "child_of_plan p i \<longleftrightarrow> in_plan_lane p i \<and> wi_parent_work_id i = Some (mp_root_work_id p)
     \<and> wi_kind i \<noteq> ''manager-decision'' \<and> wi_source_manager_plan_id i = Some (mp_plan_id p)"

fun recovered_by_step :: "(string \<times> string) list \<Rightarrow> work_item list \<Rightarrow> (string \<times> string) list result" where
  "recovered_by_step acc [] = Inr acc"
| "recovered_by_step acc (i # is) =
     (case wi_source_manager_step_id i of
        None \<Rightarrow> recovered_by_step acc is
      | Some s \<Rightarrow>
          if map_of acc s \<noteq> None then Inl (conflict ''manager plan has duplicate recovered Work for a step'')
          else recovered_by_step ((s, wi_work_id i) # acc) is)"

definition link_recovered :: "(string \<times> string) list \<Rightarrow> time \<Rightarrow> manager_step \<Rightarrow> manager_step" where
  "link_recovered recovered now st =
     (if ms_work_id st = None then
        case map_of recovered (ms_step_id st) of
          Some w \<Rightarrow> st\<lparr>ms_work_id := Some w, ms_updated_at := now\<rparr>
        | None \<Rightarrow> st
      else st)"

fun observed_state :: "work_state \<Rightarrow> manager_step_state" where
  "observed_state W_Succeeded = MS_Succeeded"
| "observed_state W_Failed = MS_Failed"
| "observed_state W_Cancelled = MS_Cancelled"
| "observed_state W_Queued = MS_Ready"
| "observed_state W_AwaitingInput = MS_AwaitingInput"
| "observed_state W_AwaitingApproval = MS_AwaitingReview"
| "observed_state W_Review = MS_AwaitingReview"
| "observed_state W_Blocked = MS_Blocked"
| "observed_state W_Leased = MS_InFlight"
| "observed_state W_Running = MS_InFlight"

definition failure_text :: "manager_step_state \<Rightarrow> work_item \<Rightarrow> string" where
  "failure_text next work =
     (case Option.bind (wi_result work) wr_failure of
        Some e \<Rightarrow> e
      | None \<Rightarrow> if next = MS_Cancelled then ''step Work was cancelled'' else ''step Work failed'')"

definition observe_step :: "time \<Rightarrow> work_item \<Rightarrow> manager_step \<Rightarrow> manager_step \<times> string option" where
  "observe_step now work st =
     (let next = observed_state (wi_state work);
          moved = (if ms_state st \<noteq> next then st\<lparr>ms_state := next, ms_updated_at := now\<rparr> else st)
      in if next \<in> {MS_Failed, MS_Cancelled} \<and> ms_last_error moved = None
         then (moved\<lparr>ms_last_error := Some (failure_text next work)\<rparr>, Some (failure_text next work))
         else (moved, None))"

text \<open>The failure kept is that of the last step that failed in this pass.\<close>

fun observe_steps ::
  "(string \<Rightarrow> work_item option) \<Rightarrow> time \<Rightarrow> string option \<Rightarrow> manager_step list \<Rightarrow> (manager_step list \<times> string option) result" where
  "observe_steps work now failed [] = Inr ([], failed)"
| "observe_steps work now failed (st # sts) =
     (if ms_state st = MS_Superseded \<or> ms_work_id st = None then
        rbind (observe_steps work now failed sts) (\<lambda>(rest, f). Inr (st # rest, f))
      else case work (the (ms_work_id st)) of
        None \<Rightarrow> Inl (conflict ''manager step references missing Work'')
      | Some w \<Rightarrow>
          let (st', f') = observe_step now w st in
          rbind (observe_steps work now (case f' of Some e \<Rightarrow> Some e | None \<Rightarrow> failed) sts)
            (\<lambda>(rest, f). Inr (st' # rest, f)))"

definition step_active :: "manager_step \<Rightarrow> bool" where
  "step_active st \<longleftrightarrow> ms_state st \<in> {MS_Ready, MS_InFlight, MS_AwaitingInput, MS_AwaitingReview}"

definition step_ready :: "manager_step list \<Rightarrow> manager_step \<Rightarrow> bool" where
  "step_ready sts st \<longleftrightarrow> (\<forall>d \<in> set (ms_dependencies st).
     map_of (map (\<lambda>s. (ms_step_id s, ms_state s)) sts) d = Some MS_Succeeded
     \<and> Option.bind (map_of (map (\<lambda>s. (ms_step_id s, ms_work_id s)) sts) d) (\<lambda>w. w) \<noteq> None)"

definition step_work_dependencies :: "manager_step list \<Rightarrow> manager_step \<Rightarrow> work_dependency list" where
  "step_work_dependencies sts st =
     List.map_filter (\<lambda>d. map_option (\<lambda>w. \<lparr>dep_work_id = w, dep_required_state = W_Succeeded\<rparr>)
       (Option.bind (map_of (map (\<lambda>s. (ms_step_id s, ms_work_id s)) sts) d) (\<lambda>w. w))) (ms_dependencies st)"

definition step_work :: "manager_plan \<Rightarrow> manager_step list \<Rightarrow> string \<Rightarrow> string \<Rightarrow> time \<Rightarrow> manager_step \<Rightarrow> work_item result" where
  "step_work p observed fresh_id actor_id now st =
     rbind (item_new_at fresh_id (ms_kind st) (ms_objective st) (mp_session_id p) (mp_workspace p)
              actor_id (ms_policy st) now) (\<lambda>new.
     let linked = new\<lparr>wi_priority := ms_priority st, wi_parent_work_id := Some (mp_root_work_id p),
           wi_dependencies := step_work_dependencies observed st,
           wi_source_manager_plan_id := Some (mp_plan_id p),
           wi_source_manager_step_id := Some (ms_step_id st)\<rparr>;
         work = (case ms_assigned_agent_id st of
             Some a \<Rightarrow> linked\<lparr>wi_assigned_agent_id := Some a, wi_assignment_status := Accepted\<rparr>
           | None \<Rightarrow> linked)
     in rbind (item_validate work) (\<lambda>_. Inr work))"

text \<open>Steps with the work created for them, in plan order, while there is room.\<close>

fun materialize ::
  "host \<Rightarrow> manager_plan \<Rightarrow> manager_step list \<Rightarrow> string \<Rightarrow> time \<Rightarrow> nat \<Rightarrow> manager_step list
     \<Rightarrow> (manager_step list \<times> work_item list) ledger_op" where
  "materialize h p observed actor_id now capacity [] = ret ([], [])"
| "materialize h p observed actor_id now capacity (st # sts) =
     (if capacity = 0 \<or> ms_state st \<noteq> MS_Pending \<or> \<not> step_ready observed st then
        bindE (materialize h p observed actor_id now capacity sts) (\<lambda>(rest, created). ret (st # rest, created))
      else
        bindE (uuid_op h) (\<lambda>fresh_id.
        bindE (lift (step_work p observed fresh_id actor_id now st)) (\<lambda>work.
        bindE (materialize h p observed actor_id now (capacity - 1) sts) (\<lambda>(rest, created).
          ret (st\<lparr>ms_work_id := Some (wi_work_id work), ms_state := MS_Ready, ms_updated_at := now\<rparr> # rest,
               work # created)))))"

definition settle_plan :: "manager_step list \<Rightarrow> string option \<Rightarrow> manager_plan \<Rightarrow> manager_plan" where
  "settle_plan steps failed p =
     (case failed of
        Some e \<Rightarrow> p\<lparr>mp_steps := steps, mp_state := MP_NeedsReplan, mp_last_error := Some e\<rparr>
      | None \<Rightarrow>
          if \<forall>st \<in> set steps. step_settled st
          then p\<lparr>mp_steps := steps, mp_state := MP_Succeeded, mp_last_error := None\<rparr>
          else p\<lparr>mp_steps := steps\<rparr>)"

definition finish_advance :: "time \<Rightarrow> bool \<Rightarrow> manager_plan \<Rightarrow> manager_plan result" where
  "finish_advance now changed p =
     (if changed then rbind (plan_validate (plan_bump now p)) (\<lambda>_. Inr (plan_bump now p)) else Inr p)"

text \<open>
  The flag \<open>changed\<close> of the code is set where a step gets its work id, moves to another state, or the plan
  settles. A plan that stays active is changed exactly when its steps are.
\<close>

definition advance :: "host \<Rightarrow> work_item list \<Rightarrow> string \<Rightarrow> time \<Rightarrow> manager_plan \<Rightarrow> (manager_plan \<times> work_item list) ledger_op" where
  "advance h work_items actor_id now p =
     thenE (check (mp_state p \<noteq> MP_Active) (conflict ''only an active manager plan can advance''))
     (thenE (lift (manager_validate_text actor_id ''actor_id''))
     (bindE (lift (recovered_by_step [] (filter (child_of_plan p) work_items))) (\<lambda>recovered.
      let linked = map (link_recovered recovered now) (mp_steps p) in
      bindE (lift (observe_steps (by_work_id p work_items) now None linked)) (\<lambda>(observed, failed).
      let q = settle_plan observed failed p in
      if mp_state q \<noteq> MP_Active then
        bindE (lift (finish_advance now True q)) (\<lambda>r. ret (r, []))
      else
        bindE (materialize h q observed actor_id now
                 (mp_max_in_flight q - length (filter step_active observed)) observed) (\<lambda>(steps, created).
        bindE (lift (finish_advance now (steps \<noteq> mp_steps p) (q\<lparr>mp_steps := steps\<rparr>))) (\<lambda>r. ret (r, created)))))))"

subsection \<open>Notifications\<close>

fun work_state_label :: "work_state \<Rightarrow> string" where
  "work_state_label W_Queued = ''queued''"
| "work_state_label W_Leased = ''leased''"
| "work_state_label W_Running = ''running''"
| "work_state_label W_AwaitingInput = ''awaiting_input''"
| "work_state_label W_AwaitingApproval = ''awaiting_approval''"
| "work_state_label W_Review = ''review''"
| "work_state_label W_Succeeded = ''succeeded''"
| "work_state_label W_Failed = ''failed''"
| "work_state_label W_Cancelled = ''cancelled''"
| "work_state_label W_Blocked = ''blocked''"

fun notification_kind :: "work_state \<Rightarrow> message_kind option" where
  "notification_kind W_AwaitingInput = Some MK_Question"
| "notification_kind W_AwaitingApproval = Some MK_ReviewRequest"
| "notification_kind W_Review = Some MK_ReviewRequest"
| "notification_kind W_Succeeded = Some MK_Status"
| "notification_kind W_Failed = Some MK_Status"
| "notification_kind W_Cancelled = Some MK_Status"
| "notification_kind W_Blocked = Some MK_Status"
| "notification_kind _ = None"

definition notification_body :: "message_kind \<Rightarrow> string \<Rightarrow> work_item \<Rightarrow> string option" where
  "notification_body kind step_id work =
     (let detail = (case Option.bind (wi_result work) wr_failure of Some f \<Rightarrow> Some f | None \<Rightarrow> wi_blocked_reason work)
      in case kind of
           MK_Question \<Rightarrow> Some (''Manager step '' @ step_id @ '' is awaiting input for Work '' @ wi_work_id work @ '': ''
             @ (case detail of Some d \<Rightarrow> d | None \<Rightarrow> ''the native worker needs a decision''))
         | MK_ReviewRequest \<Rightarrow>
             Some (''Manager step '' @ step_id @ '' is awaiting review for Work '' @ wi_work_id work)
         | MK_Status \<Rightarrow> Some (''Manager step '' @ step_id @ '' observed Work '' @ wi_work_id work @ '' in state ''
             @ work_state_label (wi_state work) @ (case detail of Some d \<Rightarrow> '': '' @ d | None \<Rightarrow> []))
         | _ \<Rightarrow> None)"

definition step_notification :: "manager_plan \<Rightarrow> work_item list \<Rightarrow> manager_step \<Rightarrow> manager_notification option" where
  "step_notification p work_items st =
     Option.bind (ms_work_id st) (\<lambda>w.
     Option.bind (by_work_id p work_items w) (\<lambda>work.
     if ms_last_notification_work_revision st = Some (wi_revision work) then None
     else Option.bind (notification_kind (wi_state work)) (\<lambda>kind.
       map_option (\<lambda>body.
         \<lparr>mn_step_id = ms_step_id st, mn_work_id = wi_work_id work, mn_work_revision = wi_revision work,
          mn_kind = kind, mn_body = body,
          mn_payload = J_Object [(''managerPlanId'', J_String (mp_plan_id p)), (''stepId'', J_String (ms_step_id st)),
            (''workId'', J_String (wi_work_id work)), (''workRevision'', J_Int (uint (wi_revision work))),
            (''workState'', J_String (work_state_label (wi_state work))),
            (''requiresManagerAction'', J_Bool (kind \<in> {MK_Question, MK_ReviewRequest}))]\<rparr>)
         (notification_body kind (ms_step_id st) work))))"

definition pending_notifications :: "manager_plan \<Rightarrow> work_item list \<Rightarrow> manager_notification list" where
  "pending_notifications p work_items = List.map_filter (step_notification p work_items) (mp_steps p)"

text \<open>\<open>iter_mut().find\<close>: the first step with the id is changed.\<close>

fun update_step :: "string \<Rightarrow> (manager_step \<Rightarrow> manager_step) \<Rightarrow> manager_step list \<Rightarrow> manager_step list" where
  "update_step i f [] = []"
| "update_step i f (st # sts) = (if ms_step_id st = i then f st # sts else st # update_step i f sts)"

fun mark_delivered :: "time \<Rightarrow> (string \<times> u64 \<times> string) list \<Rightarrow> manager_step list \<Rightarrow> bool \<Rightarrow> (manager_step list \<times> bool) result" where
  "mark_delivered now [] sts changed = Inr (sts, changed)"
| "mark_delivered now ((step_id, work_revision, message_id) # rest) sts changed =
     rbind (first_err
       [manager_validate_id step_id ''notification.step_id'',
        manager_validate_id message_id ''notification.message_id'',
        reject (work_revision = 0) (invalid ''notification.work_revision must be positive'')])
     (\<lambda>_. case find (\<lambda>st. ms_step_id st = step_id) sts of
            None \<Rightarrow> Inl (invalid ''notification references an unknown manager step'')
          | Some st \<Rightarrow>
              if ms_last_notification_work_revision st = Some work_revision then
                if ms_last_notification_message_id st \<noteq> Some message_id
                then Inl (conflict ''manager notification revision is already fenced by another message'')
                else mark_delivered now rest sts changed
              else mark_delivered now rest
                (update_step step_id (\<lambda>st. st\<lparr>ms_last_notification_work_revision := Some work_revision,
                   ms_last_notification_message_id := Some message_id, ms_updated_at := now\<rparr>) sts) True)"

definition mark_notifications_sent :: "(string \<times> u64 \<times> string) list \<Rightarrow> time \<Rightarrow> manager_plan \<Rightarrow> manager_plan result" where
  "mark_notifications_sent delivered now p =
     rbind (mark_delivered now delivered (mp_steps p) False) (\<lambda>(sts, changed).
       finish_advance now changed (p\<lparr>mp_steps := sts\<rparr>))"

subsection \<open>Decisions of a manager\<close>

datatype manager_directive =
    AppendReplacementSteps string "string list" "manager_step_spec list"
  | RequestOperatorIntervention string
  | NoSafeAction string

record manager_directive_envelope =
  de_schema_version :: nat
  de_occurrence_id :: string
  de_plan_id :: string
  de_expected_plan_revision :: u64
  de_manager_agent_id :: string
  de_expected_agent_spec_revision :: u64
  de_input_snapshot_hash :: string
  de_directive :: manager_directive

text \<open>
  \<open>serde_json\<close> on directives: reading one value and the text after it, the check that nothing but
  space follows, the derived decoder of the envelope, and printing it.
\<close>

record directive_codec =
  dc_value :: "string \<Rightarrow> string + json \<times> string"
  dc_end :: "string \<Rightarrow> string + unit"
  dc_envelope :: "json \<Rightarrow> string + manager_directive_envelope"
  dc_print :: "manager_directive_envelope \<Rightarrow> string + string"

fun as_object :: "json \<Rightarrow> (string \<times> json) list option" where
  "as_object (J_Object entries) = Some entries"
| "as_object _ = None"

definition some_or_err :: "'e \<Rightarrow> 'a option \<Rightarrow> 'e + 'a" where
  "some_or_err e v = (case v of None \<Rightarrow> Inl e | Some x \<Rightarrow> Inr x)"

definition only_fields :: "(string \<times> json) list \<Rightarrow> string list \<Rightarrow> string \<Rightarrow> unit result" where
  "only_fields entries allowed at =
     (case find (\<lambda>k. k \<notin> set allowed) (map fst entries) of
        Some k \<Rightarrow> Inl (invalid (''unknown manager directive field `'' @ at @ ''.'' @ k @ ''`''))
      | None \<Rightarrow> Inr ())"

definition object_fields :: "json option \<Rightarrow> string \<Rightarrow> string list \<Rightarrow> string \<Rightarrow> unit result" where
  "object_fields v message allowed at =
     on_some v (\<lambda>v. rbind (some_or_err (invalid message) (as_object v)) (\<lambda>es. only_fields es allowed at))"

definition policy_shape :: "json option \<Rightarrow> string \<Rightarrow> unit result" where
  "policy_shape v at =
     on_some v (\<lambda>v. rbind (some_or_err (invalid ''replacement policy must be an object'') (as_object v)) (\<lambda>policy.
       first_err
         [only_fields policy [''bounds'', ''retry'', ''requiresApproval'', ''maxConcurrentAttempts'',
            ''managedExecution'', ''allowedFiles''] (at @ ''.policy''),
          object_fields (map_of policy ''bounds'') ''replacement bounds must be an object''
            [''maxPromptBytes'', ''maxRounds'', ''maxDurationMs'', ''maxTotalTokens''] (at @ ''.policy.bounds''),
          object_fields (map_of policy ''retry'') ''replacement retry policy must be an object''
            [''maxAttempts'', ''retryFailed'', ''retryExpired'', ''backoffMs''] (at @ ''.policy.retry'')]))"

fun steps_shape :: "nat \<Rightarrow> json list \<Rightarrow> unit result" where
  "steps_shape index [] = Inr ()"
| "steps_shape index (v # vs) =
     (let at = ''directive.steps['' @ decimal index @ '']'' in
      rbind (some_or_err (invalid ''replacement step must be an object'') (as_object v)) (\<lambda>step.
      rbind (first_err
        [only_fields step [''stepId'', ''kind'', ''objective'', ''priority'', ''dependencies'',
           ''assignedAgentId'', ''policy''] at,
         policy_shape (map_of step ''policy'') at])
      (\<lambda>_. steps_shape (Suc index) vs)))"

definition validate_directive_json_shape :: "json \<Rightarrow> unit result" where
  "validate_directive_json_shape v =
     rbind (some_or_err (invalid ''manager directive must be an object'') (as_object v)) (\<lambda>root.
     rbind (only_fields root [''schemaVersion'', ''occurrenceId'', ''planId'', ''expectedPlanRevision'',
       ''managerAgentId'', ''expectedAgentSpecRevision'', ''inputSnapshotHash'', ''directive''] ''$'') (\<lambda>_.
     rbind (some_or_err (invalid ''manager directive payload must be an object'')
       (Option.bind (map_of root ''directive'') as_object)) (\<lambda>directive.
     if map_of directive ''type'' \<noteq> Some (J_String ''append_replacement_steps'') then Inr ()
     else rbind (only_fields directive [''type'', ''reason'', ''replacesStepIds'', ''steps''] ''directive'') (\<lambda>_.
       case map_of directive ''steps'' of
         Some (J_Array steps) \<Rightarrow> steps_shape 0 steps
       | _ \<Rightarrow> Inl (invalid ''replacement steps must be an array'')))))"

fun directive_validate :: "manager_directive \<Rightarrow> unit result" where
  "directive_validate (AppendReplacementSteps reason replaces steps) =
     first_err ([manager_validate_text reason ''directive reason'',
       reject (replaces = [] \<or> length replaces > MAX_MANAGER_STEPS)
         (invalid ''replacement directive must name bounded replaced steps'')]
       @ map (\<lambda>i. manager_validate_id i ''replaces_step_id'') replaces
       @ [reject (steps = [] \<or> length steps > MAX_MANAGER_STEPS)
           (invalid ''replacement directive contains an invalid step count'')]
       @ map step_spec_validate steps)"
| "directive_validate (RequestOperatorIntervention reason) = manager_validate_text reason ''directive reason''"
| "directive_validate (NoSafeAction reason) = manager_validate_text reason ''directive reason''"

definition map_left :: "('e \<Rightarrow> 'f) \<Rightarrow> 'e + 'a \<Rightarrow> 'f + 'a" where
  "map_left f r = (case r of Inl e \<Rightarrow> Inl (f e) | Inr x \<Rightarrow> Inr x)"

definition parse_manager_directive :: "directive_codec \<Rightarrow> string \<Rightarrow> manager_directive_envelope result" where
  "parse_manager_directive codec raw =
     rbind (reject (raw = [] \<or> length raw > MAX_MANAGER_DIRECTIVE_BYTES)
       (invalid ''manager directive is empty or exceeds its bound'')) (\<lambda>_.
     rbind (map_left (\<lambda>e. invalid (''invalid manager directive: '' @ e)) (dc_value codec raw)) (\<lambda>(v, rest).
     rbind (map_left (\<lambda>e. invalid (''invalid trailing manager output: '' @ e)) (dc_end codec rest)) (\<lambda>_.
     rbind (validate_directive_json_shape v) (\<lambda>_.
     rbind (map_left (\<lambda>e. invalid (''invalid manager directive: '' @ e)) (dc_envelope codec v)) (\<lambda>envelope.
     rbind (first_err
       [reject (de_schema_version envelope \<noteq> MANAGER_SCHEMA_VERSION \<or> de_expected_plan_revision envelope = 0)
          (invalid ''manager directive schema or revision is invalid''),
        manager_validate_id (de_occurrence_id envelope) ''occurrence_id'',
        manager_validate_id (de_plan_id envelope) ''plan_id'',
        manager_validate_id (de_manager_agent_id envelope) ''manager_agent_id'',
        manager_validate_id (de_input_snapshot_hash envelope) ''input_snapshot_hash'',
        directive_validate (de_directive envelope)]) (\<lambda>_.
     Inr envelope))))))"

record manager_decision_record =
  dr_schema_version :: nat
  dr_decision_id :: string
  dr_plan_id :: string
  dr_expected_plan_revision :: u64
  dr_manager_agent_id :: string
  dr_agent_spec_revision :: u64
  dr_triggering_work_ids :: "string list"
  dr_triggering_message_ids :: "string list"
  dr_input_snapshot_hash :: string
  dr_decision_work_id :: string
  dr_run_id :: "string option"
  dr_state :: manager_decision_state
  dr_proposed_directive :: "manager_directive_envelope option"
  dr_outcome :: "string option"
  dr_applied_mutation_ids :: "string list"
  dr_created_at :: time
  dr_updated_at :: time

definition decision_record_validate :: "directive_codec \<Rightarrow> manager_decision_record \<Rightarrow> unit result" where
  "decision_record_validate codec d = first_err
     ([reject (dr_schema_version d \<noteq> MANAGER_SCHEMA_VERSION \<or> dr_expected_plan_revision d = 0
               \<or> dr_agent_spec_revision d = 0)
         (invalid ''manager decision schema or revision is invalid''),
       reject (length (dr_triggering_work_ids d) > MAX_MANAGER_STEPS
               \<or> length (dr_triggering_message_ids d) > MAX_MANAGER_STEPS
               \<or> length (dr_applied_mutation_ids d) > MAX_MANAGER_STEPS)
         (invalid ''manager decision references exceed their bounds''),
       manager_validate_id (dr_decision_id d) ''decision_id'',
       manager_validate_id (dr_plan_id d) ''plan_id'',
       manager_validate_id (dr_manager_agent_id d) ''manager_agent_id'',
       manager_validate_id (dr_input_snapshot_hash d) ''input_snapshot_hash'',
       manager_validate_id (dr_decision_work_id d) ''decision_work_id'']
      @ map (\<lambda>i. manager_validate_id i ''manager decision reference'')
          (dr_triggering_work_ids d @ dr_triggering_message_ids d @ dr_applied_mutation_ids d)
      @ [on_some (dr_outcome d) (\<lambda>t. manager_validate_text t ''manager decision outcome''),
         on_some (dr_proposed_directive d) (\<lambda>env.
           rbind (map_left (\<lambda>e. invalid (''invalid stored directive: '' @ e)) (dc_print codec env)) (\<lambda>raw.
           rbind (parse_manager_directive codec raw) (\<lambda>_. Inr ())))])"

subsection \<open>What a manager is shown\<close>

definition is_char_boundary :: "string \<Rightarrow> nat \<Rightarrow> bool" where
  "is_char_boundary s i \<longleftrightarrow> i = 0 \<or> i = length s
     \<or> i < length s \<and> \<not> (128 \<le> (of_char (s ! i) :: nat) \<and> of_char (s ! i) < (192 :: nat))"

fun floor_char_boundary :: "string \<Rightarrow> nat \<Rightarrow> nat" where
  "floor_char_boundary s 0 = 0"
| "floor_char_boundary s (Suc n) = (if is_char_boundary s (Suc n) then Suc n else floor_char_boundary s n)"

definition truncate_manager_text :: "string \<Rightarrow> nat \<Rightarrow> string" where
  "truncate_manager_text s max_bytes =
     (if length s \<le> max_bytes then s else take (floor_char_boundary s max_bytes) s)"

fun fill_selected :: "manager_step list \<Rightarrow> string set \<Rightarrow> string set" where
  "fill_selected [] selected = selected"
| "fill_selected (st # sts) selected =
     (if card selected = 8 then selected else fill_selected sts (insert (ms_step_id st) selected))"

definition selected_steps :: "manager_plan \<Rightarrow> string set" where
  "selected_steps p =
     fill_selected (rev (mp_steps p)) (set (take 8 (map ms_step_id (filter step_failed (mp_steps p)))))"

definition step_outcome :: "work_item list \<Rightarrow> manager_step \<Rightarrow> json option" where
  "step_outcome work_items st =
     map_option (\<lambda>work.
       J_Object [(''stepId'', J_String (ms_step_id st)), (''workId'', J_String (wi_work_id work)),
         (''workRevision'', J_Int (uint (wi_revision work))), (''state'', J_String (work_state_label (wi_state work))),
         (''summary'', case wi_result work of None \<Rightarrow> J_Null
            | Some r \<Rightarrow> J_String (truncate_manager_text (wr_summary r) 512)),
         (''failure'', case Option.bind (wi_result work) wr_failure of None \<Rightarrow> J_Null
            | Some f \<Rightarrow> J_String (truncate_manager_text f 512))])
       (Option.bind (ms_work_id st) (\<lambda>w. find (\<lambda>i. wi_work_id i = w) work_items))"

definition manager_decision_snapshot :: "manager_plan \<Rightarrow> work_item list \<Rightarrow> json" where
  "manager_decision_snapshot p work_items =
     J_Object [(''planId'', J_String (mp_plan_id p)), (''planRevision'', J_Int (uint (mp_revision p))),
       (''objective'', J_String (truncate_manager_text (mp_objective p) 4096)),
       (''managerAgentId'', J_String (mp_manager_agent_id p)),
       (''outcomes'', J_Array (List.map_filter (step_outcome work_items)
          (filter (\<lambda>st. ms_step_id st \<in> selected_steps p) (mp_steps p))))]"

definition manager_decision_id :: "(json \<Rightarrow> string) \<Rightarrow> manager_plan \<Rightarrow> json \<Rightarrow> string" where
  "manager_decision_id hash p snapshot =
     ''manager-decision-'' @ take 32 (hash (J_Object [(''planId'', J_String (mp_plan_id p)),
       (''revision'', J_Int (uint (mp_revision p))), (''snapshot'', snapshot)]))"

end
