(* ===== verification/Manager_Graph.thy ===== *)
theory Manager_Graph
  imports Manager_Plans
begin

section \<open>The step graph of a plan\<close>

text \<open>
  The depth-first search accepts exactly the acyclic graphs, so a plan validates exactly when its
  fields do, its ids are distinct, its dependencies known and its steps acyclic. The loop that
  collects the steps a replan replaces ends, with the failed steps and all that wait for them.
\<close>

definition needs :: "(string \<times> string list) list \<Rightarrow> (string \<times> string) set" where
  "needs deps = {(i, d). \<exists>ds. map_of deps i = Some ds \<and> d \<in> set ds}"

abbreviation grounded :: "(string \<times> string list) list \<Rightarrow> string set" where
  "grounded deps \<equiv> Wellfounded.acc ((needs deps)\<inverse>)"

lemma groundedI: "(\<And>d. (i, d) \<in> needs deps \<Longrightarrow> d \<in> grounded deps) \<Longrightarrow> i \<in> grounded deps"
  by (auto intro: acc.accI)

subsection \<open>The search\<close>

declare assert_acyclic.simps [simp del]

lemma assert_acyclic_cases:
  "i \<in> visited \<Longrightarrow> assert_acyclic deps visiting visited i = Inr visited"
  "i \<notin> visited \<Longrightarrow> i \<in> visiting \<Longrightarrow> assert_acyclic deps visiting visited i \<noteq> Inr v"
  "i \<notin> visited \<Longrightarrow> i \<notin> visiting \<Longrightarrow> map_of deps i = None
     \<Longrightarrow> assert_acyclic deps visiting visited i = Inr (insert i visited)"
  "i \<notin> visited \<Longrightarrow> i \<notin> visiting \<Longrightarrow> map_of deps i = Some ds \<Longrightarrow> assert_acyclic deps visiting visited i
     = rbind (assert_all_acyclic deps (insert i visiting) visited ds) (\<lambda>v. Inr (insert i v))"
  by (simp_all add: assert_acyclic.simps)

lemma search_sound:
  "assert_acyclic deps visiting visited i = Inr v \<Longrightarrow> visited \<subseteq> grounded deps
     \<Longrightarrow> visited \<subseteq> v \<and> i \<in> v \<and> v \<subseteq> grounded deps"
  "assert_all_acyclic deps visiting visited ds = Inr v \<Longrightarrow> visited \<subseteq> grounded deps
     \<Longrightarrow> visited \<subseteq> v \<and> set ds \<subseteq> v \<and> v \<subseteq> grounded deps"
proof (induction deps visiting visited i and deps visiting visited ds arbitrary: v and v
    rule: assert_acyclic_assert_all_acyclic.induct)
  case (1 deps visiting visited i)
  show ?case
  proof (cases "i \<in> visited")
    case False
    then have fresh: "i \<notin> visiting" using 1(2) assert_acyclic_cases(2) by blast
    show ?thesis
    proof (cases "map_of deps i")
      case None
      then have "i \<in> grounded deps" by - (rule groundedI, simp add: needs_def)
      moreover have "v = insert i visited" using 1(2) unfolding assert_acyclic_cases(3) [OF False fresh None] by simp
      ultimately show ?thesis using 1(3) by (simp add: subset_insertI)
    next
      case (Some ds)
      then obtain w where w: "assert_all_acyclic deps (insert i visiting) visited ds = Inr w" "v = insert i w"
        using 1(2) unfolding assert_acyclic_cases(4) [OF False fresh Some] rbind_ok by blast
      have ih: "visited \<subseteq> w \<and> set ds \<subseteq> w \<and> w \<subseteq> grounded deps"
        by (rule 1(1) [OF False fresh Some w(1) 1(3)])
      then have "i \<in> grounded deps" using Some by - (rule groundedI, auto simp: needs_def)
      then show ?thesis using ih w(2) by auto
    qed
  qed (use 1 assert_acyclic_cases(1) in auto)
next
  case (3 deps visiting visited d ds)
  then obtain w where w: "assert_acyclic deps visiting visited d = Inr w"
    "assert_all_acyclic deps visiting w ds = Inr v" by (auto simp: rbind_ok)
  have a: "visited \<subseteq> w \<and> d \<in> w \<and> w \<subseteq> grounded deps" by (rule 3(1) [OF w(1) 3(4)])
  then have "w \<subseteq> v \<and> set ds \<subseteq> v \<and> v \<subseteq> grounded deps" using 3(2) w by blast
  then show ?case using a by auto
qed auto

lemma search_complete:
  "acyclic (needs deps) \<Longrightarrow> (\<And>x. x \<in> visiting \<Longrightarrow> (x, i) \<in> (needs deps)\<^sup>+)
     \<Longrightarrow> \<exists>v. assert_acyclic deps visiting visited i = Inr v"
  "acyclic (needs deps) \<Longrightarrow> (\<And>x d. x \<in> visiting \<Longrightarrow> d \<in> set ds \<Longrightarrow> (x, d) \<in> (needs deps)\<^sup>+)
     \<Longrightarrow> \<exists>v. assert_all_acyclic deps visiting visited ds = Inr v"
proof (induction deps visiting visited i and deps visiting visited ds
    rule: assert_acyclic_assert_all_acyclic.induct)
  case (1 deps visiting visited i)
  have off: "i \<notin> visiting" using 1(2,3) by (auto simp: acyclic_def)
  show ?case
  proof (cases "i \<in> visited \<or> map_of deps i = None")
    case False
    then obtain ds where ds: "i \<notin> visited" "map_of deps i = Some ds" by auto
    have "(x, d) \<in> (needs deps)\<^sup>+" if "x \<in> insert i visiting" "d \<in> set ds" for x d
    proof -
      have "(i, d) \<in> needs deps" using ds that by (auto simp: needs_def)
      then show ?thesis using that 1(3) by (cases "x = i") (auto intro: trancl_into_trancl)
    qed
    then have "\<exists>v. assert_all_acyclic deps (insert i visiting) visited ds = Inr v"
      using 1(1) [OF ds(1) off ds(2) 1(2)] by blast
    then show ?thesis unfolding assert_acyclic_cases(4) [OF ds(1) off ds(2)] by (auto simp: rbind_def)
  next
    case True
    then show ?thesis by (cases "i \<in> visited") (simp_all add: assert_acyclic_cases(1) assert_acyclic_cases(3) off)
  qed
next
  case (3 deps visiting visited d ds)
  then obtain w where w: "assert_acyclic deps visiting visited d = Inr w" by fastforce
  then have "\<exists>v. assert_all_acyclic deps visiting w ds = Inr v" using 3 by fastforce
  then show ?case using w by (auto simp: rbind_def)
qed auto

lemma steps_acyclic_search:
  "steps_acyclic deps sts = Inr () \<longleftrightarrow> (\<forall>st \<in> set sts. \<exists>v. assert_acyclic deps {} {} (ms_step_id st) = Inr v)"
  by (induction sts) (auto simp: rbind_ok)

lemma grounded_acyclic: "fst ` needs deps \<subseteq> grounded deps \<Longrightarrow> acyclic (needs deps)"
proof -
  assume a: "fst ` needs deps \<subseteq> grounded deps"
  have "i \<in> grounded deps" for i
  proof (rule groundedI)
    fix d assume "(i, d) \<in> needs deps"
    then show "d \<in> grounded deps" using a acc_downward [of i "(needs deps)\<inverse>" d] by force
  qed
  then have "wf ((needs deps)\<inverse>)" by (rule acc_wfI [rule_format])
  then show ?thesis using wf_acyclic acyclic_converse by blast
qed

definition step_needs :: "manager_step list \<Rightarrow> (string \<times> string) set" where
  "step_needs sts = {(ms_step_id st, d) | st d. st \<in> set sts \<and> d \<in> set (ms_dependencies st)}"

lemma needs_steps: "distinct (map ms_step_id sts) \<Longrightarrow> needs (step_dependencies sts) = step_needs sts"
proof -
  assume d: "distinct (map ms_step_id sts)"
  have "map_of (step_dependencies sts) i = Some ds \<longleftrightarrow> (\<exists>st \<in> set sts. ms_step_id st = i \<and> ms_dependencies st = ds)" for i ds
    using d unfolding step_dependencies_def by (subst map_of_eq_Some_iff) (auto simp: comp_def)
  then show ?thesis by (auto simp: needs_def step_needs_def)
qed

lemma steps_acyclic_iff:
  assumes "distinct (map ms_step_id sts)"
  shows "steps_acyclic (step_dependencies sts) sts = Inr () \<longleftrightarrow> acyclic (step_needs sts)"
proof -
  let ?deps = "step_dependencies sts"
  have "acyclic (needs ?deps)" if "steps_acyclic ?deps sts = Inr ()"
  proof (rule grounded_acyclic)
    have "ms_step_id st \<in> grounded ?deps" if "st \<in> set sts" for st
      using that \<open>steps_acyclic ?deps sts = Inr ()\<close> search_sound(1) [of ?deps "{}" "{}" "ms_step_id st"]
      by (auto simp: steps_acyclic_search)
    then show "fst ` needs ?deps \<subseteq> grounded ?deps"
      unfolding needs_steps [OF assms] by (auto simp: step_needs_def)
  qed
  moreover have "steps_acyclic ?deps sts = Inr ()" if "acyclic (needs ?deps)"
    using search_complete(1) [OF that, of "{}"] by (simp add: steps_acyclic_search)
  ultimately show ?thesis unfolding needs_steps [OF assms] by blast
qed

subsection \<open>Valid plans\<close>

lemmas check_ok = first_err_ok reject_ok on_some_ok rbind_ok

definition step_fields_ok :: "manager_step \<Rightarrow> bool" where
  "step_fields_ok st \<longleftrightarrow>
     step_spec_validate (step_as_spec st) = Inr ()
     \<and> \<not> (ms_state st = MS_Pending \<and> ms_work_id st \<noteq> None)
     \<and> is_none_or (ms_work_id st) (\<lambda>w. manager_validate_id w ''step.work_id'' = Inr ())
     \<and> is_none_or (ms_last_error st) (\<lambda>e. manager_validate_text e ''step.last_error'' = Inr ())
     \<and> ms_last_notification_work_revision st \<noteq> Some 0
     \<and> is_none_or (ms_last_notification_message_id st)
         (\<lambda>m. manager_validate_id m ''step.last_notification_message_id'' = Inr ())"

definition plan_fields_ok :: "manager_plan \<Rightarrow> bool" where
  "plan_fields_ok p \<longleftrightarrow>
     mp_schema_version p = MANAGER_SCHEMA_VERSION \<and> mp_revision p \<noteq> 0
     \<and> manager_validate_id (mp_plan_id p) ''plan_id'' = Inr ()
     \<and> manager_validate_id (mp_manager_agent_id p) ''manager_agent_id'' = Inr ()
     \<and> manager_validate_id (mp_root_work_id p) ''root_work_id'' = Inr ()
     \<and> manager_validate_text (mp_workspace p) ''workspace'' = Inr ()
     \<and> manager_validate_text (mp_objective p) ''objective'' = Inr ()
     \<and> 0 < mp_max_in_flight p \<and> mp_max_in_flight p \<le> MAX_MANAGER_IN_FLIGHT
     \<and> mp_replan_count p \<le> mp_max_replans p \<and> mp_max_replans p \<le> MAX_MANAGER_REPLANS
     \<and> mp_steps p \<noteq> [] \<and> length (mp_steps p) \<le> MAX_MANAGER_STEPS
     \<and> (\<forall>st \<in> set (mp_steps p). step_fields_ok st)"

lemma plan_steps_valid:
  "plan_steps_validate ids sts = Inr () \<longleftrightarrow>
     (\<forall>st \<in> set sts. step_fields_ok st) \<and> distinct (map ms_step_id sts) \<and> ids \<inter> ms_step_id ` set sts = {}"
  by (induction sts arbitrary: ids) (auto simp: check_ok step_fields_ok_def is_none_or_def split: option.splits)

text \<open>
  C22. A plan is accepted exactly when its fields are in their bounds, its step ids are distinct,
  every dependency names a step of the plan, and no step depends on itself through others.
\<close>

theorem plan_graph_exact:
  "plan_validate p = Inr () \<longleftrightarrow>
     plan_fields_ok p \<and> distinct (map ms_step_id (mp_steps p))
     \<and> snd ` step_needs (mp_steps p) \<subseteq> ms_step_id ` set (mp_steps p) \<and> acyclic (step_needs (mp_steps p))"
proof -
  let ?sts = "mp_steps p"
  have known: "\<not> (\<exists>st \<in> set ?sts. \<exists>d \<in> set (ms_dependencies st). d \<notin> ms_step_id ` set ?sts)
      \<longleftrightarrow> snd ` step_needs ?sts \<subseteq> ms_step_id ` set ?sts"
    by (force simp: step_needs_def)
  show ?thesis
    unfolding plan_validate_def check_ok list.set ball_simps known plan_steps_valid plan_fields_ok_def
    using steps_acyclic_iff [of ?sts] by auto
qed

subsection \<open>What a replan replaces\<close>

inductive doomed :: "manager_step list \<Rightarrow> string \<Rightarrow> bool" for sts where
  failed: "st \<in> set sts \<Longrightarrow> step_failed st \<Longrightarrow> doomed sts (ms_step_id st)"
| behind: "st \<in> set sts \<Longrightarrow> \<not> step_settled st \<Longrightarrow> d \<in> set (ms_dependencies st) \<Longrightarrow> doomed sts d
    \<Longrightarrow> doomed sts (ms_step_id st)"

lemma pass_Cons:
  "supersede_pass (st # sts) S = supersede_pass sts
     (if \<not> step_settled st \<and> (\<exists>d \<in> set (ms_dependencies st). d \<in> S) then insert (ms_step_id st) S else S)"
  by (simp add: supersede_pass_def)

lemma pass_append: "supersede_pass (xs @ ys) S = supersede_pass ys (supersede_pass xs S)"
  by (simp add: supersede_pass_def)

lemma finite_pass: "finite S \<Longrightarrow> finite (supersede_pass sts S)"
  by (rule finite_subset [OF supersede_pass_bound]) simp

lemma pass_doomed_part:
  "set xs \<subseteq> set sts \<Longrightarrow> (\<And>i. i \<in> S \<Longrightarrow> doomed sts i) \<Longrightarrow> i \<in> supersede_pass xs S \<Longrightarrow> doomed sts i"
proof (induction xs arbitrary: S)
  case Nil
  then show ?case by (simp add: supersede_pass_def)
next
  case (Cons st xs)
  let ?S = "if \<not> step_settled st \<and> (\<exists>d \<in> set (ms_dependencies st). d \<in> S) then insert (ms_step_id st) S else S"
  have "doomed sts j" if "j \<in> ?S" for j
    using that Cons.prems(1,2) doomed.behind [of st sts] by (auto split: if_splits)
  then show ?case using Cons.IH [of ?S] Cons.prems(1,3) by (simp add: pass_Cons)
qed

lemmas pass_doomed = pass_doomed_part [OF subset_refl]

lemma pass_includes:
  assumes "st \<in> set sts" "\<not> step_settled st" "d \<in> set (ms_dependencies st)" "d \<in> S"
  shows "ms_step_id st \<in> supersede_pass sts S"
proof -
  obtain xs ys where split: "sts = xs @ st # ys" using assms(1) split_list by metis
  let ?T = "supersede_pass xs S"
  have "d \<in> ?T" using supersede_pass_grows assms(4) by blast
  then have "supersede_pass sts S = supersede_pass ys (insert (ms_step_id st) ?T)"
    using assms(2,3) by (auto simp: split pass_append pass_Cons)
  then show ?thesis using supersede_pass_grows [of "insert (ms_step_id st) ?T" ys] by auto
qed

lemma loop_doomed:
  "finite S \<Longrightarrow> (\<And>i. i \<in> S \<Longrightarrow> doomed sts i) \<Longrightarrow> (\<And>st. st \<in> set sts \<Longrightarrow> step_failed st \<Longrightarrow> ms_step_id st \<in> S)
    \<Longrightarrow> supersede_loop sts S = {i. doomed sts i}"
proof (induction sts S rule: supersede_loop.induct)
  case (1 sts S)
  let ?T = "supersede_pass sts S"
  have fin: "finite ?T" by (rule finite_pass [OF 1(2)])
  have sub: "S \<subseteq> ?T" by (rule supersede_pass_grows)
  show ?case
  proof (cases "card ?T = card S")
    case True
    then have same: "?T = S" using card_subset_eq [OF fin sub] by simp
    have "i \<in> S" if "doomed sts i" for i
      using that 1(4) pass_includes [of _ sts _ S] same by (induction) auto
    then show ?thesis using same 1(3) True by (subst supersede_loop.simps) auto
  next
    case False
    have "supersede_loop sts ?T = {i. doomed sts i}"
      using False fin pass_doomed [of S sts] 1(3,4) sub by (intro 1(1)) auto
    then show ?thesis using False by (subst supersede_loop.simps) simp
  qed
qed

lemma supersede_exact: "supersede_loop sts (failed_steps sts) = {i. doomed sts i}"
  by (rule loop_doomed) (auto simp: failed_steps_def intro: doomed.failed)

lemma loop_passes:
  "finite S \<Longrightarrow> \<exists>n \<le> Suc (card (ms_step_id ` set sts - S)). supersede_loop sts S = (supersede_pass sts ^^ n) S"
proof (induction sts S rule: supersede_loop.induct)
  case (1 sts S)
  let ?T = "supersede_pass sts S" and ?ids = "ms_step_id ` set sts"
  have fin: "finite ?T" by (rule finite_pass [OF 1(2)])
  show ?case
  proof (cases "card ?T = card S")
    case True
    then have "supersede_loop sts S = (supersede_pass sts ^^ 1) S" by (subst supersede_loop.simps) simp
    then show ?thesis by (intro exI [of _ 1]) simp
  next
    case False
    then obtain n where n: "n \<le> Suc (card (?ids - ?T))" "supersede_loop sts ?T = (supersede_pass sts ^^ n) ?T"
      using 1(1) [OF refl False fin] by blast
    have "S \<subset> ?T" "?T \<subseteq> S \<union> ?ids" using False supersede_pass_grows [of S sts] supersede_pass_bound [of sts S] by auto
    then have "?ids - ?T \<subset> ?ids - S" by blast
    then have "card (?ids - ?T) < card (?ids - S)" by (intro psubset_card_mono) auto
    then have "Suc n \<le> Suc (card (?ids - S))" using n(1) by simp
    moreover have "supersede_loop sts S = (supersede_pass sts ^^ Suc n) S"
      using False n(2) by (subst supersede_loop.simps) (simp add: funpow_swap1)
    ultimately show ?thesis by blast
  qed
qed

text \<open>
  C23. The loop that collects the steps a replan replaces ends after at most one pass more than the
  plan has steps, at a set that another pass leaves as it is: the failed steps and every
  unsettled step that waits for one of them, directly or through others.
\<close>

theorem replan_loop_ends:
  "supersede_loop sts (failed_steps sts) = {i. doomed sts i}
   \<and> (\<exists>n \<le> Suc (length sts). supersede_loop sts (failed_steps sts) = (supersede_pass sts ^^ n) (failed_steps sts))
   \<and> supersede_pass sts {i. doomed sts i} = {i. doomed sts i}"
proof (intro conjI)
  have fin: "finite (failed_steps sts)" by (simp add: failed_steps_def)
  have "card (ms_step_id ` set sts - failed_steps sts) \<le> card (ms_step_id ` set sts)"
    by (intro card_mono) auto
  also have "\<dots> \<le> length sts" using card_image_le [of "set sts" ms_step_id] card_length [of sts] by simp
  finally have "Suc (card (ms_step_id ` set sts - failed_steps sts)) \<le> Suc (length sts)" by simp
  then show "\<exists>n \<le> Suc (length sts). supersede_loop sts (failed_steps sts) = (supersede_pass sts ^^ n) (failed_steps sts)"
    using loop_passes [OF fin, of sts] by (meson le_trans)
  show "supersede_pass sts {i. doomed sts i} = {i. doomed sts i}"
    using pass_doomed [of "{i. doomed sts i}" sts] supersede_pass_grows [of "{i. doomed sts i}" sts] by blast
qed (rule supersede_exact)

end
