(* ===== verification/Manager_Progress.thy ===== *)
theory Manager_Progress
  imports Manager_Graph Run_Rules
begin

section \<open>Progress of a plan\<close>

text \<open>
  What replanning and advancing do to a plan: which steps are replaced, which work is created and
  when, that a step never gets a second work item, and the invariant of every plan that the
  operations can reach from a new one.
\<close>

subsection \<open>Replanning\<close>

lemma append_steps_run: "append_steps now ex sps acc = Inr all \<Longrightarrow> all = acc @ map (step_from_spec now) sps"
proof (induction sps arbitrary: ex acc)
  case (Cons sp sps)
  then obtain ex' where "append_steps now ex' sps (acc @ [step_from_spec now sp]) = Inr all" by (auto simp: rbind_ok)
  then show ?case using Cons.IH [of ex' "acc @ [step_from_spec now sp]"] by simp
qed simp

lemma append_replan_run:
  assumes "append_replan reason steps now p = Inr q"
  shows "mp_state p = MP_NeedsReplan" "mp_replan_count p < mp_max_replans p" "plan_validate q = Inr ()"
    and "q = plan_bump now (p\<lparr>mp_steps := map (supersede now {i. doomed (mp_steps p) i}) (mp_steps p)
           @ map (step_from_spec now) steps, mp_replan_count := mp_replan_count p + 1,
           mp_state := MP_Active, mp_last_error := Some reason\<rparr>)"
  using assms by (auto simp: append_replan_def check_ok Let_def supersede_exact dest!: append_steps_run)

lemma replace_run:
  "replace_failed_steps reason rs steps now p = Inr q \<longleftrightarrow>
     distinct rs \<and> set rs = {i. doomed (mp_steps p) i} \<and> append_replan reason steps now p = Inr q"
proof -
  have "doomed (mp_steps p) i \<Longrightarrow> i \<in> ms_step_id ` set (mp_steps p)" for i
    by (auto elim: doomed.cases)
  then show ?thesis
    by (auto simp: replace_failed_steps_def Let_def check_ok supersede_exact card_distinct distinct_card)
qed

text \<open>
  C21. A replan of a plan that needs one marks as superseded exactly the failed steps and the
  unsettled steps waiting for them, keeps every other step as it is, appends the new steps as
  pending, and makes the plan active and valid again, within the number of replans. Named replacement
  does the same, exactly when the caller names all these steps once.
\<close>

theorem replan_exact:
  assumes "append_replan reason steps now p = Inr q"
  shows "mp_state p = MP_NeedsReplan \<and> mp_state q = MP_Active \<and> plan_validate q = Inr ()
    \<and> mp_replan_count q = Suc (mp_replan_count p) \<and> mp_replan_count q \<le> mp_max_replans q
    \<and> mp_steps q = map (\<lambda>st. if doomed (mp_steps p) (ms_step_id st)
                             then st\<lparr>ms_state := MS_Superseded, ms_updated_at := now\<rparr> else st) (mp_steps p)
                   @ map (step_from_spec now) steps
    \<and> (replace_failed_steps reason rs steps now p = Inr q \<longleftrightarrow>
         distinct rs \<and> set rs = {i. doomed (mp_steps p) i})"
  using append_replan_run [OF assms] assms
  by (auto simp: plan_bump_def supersede_def replace_run)

subsection \<open>Advancing\<close>

lemma recovered_keys:
  "recovered_by_step acc is = Inr r \<Longrightarrow>
     (\<forall>s. map_of acc s \<noteq> None \<longrightarrow> map_of r s \<noteq> None)
     \<and> (\<forall>i \<in> set is. \<forall>s. wi_source_manager_step_id i = Some s \<longrightarrow> map_of r s \<noteq> None)"
proof (induction acc "is" rule: recovered_by_step.induct)
  case (2 acc i "is")
  show ?case
  proof (cases "wi_source_manager_step_id i")
    case None
    then show ?thesis using 2(1) 2(3) by simp
  next
    case (Some s)
    then have new: "map_of acc s = None" using 2(3) by (auto split: if_splits)
    have "(\<forall>k. map_of ((s, wi_work_id i) # acc) k \<noteq> None \<longrightarrow> map_of r k \<noteq> None)
      \<and> (\<forall>i \<in> set is. \<forall>s. wi_source_manager_step_id i = Some s \<longrightarrow> map_of r s \<noteq> None)"
      by (rule 2(2) [OF Some]) (use new 2(3) Some in simp_all)
    then show ?thesis using Some by (auto split: if_splits)
  qed
qed simp

lemma observed_not_pending [simp]: "observed_state w \<noteq> MS_Pending" "observed_state w \<noteq> MS_Superseded"
  by (cases w; simp)+

lemma observe_step_simps:
  "ms_step_id (fst (observe_step now w st)) = ms_step_id st"
  "ms_dependencies (fst (observe_step now w st)) = ms_dependencies st"
  "ms_work_id (fst (observe_step now w st)) = ms_work_id st"
  "ms_state (fst (observe_step now w st)) = observed_state (wi_state w)"
  by (auto simp: observe_step_def Let_def)

text \<open>A step before and after it was compared with its work.\<close>

definition seen :: "(string \<Rightarrow> work_item option) \<Rightarrow> time \<Rightarrow> manager_step \<Rightarrow> manager_step \<Rightarrow> bool" where
  "seen work now st st' \<longleftrightarrow>
     (if ms_state st = MS_Superseded \<or> ms_work_id st = None then st' = st
      else \<exists>w. work (the (ms_work_id st)) = Some w \<and> st' = fst (observe_step now w st))"

lemma observe_steps_seen:
  "observe_steps work now failed sts = Inr (obs, f) \<Longrightarrow> list_all2 (seen work now) sts obs"
proof (induction work now failed sts arbitrary: obs f rule: observe_steps.induct)
  case (2 work now failed st sts)
  show ?case
  proof (cases "ms_state st = MS_Superseded \<or> ms_work_id st = None")
    case True
    then obtain rest where "observe_steps work now failed sts = Inr (rest, f)" "obs = st # rest"
      using 2(3) by (auto simp: rbind_ok)
    then show ?thesis using 2(1) [OF True] True by (simp add: seen_def)
  next
    case False
    then obtain w where w: "work (the (ms_work_id st)) = Some w"
      using 2(3) by (cases "work (the (ms_work_id st))") (simp_all del: not_None_eq)
    obtain st' f' where o: "observe_step now w st = (st', f')" by fastforce
    obtain rest where "observe_steps work now (case f' of Some e \<Rightarrow> Some e | None \<Rightarrow> failed) sts = Inr (rest, f)"
      "obs = st' # rest"
      using 2(3) False w o by (auto simp: rbind_ok simp del: not_None_eq)
    then show ?thesis using 2(2) [OF False w o [symmetric] refl] False w o
      by (simp add: seen_def del: not_None_eq)
  qed
qed simp

lemma seen_simps:
  "seen work now st st' \<Longrightarrow> ms_step_id st' = ms_step_id st \<and> ms_dependencies st' = ms_dependencies st \<and> ms_work_id st' = ms_work_id st"
  by (auto simp: seen_def observe_step_simps split: if_splits)

lemma list_all2_right: "list_all2 P xs ys \<Longrightarrow> y \<in> set ys \<Longrightarrow> \<exists>x \<in> set xs. P x y"
  by (induction rule: list_all2_induct) auto

lemma list_all2_left: "list_all2 P xs ys \<Longrightarrow> x \<in> set xs \<Longrightarrow> \<exists>y \<in> set ys. P x y"
  by (induction rule: list_all2_induct) auto

lemma distinct_subseq: "subseq xs ys \<Longrightarrow> distinct ys \<Longrightarrow> distinct xs"
  by (induction rule: list_emb.induct) (auto dest: list_emb_set)

lemma link_recovered_simps [simp]:
  "ms_step_id (link_recovered r now st) = ms_step_id st"
  "ms_dependencies (link_recovered r now st) = ms_dependencies st"
  "ms_state (link_recovered r now st) = ms_state st"
  by (simp_all add: link_recovered_def split: option.splits)

lemma seen_ids:
  "list_all2 (seen work now) (map (link_recovered r now) sts) obs \<Longrightarrow> map ms_step_id obs = map ms_step_id sts"
  by (induction sts arbitrary: obs) (auto simp: list_all2_Cons1 dest: seen_simps)

lemma seen_pending: "seen work now st st' \<Longrightarrow> ms_state st' = MS_Pending \<Longrightarrow> st' = st \<and> ms_work_id st = None"
  by (auto simp: seen_def observe_step_simps split: if_splits)

lemma seen_succeeded:
  "seen work now st st' \<Longrightarrow> ms_state st' = MS_Succeeded \<Longrightarrow> ms_work_id st' = Some k
    \<Longrightarrow> \<exists>w. work k = Some w \<and> wi_state w = W_Succeeded"
proof -
  have "observed_state x = MS_Succeeded \<Longrightarrow> x = W_Succeeded" for x by (cases x) auto
  then show "seen work now st st' \<Longrightarrow> ms_state st' = MS_Succeeded \<Longrightarrow> ms_work_id st' = Some k
    \<Longrightarrow> \<exists>w. work k = Some w \<and> wi_state w = W_Succeeded"
    by (auto simp: seen_def observe_step_simps split: if_splits)
qed

lemma by_work_id_Some:
  "by_work_id p items k = Some i \<Longrightarrow> i \<in> set items \<and> wi_work_id i = k \<and> in_plan_lane p i"
  by (auto simp: by_work_id_def dest!: map_of_SomeD)

lemma settle_plan_simps [simp]:
  "mp_steps (settle_plan obs f p) = obs" "mp_max_in_flight (settle_plan obs f p) = mp_max_in_flight p"
  "mp_plan_id (settle_plan obs f p) = mp_plan_id p" "mp_session_id (settle_plan obs f p) = mp_session_id p"
  "mp_workspace (settle_plan obs f p) = mp_workspace p" "mp_root_work_id (settle_plan obs f p) = mp_root_work_id p"
  by (simp_all add: settle_plan_def split: option.splits)

lemma finish_advance_run:
  "finish_advance now c p = Inr q \<longleftrightarrow> (if c then plan_validate (plan_bump now p) = Inr () \<and> q = plan_bump now p else q = p)"
  by (auto simp: finish_advance_def rbind_ok)

lemma plan_bump_simps [simp]:
  "mp_steps (plan_bump now p) = mp_steps p" "mp_state (plan_bump now p) = mp_state p"
  "mp_max_in_flight (plan_bump now p) = mp_max_in_flight p" "mp_plan_id (plan_bump now p) = mp_plan_id p"
  by (simp_all add: plan_bump_def)

lemma advance_run:
  assumes "advance h items actor now p s = (Inr (q, created), t)"
  obtains recovered obs f where
    "mp_state p = MP_Active"
    "recovered_by_step [] (filter (child_of_plan p) items) = Inr recovered"
    "observe_steps (by_work_id p items) now None (map (link_recovered recovered now) (mp_steps p)) = Inr (obs, f)"
    "mp_state (settle_plan obs f p) \<noteq> MP_Active \<Longrightarrow> created = [] \<and> finish_advance now True (settle_plan obs f p) = Inr q"
    "mp_state (settle_plan obs f p) = MP_Active \<Longrightarrow> \<exists>steps.
        materialize h (settle_plan obs f p) obs actor now
          (mp_max_in_flight p - length (filter step_active obs)) obs s = (Inr (steps, created), t)
        \<and> finish_advance now (steps \<noteq> mp_steps p) (settle_plan obs f p\<lparr>mp_steps := steps\<rparr>) = Inr q"
  using assms
  by (auto simp: advance_def bindE_ok thenE_ok leaf_ok Let_def split: if_splits prod.splits)

text \<open>A step and the work created for it.\<close>

definition made_for :: "manager_plan \<Rightarrow> manager_step list \<Rightarrow> string \<Rightarrow> time \<Rightarrow> manager_step \<Rightarrow> work_item \<Rightarrow> bool" where
  "made_for p obs actor now st w \<longleftrightarrow> ms_state st = MS_Pending \<and> step_ready obs st
     \<and> (\<exists>fresh. step_work p obs fresh actor now st = Inr w)"

lemma step_work_run:
  assumes "step_work p obs fresh actor now st = Inr w"
  shows "wi_source_manager_step_id w = Some (ms_step_id st)" "wi_source_manager_plan_id w = Some (mp_plan_id p)"
    and "wi_dependencies w = step_work_dependencies obs st" "wi_parent_work_id w = Some (mp_root_work_id p)"
    and "wi_state w = W_Queued" "item_validate w = Inr ()" "in_plan_lane p w" "wi_policy w = ms_policy st"
  using assms
  by (auto simp: step_work_def item_new_at_def rbind_ok Let_def in_plan_lane_def split: option.splits)

lemma materialize_run:
  "materialize h p obs actor now capacity sts s = (Inr (steps, created), t) \<Longrightarrow>
     length created \<le> capacity
     \<and> length (filter step_active steps) = length (filter step_active sts) + length created
     \<and> (\<forall>w \<in> set created. \<exists>st \<in> set sts. made_for p obs actor now st w)
     \<and> subseq (map wi_source_manager_step_id created) (map (\<lambda>st. Some (ms_step_id st)) sts)
     \<and> list_all2 (\<lambda>st st'. st' = st \<or> ms_state st = MS_Pending \<and> ms_state st' = MS_Ready
          \<and> ms_step_id st' = ms_step_id st) sts steps"
proof (induction h p obs actor now capacity sts arbitrary: s steps created t rule: materialize.induct)
  case (1 h p obs actor now capacity)
  then show ?case by (simp add: leaf_ok)
next
  case (2 h p obs actor now capacity st sts)
  let ?skip = "capacity = 0 \<or> ms_state st \<noteq> MS_Pending \<or> \<not> step_ready obs st"
  show ?case
  proof (cases ?skip)
    case True
    then obtain rest u where "materialize h p obs actor now capacity sts s = (Inr (rest, created), t)" "steps = st # rest"
      using 2(3) by (auto simp: bindE_ok leaf_ok)
    then show ?thesis using 2(1) [OF True] by (fastforce simp: list_emb_Cons2)
  next
    case False
    then obtain fresh u work rest cs where
      work: "step_work p obs fresh actor now st = Inr work" and
      run: "materialize h p obs actor now (capacity - 1) sts u = (Inr (rest, cs), t)" and
      out: "steps = st\<lparr>ms_work_id := Some (wi_work_id work), ms_state := MS_Ready, ms_updated_at := now\<rparr> # rest"
        "created = work # cs"
      using 2(3) by (auto simp: bindE_ok leaf_ok)
    note ih = 2(2) [OF False run]
    have "made_for p obs actor now st work" using False work by (auto simp: made_for_def)
    moreover have "\<not> step_active st" using False by (simp add: step_active_def)
    ultimately show ?thesis
      using ih False out step_work_run(1) [OF work] by (auto simp: step_active_def)
  qed
qed

text \<open>What the returned plan and work say together; the basis of the theorems below.\<close>

lemma advance_created:
  assumes "advance h items actor now p s = (Inr (q, created), t)" "created \<noteq> []"
  obtains recovered obs where
    "recovered_by_step [] (filter (child_of_plan p) items) = Inr recovered"
    "list_all2 (seen (by_work_id p items) now) (map (link_recovered recovered now) (mp_steps p)) obs"
    "length (filter step_active (mp_steps q)) \<le> mp_max_in_flight p"
    "\<And>w. w \<in> set created \<Longrightarrow> \<exists>st \<in> set obs. \<exists>m. mp_plan_id m = mp_plan_id p \<and> mp_root_work_id m = mp_root_work_id p
        \<and> in_plan_lane m = in_plan_lane p \<and> made_for m obs actor now st w"
    "subseq (map wi_source_manager_step_id created) (map (\<lambda>st. Some (ms_step_id st)) obs)"
    "\<And>st. st \<in> set obs \<Longrightarrow> ms_state st \<noteq> MS_Pending \<Longrightarrow> st \<in> set (mp_steps q)"
proof -
  from assms(1) obtain recovered obs f where r: "recovered_by_step [] (filter (child_of_plan p) items) = Inr recovered"
    and o: "observe_steps (by_work_id p items) now None (map (link_recovered recovered now) (mp_steps p)) = Inr (obs, f)"
    and settled: "mp_state (settle_plan obs f p) \<noteq> MP_Active \<Longrightarrow> created = []"
    and active: "mp_state (settle_plan obs f p) = MP_Active \<Longrightarrow> \<exists>steps.
        materialize h (settle_plan obs f p) obs actor now
          (mp_max_in_flight p - length (filter step_active obs)) obs s = (Inr (steps, created), t)
        \<and> finish_advance now (steps \<noteq> mp_steps p) (settle_plan obs f p\<lparr>mp_steps := steps\<rparr>) = Inr q"
    by (rule advance_run) blast
  let ?m = "settle_plan obs f p"
  have "mp_state ?m = MP_Active" using settled assms(2) by blast
  then obtain steps where m: "materialize h ?m obs actor now
      (mp_max_in_flight p - length (filter step_active obs)) obs s = (Inr (steps, created), t)"
    and q: "finish_advance now (steps \<noteq> mp_steps p) (?m\<lparr>mp_steps := steps\<rparr>) = Inr q"
    using active by blast
  note mat = materialize_run [OF m]
  have qs: "mp_steps q = steps" using q by (auto simp: finish_advance_run split: if_splits)
  have "0 < length created" using assms(2) by simp
  then have "length (filter step_active steps) \<le> mp_max_in_flight p" using mat by linarith
  moreover have "st \<in> set steps" if st: "st \<in> set obs" "ms_state st \<noteq> MS_Pending" for st
    using list_all2_left [OF _ st(1)] mat st(2) by blast
  moreover have "in_plan_lane ?m = in_plan_lane p" by (simp add: in_plan_lane_def fun_eq_iff)
  ultimately show thesis
    using that [OF r observe_steps_seen [OF o]] mat qs by (metis settle_plan_simps(3,6))
qed

text \<open>
  Advancing creates work only while there is room: when it creates any, no more steps of
  the plan are ready, in flight or waiting for a person than the limit of the plan.
\<close>

theorem advance_respects_limit:
  assumes "advance h items actor now p s = (Inr (q, created), t)" "created \<noteq> []"
  shows "length (filter step_active (mp_steps q)) \<le> mp_max_in_flight p"
  using advance_created [OF assms] by blast

text \<open>
  A step gets one work item. Whatever was written before a crash, advancing creates work only
  for steps of which no work of the plan is among the items of the ledger, and for each step at most once.
\<close>

lemma created_distinct:
  assumes adv: "advance h items actor now p s = (Inr (q, created), t)" and valid: "plan_validate p = Inr ()"
  shows "distinct (map wi_source_manager_step_id created)"
proof (cases "created = []")
  case False
  with adv obtain recovered obs where
    o: "list_all2 (seen (by_work_id p items) now) (map (link_recovered recovered now) (mp_steps p)) obs" and
    sub: "subseq (map wi_source_manager_step_id created) (map (\<lambda>st. Some (ms_step_id st)) obs)"
    by (rule advance_created) blast
  have "map ms_step_id obs = map ms_step_id (mp_steps p)" by (rule seen_ids [OF o])
  then have "distinct (map ms_step_id obs)"
    using valid plan_steps_valid [of "{}"] by (simp add: plan_validate_def)
  then have "distinct (map (\<lambda>st. Some (ms_step_id st)) obs)" by (simp add: distinct_map inj_on_def)
  then show ?thesis using distinct_subseq [OF sub] by simp
qed simp

lemma no_twin_work:
  assumes adv: "advance h items actor now p s = (Inr (q, created), t)"
    and old: "i \<in> set items" "child_of_plan p i" and new: "w \<in> set created"
  shows "wi_source_manager_step_id i \<noteq> wi_source_manager_step_id w"
proof -
  have "created \<noteq> []" using new by auto
  with adv obtain recovered obs where
    r: "recovered_by_step [] (filter (child_of_plan p) items) = Inr recovered" and
    o: "list_all2 (seen (by_work_id p items) now) (map (link_recovered recovered now) (mp_steps p)) obs" and
    made: "\<And>w. w \<in> set created \<Longrightarrow> \<exists>st \<in> set obs. \<exists>m. made_for m obs actor now st w"
    by (rule advance_created) blast
  from made [OF new] obtain st m where st: "st \<in> set obs" "ms_state st = MS_Pending"
    and w: "wi_source_manager_step_id w = Some (ms_step_id st)"
    using step_work_run(1) by (auto simp: made_for_def)
  obtain st0 where "seen (by_work_id p items) now (link_recovered recovered now st0) st"
    using list_all2_right [OF o st(1)] by auto
  then have "link_recovered recovered now st0 = st" "ms_work_id st = None"
    using seen_pending st(2) by metis+
  then have "map_of recovered (ms_step_id st) = None"
    by (auto simp: link_recovered_def split: if_splits option.splits)
  then show ?thesis using recovered_keys [OF r] old w by auto
qed

lemma ready_dependency:
  assumes "step_ready obs st" "d \<in> set (ms_dependencies st)"
  obtains e k where "e \<in> set obs" "ms_step_id e = d" "ms_state e = MS_Succeeded" "ms_work_id e = Some k"
    "\<lparr>dep_work_id = k, dep_required_state = W_Succeeded\<rparr> \<in> set (step_work_dependencies obs st)"
proof -
  let ?w = "map_of (map (\<lambda>s. (ms_step_id s, ms_work_id s)) obs)" and ?s = "map_of (map (\<lambda>s. (ms_step_id s, ms_state s)) obs)"
  have both: "\<exists>e \<in> set obs. ms_step_id e = d \<and> ms_state e = x \<and> ms_work_id e = y"
    if "?s d = Some x" "?w d = Some y" for x y
    using that by (induction obs) (auto split: if_splits)
  from assms obtain k where k: "?s d = Some MS_Succeeded" "?w d = Some (Some k)"
    by (cases "?w d") (auto simp: step_ready_def)
  have "\<lparr>dep_work_id = k, dep_required_state = W_Succeeded\<rparr> \<in> set (step_work_dependencies obs st)"
    using k(2) assms(2) unfolding step_work_dependencies_def List.map_filter_def by (force simp: image_iff)
  then show thesis using both [OF k] that by blast
qed

text \<open>
  C20. Work is created only for a step whose dependencies are done: every step it depends on is
  succeeded in the plan, and its work item is in the ledger, in the lane of the plan, succeeded,
  and a dependency of the new item. The new item is valid, queued and a child of the plan's root.
\<close>

theorem created_when_ready:
  assumes adv: "advance h items actor now p s = (Inr (q, created), t)" and new: "w \<in> set created"
  shows "item_validate w = Inr () \<and> wi_state w = W_Queued \<and> in_plan_lane p w
    \<and> wi_parent_work_id w = Some (mp_root_work_id p) \<and> wi_source_manager_plan_id w = Some (mp_plan_id p)
    \<and> (\<exists>st \<in> set (mp_steps p). wi_source_manager_step_id w = Some (ms_step_id st)
        \<and> (\<forall>d \<in> set (ms_dependencies st). \<exists>e \<in> set (mp_steps q). \<exists>i \<in> set items.
             ms_step_id e = d \<and> ms_state e = MS_Succeeded \<and> ms_work_id e = Some (wi_work_id i)
             \<and> wi_state i = W_Succeeded \<and> in_plan_lane p i
             \<and> \<lparr>dep_work_id = wi_work_id i, dep_required_state = W_Succeeded\<rparr> \<in> set (wi_dependencies w)))"
proof -
  have "created \<noteq> []" using new by auto
  with adv obtain recovered obs where
    o: "list_all2 (seen (by_work_id p items) now) (map (link_recovered recovered now) (mp_steps p)) obs" and
    made: "\<And>w. w \<in> set created \<Longrightarrow> \<exists>st \<in> set obs. \<exists>m. mp_plan_id m = mp_plan_id p \<and> mp_root_work_id m = mp_root_work_id p
        \<and> in_plan_lane m = in_plan_lane p \<and> made_for m obs actor now st w" and
    kept: "\<And>st. st \<in> set obs \<Longrightarrow> ms_state st \<noteq> MS_Pending \<Longrightarrow> st \<in> set (mp_steps q)"
    by (rule advance_created) blast
  from made [OF new] obtain st m fresh where st: "st \<in> set obs" "step_ready obs st"
    and m: "mp_plan_id m = mp_plan_id p" "mp_root_work_id m = mp_root_work_id p" "in_plan_lane m = in_plan_lane p"
    and work: "step_work m obs fresh actor now st = Inr w"
    by (auto simp: made_for_def)
  note w = step_work_run [OF work]
  obtain st0 where st0: "st0 \<in> set (mp_steps p)" "ms_step_id st0 = ms_step_id st" "ms_dependencies st0 = ms_dependencies st"
    using list_all2_right [OF o st(1)] seen_simps by fastforce
  have "\<exists>e \<in> set (mp_steps q). \<exists>i \<in> set items.
      ms_step_id e = d \<and> ms_state e = MS_Succeeded \<and> ms_work_id e = Some (wi_work_id i)
      \<and> wi_state i = W_Succeeded \<and> in_plan_lane p i
      \<and> \<lparr>dep_work_id = wi_work_id i, dep_required_state = W_Succeeded\<rparr> \<in> set (wi_dependencies w)"
    if d: "d \<in> set (ms_dependencies st)" for d
  proof -
    obtain e k where e: "e \<in> set obs" "ms_step_id e = d" "ms_state e = MS_Succeeded" "ms_work_id e = Some k"
      "\<lparr>dep_work_id = k, dep_required_state = W_Succeeded\<rparr> \<in> set (step_work_dependencies obs st)"
      by (rule ready_dependency [OF st(2) d])
    obtain e0 where "seen (by_work_id p items) now e0 e" using list_all2_right [OF o e(1)] by blast
    then obtain i where "by_work_id p items k = Some i" "wi_state i = W_Succeeded"
      using seen_succeeded e(3,4) by blast
    then have "i \<in> set items" "wi_work_id i = k" "in_plan_lane p i" "wi_state i = W_Succeeded"
      using by_work_id_Some by blast+
    then show ?thesis using e kept [OF e(1)] w(3) by auto
  qed
  then show ?thesis using w m st0 by metis
qed

subsection \<open>Every reachable plan\<close>

lemma materialize_ids:
  "list_all2 (\<lambda>st st'. st' = st \<or> ms_state st = MS_Pending \<and> ms_state st' = MS_Ready
     \<and> ms_step_id st' = ms_step_id st) sts steps \<Longrightarrow> map ms_step_id steps = map ms_step_id sts"
  by (induction rule: list_all2_induct) auto

text \<open>What no operation changes: identity, lane, limits and the steps the plan has.\<close>

definition same_plan :: "manager_plan \<Rightarrow> manager_plan \<Rightarrow> bool" where
  "same_plan p q \<longleftrightarrow> mp_plan_id q = mp_plan_id p \<and> mp_session_id q = mp_session_id p \<and> mp_workspace q = mp_workspace p
     \<and> mp_manager_agent_id q = mp_manager_agent_id p \<and> mp_root_work_id q = mp_root_work_id p
     \<and> mp_max_in_flight q = mp_max_in_flight p \<and> mp_max_replans q = mp_max_replans p
     \<and> prefix (map ms_step_id (mp_steps p)) (map ms_step_id (mp_steps q))"

lemma same_plan_refl: "same_plan p p" by (simp add: same_plan_def)
lemma same_plan_trans: "same_plan p q \<Longrightarrow> same_plan q r \<Longrightarrow> same_plan p r"
  unfolding same_plan_def using prefix_order.order_trans by metis

definition plan_ok :: "manager_plan \<Rightarrow> bool" where
  "plan_ok p \<longleftrightarrow> plan_validate p = Inr () \<and> (mp_state p = MP_Succeeded \<longrightarrow> (\<forall>st \<in> set (mp_steps p). step_settled st))"

lemma settle_plan_state:
  "mp_state p = MP_Active \<Longrightarrow> mp_state (settle_plan obs f p) = MP_Succeeded \<Longrightarrow> \<forall>st \<in> set obs. step_settled st"
  by (auto simp: settle_plan_def split: option.splits if_splits)

lemma settle_plan_same: "same_plan p (settle_plan obs f p\<lparr>mp_steps := sts\<rparr>) \<longleftrightarrow> prefix (map ms_step_id (mp_steps p)) (map ms_step_id sts)"
  by (simp add: same_plan_def settle_plan_def split: option.splits)

lemma plan_bump_same: "same_plan p (plan_bump now q) \<longleftrightarrow> same_plan p q"
  by (simp add: same_plan_def plan_bump_def)

lemma advance_keeps:
  assumes adv: "advance h items actor now p s = (Inr (q, created), t)" and ok: "plan_ok p"
  shows "plan_ok q \<and> same_plan p q"
proof -
  from adv obtain recovered obs f where active: "mp_state p = MP_Active"
    and o: "observe_steps (by_work_id p items) now None (map (link_recovered recovered now) (mp_steps p)) = Inr (obs, f)"
    and finished: "mp_state (settle_plan obs f p) \<noteq> MP_Active \<Longrightarrow> finish_advance now True (settle_plan obs f p) = Inr q"
    and run: "mp_state (settle_plan obs f p) = MP_Active \<Longrightarrow> \<exists>steps.
        materialize h (settle_plan obs f p) obs actor now
          (mp_max_in_flight p - length (filter step_active obs)) obs s = (Inr (steps, created), t)
        \<and> finish_advance now (steps \<noteq> mp_steps p) (settle_plan obs f p\<lparr>mp_steps := steps\<rparr>) = Inr q"
    by (rule advance_run) blast
  let ?m = "settle_plan obs f p"
  have ids: "map ms_step_id obs = map ms_step_id (mp_steps p)" by (rule seen_ids [OF observe_steps_seen [OF o]])
  show ?thesis
  proof (cases "mp_state ?m = MP_Active")
    case True
    then obtain steps where m: "materialize h ?m obs actor now
        (mp_max_in_flight p - length (filter step_active obs)) obs s = (Inr (steps, created), t)"
      and q: "finish_advance now (steps \<noteq> mp_steps p) (?m\<lparr>mp_steps := steps\<rparr>) = Inr q"
      using run by blast
    note mat = materialize_run [OF m, THEN conjunct2, THEN conjunct2, THEN conjunct2, THEN conjunct2]
    have "map ms_step_id steps = map ms_step_id (mp_steps p)"
      unfolding materialize_ids [OF mat] by (rule ids)
    then have same: "same_plan p (?m\<lparr>mp_steps := steps\<rparr>)" by (simp add: settle_plan_same)
    have "?m\<lparr>mp_steps := mp_steps p\<rparr> = p" using True active by (auto simp: settle_plan_def split: option.splits if_splits)
    then have "steps = mp_steps p \<Longrightarrow> q = p" using q by (simp add: finish_advance_run)
    moreover have "steps \<noteq> mp_steps p \<Longrightarrow> plan_ok q \<and> same_plan p q"
      using q same True by (simp add: finish_advance_run plan_ok_def plan_bump_same)
    ultimately show ?thesis using ok same_plan_refl by blast
  next
    case False
    then have "plan_validate (plan_bump now ?m) = Inr ()" "q = plan_bump now ?m"
      using finished by (simp_all add: finish_advance_run)
    moreover have "same_plan p ?m" by (simp add: same_plan_def settle_plan_def ids split: option.splits)
    ultimately show ?thesis using settle_plan_state [OF active, of obs f] by (simp add: plan_ok_def plan_bump_same)
  qed
qed

lemma update_step_marks:
  "(\<And>st. ms_step_id (g st) = ms_step_id st \<and> ms_state (g st) = ms_state st)
    \<Longrightarrow> map (\<lambda>st. (ms_step_id st, ms_state st)) (update_step i g sts) = map (\<lambda>st. (ms_step_id st, ms_state st)) sts"
  by (induction sts) auto

lemma mark_delivered_run:
  "mark_delivered now ds sts c = Inr (sts', c') \<Longrightarrow>
     map (\<lambda>st. (ms_step_id st, ms_state st)) sts' = map (\<lambda>st. (ms_step_id st, ms_state st)) sts \<and> (c' \<or> sts' = sts)"
proof (induction now ds sts c arbitrary: sts' c' rule: mark_delivered.induct)
  case (2 now step_id rev' message_id rest sts c)
  have true: "mark_delivered now xs ys True = Inr (zs, d) \<Longrightarrow> d" for xs ys zs d
    by (induction now xs ys True arbitrary: zs d rule: mark_delivered.induct)
       (auto simp: rbind_ok split: option.splits if_splits)
  let ?v = "first_err
       [manager_validate_id step_id ''notification.step_id'',
        manager_validate_id message_id ''notification.message_id'',
        reject (rev' = 0) (invalid ''notification.work_revision must be positive'')]"
  from 2(3) obtain v: "?v = Inr ()" by (cases ?v) (simp_all add: rbind_def)
  then obtain st where st: "find (\<lambda>st. ms_step_id st = step_id) sts = Some st"
    using 2(3) by (auto simp: rbind_ok split: option.splits)
  show ?case
  proof (cases "ms_last_notification_work_revision st = Some rev'")
    case True
    then have run: "mark_delivered now rest sts c = Inr (sts', c')"
      and "\<not> ms_last_notification_message_id st \<noteq> Some message_id"
      using 2(3) st by (auto simp: rbind_ok split: if_splits)
    then show ?thesis using 2(1) [OF v st True _ run] by blast
  next
    case False
    let ?g = "\<lambda>st. st\<lparr>ms_last_notification_work_revision := Some rev', ms_last_notification_message_id := Some message_id,
      ms_updated_at := now\<rparr>"
    have run: "mark_delivered now rest (update_step step_id ?g sts) True = Inr (sts', c')"
      using 2(3) st False by (auto simp: rbind_ok)
    show ?thesis using 2(2) [OF v st False run] true [OF run] update_step_marks [of ?g step_id sts] by simp
  qed
qed simp

lemma mark_keeps:
  assumes "mark_notifications_sent ds now p = Inr q" "plan_ok p"
  shows "plan_ok q \<and> same_plan p q"
proof -
  from assms(1) obtain sts c where m: "mark_delivered now ds (mp_steps p) False = Inr (sts, c)"
    and q: "finish_advance now c (p\<lparr>mp_steps := sts\<rparr>) = Inr q"
    by (auto simp: mark_notifications_sent_def rbind_ok)
  have marks: "map (\<lambda>st. (ms_step_id st, ms_state st)) sts = map (\<lambda>st. (ms_step_id st, ms_state st)) (mp_steps p)"
    and kept: "c \<or> sts = mp_steps p"
    using mark_delivered_run [OF m] by auto
  have "map ms_step_id sts = map ms_step_id (mp_steps p)" "ms_state ` set sts = ms_state ` set (mp_steps p)"
    using arg_cong [OF marks, of "map fst"] arg_cong [OF marks, of "\<lambda>xs. snd ` set xs"] by (simp_all add: comp_def image_image)
  moreover have "(\<forall>st \<in> set xs. step_settled st) \<longleftrightarrow> ms_state ` set xs \<subseteq> {MS_Succeeded, MS_Superseded}" for xs
    by (auto simp: step_settled_def)
  ultimately have "same_plan p (p\<lparr>mp_steps := sts\<rparr>)" "(\<forall>st \<in> set sts. step_settled st) \<longleftrightarrow> (\<forall>st \<in> set (mp_steps p). step_settled st)"
    by (simp_all add: same_plan_def)
  then show ?thesis
    using q kept assms(2) by (cases c) (simp_all add: finish_advance_run plan_ok_def plan_bump_same)
qed

lemma replan_keeps:
  assumes "append_replan reason steps now p = Inr q"
  shows "plan_ok q \<and> same_plan p q"
  using append_replan_run [OF assms]
  by (auto simp: plan_ok_def plan_bump_same) (auto simp: same_plan_def supersede_def comp_def if_distrib cong: if_cong)

inductive plan_step :: "host \<Rightarrow> manager_plan \<Rightarrow> manager_plan \<Rightarrow> bool" for h where
  replanned: "append_replan reason steps now p = Inr q \<Longrightarrow> plan_step h p q"
| replaced: "replace_failed_steps reason rs steps now p = Inr q \<Longrightarrow> plan_step h p q"
| advanced: "advance h items actor now p s = (Inr (q, created), t) \<Longrightarrow> plan_step h p q"
| notified: "mark_notifications_sent ds now p = Inr q \<Longrightarrow> plan_step h p q"

lemma plan_step_keeps: "plan_step h p q \<Longrightarrow> plan_ok p \<Longrightarrow> plan_ok q \<and> same_plan p q"
  by (cases rule: plan_step.cases) (auto simp: replace_run dest: replan_keeps advance_keeps mark_keeps)

interpretation plans: invariant_machine "\<lambda>q. plan_ok p \<and> q = p" "plan_step h" "\<lambda>q. plan_ok q \<and> same_plan p q" for h p
  by unfold_locales (auto simp: same_plan_refl dest: plan_step_keeps intro: same_plan_trans)

text \<open>
  C19. Every plan that replanning, replacing, advancing and notifying reach from a new plan is valid,
  keeps its identity, lane and limits and the order of its steps, and is succeeded only when each of its steps is
  succeeded or superseded.
\<close>

theorem reachable_plan_valid:
  assumes new: "plan_new i sid ws agent objective root specs m r now = Inr p" and run: "(plan_step h)\<^sup>*\<^sup>* p q"
  shows "plan_validate q = Inr () \<and> same_plan p q
    \<and> (mp_state q = MP_Succeeded \<longrightarrow> (\<forall>st \<in> set (mp_steps q). step_settled st))"
proof -
  have "plan_ok p" using new by (auto simp: plan_new_def Let_def rbind_ok plan_ok_def)
  then show ?thesis using plans.reach_inv [OF _ run] by (auto simp: plan_ok_def)
qed

end
