(* ===== verification/Manager_Store.thy ===== *)
theory Manager_Store
  imports Manager_Plans Ledger_Part
begin

section \<open>Manager plans in the store\<close>

text \<open>
  The manager methods of \<^verbatim>\<open>orchestration/store.rs\<close>: creation of a plan with its root work item behind
  an intent, saving a plan with the work it created under a compare-and-swap on its revision,
  the validation of such a batch of work against the graph of its lane, decisions, the reads, and
  the recovery of creation intents when the store is opened. \<open>manager_store\<close> is the ledger with the
  directories of plans, decisions and creation intents.
\<close>

record manager_creation_intent =
  ci_plan :: manager_plan
  ci_root_work :: work_item

record manager_store =
  mg_ledger :: ledger
  mg_plans :: "(string, manager_plan) dir"
  mg_decisions :: "(string, manager_decision_record) dir"
  mg_intents :: "(string, manager_creation_intent) dir"

type_synonym 'a manager_op = "(manager_store, orch_error, 'a) op"

interpretation managers: ledger_part mg_ledger mg_ledger_update
  by unfold_locales simp_all

abbreviation manager_ledger :: "(ledger, 'e, 'a) op \<Rightarrow> (manager_store, 'e, 'a) op" where
  "manager_ledger \<equiv> part_op mg_ledger mg_ledger_update"

abbreviation manager_durable :: "host \<Rightarrow> (manager_store \<Rightarrow> manager_store) \<Rightarrow> unit manager_op" where
  "manager_durable \<equiv> part_durable mg_ledger mg_ledger_update"

subsection \<open>Batches of work\<close>

fun new_items :: "work_item list \<Rightarrow> work_item list store_op" where
  "new_items [] = ret []"
| "new_items (i # is) =
     bindE (load_work_item (wi_work_id i)) (\<lambda>existing.
     bindE (new_items is) (\<lambda>rest.
       ret (if existing = None then i # rest else rest)))"

definition same_batch_scope :: "work_item \<Rightarrow> work_item \<Rightarrow> bool" where
  "same_batch_scope i j \<longleftrightarrow> wi_session_id i = wi_session_id j \<and> wi_workspace i = wi_workspace j"

definition validate_batch_item :: "host \<Rightarrow> work_item list \<Rightarrow> work_item list \<Rightarrow> work_item \<Rightarrow> unit store_op" where
  "validate_batch_item h fresh items item =
     thenE (map_err opaque_of (lift (item_validate item)))
     (bindE (load_work_item (wi_work_id item)) (\<lambda>existing.
      thenE
        (if existing = None then
           bindE (scoped_work_items h (scope_of item)) (\<lambda>lane.
             if length lane + length (filter (same_batch_scope item) fresh) > MAX_GRAPH_SCOPE_ITEMS
             then raise (Typed (orch_error_new CapacityExhausted
                    ''scope holds more than 4096 work items; a new item is refused rather than unbounded''))
             else ret ())
         else ret ())
        (if wi_dependencies item \<noteq> [] \<and> map_option wi_dependencies existing \<noteq> Some (wi_dependencies item)
         then bindE (scoped_work_items h (scope_of item)) (\<lambda>lane.
                map_err Typed (lift (validate_scoped_dependency_graph h
                  (filter (\<lambda>e. wi_work_id e \<noteq> wi_work_id item \<and> scope_contains h (scope_of item) e) lane
                   @ filter (\<lambda>mate. wi_work_id mate \<noteq> wi_work_id item) (filter (same_batch_scope item) items))
                  item (scope_of item))))
         else ret ())))"

definition validate_work_items_for_save :: "host \<Rightarrow> work_item list \<Rightarrow> unit store_op" where
  "validate_work_items_for_save h items =
     (if items = [] then ret ()
      else bindE (new_items items) (\<lambda>fresh. for_each items (validate_batch_item h fresh items)))"

subsection \<open>Plans\<close>

definition save_manager_plan :: "host \<Rightarrow> manager_plan \<Rightarrow> unit manager_op" where
  "save_manager_plan h p =
     thenE (lift (plan_validate p))
     (bindE (lift (safe_id_filename (mp_plan_id p))) (\<lambda>k.
        manager_durable h (\<lambda>s. s\<lparr>mg_plans := dir_put k p (mg_plans s)\<rparr>)))"

definition write_batch :: "host \<Rightarrow> work_item list \<Rightarrow> unit manager_op" where
  "write_batch h items =
     for_each items (\<lambda>i. map_err orch_error_from_anyhow (manager_ledger (write_work_item h i)))"

definition save_manager_plan_with_work :: "host \<Rightarrow> manager_plan \<Rightarrow> work_item list \<Rightarrow> unit manager_op" where
  "save_manager_plan_with_work h p items =
     thenE (map_err orch_error_from_anyhow (manager_ledger (validate_work_items_for_save h items)))
     (thenE (write_batch h items) (save_manager_plan h p))"

definition load_manager_plan :: "string \<Rightarrow> manager_plan option manager_op" where
  "load_manager_plan plan_id =
     (case safe_id_filename plan_id of
        Inl _ \<Rightarrow> ret None
      | Inr k \<Rightarrow> bindE (gets (\<lambda>s. dir_get (mg_plans s) k)) (\<lambda>v.
          case v of
            None \<Rightarrow> ret None
          | Some p \<Rightarrow> thenE (lift (plan_validate p)) (ret (Some p))))"

definition save_manager_plan_with_work_cas :: "host \<Rightarrow> manager_plan \<Rightarrow> u64 \<Rightarrow> work_item list \<Rightarrow> unit manager_op" where
  "save_manager_plan_with_work_cas h p expected items =
     bindE (load_manager_plan (mp_plan_id p)) (\<lambda>found.
     bindE (some_or (invalid ''unknown plan_id'') found) (\<lambda>current.
       if mp_revision current \<noteq> expected
       then raise (orch_error_new StaleVersion ''manager plan changed before the mutation could be committed'')
       else save_manager_plan_with_work h p items))"

definition save_manager_plan_cas :: "host \<Rightarrow> manager_plan \<Rightarrow> u64 \<Rightarrow> unit manager_op" where
  "save_manager_plan_cas h p expected = save_manager_plan_with_work_cas h p expected []"

fun validated_records :: "('v \<Rightarrow> unit result) \<Rightarrow> 'v list \<Rightarrow> 'v list result" where
  "validated_records validate [] = Inr []"
| "validated_records validate (x # xs) =
     rbind (validate x) (\<lambda>_. rbind (validated_records validate xs) (\<lambda>ys. Inr (x # ys)))"

definition list_manager_plans :: "manager_plan list manager_op" where
  "list_manager_plans =
     bindE (gets mg_plans) (\<lambda>d.
     bindE (lift (validated_records plan_validate (dir_list d))) (\<lambda>plans.
       ret (sort_by (\<lambda>l r. cmp (mp_updated_at r) (mp_updated_at l)) plans)))"

subsection \<open>Creation\<close>

definition commit_manager_creation_intent :: "host \<Rightarrow> manager_creation_intent \<Rightarrow> unit manager_op" where
  "commit_manager_creation_intent h intent =
     thenE (map_err internal_of (manager_ledger (save_work_item h (ci_root_work intent))))
       (save_manager_plan h (ci_plan intent))"

definition save_manager_plan_with_root :: "host \<Rightarrow> manager_plan \<Rightarrow> work_item \<Rightarrow> unit manager_op" where
  "save_manager_plan_with_root h p root =
     thenE (lift (plan_validate p))
     (thenE (map_err (\<lambda>e. orch_error_new InvalidRequest (err_message e)) (lift (item_validate root)))
     (thenE (check (\<not> wi_is_container root \<or> wi_work_id root \<noteq> mp_root_work_id p
                    \<or> wi_session_id root \<noteq> mp_session_id p \<or> wi_workspace root \<noteq> mp_workspace p)
               (invalid ''manager root Work does not match its plan''))
     (let intent = \<lparr>ci_plan = p, ci_root_work = root\<rparr> in
      bindE (lift (safe_id_filename (mp_plan_id p))) (\<lambda>k.
      thenE (manager_durable h (\<lambda>s. s\<lparr>mg_intents := dir_put k intent (mg_intents s)\<rparr>))
      (thenE (commit_manager_creation_intent h intent)
         (manager_durable h (\<lambda>s. s\<lparr>mg_intents := dir_del k (mg_intents s)\<rparr>)))))))"

definition recover_creation_intent :: "host \<Rightarrow> string \<times> manager_creation_intent \<Rightarrow> unit manager_op" where
  "recover_creation_intent h = (\<lambda>(k, intent).
     thenE (lift (plan_validate (ci_plan intent)))
     (thenE (lift (item_validate (ci_root_work intent)))
     (thenE (commit_manager_creation_intent h intent)
        (manager_durable h (\<lambda>s. s\<lparr>mg_intents := dir_del k (mg_intents s)\<rparr>)))))"

definition recover_manager_creation_intents :: "host \<Rightarrow> unit manager_op" where
  "recover_manager_creation_intents h =
     bindE (gets mg_intents) (\<lambda>intents. for_each intents (recover_creation_intent h))"

subsection \<open>Decisions\<close>

definition save_manager_decision :: "host \<Rightarrow> directive_codec \<Rightarrow> manager_decision_record \<Rightarrow> unit manager_op" where
  "save_manager_decision h codec d =
     thenE (lift (decision_record_validate codec d))
     (bindE (lift (safe_id_filename (dr_decision_id d))) (\<lambda>k.
        manager_durable h (\<lambda>s. s\<lparr>mg_decisions := dir_put k d (mg_decisions s)\<rparr>)))"

definition save_manager_decision_with_work ::
  "host \<Rightarrow> directive_codec \<Rightarrow> manager_decision_record \<Rightarrow> work_item \<Rightarrow> unit manager_op" where
  "save_manager_decision_with_work h codec d work =
     thenE (lift (decision_record_validate codec d))
     (bindE (map_err internal_of (manager_ledger (load_work_item (wi_work_id work)))) (\<lambda>found.
      thenE
        (case found of
           Some existing \<Rightarrow>
             check (wi_source_manager_plan_id existing \<noteq> wi_source_manager_plan_id work \<or> wi_kind existing \<noteq> wi_kind work)
               (conflict ''manager decision Work ID is already owned by another occurrence'')
         | None \<Rightarrow> map_err internal_of (manager_ledger (save_work_item h work)))
        (save_manager_decision h codec d)))"

definition load_manager_decision :: "directive_codec \<Rightarrow> string \<Rightarrow> manager_decision_record option manager_op" where
  "load_manager_decision codec decision_id =
     bindE (lift (safe_id_filename decision_id)) (\<lambda>k.
     bindE (gets (\<lambda>s. dir_get (mg_decisions s) k)) (\<lambda>v.
       case v of
         None \<Rightarrow> ret None
       | Some d \<Rightarrow> thenE (lift (decision_record_validate codec d)) (ret (Some d))))"

definition list_manager_decisions ::
  "directive_codec \<Rightarrow> string option \<Rightarrow> manager_decision_record list manager_op" where
  "list_manager_decisions codec plan_id =
     bindE (gets mg_decisions) (\<lambda>ds.
     bindE (lift (validated_records (decision_record_validate codec) (dir_list ds))) (\<lambda>decisions.
       ret (sort_by (\<lambda>l r. cmp (dr_created_at l) (dr_created_at r))
              (filter (\<lambda>d. is_none_or plan_id (\<lambda>i. dr_plan_id d = i)) decisions))))"

end
