(* ===== verification/Manager_Service.thy ===== *)
theory Manager_Service
  imports Manager_Store Workers
begin

section \<open>Coordinating plans\<close>

text \<open>
  The manager part of \<^verbatim>\<open>orchestration/service.rs\<close>: the limits of assignments, the bodies of the tools that
  create, advance, tick and replan a plan (after the caller is authorized and its request claimed, which
  the receipts model), and the supervisor that advances autonomous plans, notifies the manager and applies its
  directives. \<open>control_store\<close> joins plans and mailbox over one ledger. The SHA-256 of a JSON value, its
  text, the codec of directives and the runs of managed work are fields of \<open>manager_env\<close>.
\<close>

definition DEFAULT_WORK_MAX_ATTEMPTS :: nat where "DEFAULT_WORK_MAX_ATTEMPTS = 3"

definition retry_policy_default :: work_retry_policy where
  "retry_policy_default =
     \<lparr>rp_max_attempts = DEFAULT_WORK_MAX_ATTEMPTS, rp_retry_failed = True, rp_retry_expired = True, rp_backoff_ms = 0\<rparr>"

definition work_policy_default :: work_policy where
  "work_policy_default =
     \<lparr>wp_bounds = run_bounds_default, wp_retry = retry_policy_default, wp_requires_approval = False,
      wp_max_concurrent_attempts = 1, wp_managed_execution = MM_Inherit, wp_allowed_files = [], wp_required_checks = []\<rparr>"

definition current_spec :: "agent_record \<Rightarrow> agent_spec result" where
  "current_spec agent = some_or_err (invalid ''agent specification has not been migrated'') (ag_spec agent)"

subsection \<open>Assignments\<close>

definition validate_step_assignment ::
  "host \<Rightarrow> run_bounds \<Rightarrow> manager_plan \<Rightarrow> string \<Rightarrow> agent_record \<Rightarrow> agent_spec \<Rightarrow> manager_step \<Rightarrow> unit manager_op" where
  "validate_step_assignment h ceiling p claimed manager manager_spec st =
     bindE (case ms_assigned_agent_id st of
              Some a \<Rightarrow> manager_ledger (require_agent_in_scope h a (mp_session_id p) claimed)
            | None \<Rightarrow> ret manager) (\<lambda>worker.
     thenE (check (\<not> workspaces_match h (ag_workspace worker) (mp_workspace p))
              (orch_error_new ForbiddenScope ''manager plan cannot assign work across workspaces''))
     (bindE (lift (current_spec worker)) (\<lambda>worker_spec.
        lift (reject_privilege_amplification (Some manager_spec) worker_spec (wp_bounds (ms_policy st)) ceiling))))"

definition validate_manager_assignments ::
  "host \<Rightarrow> run_bounds \<Rightarrow> manager_plan \<Rightarrow> string \<Rightarrow> bool \<Rightarrow> unit manager_op" where
  "validate_manager_assignments h ceiling p claimed only_unmaterialized =
     bindE (manager_ledger (require_agent_in_scope h (mp_manager_agent_id p) (mp_session_id p) claimed)) (\<lambda>manager.
     bindE (lift (current_spec manager)) (\<lambda>manager_spec.
       for_each (filter (\<lambda>st. \<not> (only_unmaterialized \<and> ms_work_id st \<noteq> None)) (mp_steps p))
         (validate_step_assignment h ceiling p claimed manager manager_spec)))"

subsection \<open>The tools\<close>

definition load_manager_plan_scoped :: "uuid \<Rightarrow> string \<Rightarrow> string \<Rightarrow> manager_plan manager_op" where
  "load_manager_plan_scoped session_id claimed plan_id =
     bindE (load_manager_plan plan_id) (\<lambda>found.
     bindE (some_or (invalid ''unknown plan_id'') found) (\<lambda>plan.
       if mp_session_id plan \<noteq> session_id \<or> mp_workspace plan \<noteq> claimed
       then raise (orch_error_new ForbiddenScope ''manager plan is outside the requested session scope'')
       else ret plan))"

definition list_manager_plans_scoped :: "uuid \<Rightarrow> string \<Rightarrow> manager_plan list manager_op" where
  "list_manager_plans_scoped session_id claimed =
     bindE list_manager_plans (\<lambda>plans.
       ret (filter (\<lambda>p. mp_session_id p = session_id \<and> mp_workspace p = claimed) plans))"

definition container_root :: "time \<Rightarrow> work_item \<Rightarrow> work_item" where
  "container_root now root =
     bump_at now (root\<lparr>wi_state := W_Blocked, wi_is_container := True,
       wi_blocked_reason := Some ''manager plan container; execute its child Work items''\<rparr>)"

definition create_manager_plan ::
  "host \<Rightarrow> run_bounds \<Rightarrow> agent_record result \<Rightarrow> string \<Rightarrow> uuid \<Rightarrow> string \<Rightarrow> string \<Rightarrow> string \<Rightarrow> manager_step_spec list
     \<Rightarrow> nat \<Rightarrow> nat \<Rightarrow> bool \<Rightarrow> (manager_plan \<times> work_item) manager_op" where
  "create_manager_plan h ceiling session_agent actor session_id claimed manager_agent_id objective steps
       max_in_flight max_replans autonomous =
     bindE (manager_ledger (require_agent_in_scope h manager_agent_id session_id claimed)) (\<lambda>manager.
     bindE (lift (current_spec manager)) (\<lambda>spec.
     thenE (if autonomous then
              bindE (lift session_agent) (\<lambda>lane_agent.
                check (ag_agent_id lane_agent \<noteq> ag_agent_id manager \<or> \<not> me_enabled (as_managed_execution spec)
                       \<or> \<not> allows_kind (as_managed_execution spec) ''manager-decision''
                       \<or> me_requires_approval_before_execution (as_managed_execution spec))
                  (orch_error_new ForbiddenScope
                     ''autonomous coordination requires the lane Agent with approval-free managed manager-decision execution''))
            else ret ())
     (bindE (manager_ledger (now_op h)) (\<lambda>now.
      bindE (manager_ledger (uuid_op h)) (\<lambda>root_id.
      bindE (manager_ledger (now_op h)) (\<lambda>root_now.
      bindE (lift (item_new_at root_id ''manager-plan'' objective session_id claimed actor work_policy_default root_now)) (\<lambda>new.
      let root = container_root now new in
      bindE (manager_ledger (uuid_op h)) (\<lambda>plan_id.
      bindE (lift (plan_new plan_id session_id claimed manager_agent_id objective (wi_work_id root) steps
                     max_in_flight max_replans now)) (\<lambda>fresh.
      let plan = (if autonomous then fresh\<lparr>mp_coordination := MC_Autonomous\<rparr> else fresh) in
      thenE (validate_manager_assignments h ceiling plan claimed False)
      (thenE (save_manager_plan_with_root h plan root) (ret (plan, root))))))))))))"

definition advance_manager_plan ::
  "host \<Rightarrow> run_bounds \<Rightarrow> string \<Rightarrow> uuid \<Rightarrow> string \<Rightarrow> string \<Rightarrow> u64 option \<Rightarrow> (manager_plan \<times> work_item list) manager_op" where
  "advance_manager_plan h ceiling actor session_id claimed plan_id expected =
     bindE (load_manager_plan_scoped session_id claimed plan_id) (\<lambda>plan.
     thenE (lift (require_revision plan expected))
     (thenE (validate_manager_assignments h ceiling plan claimed True)
     (bindE (map_err internal_of (manager_ledger list_work_items)) (\<lambda>items.
      bindE (manager_ledger (now_op h)) (\<lambda>now.
      bindE (manager_ledger (advance h items actor now plan)) (\<lambda>(q, created).
      thenE (save_manager_plan_with_work_cas h q (mp_revision plan) created) (ret (q, created))))))))"

definition replan_manager_plan ::
  "host \<Rightarrow> run_bounds \<Rightarrow> uuid \<Rightarrow> string \<Rightarrow> string \<Rightarrow> string \<Rightarrow> manager_step_spec list \<Rightarrow> u64 option \<Rightarrow> manager_plan manager_op" where
  "replan_manager_plan h ceiling session_id claimed plan_id reason steps expected =
     bindE (load_manager_plan_scoped session_id claimed plan_id) (\<lambda>plan.
     thenE (lift (require_revision plan expected))
     (bindE (manager_ledger (now_op h)) (\<lambda>now.
      bindE (lift (append_replan reason steps now plan)) (\<lambda>q.
      thenE (validate_manager_assignments h ceiling q claimed True)
      (thenE (save_manager_plan_cas h q (mp_revision plan)) (ret q))))))"

subsection \<open>Plans and messages\<close>

record manager_env =
  mv_mail :: mail_env
  mv_ceiling :: run_bounds
  mv_hash :: "json \<Rightarrow> string"
  mv_print :: "json \<Rightarrow> string + string"
  mv_codec :: directive_codec
  mv_managed_run :: "string \<Rightarrow> string option result"

abbreviation mv_host :: "manager_env \<Rightarrow> host" where "mv_host env \<equiv> me_host (mv_mail env)"

record control_store =
  ct_managers :: manager_store
  ct_messages :: "(string, work_message) dir"
  ct_seq :: "string option"
  ct_cursor :: "string option"

type_synonym 'a control_op = "(control_store, orch_error, 'a) op"

definition in_managers :: "(manager_store, 'e, 'a) op \<Rightarrow> (control_store, 'e, 'a) op" where
  "in_managers m = (\<lambda>s. case m (ct_managers s) of (r, t) \<Rightarrow> (r, s\<lparr>ct_managers := t\<rparr>))"

definition in_mail :: "(mail_store, 'e, 'a) op \<Rightarrow> (control_store, 'e, 'a) op" where
  "in_mail m = (\<lambda>s.
     case m \<lparr>ml_ledger = mg_ledger (ct_managers s), ml_messages = ct_messages s, ml_seq = ct_seq s\<rparr> of
       (r, t) \<Rightarrow> (r, s\<lparr>ct_managers := (ct_managers s)\<lparr>mg_ledger := ml_ledger t\<rparr>,
                       ct_messages := ml_messages t, ct_seq := ml_seq t\<rparr>))"

definition notification_id :: "manager_env \<Rightarrow> manager_plan \<Rightarrow> manager_notification \<Rightarrow> string" where
  "notification_id env p n =
     ''manager-message-'' @ take 32 (mv_hash env (J_Object [(''planId'', J_String (mp_plan_id p)),
       (''stepId'', J_String (mn_step_id n)), (''workRevision'', J_Int (uint (mn_work_revision n))),
       (''kind'', J_String (message_kind_str (mn_kind n)))]))"

definition persist_manager_notification ::
  "manager_env \<Rightarrow> manager_plan \<Rightarrow> string \<Rightarrow> time \<Rightarrow> manager_notification \<Rightarrow> work_message control_op" where
  "persist_manager_notification env p actor now n =
     bindE (in_mail (on_ledger (uuid_op (mv_host env)))) (\<lambda>fresh_id.
     bindE (lift (message_new (mv_mail env) fresh_id (mn_kind n) actor None (Some (mp_manager_agent_id p))
              (mp_session_id p) (mp_workspace p) (Some (mn_work_id n)) (mn_body n) (Some (mn_payload n)) now)) (\<lambda>message.
       in_mail (send_message_once (mv_mail env) (message\<lparr>wm_message_id := notification_id env p n\<rparr>))))"

fun persist_notifications ::
  "manager_env \<Rightarrow> manager_plan \<Rightarrow> string \<Rightarrow> time control_op \<Rightarrow> manager_notification list
     \<Rightarrow> ((string \<times> u64 \<times> string) \<times> work_message) list control_op" where
  "persist_notifications env p actor clock [] = ret []"
| "persist_notifications env p actor clock (n # ns) =
     bindE clock (\<lambda>now.
     bindE (persist_manager_notification env p actor now n) (\<lambda>m.
     bindE (persist_notifications env p actor clock ns) (\<lambda>rest.
       ret (((mn_step_id n, mn_work_revision n, wm_message_id m), m) # rest))))"

abbreviation control_now :: "manager_env \<Rightarrow> time control_op" where
  "control_now env \<equiv> in_managers (manager_ledger (now_op (mv_host env)))"

definition advance_if_active ::
  "manager_env \<Rightarrow> work_item list \<Rightarrow> string \<Rightarrow> time \<Rightarrow> manager_plan \<Rightarrow> (manager_plan \<times> work_item list) control_op" where
  "advance_if_active env items actor now p =
     (if mp_state p = MP_Active then in_managers (manager_ledger (advance (mv_host env) items actor now p))
      else ret (p, []))"

definition tick_manager_plan ::
  "manager_env \<Rightarrow> string \<Rightarrow> uuid \<Rightarrow> string \<Rightarrow> string \<Rightarrow> u64 option
     \<Rightarrow> (manager_plan \<times> work_item list \<times> work_message list) control_op" where
  "tick_manager_plan env actor session_id claimed plan_id expected =
     bindE (in_managers (load_manager_plan_scoped session_id claimed plan_id)) (\<lambda>plan.
     thenE (lift (require_revision plan expected))
     (thenE (in_managers (validate_manager_assignments (mv_host env) (mv_ceiling env) plan claimed True))
     (bindE (map_err internal_of (in_managers (manager_ledger list_work_items))) (\<lambda>items.
      bindE (control_now env) (\<lambda>now.
      bindE (advance_if_active env items actor now plan) (\<lambda>(q, created).
      bindE (persist_notifications env q actor (control_now env) (pending_notifications q items)) (\<lambda>sent.
      bindE (control_now env) (\<lambda>marked_at.
      bindE (lift (mark_notifications_sent (map fst sent) marked_at q)) (\<lambda>r.
      thenE (in_managers (save_manager_plan_with_work_cas (mv_host env) r (mp_revision plan) created))
        (ret (r, created, map snd sent)))))))))))"

subsection \<open>The supervisor\<close>

definition MAX_MANAGER_PLANS_PER_PASS :: nat where "MAX_MANAGER_PLANS_PER_PASS = 16"
definition MAX_MANAGER_OBSERVATIONS_PER_PASS :: nat where "MAX_MANAGER_OBSERVATIONS_PER_PASS = 64"

record manager_supervisor_report =
  sr_plans_scanned :: nat
  sr_plans_processed :: nat
  sr_work_created :: nat
  sr_messages_created :: nat
  sr_decisions_created :: nat
  sr_decisions_applied :: nat
  sr_decisions_rejected :: nat
  sr_bounded :: bool

definition validate_manager_directive_envelope ::
  "manager_env \<Rightarrow> manager_decision_record \<Rightarrow> manager_directive_envelope \<Rightarrow> unit manager_op" where
  "validate_manager_directive_envelope env d e =
     thenE (check (de_occurrence_id e \<noteq> dr_decision_id d \<or> de_plan_id e \<noteq> dr_plan_id d
                   \<or> de_expected_plan_revision e \<noteq> dr_expected_plan_revision d
                   \<or> de_manager_agent_id e \<noteq> dr_manager_agent_id d
                   \<or> de_expected_agent_spec_revision e \<noteq> dr_agent_spec_revision d
                   \<or> de_input_snapshot_hash e \<noteq> dr_input_snapshot_hash d)
              (orch_error_new StaleVersion ''manager directive does not match its durable occurrence fences''))
     (bindE (load_manager_plan (dr_plan_id d)) (\<lambda>found.
      bindE (some_or (invalid ''manager plan is missing'') found) (\<lambda>plan.
      bindE (manager_ledger (require_agent_in_scope (mv_host env) (dr_manager_agent_id d) (mp_session_id plan)
               (mp_workspace plan))) (\<lambda>agent.
      bindE (lift (current_spec agent)) (\<lambda>spec.
        check (as_revision spec \<noteq> dr_agent_spec_revision d)
          (orch_error_new StaleVersion ''manager Agent specification changed after reasoning''))))))"

definition already_applied :: "manager_plan \<Rightarrow> string \<Rightarrow> string list \<Rightarrow> manager_step_spec list \<Rightarrow> bool" where
  "already_applied current reason replaces steps \<longleftrightarrow>
     (\<forall>sp \<in> set steps. \<exists>st \<in> set (mp_steps current). step_as_spec st = sp)
     \<and> (\<forall>i \<in> set replaces. \<exists>st \<in> set (mp_steps current). ms_step_id st = i \<and> ms_state st = MS_Superseded)
     \<and> mp_last_error current = Some reason"

definition settle_decision ::
  "manager_env \<Rightarrow> manager_decision_record \<Rightarrow> manager_decision_state \<Rightarrow> string \<Rightarrow> string list \<Rightarrow> time \<Rightarrow> unit manager_op" where
  "settle_decision env d st outcome mutations now =
     save_manager_decision (mv_host env) (mv_codec env)
       (d\<lparr>dr_state := st, dr_outcome := Some outcome, dr_applied_mutation_ids := mutations, dr_updated_at := now\<rparr>)"

definition apply_replacement ::
  "manager_env \<Rightarrow> manager_plan \<Rightarrow> manager_decision_record \<Rightarrow> string \<Rightarrow> string list \<Rightarrow> manager_step_spec list \<Rightarrow> time \<Rightarrow> unit manager_op" where
  "apply_replacement env p d reason replaces steps now =
     (let mutations = map (\<lambda>sp. ''manager-step-'' @ sp_step_id sp) steps in
      bindE (load_manager_plan (mp_plan_id p)) (\<lambda>found.
      bindE (some_or (invalid ''unknown plan_id'') found) (\<lambda>current.
        if mp_revision current \<noteq> dr_expected_plan_revision d then
          if already_applied current reason replaces steps
          then settle_decision env d MD_Applied ''recovered already-applied replacement'' mutations now
          else raise (orch_error_new StaleVersion ''manager plan changed before directive application'')
        else
          bindE (lift (replace_failed_steps reason replaces steps now current)) (\<lambda>q.
          thenE (validate_manager_assignments (mv_host env) (mv_ceiling env) q (mp_workspace q) True)
          (thenE (save_manager_plan_cas (mv_host env) q (mp_revision current))
             (settle_decision env d MD_Applied ''replacement steps appended through manager replan'' mutations now))))))"

definition request_intervention ::
  "manager_env \<Rightarrow> manager_plan \<Rightarrow> manager_decision_record \<Rightarrow> string \<Rightarrow> time \<Rightarrow> unit control_op" where
  "request_intervention env p d reason now =
     (let message_id = ''manager-human-'' @ dr_decision_id d in
      bindE (in_mail (on_ledger (uuid_op (mv_host env)))) (\<lambda>fresh_id.
      bindE (lift (message_new (mv_mail env) fresh_id MK_Instruction ''manager-supervisor'' (Some (dr_manager_agent_id d))
               (Some (dr_manager_agent_id d)) (mp_session_id p) (mp_workspace p) (Some (dr_decision_work_id d))
               (''Operator intervention required: '' @ reason)
               (Some (J_Object [(''managerPlanId'', J_String (mp_plan_id p)), (''decisionId'', J_String (dr_decision_id d)),
                 (''requiresOperatorAction'', J_Bool True)])) now)) (\<lambda>message.
      bindE (in_mail (send_message_once (mv_mail env) (message\<lparr>wm_message_id := message_id\<rparr>))) (\<lambda>_.
        in_managers (settle_decision env d MD_HumanRequired reason [message_id] now)))))"

definition apply_manager_directive ::
  "manager_env \<Rightarrow> manager_plan \<Rightarrow> manager_decision_record \<Rightarrow> manager_directive_envelope \<Rightarrow> time
     \<Rightarrow> manager_supervisor_report \<Rightarrow> manager_supervisor_report control_op" where
  "apply_manager_directive env p d e now report =
     (case de_directive e of
        AppendReplacementSteps reason replaces steps \<Rightarrow>
          thenE (in_managers (apply_replacement env p d reason replaces steps now))
            (ret (report\<lparr>sr_decisions_applied := sr_decisions_applied report + 1\<rparr>))
      | RequestOperatorIntervention reason \<Rightarrow>
          thenE (check (mp_revision p \<noteq> dr_expected_plan_revision d)
                   (orch_error_new StaleVersion ''manager plan changed before operator intervention''))
          (thenE (request_intervention env p d reason now) (ret report))
      | NoSafeAction reason \<Rightarrow>
          thenE (check (mp_revision p \<noteq> dr_expected_plan_revision d)
                   (orch_error_new StaleVersion ''manager plan changed before no-safe-action outcome''))
          (thenE (in_managers (settle_decision env d MD_Rejected reason (dr_applied_mutation_ids d) now))
             (ret (report\<lparr>sr_decisions_rejected := sr_decisions_rejected report + 1\<rparr>))))"

text \<open>A call whose error is looked at, as in \<open>if let Err(error) = ...\<close> and \<open>match\<close>.\<close>

definition try_op :: "('s, 'e, 'a) op \<Rightarrow> ('s, 'f, 'e + 'a) op" where
  "try_op m = (\<lambda>s. case m s of (r, t) \<Rightarrow> (Inr r, t))"

definition reject_decision ::
  "manager_env \<Rightarrow> manager_decision_record \<Rightarrow> string \<Rightarrow> time \<Rightarrow> manager_supervisor_report \<Rightarrow> manager_supervisor_report control_op" where
  "reject_decision env d outcome now report =
     thenE (in_managers (settle_decision env d MD_Rejected outcome (dr_applied_mutation_ids d) now))
       (ret (report\<lparr>sr_decisions_rejected := sr_decisions_rejected report + 1\<rparr>))"

definition decision_policy :: work_policy where
  "decision_policy =
     work_policy_default\<lparr>wp_bounds := \<lparr>rb_max_prompt_bytes = 32 * 1024, rb_max_rounds = 2, rb_max_duration_ms = 120000,
         rb_max_total_tokens = Some 8000\<rparr>,
       wp_retry := retry_policy_default\<lparr>rp_max_attempts := 1\<rparr>, wp_requires_approval := False\<rparr>"

fun add_entries :: "json \<Rightarrow> (string \<times> json) list \<Rightarrow> json" where
  "add_entries (J_Object entries) new = J_Object (entries @ new)"
| "add_entries v new = v"

definition decision_input :: "manager_plan \<Rightarrow> agent_spec \<Rightarrow> work_item list \<Rightarrow> json" where
  "decision_input p spec items =
     add_entries (manager_decision_snapshot p items)
       [(''managerAgentSpecRevision'', J_Int (uint (as_revision spec))),
        (''effectiveBounds'', bounds_value (me_bounds (as_managed_execution spec))),
        (''toolAuthority'', J_String ''none'')]"

definition decision_objective :: "manager_env \<Rightarrow> manager_plan \<Rightarrow> agent_spec \<Rightarrow> string \<Rightarrow> json \<Rightarrow> string result" where
  "decision_objective env p spec decision_id snapshot =
     (let template = J_Object [(''schemaVersion'', J_Int (int MANAGER_SCHEMA_VERSION)), (''occurrenceId'', J_String decision_id),
        (''planId'', J_String (mp_plan_id p)), (''expectedPlanRevision'', J_Int (uint (mp_revision p))),
        (''managerAgentId'', J_String (mp_manager_agent_id p)),
        (''expectedAgentSpecRevision'', J_Int (uint (as_revision spec))),
        (''inputSnapshotHash'', J_String (mv_hash env snapshot)),
        (''directive'', J_Object [(''type'', J_String ''no_safe_action''),
           (''reason'', J_String ''replace with one allowed directive'')])]
      in rbind (map_left (orch_error_new Internal) (mv_print env template)) (\<lambda>envelope.
         rbind (map_left (orch_error_new Internal) (mv_print env snapshot)) (\<lambda>shown.
         Inr (''Return exactly this JSON envelope with only directive replaced, and no prose. You have no tool authority. Envelope: ''
           @ envelope @ '' Snapshot: '' @ shown))))"

definition new_decision ::
  "manager_env \<Rightarrow> manager_plan \<Rightarrow> agent_spec \<Rightarrow> string \<Rightarrow> json \<Rightarrow> time \<Rightarrow> unit manager_op" where
  "new_decision env p spec decision_id snapshot now =
     (let work_id = ''manager-decision-work-'' @ drop 17 decision_id in
      bindE (lift (decision_objective env p spec decision_id snapshot)) (\<lambda>objective.
      bindE (manager_ledger (uuid_op (mv_host env))) (\<lambda>fresh_id.
      bindE (lift (item_new_at fresh_id ''manager-decision'' objective (mp_session_id p) (mp_workspace p)
               ''manager-supervisor'' decision_policy now)) (\<lambda>new.
      let work = new\<lparr>wi_work_id := work_id, wi_parent_work_id := Some (mp_root_work_id p),
            wi_assigned_agent_id := Some (mp_manager_agent_id p), wi_assignment_status := Accepted,
            wi_source_manager_plan_id := Some (mp_plan_id p),
            wi_source_manager_step_id := Some ''__manager_decision__''\<rparr> in
      thenE (lift (item_validate work))
      (save_manager_decision_with_work (mv_host env) (mv_codec env)
         \<lparr>dr_schema_version = MANAGER_SCHEMA_VERSION, dr_decision_id = decision_id, dr_plan_id = mp_plan_id p,
          dr_expected_plan_revision = mp_revision p, dr_manager_agent_id = mp_manager_agent_id p,
          dr_agent_spec_revision = as_revision spec,
          dr_triggering_work_ids = List.map_filter ms_work_id (filter step_failed (mp_steps p)),
          dr_triggering_message_ids = List.map_filter ms_last_notification_message_id (mp_steps p),
          dr_input_snapshot_hash = mv_hash env snapshot, dr_decision_work_id = work_id, dr_run_id = None,
          dr_state = MD_AwaitingResult, dr_proposed_directive = None, dr_outcome = None,
          dr_applied_mutation_ids = [], dr_created_at = now, dr_updated_at = now\<rparr> work)))))"

definition decide ::
  "manager_env \<Rightarrow> manager_plan \<Rightarrow> manager_decision_record \<Rightarrow> manager_directive_envelope \<Rightarrow> time
     \<Rightarrow> manager_supervisor_report \<Rightarrow> manager_supervisor_report control_op" where
  "decide env p d e now report =
     bindE (try_op (in_managers (validate_manager_directive_envelope env d e))) (\<lambda>checked.
       case checked of
         Inl error \<Rightarrow> reject_decision env d (err_message error) now report
       | Inr _ \<Rightarrow> apply_manager_directive env p d e now report)"

definition read_directive ::
  "manager_env \<Rightarrow> manager_plan \<Rightarrow> manager_decision_record \<Rightarrow> work_item \<Rightarrow> time
     \<Rightarrow> manager_supervisor_report \<Rightarrow> manager_supervisor_report control_op" where
  "read_directive env p d work now report =
     bindE (some_or (conflict ''decision result is missing'') (map_option wr_summary (wi_result work))) (\<lambda>raw.
       case parse_manager_directive (mv_codec env) raw of
         Inl error \<Rightarrow> reject_decision env d (err_message error) now report
       | Inr e \<Rightarrow>
           bindE (try_op (in_managers (validate_manager_directive_envelope env d e))) (\<lambda>checked.
             case checked of
               Inl error \<Rightarrow> reject_decision env d (err_message error) now report
             | Inr _ \<Rightarrow>
                 let proposed = d\<lparr>dr_proposed_directive := Some e, dr_state := MD_Proposed, dr_updated_at := now\<rparr> in
                 thenE (in_managers (save_manager_decision (mv_host env) (mv_codec env) proposed))
                   (decide env p proposed e now report)))"

definition continue_decision ::
  "manager_env \<Rightarrow> manager_plan \<Rightarrow> manager_decision_record \<Rightarrow> time \<Rightarrow> manager_supervisor_report
     \<Rightarrow> manager_supervisor_report control_op" where
  "continue_decision env p d0 now report =
     (if dr_state d0 \<noteq> MD_AwaitingResult \<and> dr_state d0 \<noteq> MD_Proposed then ret report
      else
        bindE (if dr_run_id d0 = None
               then bindE (lift (mv_managed_run env (dr_decision_work_id d0))) (\<lambda>run. ret (d0\<lparr>dr_run_id := run\<rparr>))
               else ret d0) (\<lambda>d.
        bindE (map_err internal_of (in_managers (manager_ledger (load_work_item (dr_decision_work_id d))))) (\<lambda>found.
        bindE (some_or (orch_error_new Internal ''manager decision Work is missing'') found) (\<lambda>work.
          if wi_state work \<in> {W_Failed, W_Cancelled}
          then reject_decision env d ''manager decision Work did not succeed'' now report
          else if dr_state d = MD_AwaitingResult \<and> wi_state work \<noteq> W_Succeeded
          then thenE (in_managers (save_manager_decision (mv_host env) (mv_codec env) d)) (ret report)
          else case dr_proposed_directive d of
                 Some e \<Rightarrow> decide env p d e now report
               | None \<Rightarrow> read_directive env p d work now report))))"

definition converge_manager_decision ::
  "manager_env \<Rightarrow> manager_plan \<Rightarrow> time \<Rightarrow> manager_supervisor_report \<Rightarrow> manager_supervisor_report control_op" where
  "converge_manager_decision env p now report =
     bindE (map_err internal_of (in_managers (manager_ledger list_work_items))) (\<lambda>items.
     bindE (in_managers (manager_ledger (require_agent_in_scope (mv_host env) (mp_manager_agent_id p)
              (mp_session_id p) (mp_workspace p)))) (\<lambda>agent.
     bindE (lift (current_spec agent)) (\<lambda>spec.
     let snapshot = decision_input p spec items;
         decision_id = manager_decision_id (mv_hash env) p snapshot in
     bindE (in_managers (load_manager_decision (mv_codec env) decision_id)) (\<lambda>found.
       case found of
         None \<Rightarrow>
           thenE (in_managers (new_decision env p spec decision_id snapshot now))
             (ret (report\<lparr>sr_decisions_created := sr_decisions_created report + 1\<rparr>))
       | Some d \<Rightarrow>
           if dr_input_snapshot_hash d \<noteq> mv_hash env snapshot
           then raise (conflict ''manager decision occurrence hash changed'')
           else continue_decision env p d now report))))"

definition process_autonomous_manager_plan ::
  "manager_env \<Rightarrow> manager_plan \<Rightarrow> time \<Rightarrow> nat \<Rightarrow> manager_supervisor_report \<Rightarrow> (nat \<times> manager_supervisor_report) control_op" where
  "process_autonomous_manager_plan env p now budget report =
     thenE (in_managers (validate_manager_assignments (mv_host env) (mv_ceiling env) p (mp_workspace p) True))
     (bindE (map_err internal_of (in_managers (manager_ledger list_work_items))) (\<lambda>items.
      bindE (advance_if_active env items ''manager-supervisor'' now p) (\<lambda>(q, created).
      let notes = take (budget - length created) (pending_notifications q items) in
      bindE (persist_notifications env q ''manager-supervisor'' (ret now) notes) (\<lambda>sent.
      bindE (lift (mark_notifications_sent (map fst sent) now q)) (\<lambda>r.
      bindE (try_op (in_managers (save_manager_plan_with_work_cas (mv_host env) r (mp_revision p) created))) (\<lambda>saved.
        case saved of
          Inl error \<Rightarrow> if err_code error = StaleVersion then ret (0, report) else raise error
        | Inr _ \<Rightarrow>
            let counted = report\<lparr>sr_work_created := sr_work_created report + length created,
                  sr_messages_created := sr_messages_created report + length sent\<rparr> in
            bindE (in_managers (load_manager_plan (mp_plan_id r))) (\<lambda>found.
            bindE (some_or (orch_error_new Internal ''manager plan disappeared'') found) (\<lambda>current.
            bindE (if mp_state current = MP_NeedsReplan then converge_manager_decision env current now counted
                   else ret counted) (\<lambda>final.
              ret (max 1 (length notes + length created), final))))))))))"

fun process_plans ::
  "manager_env \<Rightarrow> time \<Rightarrow> nat \<Rightarrow> manager_supervisor_report \<Rightarrow> manager_plan list \<Rightarrow> manager_supervisor_report control_op" where
  "process_plans env now observations report [] = ret report"
| "process_plans env now observations report (p # ps) =
     (let remaining = MAX_MANAGER_OBSERVATIONS_PER_PASS - observations in
      if remaining < MAX_MANAGER_IN_FLIGHT then ret (report\<lparr>sr_bounded := True\<rparr>)
      else
        thenE (modify (\<lambda>s. s\<lparr>ct_cursor := Some (mp_plan_id p)\<rparr>))
        (bindE (process_autonomous_manager_plan env p now remaining report) (\<lambda>(consumed, after).
           process_plans env now (observations + consumed)
             (after\<lparr>sr_plans_processed := sr_plans_processed after + 1\<rparr>) ps)))"

definition from_cursor :: "string option \<Rightarrow> manager_plan list \<Rightarrow> manager_plan list" where
  "from_cursor cursor plans =
     (case cursor of
        None \<Rightarrow> plans
      | Some c \<Rightarrow>
          let split = (if \<exists>p \<in> set plans. mp_plan_id p > c then length (takeWhile (\<lambda>p. \<not> mp_plan_id p > c) plans) else 0)
          in drop split plans @ take split plans)"

definition manager_supervisor_pass :: "manager_env \<Rightarrow> time \<Rightarrow> manager_supervisor_report control_op" where
  "manager_supervisor_pass env now =
     bindE (in_managers list_manager_plans) (\<lambda>all.
     bindE (gets ct_cursor) (\<lambda>cursor.
     let plans = sort_key mp_plan_id (filter (\<lambda>p. coordination_autonomous (mp_coordination p)
           \<and> mp_state p \<in> {MP_Active, MP_NeedsReplan}) all);
         report = \<lparr>sr_plans_scanned = length plans, sr_plans_processed = 0, sr_work_created = 0,
           sr_messages_created = 0, sr_decisions_created = 0, sr_decisions_applied = 0,
           sr_decisions_rejected = 0, sr_bounded = length plans > MAX_MANAGER_PLANS_PER_PASS\<rparr>
     in process_plans env now 0 report (take MAX_MANAGER_PLANS_PER_PASS (from_cursor cursor plans))))"

end
