(* ===== verification/Manager_Examples.thy ===== *)
theory Manager_Examples
  imports Manager_Progress Manager_Service Example_Run
begin

section \<open>A run of a plan\<close>

text \<open>
  A plan of two dependent steps on \<open>exact_host\<close>: the first step gets its work, the work succeeds
  and the second step gets its own, that work fails and the plan is replanned. The witnesses of the
  theorems on plans apply them to this run.
\<close>

definition first_spec :: manager_step_spec where
  "first_spec = \<lparr>sp_step_id = ''a'', sp_kind = ''task'', sp_objective = ''objective'', sp_priority = 0, sp_dependencies = [],
     sp_assigned_agent_id = None, sp_policy = example_policy\<rparr>"

definition second_spec :: manager_step_spec where
  "second_spec = first_spec\<lparr>sp_step_id := ''b'', sp_dependencies := [''a'']\<rparr>"

definition third_spec :: manager_step_spec where
  "third_spec = first_spec\<lparr>sp_step_id := ''c'', sp_dependencies := [''a'']\<rparr>"

lemmas spec_defs = first_spec_def second_spec_def third_spec_def

lemmas plan_bounds = MAX_MANAGER_STEPS_def MAX_MANAGER_IN_FLIGHT_def MAX_MANAGER_REPLANS_def MAX_MANAGER_ID_BYTES_def
  MAX_MANAGER_TEXT_BYTES_def MANAGER_SCHEMA_VERSION_def NUL_def BACKSLASH_def

definition new_plan :: manager_plan where
  "new_plan =
     \<lparr>mp_schema_version = 1, mp_plan_id = ''p'', mp_session_id = 7, mp_workspace = ''/w'',
      mp_manager_agent_id = ''lead'', mp_objective = ''ship'', mp_root_work_id = ''root'', mp_revision = 1,
      mp_state = MP_Active, mp_max_in_flight = 1, mp_max_replans = 2, mp_replan_count = 0,
      mp_coordination = MC_Manual, mp_steps = [step_from_spec 0 first_spec, step_from_spec 0 second_spec],
      mp_last_error = None, mp_created_at = 0, mp_updated_at = 0\<rparr>"

lemmas validate_simps = plan_validate_def step_spec_validate_def manager_validate_id_def manager_validate_text_def
  plan_bounds example_policy_valid step_from_spec_def step_as_spec_def step_dependencies_def check_ok

lemma new_plan_valid: "plan_validate new_plan = Inr ()"
  by (simp add: validate_simps new_plan_def spec_defs)

lemma new_plan_made: "plan_new ''p'' 7 ''/w'' ''lead'' ''ship'' ''root'' [first_spec, second_spec] 1 2 0 = Inr new_plan"
  using new_plan_valid by (simp add: plan_new_def new_plan_def MANAGER_SCHEMA_VERSION_def rbind_def)

subsection \<open>Its work\<close>

definition plan_work :: "string \<Rightarrow> string list \<Rightarrow> string \<Rightarrow> work_item" where
  "plan_work i deps step = (example_item i deps)\<lparr>wi_parent_work_id := Some ''root'',
     wi_source_manager_plan_id := Some ''p'', wi_source_manager_step_id := Some step\<rparr>"

lemma example_item_kind [simp]: "wi_kind (example_item i ds) = ''task''" "wi_result (example_item i ds) = None"
  by (simp_all add: example_item_def)

lemma new_work_valid:
  "item_validate (example_item ''u'' []) = Inr ()" "item_validate (example_item ''uu'' []) = Inr ()"
  "item_validate (plan_work ''u'' [] ''a'') = Inr ()" "item_validate (plan_work ''uu'' [''u''] ''b'') = Inr ()"
  by (simp_all add: item_validate_def example_item_def plan_work_def validate_id_ok validate_text_def bound_simps
        example_policy_valid dependency_validate_def check_ok)

lemma new_work:
  "item_new_at ''u'' ''task'' ''objective'' 7 ''/w'' ''operator'' example_policy 0 = Inr (example_item ''u'' [])"
  "item_new_at ''uu'' ''task'' ''objective'' 7 ''/w'' ''operator'' example_policy 0 = Inr (example_item ''uu'' [])"
  using new_work_valid(1,2) by (simp_all add: item_new_at_def example_item_def WORKLOAD_SCHEMA_VERSION_def rbind_def)

definition first_plan :: manager_plan where
  "first_plan = plan_bump 0 (new_plan\<lparr>mp_steps :=
     [(step_from_spec 0 first_spec)\<lparr>ms_work_id := Some ''u'', ms_state := MS_Ready\<rparr>, step_from_spec 0 second_spec]\<rparr>)"

definition second_plan :: manager_plan where
  "second_plan = plan_bump 0 (first_plan\<lparr>mp_steps :=
     [(step_from_spec 0 first_spec)\<lparr>ms_work_id := Some ''u'', ms_state := MS_Succeeded\<rparr>,
      (step_from_spec 0 second_spec)\<lparr>ms_work_id := Some ''uu'', ms_state := MS_Ready\<rparr>]\<rparr>)"

definition failed_plan :: manager_plan where
  "failed_plan = plan_bump 0 (second_plan\<lparr>mp_steps :=
     [(step_from_spec 0 first_spec)\<lparr>ms_work_id := Some ''u'', ms_state := MS_Succeeded\<rparr>,
      (step_from_spec 0 second_spec)\<lparr>ms_work_id := Some ''uu'', ms_state := MS_Failed,
        ms_last_error := Some ''step Work failed''\<rparr>],
     mp_state := MP_NeedsReplan, mp_last_error := Some ''step Work failed''\<rparr>)"

definition replanned_plan :: manager_plan where
  "replanned_plan = plan_bump 0 (failed_plan\<lparr>mp_steps :=
     [(step_from_spec 0 first_spec)\<lparr>ms_work_id := Some ''u'', ms_state := MS_Succeeded\<rparr>,
      (step_from_spec 0 second_spec)\<lparr>ms_work_id := Some ''uu'', ms_state := MS_Superseded,
        ms_last_error := Some ''step Work failed''\<rparr>,
      step_from_spec 0 third_spec],
     mp_state := MP_Active, mp_last_error := Some ''again'', mp_replan_count := 1\<rparr>)"

lemmas plan_defs = new_plan_def first_plan_def second_plan_def failed_plan_def replanned_plan_def plan_bump_def
  saturating_succ_def

lemma first_plan_valid: "plan_validate first_plan = Inr ()"
  by (simp add: validate_simps plan_defs spec_defs)

lemma second_plan_valid: "plan_validate second_plan = Inr ()"
  by (simp add: validate_simps plan_defs spec_defs)

lemma failed_plan_valid: "plan_validate failed_plan = Inr ()"
  by (simp add: validate_simps plan_defs spec_defs)

lemma replanned_plan_valid: "plan_validate replanned_plan = Inr ()"
  by (simp add: validate_simps plan_defs spec_defs)

lemmas run_simps = plan_defs spec_defs step_from_spec_def plan_work_def child_of_plan_def in_plan_lane_def
  link_recovered_def by_work_id_def settle_plan_def step_settled_def step_active_def step_ready_def
  step_work_dependencies_def observe_step_def failure_text_def

abbreviation done_work :: work_item where
  "done_work \<equiv> (plan_work ''u'' [] ''a'')\<lparr>wi_state := W_Succeeded\<rparr>"

abbreviation broken_work :: work_item where
  "broken_work \<equiv> (plan_work ''uu'' [''u''] ''b'')\<lparr>wi_state := W_Failed\<rparr>"

lemma example_actor: "manager_validate_text ''operator'' ''actor_id'' = Inr ()"
  by (simp add: manager_validate_text_def plan_bounds)

lemma first_work:
  "step_work new_plan (mp_steps new_plan) ''u'' ''operator'' 0 (step_from_spec 0 first_spec)
     = Inr (plan_work ''u'' [] ''a'')"
  using new_work(1) new_work_valid(3)
  by (simp add: step_work_def run_simps rbind_def Let_def example_item_def)

lemma advance_eval:
  assumes "mp_state p = MP_Active" "manager_validate_text actor ''actor_id'' = Inr ()"
    and "recovered_by_step [] (filter (child_of_plan p) items) = Inr recovered"
    and "observe_steps (by_work_id p items) now None (map (link_recovered recovered now) (mp_steps p)) = Inr (obs, None)"
    and "mp_state (settle_plan obs None p) = MP_Active"
    and "materialize h (settle_plan obs None p) obs actor now (mp_max_in_flight p - length (filter step_active obs)) obs s
           = (Inr (steps, created), t)"
    and "finish_advance now (steps \<noteq> mp_steps p) (settle_plan obs None p\<lparr>mp_steps := steps\<rparr>) = Inr q"
  shows "advance h items actor now p s = (Inr (q, created), t)"
  using assms by (simp add: advance_def op_simps Let_def)

lemma first_advance_at:
  assumes l: "lg_uuids l = 0"
  shows "advance exact_host [] ''operator'' 0 new_plan l
     = (Inr (first_plan, [plan_work ''u'' [] ''a'']), l\<lparr>lg_uuids := 1\<rparr>)"
proof (rule advance_eval [OF _ example_actor])
  have settled: "settle_plan (mp_steps new_plan) None new_plan = new_plan" by (simp add: run_simps)
  show "materialize exact_host (settle_plan (mp_steps new_plan) None new_plan) (mp_steps new_plan) ''operator'' 0
      (mp_max_in_flight new_plan - length (filter step_active (mp_steps new_plan))) (mp_steps new_plan) l
    = (Inr (mp_steps first_plan, [plan_work ''u'' [] ''a'']), l\<lparr>lg_uuids := 1\<rparr>)"
    unfolding settled using first_work l
    by (simp add: new_plan_def op_simps load_simps) (simp add: run_simps)
  show "finish_advance 0 (mp_steps first_plan \<noteq> mp_steps new_plan)
      (settle_plan (mp_steps new_plan) None new_plan\<lparr>mp_steps := mp_steps first_plan\<rparr>) = Inr first_plan"
    using first_plan_valid unfolding settled by (simp add: finish_advance_run plan_defs step_from_spec_def)
  show "observe_steps (by_work_id new_plan []) 0 None (map (link_recovered [] 0) (mp_steps new_plan))
    = Inr (mp_steps new_plan, None)"
    by (simp add: run_simps rbind_def)
qed (simp_all add: run_simps)

lemma first_advance:
  "advance exact_host [] ''operator'' 0 new_plan empty_ledger
     = (Inr (first_plan, [plan_work ''u'' [] ''a'']), empty_ledger\<lparr>lg_uuids := 1\<rparr>)"
  by (rule first_advance_at) (simp add: empty_ledger_def)

abbreviation seen_steps :: "manager_step list" where
  "seen_steps \<equiv> [(step_from_spec 0 first_spec)\<lparr>ms_work_id := Some ''u'', ms_state := MS_Succeeded\<rparr>, step_from_spec 0 second_spec]"

lemma second_work:
  "step_work (first_plan\<lparr>mp_steps := seen_steps\<rparr>) seen_steps ''uu'' ''operator'' 0 (step_from_spec 0 second_spec)
     = Inr (plan_work ''uu'' [''u''] ''b'')"
  using new_work(2) new_work_valid(4)
  by (simp add: step_work_def run_simps rbind_def Let_def example_item_def List.map_filter_def)

lemma second_advance:
  "advance exact_host [done_work] ''operator'' 0 first_plan (empty_ledger\<lparr>lg_uuids := 1\<rparr>)
     = (Inr (second_plan, [plan_work ''uu'' [''u''] ''b'']), empty_ledger\<lparr>lg_uuids := 2\<rparr>)"
proof (rule advance_eval [OF _ example_actor])
  have settled: "settle_plan seen_steps None first_plan = first_plan\<lparr>mp_steps := seen_steps\<rparr>" by (simp add: run_simps)
  show "materialize exact_host (settle_plan seen_steps None first_plan) seen_steps ''operator'' 0
      (mp_max_in_flight first_plan - length (filter step_active seen_steps)) seen_steps (empty_ledger\<lparr>lg_uuids := 1\<rparr>)
    = (Inr (mp_steps second_plan, [plan_work ''uu'' [''u''] ''b'']), empty_ledger\<lparr>lg_uuids := 2\<rparr>)"
    unfolding settled using second_work
    by (simp add: op_simps load_simps empty_ledger_def) (simp add: run_simps)
  show "finish_advance 0 (mp_steps second_plan \<noteq> mp_steps first_plan)
      (settle_plan seen_steps None first_plan\<lparr>mp_steps := mp_steps second_plan\<rparr>) = Inr second_plan"
    using second_plan_valid unfolding settled by (simp add: finish_advance_run plan_defs step_from_spec_def)
  show "observe_steps (by_work_id first_plan [done_work]) 0 None (map (link_recovered [(''a'', ''u'')] 0) (mp_steps first_plan))
    = Inr (seen_steps, None)"
    by (simp add: run_simps rbind_def)
qed (simp_all add: run_simps)

lemma third_advance:
  "advance exact_host [done_work, broken_work] ''operator'' 0 second_plan s = (Inr (failed_plan, []), s)"
proof -
  have "recovered_by_step [] (filter (child_of_plan second_plan) [done_work, broken_work]) = Inr [(''b'', ''uu''), (''a'', ''u'')]"
    "observe_steps (by_work_id second_plan [done_work, broken_work]) 0 None
       (map (link_recovered [(''b'', ''uu''), (''a'', ''u'')] 0) (mp_steps second_plan))
     = Inr (mp_steps failed_plan, Some ''step Work failed'')"
    by (simp_all add: run_simps rbind_def)
  moreover have "plan_bump 0 (settle_plan (mp_steps failed_plan) (Some ''step Work failed'') second_plan) = failed_plan"
    "mp_state second_plan = MP_Active"
    by (simp_all add: run_simps)
  ultimately show ?thesis
    using example_actor failed_plan_valid
    by (simp add: advance_def op_simps del: plan_bump_simps)
       (simp add: settle_plan_def finish_advance_def rbind_def op_simps del: plan_bump_simps)
qed

subsection \<open>Witnesses\<close>

theorem advance_respects_limit_witness:
  "advance exact_host [] ''operator'' 0 new_plan empty_ledger
     = (Inr (first_plan, [plan_work ''u'' [] ''a'']), empty_ledger\<lparr>lg_uuids := 1\<rparr>)
   \<and> length (filter step_active (mp_steps first_plan)) \<le> 1"
  using advance_respects_limit [OF first_advance] first_advance by (simp add: new_plan_def)

theorem created_when_ready_witness:
  "advance exact_host [done_work] ''operator'' 0 first_plan (empty_ledger\<lparr>lg_uuids := 1\<rparr>)
     = (Inr (second_plan, [plan_work ''uu'' [''u''] ''b'']), empty_ledger\<lparr>lg_uuids := 2\<rparr>)
   \<and> item_validate (plan_work ''uu'' [''u''] ''b'') = Inr ()
   \<and> in_plan_lane first_plan (plan_work ''uu'' [''u''] ''b'')"
  using created_when_ready [OF second_advance, of "plan_work ''uu'' [''u''] ''b''"] second_advance by simp

lemma broken_steps: "{i. doomed (mp_steps failed_plan) i} = {''b''}"
proof -
  have "{st \<in> set (mp_steps failed_plan). step_failed st} = {mp_steps failed_plan ! 1}"
    by (auto simp: step_failed_def run_simps)
  then have "failed_steps (mp_steps failed_plan) = {''b''}" by (simp add: failed_steps_def run_simps)
  moreover have "supersede_pass (mp_steps failed_plan) {''b''} = {''b''}"
    by (simp add: supersede_pass_def run_simps)
  ultimately have "supersede_loop (mp_steps failed_plan) (failed_steps (mp_steps failed_plan)) = {''b''}"
    by (simp add: supersede_loop.simps [of "mp_steps failed_plan" "{''b''}"])
  then show ?thesis by (simp add: supersede_exact)
qed

lemma example_replan: "append_replan ''again'' [third_spec] 0 failed_plan = Inr replanned_plan"
proof -
  have kept: "append_steps 0 {''a'', ''b''} [third_spec] (map (supersede 0 {''b''}) (mp_steps failed_plan)) = Inr (mp_steps replanned_plan)"
    by (simp add: supersede_def plan_defs validate_simps spec_defs)
  have "ms_step_id ` set (mp_steps failed_plan) = {''a'', ''b''}"
    by (simp add: plan_defs spec_defs step_from_spec_def)
  moreover have "plan_bump 0 (failed_plan\<lparr>mp_steps := mp_steps replanned_plan, mp_replan_count := mp_replan_count failed_plan + 1,
      mp_state := MP_Active, mp_last_error := Some ''again''\<rparr>) = replanned_plan"
    by (simp add: plan_defs)
  ultimately show ?thesis
    using kept broken_steps replanned_plan_valid
    by (simp add: append_replan_def check_ok supersede_exact Let_def manager_validate_text_def plan_bounds)
       (simp add: plan_defs)
qed

theorem replan_exact_witness:
  "append_replan ''again'' [third_spec] 0 failed_plan = Inr replanned_plan
   \<and> mp_state replanned_plan = MP_Active \<and> plan_validate replanned_plan = Inr ()
   \<and> replace_failed_steps ''again'' [''b''] [third_spec] 0 failed_plan = Inr replanned_plan"
  using replan_exact [OF example_replan, of "[''b'']"] broken_steps example_replan by simp

theorem reachable_plan_valid_witness:
  "plan_new ''p'' 7 ''/w'' ''lead'' ''ship'' ''root'' [first_spec, second_spec] 1 2 0 = Inr new_plan
   \<and> (plan_step exact_host)\<^sup>*\<^sup>* new_plan replanned_plan \<and> plan_validate replanned_plan = Inr ()
   \<and> same_plan new_plan replanned_plan"
proof -
  have "(plan_step exact_host)\<^sup>*\<^sup>* new_plan first_plan" using first_advance by (blast intro: plan_step.advanced)
  also have "plan_step exact_host first_plan second_plan" using second_advance by (rule plan_step.advanced)
  also have "plan_step exact_host second_plan failed_plan" using third_advance [of empty_ledger] by (rule plan_step.advanced)
  also have "plan_step exact_host failed_plan replanned_plan" using example_replan by (rule plan_step.replanned)
  finally have run: "(plan_step exact_host)\<^sup>*\<^sup>* new_plan replanned_plan" .
  then show ?thesis using reachable_plan_valid [OF new_plan_made run] new_plan_made by simp
qed

end
