(* ===== verification/Manager_Safety.thy ===== *)
theory Manager_Safety
  imports Manager_Progress Manager_Service Manager_Examples Ledger_Save Worker_Properties
begin

section \<open>Plans over the ledger\<close>

text \<open>
  The tools and the supervisor run on the stored plans and work, with every outcome of every
  write. A step of a plan never gets a second work item; of two changes of the same revision of a
  plan one is refused; an interrupted creation is finished when the store is opened.
\<close>

subsection \<open>Which work items an operation can leave\<close>

text \<open>
  \<open>held B\<close>: the stored items are in \<open>B\<close> or belong to no step: work of a manager's decision, and work that does
  not come from a plan, as the root of a plan. The same for each of the stores that hold the ledger.
\<close>

definition stepless :: "work_item \<Rightarrow> bool" where
  "stepless i \<longleftrightarrow> wi_kind i = ''manager-decision'' \<or> wi_source_manager_plan_id i = None"

definition held :: "work_item set \<Rightarrow> ledger \<Rightarrow> bool" where
  "held B l \<longleftrightarrow> set (dir_list (lg_items l)) \<subseteq> B \<union> Collect stepless"

definition held_plans :: "work_item set \<Rightarrow> manager_store \<Rightarrow> bool" where
  "held_plans B s \<longleftrightarrow> held B (mg_ledger s)"

definition held_mail :: "work_item set \<Rightarrow> mail_store \<Rightarrow> bool" where
  "held_mail B s \<longleftrightarrow> held B (ml_ledger s)"

definition held_control :: "work_item set \<Rightarrow> control_store \<Rightarrow> bool" where
  "held_control B s \<longleftrightarrow> held_plans B (ct_managers s)"

lemma held_frame [simp]:
  "held B (l\<lparr>lg_clock := n\<rparr>) = held B l" "held B (l\<lparr>lg_uuids := n\<rparr>) = held B l" "held B (l\<lparr>lg_writes := n\<rparr>) = held B l"
  by (simp_all add: held_def)

lemma held_put: "held B l \<Longrightarrow> w \<in> B \<or> stepless w \<Longrightarrow> lg_items m = dir_put k w (lg_items l) \<Longrightarrow> held B m"
  using dir_list_put [of k w "lg_items l"] by (auto simp: held_def)

lemma keeps_held [ledger_intro]:
  "keeps (held B) (now_op h)" "keeps (held B) (uuid_op h)"
  by (simp_all add: keeps_wp wp)

lemma held_same: "held B l \<Longrightarrow> lg_items m = lg_items l \<Longrightarrow> held B m"
  by (simp add: held_def)

lemma keeps_held_write: "w \<in> B \<or> stepless w \<Longrightarrow> keeps (held B) (write_work_item h w)"
  unfolding keeps_wp by (blast intro: wp_mono [OF wp_put_work] held_put held_same)

lemma keeps_held_save: "w \<in> B \<or> stepless w \<Longrightarrow> keeps (held B) (save_work_item h w)"
  unfolding keeps_wp by (blast intro: wp_mono [OF wp_save_item] held_put held_same)

lemma keeps_part:
  assumes "keeps I m" shows "keeps (\<lambda>s. I (mg_ledger s)) (manager_ledger m)"
  using assms by (auto simp: keeps_def part_op_def split: prod.split)

lemma keeps_held_plans [ledger_intro]: "keeps (held B) m \<Longrightarrow> keeps (held_plans B) (manager_ledger m)"
  using keeps_part [of "held B" m] by (simp add: held_plans_def [abs_def])

lemma keeps_held_durable [ledger_intro]:
  "(\<And>s. mg_ledger (f s) = mg_ledger s) \<Longrightarrow> keeps (held_plans B) (manager_durable h f)"
  unfolding keeps_wp by (auto simp: held_plans_def count_write_in_def intro!: wp_part_durable)

lemma keeps_in_managers [ledger_intro]: "keeps (held_plans B) m \<Longrightarrow> keeps (held_control B) (in_managers m)"
  by (auto simp: keeps_def in_managers_def held_control_def split: prod.split)

lemma keeps_in_mail [ledger_intro]: "keeps (held_mail B) m \<Longrightarrow> keeps (held_control B) (in_mail m)"
  by (auto simp: keeps_def in_mail_def held_control_def held_plans_def held_mail_def split: prod.split)
     (metis mail_store.select_convs(1) snd_conv)

lemma keeps_try [ledger_intro]: "keeps I m \<Longrightarrow> keeps I (try_op m)"
  by (auto simp: keeps_def try_op_def split: prod.split)

subsection \<open>Operations that create no work for a step\<close>

lemma keeps_held_mail_durable [ledger_intro]:
  "(\<And>s. ml_ledger (f s) = ml_ledger s) \<Longrightarrow> keeps (held_mail B) (mail_durable env f)"
  unfolding keeps_wp by (auto simp: held_mail_def count_write_in_def intro!: wp_part_durable)

lemma keeps_held_on_ledger [ledger_intro]: "keeps (held B) m \<Longrightarrow> keeps (held_mail B) (on_ledger m)"
  by (auto simp: keeps_def part_op_def held_mail_def split: prod.split)

lemma keeps_held_seq [ledger_intro]: "keeps (held_mail B) (write_seq env t)"
  by (auto simp: keeps_def write_seq_def Let_def held_mail_def count_write_in_def split: write_outcome.split option.split)

lemma keeps_held_remove [ledger_intro]: "keeps (held_mail B) (remove_message env m)"
proof -
  have "keeps (held_mail B) (\<lambda>s. (Inr (), snd (mail_durable env (\<lambda>s. s\<lparr>ml_messages := dir_del k (ml_messages s)\<rparr>) s)))" for k
    using keeps_held_mail_durable [of "\<lambda>s. s\<lparr>ml_messages := dir_del k (ml_messages s)\<rparr>" B env] by (simp add: keeps_def)
  then show ?thesis unfolding remove_message_def by (intro ledger_intro)
qed

lemma keeps_held_send [ledger_intro]: "keeps (held_mail B) (send_message_once env m)"
  unfolding send_message_once_def send_message_def load_message_def require_optional_agent_def next_message_seq_def
    put_message_def prune_messages_def
  by (intro ledger_intro) simp_all

lemma keeps_held_reads [ledger_intro]:
  "keeps (held_plans B) (load_manager_plan i)" "keeps (held_plans B) (load_manager_decision c i)"
  "keeps (held_plans B) list_manager_plans" "keeps (held_plans B) (load_manager_plan_scoped sid ws i)"
  "keeps (held_plans B) (validate_manager_assignments h ceiling p ws only)"
  unfolding load_manager_plan_def load_manager_decision_def list_manager_plans_def load_manager_plan_scoped_def
    validate_manager_assignments_def validate_step_assignment_def
  by (auto intro!: ledger_intro split: sum.split option.split)

lemma keeps_held_saves [ledger_intro]:
  "keeps (held_plans B) (save_manager_plan h p)" "keeps (held_plans B) (save_manager_decision h c d)"
  unfolding save_manager_plan_def save_manager_decision_def by (auto intro!: ledger_intro)

lemma keeps_new_items [ledger_intro]: "keeps I (new_items is)"
  by (induction "is") (auto intro!: ledger_intro)

lemma keeps_validate_batch [ledger_intro]: "keeps I (validate_work_items_for_save h items)"
  unfolding validate_work_items_for_save_def validate_batch_item_def by (intro ledger_intro)

lemma keeps_held_batch:
  assumes "set items \<subseteq> B"
  shows "keeps (held_plans B) (save_manager_plan_with_work_cas h p expected items)"
  unfolding save_manager_plan_with_work_cas_def save_manager_plan_with_work_def write_batch_def
  by (intro ledger_intro keeps_held_write) (use assms in auto)

lemma keeps_held_cas [ledger_intro]: "keeps (held_plans B) (save_manager_plan_cas h p expected)"
  unfolding save_manager_plan_cas_def by (rule keeps_held_batch) simp

lemma keeps_held_materialize: "keeps (held B) (materialize h p obs actor now capacity sts)"
  by (induction h p obs actor now capacity sts rule: materialize.induct) (auto intro!: ledger_intro)

lemma keeps_held_advance [ledger_intro]: "keeps (held B) (advance h items actor now p)"
  unfolding advance_def by (intro ledger_intro keeps_held_materialize)

lemma keeps_held_modify [ledger_intro]: "keeps (held_control B) (modify (\<lambda>s. s\<lparr>ct_cursor := c\<rparr>))"
  by (simp add: keeps_wp wp held_control_def)

lemma keeps_held_notifications:
  "keeps (held_control B) clock \<Longrightarrow> keeps (held_control B) (persist_notifications env p actor clock ns)"
  by (induction ns) (auto simp: persist_manager_notification_def intro!: ledger_intro)

lemma keeps_pure_bind: "(\<And>x. r = Inr x \<Longrightarrow> keeps I (f x)) \<Longrightarrow> keeps I (bindE (lift r) f)"
  by (auto simp: keeps_wp wp split: sum.split)

lemma keeps_held_new_decision [ledger_intro]: "keeps (held_plans B) (new_decision env p spec i snap now)"
proof -
  have save: "keeps (held_plans B) (save_manager_decision_with_work h c d w)"
    if "stepless w" for h c d w
    unfolding save_manager_decision_with_work_def by (intro ledger_intro keeps_held_save) (use that in auto)
  have kind: "item_new_at fresh ''manager-decision'' obj sid ws a pol now = Inr w \<Longrightarrow> wi_kind w = ''manager-decision''"
    for fresh obj sid ws a pol w
    by (auto simp: item_new_at_def rbind_ok Let_def)
  show ?thesis
    unfolding new_decision_def Let_def
    by (intro keeps_pure_bind keeps_bindE keeps_thenE keeps_held_plans keeps_held keeps_simple save) (simp add: kind stepless_def)
qed

lemma keeps_sum [ledger_intro]:
  "(\<And>e. r = Inl e \<Longrightarrow> keeps I (f e)) \<Longrightarrow> (\<And>x. r = Inr x \<Longrightarrow> keeps I (g x)) \<Longrightarrow> keeps I (case r of Inl e \<Rightarrow> f e | Inr x \<Rightarrow> g x)"
  by (cases r) simp_all

lemma keeps_held_envelope [ledger_intro]: "keeps (held_plans B) (validate_manager_directive_envelope env d e)"
  unfolding validate_manager_directive_envelope_def by (intro ledger_intro)

lemma keeps_held_settle [ledger_intro]:
  "keeps (held_plans B) (settle_decision env d st outcome ids now)" "keeps (held_control B) (reject_decision env d outcome now report)"
  unfolding settle_decision_def reject_decision_def by (intro ledger_intro)+

lemma keeps_held_apply [ledger_intro]: "keeps (held_control B) (apply_manager_directive env p d e now report)"
proof -
  have "keeps (held_plans B) (apply_replacement env p d reason replaces steps now)" for reason replaces steps
    unfolding apply_replacement_def by (intro ledger_intro)
  moreover have "keeps (held_control B) (request_intervention env p d reason now)" for reason
    unfolding request_intervention_def by (intro ledger_intro)
  ultimately show ?thesis
    unfolding apply_manager_directive_def by (cases "de_directive e") (auto intro!: ledger_intro)
qed

lemma keeps_held_decide [ledger_intro]: "keeps (held_control B) (decide env p d e now report)"
  unfolding decide_def by (intro ledger_intro)

lemma keeps_held_directive [ledger_intro]: "keeps (held_control B) (read_directive env p d work now report)"
  unfolding read_directive_def by (intro ledger_intro)

lemma keeps_held_converge [ledger_intro]: "keeps (held_control B) (converge_manager_decision env p now report)"
  unfolding converge_manager_decision_def continue_decision_def by (intro ledger_intro)

subsection \<open>One work item per step\<close>

definition one_per_step :: "manager_plan \<Rightarrow> work_item set \<Rightarrow> bool" where
  "one_per_step p A \<longleftrightarrow> (\<forall>i \<in> A. \<forall>j \<in> A. child_of_plan p i \<and> child_of_plan p j \<and> wi_source_manager_step_id i \<noteq> None
     \<and> wi_source_manager_step_id i = wi_source_manager_step_id j \<longrightarrow> wi_work_id i = wi_work_id j)"

lemma one_per_stepD:
  "one_per_step p A \<Longrightarrow> i \<in> A \<Longrightarrow> j \<in> A \<Longrightarrow> child_of_plan p i \<Longrightarrow> child_of_plan p j
    \<Longrightarrow> wi_source_manager_step_id i = Some st \<Longrightarrow> wi_source_manager_step_id j = Some st \<Longrightarrow> wi_work_id i = wi_work_id j"
  unfolding one_per_step_def by (metis option.distinct(1))

abbreviation stored_work :: "control_store \<Rightarrow> work_item set" where
  "stored_work s \<equiv> set (dir_list (lg_items (mg_ledger (ct_managers s))))"

lemma held_control_iff: "held_control B s \<longleftrightarrow> stored_work s \<subseteq> B \<union> Collect stepless"
  by (simp add: held_control_def held_plans_def held_def)

lemma child_steps: "child_of_plan p i \<Longrightarrow> \<not> stepless i"
  by (simp add: child_of_plan_def stepless_def)

lemma held_one: "held_control B s \<Longrightarrow> one_per_step p B \<Longrightarrow> one_per_step p (stored_work s)"
  unfolding one_per_step_def held_control_iff using child_steps by blast

lemma advance_one:
  assumes adv: "advance h items actor now P l = (Inr (q, created), m)" and valid: "plan_validate P = Inr ()"
    and one: "one_per_step p (set items)"
  shows "one_per_step p (set items \<union> set created)"
proof -
  have same: "child_of_plan P i" if w: "w \<in> set created" "child_of_plan p w" and i: "child_of_plan p i" for w i
  proof -
    have "created \<noteq> []" using w by auto
    with adv obtain obs where made: "\<And>w. w \<in> set created \<Longrightarrow> \<exists>st \<in> set obs. \<exists>m. mp_plan_id m = mp_plan_id P
        \<and> mp_root_work_id m = mp_root_work_id P \<and> in_plan_lane m = in_plan_lane P \<and> made_for m obs actor now st w"
      by (rule advance_created) blast
    from made [OF w(1)] obtain m st fresh where m: "mp_plan_id m = mp_plan_id P" "mp_root_work_id m = mp_root_work_id P" "in_plan_lane m = in_plan_lane P"
      and "step_work m obs fresh actor now st = Inr w"
      by (auto simp: made_for_def)
    from step_work_run [OF this(4)] m have "in_plan_lane P w" "wi_source_manager_plan_id w = Some (mp_plan_id P)"
      "wi_parent_work_id w = Some (mp_root_work_id P)" by simp_all
    then show ?thesis using w(2) i by (auto simp: child_of_plan_def in_plan_lane_def)
  qed
  have cross: "wi_source_manager_step_id i \<noteq> wi_source_manager_step_id w"
    if "i \<in> set items" "w \<in> set created" "child_of_plan p i" "child_of_plan p w" for i w
    using no_twin_work [OF adv] same that by blast
  have "i = j" if "i \<in> set created" "j \<in> set created" "wi_source_manager_step_id i = wi_source_manager_step_id j" for i j
    using created_distinct [OF adv valid] that by (auto simp: distinct_map inj_on_def)
  then show ?thesis using one cross unfolding one_per_step_def by (metis Un_iff)
qed

lemma wp_in_managers [wp]:
  "wp (in_managers m) Q E s = wp m (\<lambda>x t. Q x (s\<lparr>ct_managers := t\<rparr>)) (\<lambda>e t. E e (s\<lparr>ct_managers := t\<rparr>)) (ct_managers s)"
  by (auto simp: wp_def in_managers_def split: prod.splits sum.splits)

abbreviation wp_one :: "manager_plan \<Rightarrow> 'a control_op \<Rightarrow> control_store \<Rightarrow> bool" where
  "wp_one p m s \<equiv> wp m (\<lambda>_ t. one_per_step p (stored_work t)) (\<lambda>_ t. one_per_step p (stored_work t)) s"

lemma held_wp_one: "keeps (held_control B) m \<Longrightarrow> held_control B s \<Longrightarrow> one_per_step p B \<Longrightarrow> wp_one p m s"
  by (rule wp_mono [OF keepsD [of "held_control B"]]) (auto intro: held_one)

lemma held_stored: "held_control (stored_work s) s"
  by (simp add: held_control_iff)

lemma wp_one_then:
  assumes "one_per_step p (stored_work s)" "\<And>B. keeps (held_control B) m" "\<And>x u. one_per_step p (stored_work u) \<Longrightarrow> wp_one p (f x) u"
  shows "wp_one p (bindE m f) s"
  by (rule wp_bind_keeps [OF assms(2) [of "stored_work s"]]) (auto intro: held_stored held_one assms)

lemma wp_listed:
  assumes one: "one_per_step p (stored_work s)"
    and rest: "\<And>items. one_per_step p (set items) \<Longrightarrow> held_control (set items) s \<Longrightarrow> wp_one p (K items) s"
  shows "wp_one p (bindE (map_err internal_of (in_managers (manager_ledger list_work_items))) K) s"
proof -
  have "wp_one p (K items) s" if "validated item_validate (dir_list (lg_items (mg_ledger (ct_managers s)))) = Inr xs" "items = order_work xs" for items xs
    using rest [of items] one validated_ok [OF that(1)] that(2) held_stored [of s] by simp
  then show ?thesis using one
    by (auto simp: wp list_work_items_def rbind_def split: sum.split)
qed

lemma wp_advanced:
  assumes valid: "plan_validate P = Inr ()" and one: "one_per_step p (set items)" and s: "held_control (set items) s"
    and rest: "\<And>q created. keeps (held_control (set items \<union> set created)) (K (q, created))"
  shows "wp_one p (bindE (in_managers (manager_ledger (advance h items actor now P))) K) s"
proof -
  let ?l = "mg_ledger (ct_managers s)"
  have "held (set items) (snd (advance h items actor now P ?l))"
    using keeps_held_advance s unfolding keeps_def held_control_def held_plans_def by blast
  then have held: "held_control (set items) (s\<lparr>ct_managers := (ct_managers s)\<lparr>mg_ledger := snd (advance h items actor now P ?l)\<rparr>\<rparr>)"
    by (simp add: held_control_def held_plans_def)
  have later: "held_control (set items \<union> set created) u" if "held_control (set items) u" for created u
    using that by (auto simp: held_control_iff)
  obtain r l where run: "advance h items actor now P ?l = (r, l)" by fastforce
  show ?thesis
  proof (cases r)
    case (Inl e)
    then show ?thesis using held_one [OF held one] run
      by (simp add: wp_def bindE_def in_managers_def part_op_def)
  next
    case (Inr x)
    obtain q created where x: "x = (q, created)" by fastforce
    have "wp_one p (K (q, created)) (s\<lparr>ct_managers := (ct_managers s)\<lparr>mg_ledger := l\<rparr>\<rparr>)"
      using run Inr x later [OF held, of created] by (intro held_wp_one [OF rest] advance_one [OF _ valid one]) auto
    then show ?thesis using run Inr x by (simp add: bindE_def wp_def in_managers_def part_op_def)
  qed
qed

lemma wp_loaded:
  assumes "one_per_step p (stored_work s)" "\<And>P. plan_validate P = Inr () \<Longrightarrow> wp_one p (K P) s"
  shows "wp_one p (bindE (in_managers (load_manager_plan_scoped sid ws i)) K) s"
  using assms by (auto simp: wp load_manager_plan_scoped_def load_manager_plan_def split: sum.split option.split)

lemma in_managers_simps:
  "in_managers (bindE m f) = bindE (in_managers m) (\<lambda>x. in_managers (f x))"
  "in_managers (thenE m1 k) = thenE (in_managers m1) (in_managers k)"
  "in_managers (lift r) = lift r" "in_managers (ret x) = ret x"
  "in_managers (map_err g m2) = map_err g (in_managers m2)"
  "in_managers (case pair of (x, y) \<Rightarrow> h x y) = (case pair of (x, y) \<Rightarrow> in_managers (h x y))"
  by (auto simp: in_managers_def bindE_def thenE_def lift_def ret_def map_err_def fun_eq_iff split: prod.splits sum.splits)

lemma wp_one_lift:
  "one_per_step p (stored_work s) \<Longrightarrow> wp_one p k s \<Longrightarrow> wp_one p (thenE (lift r) k) s"
  by (auto simp: wp split: sum.split)

lemma wp_one_thenE:
  assumes "one_per_step p (stored_work s)" "\<And>B. keeps (held_control B) m" "\<And>u. one_per_step p (stored_work u) \<Longrightarrow> wp_one p k u"
  shows "wp_one p (thenE m k) s"
  unfolding thenE_def using assms by (intro wp_one_then)

lemma held_rest:
  assumes "held_control (set items) s" "one_per_step p (set items)" "\<And>B. keeps (held_control B) m"
    "\<And>x u. held_control (set items) u \<Longrightarrow> wp_one p (f x) u"
  shows "wp_one p (bindE m f) s"
  by (rule wp_bind_keeps [OF assms(3,1)]) (auto intro: held_one assms)

lemma advance_tool_one:
  assumes "one_per_step p (stored_work s)"
  shows "wp_one p (in_managers (advance_manager_plan h ceiling actor sid ws i expected)) s"
  unfolding advance_manager_plan_def in_managers_simps
  by (intro wp_loaded wp_one_lift wp_one_thenE wp_listed held_rest wp_advanced ledger_intro assms
      keeps_in_managers [OF keeps_held_batch]) auto

lemma wp_advanced_if:
  assumes "plan_validate P = Inr ()" "one_per_step p (set items)" "held_control (set items) s"
    and "\<And>q created. keeps (held_control (set items \<union> set created)) (K (q, created))"
  shows "wp_one p (bindE (advance_if_active env items actor now P) K) s"
proof (cases "mp_state P = MP_Active")
  case True
  then show ?thesis using wp_advanced [OF assms] by (simp add: advance_if_active_def)
next
  case False
  have "wp_one p (K (P, [])) s" using held_wp_one [OF assms(4) [where q = P and created = "[]"]] assms(2,3) by simp
  then show ?thesis using False by (simp add: advance_if_active_def wp)
qed

lemma tick_tool_one:
  assumes "one_per_step p (stored_work s)"
  shows "wp_one p (tick_manager_plan env actor sid ws i expected) s"
  unfolding tick_manager_plan_def
  by (intro wp_loaded wp_one_lift wp_one_thenE wp_listed held_rest wp_advanced_if ledger_intro assms
      keeps_in_managers [OF keeps_held_batch] keeps_held_notifications) auto

lemma replan_tool_one:
  assumes "one_per_step p (stored_work s)"
  shows "wp_one p (in_managers (replan_manager_plan h ceiling sid ws i reason steps expected)) s"
  unfolding replan_manager_plan_def by (intro held_wp_one [OF _ held_stored] ledger_intro assms)

lemma create_tool_one:
  assumes "one_per_step p (stored_work s)"
  shows "wp_one p (in_managers (create_manager_plan h ceiling session_agent actor sid ws agent objective steps m r auto)) s"
proof -
  have root: "keeps (held_plans B) (save_manager_plan_with_root h q root)" if "stepless root" for B q root
    unfolding save_manager_plan_with_root_def commit_manager_creation_intent_def
    by (intro ledger_intro keeps_held_save) (simp_all add: that)
  have new: "item_new_at fresh ''manager-plan'' objective sid ws actor pol now = Inr w \<Longrightarrow> stepless (container_root now' w)"
    for fresh pol now now' w
    by (auto simp: item_new_at_def rbind_ok Let_def stepless_def container_root_def bump_at_def)
  have "keeps (held_plans B) (create_manager_plan h ceiling session_agent actor sid ws agent objective steps m r auto)" for B
    unfolding create_manager_plan_def Let_def
    by (intro keeps_pure_bind ledger_intro root new) assumption
  then show ?thesis by (intro held_wp_one [OF _ held_stored] ledger_intro assms)
qed

lemma process_one:
  assumes "one_per_step p (stored_work s)" "plan_validate P = Inr ()"
  shows "wp_one p (process_autonomous_manager_plan env P now budget report) s"
  unfolding process_autonomous_manager_plan_def Let_def
  by (intro wp_one_thenE wp_listed wp_advanced_if ledger_intro assms
      keeps_in_managers [OF keeps_held_batch] keeps_held_notifications) auto

lemma wp_one_bind:
  assumes "wp_one p m s" "\<And>x u. one_per_step p (stored_work u) \<Longrightarrow> wp_one p (f x) u"
  shows "wp_one p (bindE m f) s"
  unfolding wp_bindE by (rule wp_mono [OF assms(1)]) (auto intro: assms(2))

lemma plans_one:
  assumes "one_per_step p (stored_work s)" "\<forall>P \<in> set ps. plan_validate P = Inr ()"
  shows "wp_one p (process_plans env now n report ps) s"
  using assms
proof (induction env now n report ps arbitrary: s rule: process_plans.induct)
  case (2 env now n report P ps)
  show ?case
  proof (cases "MAX_MANAGER_OBSERVATIONS_PER_PASS - n < MAX_MANAGER_IN_FLIGHT")
    case True
    then show ?thesis using 2(2) by (simp add: wp)
  next
    case False
    then have "wp_one p (case x of (consumed, after) \<Rightarrow> process_plans env now (n + consumed)
        (after\<lparr>sr_plans_processed := sr_plans_processed after + 1\<rparr>) ps) u"
      if "one_per_step p (stored_work u)" for x u
      using 2(1) [OF refl False] 2(3) that by (cases x) auto
    with False 2(3) show ?thesis
      by (auto simp: Let_def intro!: wp_one_thenE wp_one_bind process_one ledger_intro 2(2))
  qed
qed (simp add: wp)

lemma validated_records_ok: "validated_records v xs = Inr ys \<Longrightarrow> ys = xs \<and> (\<forall>x \<in> set xs. v x = Inr ())"
  by (induction xs arbitrary: ys) (auto simp: rbind_ok)

lemma pass_one:
  assumes "one_per_step p (stored_work s)"
  shows "wp_one p (manager_supervisor_pass env now) s"
proof -
  have sub: "set (take n (from_cursor c (sort_key mp_plan_id (filter f (sort_by g ps))))) \<subseteq> set ps" for n c f g ps
    by (auto simp: from_cursor_def Let_def set_sort_by split: option.splits dest!: in_set_takeD in_set_dropD)
  have "wp_one p (process_plans env now 0 report (take n (from_cursor c (sort_key mp_plan_id (filter f (sort_by g ps)))))) s"
    if "validated_records plan_validate xs = Inr ps" for n c f g ps report xs
    by (rule plans_one [OF assms]) (use sub [of n c f g ps] validated_records_ok [OF that] in blast)
  then show ?thesis
    using assms by (auto simp: manager_supervisor_pass_def list_manager_plans_def wp Let_def split: sum.split)
qed

text \<open>
  The coordination of plans: the tools and a pass of the supervisor, whatever their outcome, and between
  them any change of work items that keeps where an item comes from or does not come from a plan.
\<close>

definition same_origin :: "work_item \<Rightarrow> work_item \<Rightarrow> bool" where
  "same_origin i j \<longleftrightarrow> wi_work_id i = wi_work_id j \<and> wi_kind i = wi_kind j \<and> wi_session_id i = wi_session_id j
     \<and> wi_workspace i = wi_workspace j \<and> wi_parent_work_id i = wi_parent_work_id j
     \<and> wi_source_manager_plan_id i = wi_source_manager_plan_id j
     \<and> wi_source_manager_step_id i = wi_source_manager_step_id j"

inductive coordinate :: "manager_env \<Rightarrow> control_store \<Rightarrow> control_store \<Rightarrow> bool" for env where
  created: "coordinate env s (snd (in_managers (create_manager_plan (mv_host env) (mv_ceiling env) session_agent actor sid ws
     agent objective steps m r auto) s))"
| advanced: "coordinate env s (snd (in_managers (advance_manager_plan (mv_host env) (mv_ceiling env) actor sid ws i expected) s))"
| ticked: "coordinate env s (snd (tick_manager_plan env actor sid ws i expected s))"
| replanned: "coordinate env s (snd (in_managers (replan_manager_plan (mv_host env) (mv_ceiling env) sid ws i reason steps expected) s))"
| supervised: "coordinate env s (snd (manager_supervisor_pass env now s))"
| worked: "(\<And>i. i \<in> stored_work t \<Longrightarrow> stepless i \<or> (\<exists>j \<in> stored_work s. same_origin i j)) \<Longrightarrow> coordinate env s t"

lemma wp_one_snd: "wp_one p m s \<longleftrightarrow> one_per_step p (stored_work (snd (m s)))"
  by (cases "m s"; cases "fst (m s)") (auto simp: wp_def)

lemma worked_one:
  assumes t: "\<And>i. i \<in> A \<Longrightarrow> stepless i \<or> (\<exists>j \<in> C. same_origin i j)" and one: "one_per_step p C"
  shows "one_per_step p A"
  unfolding one_per_step_def
proof (intro ballI impI)
  fix i j
  assume ij: "i \<in> A" "j \<in> A" and c: "child_of_plan p i \<and> child_of_plan p j \<and> wi_source_manager_step_id i \<noteq> None
    \<and> wi_source_manager_step_id i = wi_source_manager_step_id j"
  have origin: "same_origin x y \<Longrightarrow> child_of_plan p x = child_of_plan p y" for x y
    by (simp add: same_origin_def child_of_plan_def in_plan_lane_def)
  obtain i' j' where o: "i' \<in> C" "j' \<in> C" "same_origin i i'" "same_origin j j'"
    using t [OF ij(1)] t [OF ij(2)] c child_steps by blast
  then have "wi_work_id i' = wi_work_id j'"
    using one c origin [OF o(3)] origin [OF o(4)] unfolding one_per_step_def same_origin_def by metis
  then show "wi_work_id i = wi_work_id j" using o(3,4) by (simp add: same_origin_def)
qed

lemma coordinate_one: "one_per_step p (stored_work s) \<Longrightarrow> coordinate env s t \<Longrightarrow> one_per_step p (stored_work t)"
proof (erule coordinate.cases)
  show "\<And>s' t'. \<lbrakk>one_per_step p (stored_work s); s = s'; t = t';
      \<And>i. i \<in> stored_work t' \<Longrightarrow> stepless i \<or> (\<exists>j \<in> stored_work s'. same_origin i j)\<rbrakk> \<Longrightarrow> one_per_step p (stored_work t)"
    using worked_one by blast
qed (auto simp flip: wp_one_snd intro: create_tool_one advance_tool_one tick_tool_one replan_tool_one pass_one)

interpretation coordination: invariant_machine "\<lambda>s. one_per_step p (stored_work s)" "coordinate env"
  "\<lambda>s. one_per_step p (stored_work s)" for env p
  by unfold_locales (auto intro: coordinate_one)

text \<open>
  C16. A step of a plan never gets a second work item. Whatever sequence of creating, advancing, ticking,
  replanning and supervising runs, with every outcome of every write, and however the work items are worked on in
  between, two stored items of the same step of a plan are the same item.
\<close>

theorem one_work_per_step:
  assumes start: "one_per_step p (stored_work s)" and run: "(coordinate env)\<^sup>*\<^sup>* s t"
    and i: "i \<in> stored_work t" "child_of_plan p i" "wi_source_manager_step_id i = Some step"
    and j: "j \<in> stored_work t" "child_of_plan p j" "wi_source_manager_step_id j = Some step"
  shows "wi_work_id i = wi_work_id j"
  by (rule one_per_stepD [OF coordination.run_inv [OF run start] i(1) j(1) i(2) j(2) i(3) j(3)])

end
