(* ===== verification/Manager_Commit.thy ===== *)
theory Manager_Commit
  imports Manager_Safety Run_Rules
begin

section \<open>Commits of plans\<close>

text \<open>
  The compare-and-swap on the revision of a plan, and the creation of a plan with its root work item
  behind an intent, for every outcome of the writes.
\<close>

subsection \<open>Compare and swap\<close>

lemma load_plan_reads: "\<exists>r. load_manager_plan i s = (r, s)"
  by (auto simp: load_manager_plan_def bindE_def thenE_def gets_def lift_def ret_def split: sum.split option.split)

lemma load_plan_run:
  "load_manager_plan i s = (Inr (Some p), t) \<longleftrightarrow>
     safe_id_filename i = Inr i \<and> dir_get (mg_plans s) i = Some p \<and> plan_validate p = Inr () \<and> t = s"
  by (auto simp: load_manager_plan_def ok_run dest: safe_id_filename_same split: sum.splits option.splits)

lemma manager_ledger_ok:
  "manager_ledger m s = (Inr x, t) \<longleftrightarrow> (\<exists>l. m (mg_ledger s) = (Inr x, l) \<and> t = s\<lparr>mg_ledger := l\<rparr>)"
  by (auto simp: part_op_def split: prod.splits)

lemma manager_durable_ok: "manager_durable h f s = (Inr u, t) \<Longrightarrow> t = f (count_write_in mg_ledger_update s)"
  by (auto simp: part_durable_def split: write_outcome.splits)

lemma save_plan_run:
  assumes "save_manager_plan h p s = (Inr (), t)"
  shows "plan_validate p = Inr ()" "safe_id_filename (mp_plan_id p) = Inr (mp_plan_id p)"
    "mg_plans t = dir_put (mp_plan_id p) p (mg_plans s)" "lg_items (mg_ledger t) = lg_items (mg_ledger s)"
proof -
  from assms obtain k where valid: "plan_validate p = Inr ()" and k: "safe_id_filename (mp_plan_id p) = Inr k"
    and t: "t = (count_write_in mg_ledger_update s)\<lparr>mg_plans := dir_put k p (mg_plans s)\<rparr>"
    by (auto simp: save_manager_plan_def ok_run count_write_in_def dest!: manager_durable_ok)
  from safe_id_filename_same [OF k] k t valid show "plan_validate p = Inr ()"
    "safe_id_filename (mp_plan_id p) = Inr (mp_plan_id p)" "mg_plans t = dir_put (mp_plan_id p) p (mg_plans s)"
    "lg_items (mg_ledger t) = lg_items (mg_ledger s)"
    by (simp_all add: count_write_in_def)
qed

lemma write_item_run:
  "write_work_item h w l = (Inr (), m) \<Longrightarrow> lg_items m = dir_put (wi_work_id w) w (lg_items l)"
  using wp_put_work [of h w l] by (simp add: wp_def)

lemma batch_run:
  "write_batch h items s = (Inr (), t) \<Longrightarrow> distinct (map wi_work_id items) \<Longrightarrow>
     (\<forall>i \<in> set items. dir_get (lg_items (mg_ledger t)) (wi_work_id i) = Some i)
     \<and> (\<forall>k. k \<notin> wi_work_id ` set items \<longrightarrow> dir_get (lg_items (mg_ledger t)) k = dir_get (lg_items (mg_ledger s)) k)"
proof (induction items arbitrary: s)
  case (Cons w ws)
  then obtain l where l: "write_work_item h w (mg_ledger s) = (Inr (), l)"
    and rest: "write_batch h ws (s\<lparr>mg_ledger := l\<rparr>) = (Inr (), t)"
    by (auto simp: write_batch_def ok_run manager_ledger_ok)
  then show ?case using Cons.IH [OF rest] Cons.prems(2) write_item_run [OF l] by (auto simp: image_iff)
qed (simp add: write_batch_def ok_run)

text \<open>
  C17. Changes of a plan are serialized by its revision. A change that is accepted was computed from the stored
  revision; it stores the plan and every work item of the batch, each under its id; and while this plan
  is stored, a change computed from any other revision is refused as stale and writes nothing.
\<close>

theorem plan_cas_serializes:
  assumes save: "save_manager_plan_with_work_cas h q expected items s = (Inr (), t)"
    and ids: "distinct (map wi_work_id items)"
  shows "(\<exists>p. load_manager_plan (mp_plan_id q) s = (Inr (Some p), s) \<and> mp_revision p = expected)
    \<and> load_manager_plan (mp_plan_id q) t = (Inr (Some q), t)
    \<and> (\<forall>i \<in> set items. dir_get (lg_items (mg_ledger t)) (wi_work_id i) = Some i)
    \<and> (mp_plan_id r = mp_plan_id q \<and> mp_revision q \<noteq> other \<longrightarrow>
         save_manager_plan_with_work_cas g r other more_items t
           = (Inl (orch_error_new StaleVersion ''manager plan changed before the mutation could be committed''), t))"
proof -
  from save obtain p u v where p: "load_manager_plan (mp_plan_id q) s = (Inr (Some p), s)" "mp_revision p = expected"
    and u: "write_batch h items u = (Inr (), v)" "save_manager_plan h q v = (Inr (), t)"
    using load_plan_reads [of "mp_plan_id q" s]
    by (auto simp: save_manager_plan_with_work_cas_def save_manager_plan_with_work_def ok_run split: if_splits)
  have loaded: "load_manager_plan (mp_plan_id q) t = (Inr (Some q), t)"
    using save_plan_run [OF u(2)] by (simp add: load_plan_run)
  have "\<forall>i \<in> set items. dir_get (lg_items (mg_ledger t)) (wi_work_id i) = Some i"
    using batch_run [OF u(1) ids] save_plan_run(4) [OF u(2)] by simp
  then show ?thesis using p loaded
    by (auto simp: save_manager_plan_with_work_cas_def bindE_def some_or_def raise_def ret_def)
qed

subsection \<open>Creation\<close>

text \<open>The three outcomes of a creation, as the disk shows them.\<close>

definition untouched :: "manager_store \<Rightarrow> manager_store \<Rightarrow> bool" where
  "untouched s t \<longleftrightarrow> mg_intents t = [] \<and> mg_plans t = mg_plans s \<and> lg_items (mg_ledger t) = lg_items (mg_ledger s)"

definition pending_creation :: "manager_plan \<Rightarrow> work_item \<Rightarrow> manager_store \<Rightarrow> bool" where
  "pending_creation p root t \<longleftrightarrow> mg_intents t = [(mp_plan_id p, \<lparr>ci_plan = p, ci_root_work = root\<rparr>)]
     \<and> plan_validate p = Inr () \<and> item_validate root = Inr () \<and> safe_id_filename (mp_plan_id p) = Inr (mp_plan_id p)"

definition both_stored :: "manager_plan \<Rightarrow> work_item \<Rightarrow> manager_store \<Rightarrow> bool" where
  "both_stored p root t \<longleftrightarrow> dir_get (mg_plans t) (mp_plan_id p) = Some p
     \<and> dir_get (lg_items (mg_ledger t)) (wi_work_id root) = Some root"

lemma wp_commit_creation:
  assumes s: "pending_creation p root s"
  shows "wp (commit_manager_creation_intent h \<lparr>ci_plan = p, ci_root_work = root\<rparr>)
    (\<lambda>_ t. pending_creation p root t \<and> both_stored p root t)
    (\<lambda>_ t. \<not> (writes_reliably h \<and> fst (validate_work_item_for_save h root (mg_ledger s)) = Inr ())
       \<and> pending_creation p root t) s"
proof -
  let ?C = "writes_reliably h \<and> fst (validate_work_item_for_save h root (mg_ledger s)) = Inr ()"
  let ?E = "\<lambda>_ t. \<not> ?C \<and> pending_creation p root t"
  have plan: "wp (save_manager_plan h p) (\<lambda>_ t. pending_creation p root t \<and> both_stored p root t) ?E t"
    if "pending_creation p root t" "dir_get (lg_items (mg_ledger t)) (wi_work_id root) = Some root" for t
    using that
    by (auto simp: save_manager_plan_def wp pending_creation_def both_stored_def count_write_in_def
        intro!: wp_part_durable)
  have save: "wp (save_work_item h root) (\<lambda>_ m. dir_get (lg_items m) (wi_work_id root) = Some root) (\<lambda>_ _. \<not> ?C) (mg_ledger s)"
  proof (cases ?C)
    case True
    have "validate_work_item_for_save h root (mg_ledger s) = (Inr (), mg_ledger s)"
      using True keeps_validate_for_save [of "\<lambda>l. l = mg_ledger s" h root]
      by (simp add: keeps_def prod_eq_iff)
    moreover have "safe_id_filename (wi_work_id root) = Inr (wi_work_id root)"
      using s item_validate_id safe_id_filename_valid unfolding pending_creation_def by blast
    ultimately show ?thesis using True
      by (simp add: save_work_item_def write_work_item_def work_path_def wp_def thenE_def bindE_def map_err_def lift_def
          durable_def writes_reliably_def Let_def)
  next
    case False
    then show ?thesis by (intro wp_mono [OF wp_save_item]) auto
  qed
  have moved: "pending_creation p root (s\<lparr>mg_ledger := l\<rparr>)" for l using s by (simp add: pending_creation_def)
  show ?thesis
    unfolding commit_manager_creation_intent_def wp_thenE wp_map_err wp_part_op manager_creation_intent.select_convs
    by (rule wp_mono [OF save], rule plan [OF moved], simp) (use moved in blast)
qed

lemma wp_drop_intent:
  assumes "pending_creation p root s" "both_stored p root s"
  shows "wp (manager_durable h (\<lambda>s. s\<lparr>mg_intents := dir_del (mp_plan_id p) (mg_intents s)\<rparr>))
    (\<lambda>_ t. mg_intents t = [] \<and> both_stored p root t)
    (\<lambda>_ t. \<not> writes_reliably h \<and> (pending_creation p root t \<or> mg_intents t = [] \<and> both_stored p root t)) s"
  using assms by (intro wp_part_durable) (auto simp: pending_creation_def both_stored_def count_write_in_def dir_del_def)

lemma wp_create:
  assumes none: "mg_intents s = []"
  shows "wp (save_manager_plan_with_root h p root) (\<lambda>_ t. mg_intents t = [] \<and> both_stored p root t)
    (\<lambda>_ t. untouched s t \<or> pending_creation p root t \<or> mg_intents t = [] \<and> both_stored p root t) s"
proof -
  let ?E = "\<lambda>_ t. untouched s t \<or> pending_creation p root t \<or> mg_intents t = [] \<and> both_stored p root t"
  have here: "?E e s" for e :: orch_error using none by (simp add: untouched_def)
  have rest: "wp (thenE (commit_manager_creation_intent h \<lparr>ci_plan = p, ci_root_work = root\<rparr>)
      (manager_durable h (\<lambda>s. s\<lparr>mg_intents := dir_del (mp_plan_id p) (mg_intents s)\<rparr>)))
    (\<lambda>_ t. mg_intents t = [] \<and> both_stored p root t) ?E t" if "pending_creation p root t" for t
    unfolding wp_thenE
    by (intro wp_mono [OF wp_commit_creation [OF that]] wp_mono [OF wp_drop_intent]) auto
  have "wp (manager_durable h (\<lambda>s. s\<lparr>mg_intents := dir_put (mp_plan_id p) \<lparr>ci_plan = p, ci_root_work = root\<rparr> (mg_intents s)\<rparr>))
      (\<lambda>_. pending_creation p root) ?E s"
    if "plan_validate p = Inr ()" "item_validate root = Inr ()" "safe_id_filename (mp_plan_id p) = Inr (mp_plan_id p)"
    using that none
    by (intro wp_part_durable) (auto simp: pending_creation_def untouched_def count_write_in_def dir_put_def)
  then have "wp (thenE (manager_durable h (\<lambda>s. s\<lparr>mg_intents := dir_put (mp_plan_id p) \<lparr>ci_plan = p, ci_root_work = root\<rparr> (mg_intents s)\<rparr>))
       (thenE (commit_manager_creation_intent h \<lparr>ci_plan = p, ci_root_work = root\<rparr>)
         (manager_durable h (\<lambda>s. s\<lparr>mg_intents := dir_del (mp_plan_id p) (mg_intents s)\<rparr>))))
      (\<lambda>_ t. mg_intents t = [] \<and> both_stored p root t) ?E s"
    if "plan_validate p = Inr ()" "item_validate root = Inr ()" "safe_id_filename (mp_plan_id p) = Inr (mp_plan_id p)"
    unfolding wp_thenE [of "manager_durable h _"] by (rule wp_mono) (use that rest in auto)
  note commit = this
  show ?thesis
  proof (cases "safe_id_filename (mp_plan_id p)")
    case (Inr k)
    then have "k = mp_plan_id p" by (rule safe_id_filename_same)
    then show ?thesis using commit Inr
      unfolding save_manager_plan_with_root_def Let_def by (auto simp: wp here split: sum.split)
  qed (auto simp: save_manager_plan_with_root_def Let_def wp here split: sum.split)
qed

text \<open>
  C18. Creating a plan with its root work item is all or nothing. With no other creation pending and however its writes end, opening the
  store again, with working writes and a ledger that accepts the root item, leaves no intent behind and either
  nothing of the plan or both the plan and its root; both when the creation reported success.
\<close>

theorem creation_recovers:
  assumes run: "save_manager_plan_with_root h p root s = (r, t)" and none: "mg_intents s = []"
    and reliable: "writes_reliably g" and accepted: "fst (validate_work_item_for_save g root (mg_ledger t)) = Inr ()"
  shows "\<exists>u. recover_manager_creation_intents g t = (Inr (), u) \<and> mg_intents u = []
    \<and> (r = Inr () \<and> both_stored p root u \<or> r \<noteq> Inr () \<and> (untouched s u \<or> both_stored p root u))"
proof -
  from wp_create [OF none, of h p root] run
  consider "mg_intents t = []" "untouched s t \<and> r \<noteq> Inr () \<or> both_stored p root t" | "pending_creation p root t"
    by (auto simp: wp_def untouched_def split: sum.splits)
  then show ?thesis
  proof cases
    case 1
    then show ?thesis
      by (auto simp: recover_manager_creation_intents_def bindE_def gets_def ret_def)
  next
    case 2
    have "wp (recover_manager_creation_intents g) (\<lambda>_ u. mg_intents u = [] \<and> both_stored p root u) (\<lambda>_ _. False) t"
      using 2 reliable accepted
      by (auto simp: recover_manager_creation_intents_def recover_creation_intent_def wp pending_creation_def
          intro!: wp_mono [OF wp_commit_creation [OF 2]] wp_mono [OF wp_drop_intent])
    then show ?thesis
      by (cases "recover_manager_creation_intents g t"; cases "fst (recover_manager_creation_intents g t)") (auto simp: wp_def)
  qed
qed

end
