(* ===== verification/Manager_Runs.thy ===== *)
theory Manager_Runs
  imports Manager_Commit Message_Properties
begin

section \<open>Runs of the manager tools\<close>

text \<open>
  The plan of \<open>Manager_Examples\<close> in a store: an agent advances it with the tool, which creates the work of
  the first step; and a creation whose third write fails. The witnesses of the theorems on stored plans.
\<close>

definition lead_spec :: agent_spec where
  "lead_spec = \<lparr>as_revision = 1, as_display_name = ''lead'', as_source_workspace = ''/w'',
     as_model = \<lparr>am_selection_key = [], am_provider_id = [], am_model_id = []\<rparr>,
     as_default_run_bounds = wp_bounds example_policy,
     as_authority = \<lparr>aa_sandbox_profile = [], aa_bypass_permissions = False, aa_allowed_tools = [], aa_computer_use_allowed = False\<rparr>,
     as_managed_execution = managed_policy_default\<rparr>"

definition lead :: agent_record where
  "lead = \<lparr>ag_agent_id = ''lead'', ag_session_id = 7, ag_lane_ids = [7], ag_lane_associations = [],
     ag_workspace = ''/w'', ag_state = Agent_Active, ag_spec = Some lead_spec\<rparr>"

definition plan_store :: manager_store where
  "plan_store = \<lparr>mg_ledger = empty_ledger\<lparr>lg_agents := [(''lead'', lead)]\<rparr>, mg_plans = [(''p'', new_plan)],
     mg_decisions = [], mg_intents = []\<rparr>"

definition advancing_store :: manager_store where
  "advancing_store = plan_store\<lparr>mg_ledger := (mg_ledger plan_store)\<lparr>lg_clock := 1, lg_uuids := 1\<rparr>\<rparr>"

definition advanced_store :: manager_store where
  "advanced_store = advancing_store\<lparr>mg_ledger := (mg_ledger advancing_store)\<lparr>lg_items := [(''u'', plan_work ''u'' [] ''a'')],
     lg_writes := 2\<rparr>, mg_plans := [(''p'', first_plan)]\<rparr>"

lemmas store_defs = plan_store_def advancing_store_def advanced_store_def

lemma plan_names: "safe_id_filename ''p'' = Inr ''p''" "safe_id_filename ''lead'' = Inr ''lead''"
  "safe_id_filename ''root'' = Inr ''root''"
  by (simp_all add: safe_id_filename_def rbind_ok NUL_def BACKSLASH_def)

lemma plan_ids [simp]:
  "mp_plan_id new_plan = ''p''" "mp_plan_id first_plan = ''p''" "mp_session_id new_plan = 7" "mp_workspace new_plan = ''/w''"
  "mp_manager_agent_id new_plan = ''lead''" "mp_revision new_plan = 1" "mp_revision first_plan = 2"
  by (simp_all add: plan_defs)

lemma plan_loaded: "dir_get (mg_plans s) ''p'' = Some p \<Longrightarrow> plan_validate p = Inr () \<Longrightarrow> load_manager_plan ''p'' s = (Inr (Some p), s)"
  by (simp add: load_plan_run plan_names)

lemma first_save:
  "save_manager_plan_with_work_cas exact_host first_plan 1 [plan_work ''u'' [] ''a''] advancing_store = (Inr (), advanced_store)"
proof -
  have load: "load_manager_plan ''p'' advancing_store = (Inr (Some new_plan), advancing_store)"
    by (rule plan_loaded) (simp_all add: store_defs dir_get_def new_plan_valid)
  have work: "wi_work_id (plan_work ''u'' [] ''a'') = ''u''" "wi_dependencies (plan_work ''u'' [] ''a'') = []"
    by (simp_all add: plan_work_def)
  have "validate_work_items_for_save exact_host [plan_work ''u'' [] ''a''] (mg_ledger advancing_store) = (Inr (), mg_ledger advancing_store)"
    by (simp add: validate_work_items_for_save_def validate_batch_item_def op_simps load_simps work new_work_valid example_files
        store_defs empty_ledger_def scoped_work_items_def order_work_def sort_by_def MAX_GRAPH_SCOPE_ITEMS_def same_batch_scope_def)
  then show ?thesis
    using load first_plan_valid
    by (simp add: save_manager_plan_with_work_cas_def save_manager_plan_with_work_def write_batch_def save_manager_plan_def
        write_work_item_def op_simps load_simps part_op_def part_durable_def count_write_in_def plan_names example_files work)
       (simp add: store_defs empty_ledger_def)
qed

theorem plan_cas_serializes_witness:
  "save_manager_plan_with_work_cas exact_host first_plan 1 [plan_work ''u'' [] ''a''] advancing_store = (Inr (), advanced_store)
   \<and> load_manager_plan ''p'' advanced_store = (Inr (Some first_plan), advanced_store)
   \<and> save_manager_plan_with_work_cas exact_host new_plan 1 [] advanced_store
       = (Inl (orch_error_new StaleVersion ''manager plan changed before the mutation could be committed''), advanced_store)"
  using plan_cas_serializes [OF first_save, of new_plan 1 exact_host "[]"] first_save by simp

subsection \<open>Advancing with the tool\<close>

lemma lead_allowed: "validate_manager_assignments exact_host (wp_bounds example_policy) new_plan ''/w'' True plan_store = (Inr (), plan_store)"
proof -
  have agent: "manager_ledger (require_agent_in_scope exact_host ''lead'' 7 ''/w'') plan_store = (Inr lead, plan_store)"
    by (simp add: part_op_def require_agent_in_scope_def load_agent_def op_simps load_simps store_defs plan_names
        known_lane_ids_def workspaces_match_def lead_def)
  have "reject_privilege_amplification (Some lead_spec) lead_spec (wp_bounds example_policy) (wp_bounds example_policy) = Inr ()"
    by (simp add: reject_privilege_amplification_def assignment_ceiling_def lead_spec_def Let_def example_policy_def min_tokens_def)
  then show ?thesis
    by (simp add: validate_manager_assignments_def validate_step_assignment_def agent op_simps)
       (simp add: new_plan_def step_from_spec_def spec_defs validate_step_assignment_def op_simps current_spec_def some_or_err_def lead_def workspaces_match_def)
qed

lemma advance_tool_run:
  "advance_manager_plan exact_host (wp_bounds example_policy) ''operator'' 7 ''/w'' ''p'' None plan_store
     = (Inr (first_plan, [plan_work ''u'' [] ''a'']), advanced_store)"
proof -
  have load: "load_manager_plan_scoped 7 ''/w'' ''p'' plan_store = (Inr new_plan, plan_store)"
    using plan_loaded [of plan_store new_plan] new_plan_valid
    by (simp add: load_manager_plan_scoped_def op_simps store_defs dir_get_def)
  have items: "manager_ledger list_work_items plan_store = (Inr [], plan_store)"
    by (simp add: part_op_def list_work_items_def op_simps store_defs empty_ledger_def dir_list_def rbind_def order_work_def sort_by_def)
  have clock: "manager_ledger (now_op exact_host) plan_store = (Inr 0, plan_store\<lparr>mg_ledger := (mg_ledger plan_store)\<lparr>lg_clock := Suc 0\<rparr>\<rparr>)"
    by (simp add: part_op_def now_op_def op_simps store_defs empty_ledger_def)
  have adv: "manager_ledger (advance exact_host [] ''operator'' 0 new_plan) (plan_store\<lparr>mg_ledger := (mg_ledger plan_store)\<lparr>lg_clock := Suc 0\<rparr>\<rparr>)
     = (Inr (first_plan, [plan_work ''u'' [] ''a'']), advancing_store)"
    using first_advance_at [of "(mg_ledger plan_store)\<lparr>lg_clock := Suc 0\<rparr>"]
    by (simp add: part_op_def store_defs empty_ledger_def)
  show ?thesis
    by (simp add: advance_manager_plan_def op_simps load items clock adv lead_allowed require_revision_def first_save)
qed

definition plan_env :: manager_env where
  "plan_env = \<lparr>mv_mail = example_env, mv_ceiling = wp_bounds example_policy, mv_hash = (\<lambda>_. ''hash''),
     mv_print = (\<lambda>_. Inl ''unused''),
     mv_codec = \<lparr>dc_value = (\<lambda>_. Inl ''unused''), dc_end = (\<lambda>_. Inl ''unused''), dc_envelope = (\<lambda>_. Inl ''unused''),
       dc_print = (\<lambda>_. Inl ''unused'')\<rparr>,
     mv_managed_run = (\<lambda>_. Inr None)\<rparr>"

abbreviation control_of :: "manager_store \<Rightarrow> control_store" where
  "control_of s \<equiv> \<lparr>ct_managers = s, ct_messages = [], ct_seq = None, ct_cursor = None\<rparr>"

lemma advanced_run: "(coordinate plan_env)\<^sup>*\<^sup>* (control_of plan_store) (control_of advanced_store)"
proof -
  have "coordinate plan_env (control_of plan_store) (control_of advanced_store)"
    using coordinate.advanced [of plan_env "control_of plan_store" "''operator''" 7 "''/w''" "''p''" None] advance_tool_run
    by (simp add: plan_env_def example_env_def in_managers_def)
  then show ?thesis by blast
qed

theorem one_work_per_step_witness:
  "(coordinate plan_env)\<^sup>*\<^sup>* (control_of plan_store) (control_of advanced_store)
   \<and> wi_work_id ` {i \<in> stored_work (control_of advanced_store). child_of_plan new_plan i
        \<and> wi_source_manager_step_id i = Some ''a''} = {''u''}"
proof -
  have start: "one_per_step new_plan (stored_work (control_of plan_store))"
    by (simp add: one_per_step_def store_defs empty_ledger_def dir_list_def)
  have w: "plan_work ''u'' [] ''a'' \<in> stored_work (control_of advanced_store)" "child_of_plan new_plan (plan_work ''u'' [] ''a'')"
    "wi_source_manager_step_id (plan_work ''u'' [] ''a'') = Some ''a''" "wi_work_id (plan_work ''u'' [] ''a'') = ''u''"
    by (simp_all add: store_defs dir_list_def run_simps)
  let ?A = "{i \<in> stored_work (control_of advanced_store). child_of_plan new_plan i \<and> wi_source_manager_step_id i = Some ''a''}"
  have "wi_work_id i = ''u''" if i: "i \<in> ?A" for i
  proof -
    have "i \<in> stored_work (control_of advanced_store)" "child_of_plan new_plan i" "wi_source_manager_step_id i = Some ''a''"
      using i by blast+
    then have "wi_work_id i = wi_work_id (plan_work ''u'' [] ''a'')"
      by (rule one_work_per_step [OF start advanced_run _ _ _ w(1,2,3)])
    then show ?thesis unfolding w(4) .
  qed
  then have "wi_work_id ` ?A \<subseteq> {''u''}" by blast
  moreover have "''u'' \<in> wi_work_id ` ?A"
    using w(1,2,3) by (intro image_eqI [of _ _ "plan_work ''u'' [] ''a''"]) (simp_all only: w(4) mem_Collect_eq simp_thms)
  ultimately show ?thesis using advanced_run by blast
qed

subsection \<open>An interrupted creation\<close>

definition third_write_fails :: host where
  "third_write_fails = exact_host\<lparr>durable_outcome := (\<lambda>n. if n < 2 then Written else NotWritten)\<rparr>"

definition plan_root :: work_item where
  "plan_root = container_root 0 (example_item ''root'' [])"

definition empty_plans :: manager_store where
  "empty_plans = \<lparr>mg_ledger = empty_ledger, mg_plans = [], mg_decisions = [], mg_intents = []\<rparr>"

definition cut_store :: manager_store where
  "cut_store = empty_plans\<lparr>mg_ledger := empty_ledger\<lparr>lg_items := [(''root'', plan_root)], lg_writes := 3\<rparr>,
     mg_intents := [(''p'', \<lparr>ci_plan = new_plan, ci_root_work = plan_root\<rparr>)]\<rparr>"

lemma plan_root_simps [simp]:
  "wi_work_id plan_root = ''root''" "wi_is_container plan_root" "wi_session_id plan_root = 7" "wi_workspace plan_root = ''/w''"
  "wi_dependencies plan_root = []"
  by (simp_all add: plan_root_def container_root_def bump_at_def)

lemma plan_root_valid: "item_validate plan_root = Inr ()"
  by (simp add: item_validate_def plan_root_def container_root_def bump_at_def example_item_def saturating_succ_def
      validate_id_ok validate_text_def bound_simps example_policy_valid)

lemma cut_host [simp]:
  "durable_outcome third_write_fails n = (if n < 2 then Written else NotWritten)" "canonicalize third_write_fails x = Some x"
  by (simp_all add: third_write_fails_def)

lemma cut_creation:
  "save_manager_plan_with_root third_write_fails new_plan plan_root empty_plans
     = (Inl (orch_error_new Internal (io_error third_write_fails)), cut_store)"
proof -
  have match: "mp_root_work_id new_plan = ''root''" "lg_writes empty_ledger = 0" by (simp_all add: new_plan_def empty_ledger_def)
  have "save_work_item third_write_fails plan_root (empty_ledger\<lparr>lg_writes := Suc 0\<rparr>)
      = (Inr (), empty_ledger\<lparr>lg_items := [(''root'', plan_root)], lg_writes := 2\<rparr>)"
    by (simp add: save_work_item_def validate_work_item_for_save_def op_simps plan_root_valid load_simps plan_names
        empty_ledger_def scoped_work_items_def order_work_def sort_by_def MAX_GRAPH_SCOPE_ITEMS_def write_work_item_def)
  then show ?thesis
    using new_plan_valid plan_root_valid
    by (simp add: save_manager_plan_with_root_def commit_manager_creation_intent_def save_manager_plan_def op_simps match plan_names
        Let_def part_op_def part_durable_def count_write_in_def empty_plans_def dir_put_def)
       (simp add: cut_store_def empty_plans_def empty_ledger_def plan_names part_durable_def count_write_in_def)
qed

theorem creation_recovers_witness:
  "save_manager_plan_with_root third_write_fails new_plan plan_root empty_plans
     = (Inl (orch_error_new Internal (io_error third_write_fails)), cut_store)
   \<and> mg_intents cut_store \<noteq> []
   \<and> (\<exists>u. recover_manager_creation_intents exact_host cut_store = (Inr (), u) \<and> mg_intents u = []
        \<and> (untouched empty_plans u \<or> both_stored new_plan plan_root u))"
proof -
  have "fst (validate_work_item_for_save exact_host plan_root (mg_ledger cut_store)) = Inr ()"
    by (simp add: validate_work_item_for_save_def op_simps plan_root_valid load_simps plan_names cut_store_def empty_plans_def)
  then show ?thesis
    using creation_recovers [OF cut_creation, of exact_host] cut_creation
    by (simp add: empty_plans_def writes_reliably_def cut_store_def)
qed

end
