(* ===== verification/Manager_Gaps.thy ===== *)
theory Manager_Gaps
  imports Manager_Runs
begin

section \<open>Where coordination gets stuck\<close>

text \<open>
  Behaviour of the code that keeps a plan from making progress, each on the definitions of the code: notifications
  that cannot be delivered again or at all, creation in a full lane, a replacement that names the wrong steps, and
  a new step behind a superseded one.
\<close>

text \<open>
  A notification that was stored before the plan could be saved is sent again under the same id. For
  a question the time at which it expires is part of the compared content, so a retry at another instant is a conflict.
\<close>

lemma retried_question_conflicts:
  assumes first: "message_new env f1 MK_Question actor fa ta sid ws w body payload t1 = Inr m1"
    and retry: "message_new env f2 MK_Question actor fa ta sid ws w body payload t2 = Inr m2" and later: "t1 \<noteq> t2"
    and sent: "safe_id_filename k = Inr k" "dir_get (ml_messages s) k = Some (m1\<lparr>wm_message_id := k, wm_seq := n\<rparr>)"
  shows "send_message_once env (m2\<lparr>wm_message_id := k\<rparr>) s
    = (Inl (orch_error_new Conflict ''stable message identity was replayed with different content''), s)"
proof -
  have "wm_expires_at m1 = Some (t1 + milliseconds DEFAULT_QUESTION_TTL_MS)" "wm_expires_at m2 = Some (t2 + milliseconds DEFAULT_QUESTION_TTL_MS)"
    using first retry by (auto simp: message_new_def rbind_ok Let_def)
  then have "\<not> same_content (m1\<lparr>wm_message_id := k, wm_seq := n\<rparr>) (m2\<lparr>wm_message_id := k\<rparr>)"
    using later by (simp add: same_content_def)
  then show ?thesis using sent by (simp add: send_message_once_def load_message_def bindE_def lift_def gets_def raise_def)
qed

text \<open>
  The failure of a result may be four times as long as the body of a message. The notification about such a
  failure cannot be built, and every later pass over the plan ends there.
\<close>

lemma long_failure_not_delivered:
  assumes "wi_state work = W_Failed" "Option.bind (wi_result work) wr_failure = Some f" "MAX_MESSAGE_BODY_BYTES < length f"
    and "by_work_id p items (wi_work_id work) = Some work" "ms_work_id st = Some (wi_work_id work)"
    and "ms_last_notification_work_revision st \<noteq> Some (wi_revision work)"
  shows "\<exists>n. step_notification p items st = Some n
    \<and> (\<forall>env q actor now s. \<exists>e t. persist_manager_notification env q actor now n s = (Inl e, t) \<and> ct_messages t = ct_messages s)"
proof -
  obtain n where n: "step_notification p items st = Some n" "MAX_MESSAGE_BODY_BYTES < length (mn_body n)"
    using assms by (auto simp: step_notification_def notification_body_def)
  have "\<exists>e. message_new env fresh (mn_kind n) actor fa ta sid ws w (mn_body n) pl now = Inl e" for env fresh actor fa ta sid ws w pl now
  proof (cases "message_new env fresh (mn_kind n) actor fa ta sid ws w (mn_body n) pl now")
    case (Inr m)
    then show ?thesis using n(2) by (auto simp: message_new_def rbind_ok Let_def message_validate_def message_text_ok_def)
  qed auto
  then have "\<exists>e t. persist_manager_notification env q actor now n s = (Inl e, t) \<and> ct_messages t = ct_messages s" for env q actor now s
    by (auto simp: persist_manager_notification_def bindE_def in_mail_def part_op_def uuid_op_def lift_def
        split: sum.split) (metis sum.distinct(1))
  then show ?thesis using n(1) by blast
qed

text \<open>
  The intent of a creation is written before the ledger looks at the root item. In a full lane the item is
  refused, the intent stays although every write succeeded, and opening the store fails while the lane is full.
\<close>

lemma full_lane_keeps_creation:
  assumes p: "plan_validate p = Inr ()" "safe_id_filename (mp_plan_id p) = Inr (mp_plan_id p)"
    and root: "wi_is_container root" "wi_work_id root = mp_root_work_id p" "wi_session_id root = mp_session_id p" "wi_workspace root = mp_workspace p"
    and full: "\<And>l. lg_items l = lg_items (mg_ledger s) \<Longrightarrow> lane_full h root l"
    and writes: "writes_reliably h" and none: "mg_intents s = []"
  shows "\<exists>e t. save_manager_plan_with_root h p root s = (Inl e, t) \<and> pending_creation p root t
    \<and> (\<exists>e' u. recover_manager_creation_intents h t = (Inl e', u) \<and> pending_creation p root u)"
proof -
  have valid: "item_validate root = Inr ()" using full [of "mg_ledger s"] by (simp add: lane_full_def)
  let ?i = "\<lparr>ci_plan = p, ci_root_work = root\<rparr>"
  let ?t = "(count_write_in mg_ledger_update s)\<lparr>mg_intents := [(mp_plan_id p, ?i)]\<rparr>"
  obtain e where "save_work_item h root (mg_ledger ?t) = (Inl e, mg_ledger ?t)"
    using full_refuses [OF full, of "mg_ledger ?t"] by (auto simp: count_write_in_def)
  then have refused: "commit_manager_creation_intent h ?i ?t = (Inl (internal_of e), ?t)"
    by (simp add: commit_manager_creation_intent_def part_op_def map_err_def thenE_def bindE_def)
  have "manager_durable h (\<lambda>s. s\<lparr>mg_intents := dir_put (mp_plan_id p) ?i (mg_intents s)\<rparr>) s = (Inr (), ?t)"
    using writes none by (simp add: part_durable_def writes_reliably_def count_write_in_def dir_put_def)
  then have "save_manager_plan_with_root h p root s = (Inl (internal_of e), ?t)"
    using p root valid refused
    by (simp add: save_manager_plan_with_root_def thenE_def bindE_def lift_def map_err_def check_def ret_def Let_def)
  moreover have "recover_manager_creation_intents h ?t = (Inl (internal_of e), ?t)"
    using p valid refused
    by (simp add: recover_manager_creation_intents_def recover_creation_intent_def thenE_def bindE_def lift_def gets_def)
  moreover have "pending_creation p root ?t" using p valid by (simp add: pending_creation_def)
  ultimately show ?thesis by blast
qed

text \<open>
  A replacement that does not name exactly the steps to replace passes the checks of the envelope. Applying it
  fails without a trace: the decision keeps its state, so the next pass applies the same directive again.
\<close>

lemma wrong_replacement_repeats:
  assumes directive: "de_directive e = AppendReplacementSteps reason rs steps"
    and current: "load_manager_plan (mp_plan_id p) (ct_managers s) = (Inr (Some c), ct_managers s)"
      "mp_revision c = dr_expected_plan_revision d"
    and wrong: "set rs \<noteq> {i. doomed (mp_steps c) i}"
  shows "\<exists>err. apply_manager_directive env p d e now report s = (Inl err, s)"
proof -
  obtain err where "replace_failed_steps reason rs steps now c = Inl err"
    using wrong replace_run by (cases "replace_failed_steps reason rs steps now c") auto
  then show ?thesis using directive current
    by (simp add: apply_manager_directive_def apply_replacement_def in_managers_def thenE_def bindE_def Let_def
        some_or_def lift_def ret_def)
qed

text \<open>
  A replan may add a step that depends on a superseded one. The validation accepts it, a superseded
  step stays superseded whatever is observed, and the new step is never ready: the plan stays active without work.
\<close>

lemma superseded_never_ready:
  assumes distinct: "distinct (map ms_step_id sts)" and old: "list_all2 (seen work now) sts sts'"
    and e: "e \<in> set sts" "ms_state e = MS_Superseded" "ms_step_id e \<in> set (ms_dependencies st)"
  shows "\<not> step_ready sts' st"
proof -
  have ids: "map ms_step_id sts' = map ms_step_id sts" using old by (induction rule: list_all2_induct) (auto dest: seen_simps)
  have "e \<in> set sts'" using list_all2_left [OF old e(1)] e(2) by (auto simp: seen_def)
  then have "(ms_step_id e, ms_state e) \<in> set (map (\<lambda>s. (ms_step_id s, ms_state s)) sts')" by auto
  moreover have "distinct (map fst (map (\<lambda>s. (ms_step_id s, ms_state s)) sts'))"
    using distinct ids by (simp add: comp_def)
  ultimately have "map_of (map (\<lambda>s. (ms_step_id s, ms_state s)) sts') (ms_step_id e) = Some MS_Superseded"
    using e(2) by (metis map_of_is_SomeI)
  then show ?thesis using e(3) by (auto simp: step_ready_def intro!: bexI [of _ "ms_step_id e"])
qed

definition stuck_spec :: manager_step_spec where
  "stuck_spec = first_spec\<lparr>sp_step_id := ''c'', sp_dependencies := [''b'']\<rparr>"

lemma replan_behind_superseded:
  "\<exists>q. append_replan ''again'' [stuck_spec] 0 failed_plan = Inr q \<and> mp_state q = MP_Active
    \<and> (\<exists>e \<in> set (mp_steps q). ms_step_id e \<in> set (sp_dependencies stuck_spec) \<and> ms_state e = MS_Superseded)"
proof -
  let ?q = "plan_bump 0 (failed_plan\<lparr>mp_steps :=
     [(step_from_spec 0 first_spec)\<lparr>ms_work_id := Some ''u'', ms_state := MS_Succeeded\<rparr>,
      (step_from_spec 0 second_spec)\<lparr>ms_work_id := Some ''uu'', ms_state := MS_Superseded,
        ms_last_error := Some ''step Work failed''\<rparr>,
      step_from_spec 0 stuck_spec],
     mp_state := MP_Active, mp_last_error := Some ''again'', mp_replan_count := 1\<rparr>)"
  have valid: "plan_validate ?q = Inr ()" by (simp add: validate_simps plan_defs spec_defs stuck_spec_def)
  have kept: "append_steps 0 {''a'', ''b''} [stuck_spec] (map (supersede 0 {''b''}) (mp_steps failed_plan)) = Inr (mp_steps ?q)"
    by (simp add: supersede_def plan_defs validate_simps spec_defs stuck_spec_def)
  have "append_replan ''again'' [stuck_spec] 0 failed_plan = Inr ?q"
    using kept broken_steps valid
    by (simp add: append_replan_def check_ok supersede_exact Let_def manager_validate_text_def plan_bounds)
       (simp add: plan_defs spec_defs step_from_spec_def)
  then show ?thesis by (force simp: stuck_spec_def spec_defs step_from_spec_def)
qed

end
