(* ===== verification/Prompt_Queue.thy ===== *)
theory Prompt_Queue
  imports Ledger_Prelude
begin

section \<open>The prompt queue of a session\<close>

text \<open>
  \<^verbatim>\<open>prompt_queue.rs\<close> and \<^verbatim>\<open>prompt_combine.rs\<close>: prompts queued behind a running turn, steering that is injected into
  it, and the rules by which queued prompts are combined. A \<open>VecDeque\<close> is a list with its front first; an
  \<open>anyhow\<close> error is its text; versions are 64-bit words, whose increment wraps as in a release build.
\<close>

definition MAX_PROMPT_BYTES :: nat where "MAX_PROMPT_BYTES = 100000"
definition TEXT_SEPARATOR :: string where "TEXT_SEPARATOR = [CHR 0x0A, CHR 0x0A]"

subsection \<open>Combining prompts\<close>

record combine_gate =
  cg_id :: string
  cg_is_plain_prompt :: bool
  cg_is_synthetic :: bool
  cg_is_expanded_skill :: bool
  cg_is_bash :: bool
  cg_has_images :: bool
  cg_text :: string

definition can_merge_front :: "combine_gate \<Rightarrow> bool" where
  "can_merge_front g \<longleftrightarrow> cg_is_plain_prompt g \<and> \<not> cg_is_synthetic g \<and> \<not> cg_is_expanded_skill g \<and> \<not> cg_is_bash g
     \<and> cg_text g \<noteq> []"

definition can_merge_follower :: "combine_gate \<Rightarrow> string list \<Rightarrow> bool" where
  "can_merge_follower g skip_ids \<longleftrightarrow> can_merge_front g \<and> \<not> cg_has_images g \<and> cg_id g \<notin> set skip_ids"

fun combine_prefix_len :: "combine_gate list \<Rightarrow> string list \<Rightarrow> nat" where
  "combine_prefix_len [] skip_ids = 0"
| "combine_prefix_len (front # rest) skip_ids =
     (if \<not> can_merge_front front then 1
      else 1 + length (takeWhile (\<lambda>g. can_merge_follower g skip_ids) rest))"

fun join_with :: "string \<Rightarrow> string list \<Rightarrow> string" where
  "join_with sep [] = []"
| "join_with sep [t] = t"
| "join_with sep (t # u # ts) = t @ sep @ join_with sep (u # ts)"

definition join_texts :: "string list \<Rightarrow> string" where
  "join_texts texts = join_with TEXT_SEPARATOR (filter (\<lambda>t. t \<noteq> []) texts)"

subsection \<open>Entries\<close>

record prompt_queue_entry =
  pe_id :: string
  pe_version :: u64
  pe_text :: string
  pe_kind :: string
  pe_source :: string
  pe_owner :: "string option"
  pe_created_at :: time
  pe_priority :: bool

definition clean_prompt :: "string \<Rightarrow> string + string" where
  "clean_prompt text =
     (let t = trim text in
      if t = [] then Inl ''prompt cannot be empty''
      else if length t > MAX_PROMPT_BYTES then Inl ''prompt exceeds 100000 bytes''
      else Inr t)"

definition starts_with :: "char \<Rightarrow> string \<Rightarrow> bool" where
  "starts_with c t \<longleftrightarrow> (case t of [] \<Rightarrow> False | d # _ \<Rightarrow> d = c)"

definition classify_kind :: "string \<Rightarrow> string" where
  "classify_kind text =
     (let t = trim_start text in if starts_with (CHR ''/'') t \<or> starts_with (CHR ''!'') t then ''command'' else ''prompt'')"

definition entry_new :: "string \<Rightarrow> time \<Rightarrow> string \<Rightarrow> string \<Rightarrow> bool \<Rightarrow> string + prompt_queue_entry" where
  "entry_new fresh_id now text source priority =
     rbind (clean_prompt text) (\<lambda>t. Inr
       \<lparr>pe_id = fresh_id, pe_version = 0, pe_text = t, pe_kind = classify_kind t, pe_source = source,
        pe_owner = Some ''desktop'', pe_created_at = now, pe_priority = priority\<rparr>)"

definition entry_bump :: "prompt_queue_entry \<Rightarrow> prompt_queue_entry" where
  "entry_bump e = e\<lparr>pe_version := pe_version e + 1\<rparr>"

definition entry_first :: "string \<Rightarrow> prompt_queue_entry \<Rightarrow> prompt_queue_entry" where
  "entry_first source e = entry_bump (e\<lparr>pe_source := source, pe_priority := True\<rparr>)"

subsection \<open>The queue\<close>

record session_prompt_queue =
  pq_queued :: "prompt_queue_entry list"
  pq_steering :: "prompt_queue_entry list"
  pq_delivering :: "prompt_queue_entry list"

datatype steering_disposition = SD_Pending | SD_Queued

definition push_front_all :: "(prompt_queue_entry \<Rightarrow> prompt_queue_entry) \<Rightarrow> prompt_queue_entry list
    \<Rightarrow> prompt_queue_entry list \<Rightarrow> prompt_queue_entry list" where
  "push_front_all f entries queued = foldl (\<lambda>q e. f e # q) queued (rev entries)"

definition durable_snapshot :: "session_prompt_queue \<Rightarrow> session_prompt_queue" where
  "durable_snapshot q =
     (let queued = push_front_all (entry_first ''steering_deferred'') (pq_steering q) (pq_queued q)
      in \<lparr>pq_queued = push_front_all (entry_first ''steering_delivery_recovery'') (pq_delivering q) queued,
          pq_steering = [], pq_delivering = []\<rparr>)"

definition add_with_owner :: "string \<Rightarrow> time \<Rightarrow> string \<Rightarrow> string \<Rightarrow> bool \<Rightarrow> string option \<Rightarrow> session_prompt_queue
    \<Rightarrow> string + prompt_queue_entry \<times> session_prompt_queue" where
  "add_with_owner fresh_id now text source priority owner q =
     rbind (entry_new fresh_id now text source priority) (\<lambda>new.
       let entry = new\<lparr>pe_owner := owner\<rparr>
       in Inr (entry, q\<lparr>pq_queued := (if priority then entry # pq_queued q else pq_queued q @ [entry])\<rparr>))"

definition entry_position :: "string \<Rightarrow> prompt_queue_entry list \<Rightarrow> nat option" where
  "entry_position i entries =
     (let n = length (takeWhile (\<lambda>e. pe_id e \<noteq> i) entries) in if n < length entries then Some n else None)"

definition unknown_prompt :: "string \<Rightarrow> string" where
  "unknown_prompt i = ''unknown queued prompt '' @ i"

definition stale_prompt :: "string \<Rightarrow> u64 \<Rightarrow> u64 \<Rightarrow> string" where
  "stale_prompt i stored version =
     ''stale queued prompt version for '' @ i @ '': expected '' @ decimal (unat stored) @ '', got '' @ decimal (unat version)"

definition edit :: "string \<Rightarrow> u64 \<Rightarrow> string \<Rightarrow> session_prompt_queue \<Rightarrow> string + prompt_queue_entry \<times> session_prompt_queue" where
  "edit i version text q =
     rbind (clean_prompt text) (\<lambda>t.
     case entry_position i (pq_queued q) of
       None \<Rightarrow> Inl (unknown_prompt i)
     | Some n \<Rightarrow>
         let entry = pq_queued q ! n in
         if pe_version entry \<noteq> version then Inl (stale_prompt i (pe_version entry) version)
         else let changed = entry_bump (entry\<lparr>pe_text := t, pe_kind := classify_kind t\<rparr>)
              in Inr (changed, q\<lparr>pq_queued := (pq_queued q)[n := changed]\<rparr>))"

definition check_version :: "string \<Rightarrow> u64 \<Rightarrow> session_prompt_queue \<Rightarrow> string + unit" where
  "check_version i version q =
     (case entry_position i (pq_queued q) of
        None \<Rightarrow> Inl (unknown_prompt i)
      | Some n \<Rightarrow>
          if pe_version (pq_queued q ! n) \<noteq> version then Inl (stale_prompt i (pe_version (pq_queued q ! n)) version)
          else Inr ())"

definition remove_at :: "nat \<Rightarrow> 'a list \<Rightarrow> 'a list" where
  "remove_at n xs = take n xs @ drop (Suc n) xs"

definition insert_at :: "nat \<Rightarrow> 'a \<Rightarrow> 'a list \<Rightarrow> 'a list" where
  "insert_at n x xs = take n xs @ x # drop n xs"

definition remove_entry :: "string \<Rightarrow> session_prompt_queue \<Rightarrow> string + prompt_queue_entry \<times> session_prompt_queue" where
  "remove_entry i q =
     (case entry_position i (pq_queued q) of
        None \<Rightarrow> Inl (unknown_prompt i)
      | Some n \<Rightarrow> Inr (pq_queued q ! n, q\<lparr>pq_queued := remove_at n (pq_queued q)\<rparr>))"

record clear_outcome =
  co_queued_cleared :: nat
  co_steering_cancelled :: nat
  co_steering_in_flight :: nat

definition clear :: "session_prompt_queue \<Rightarrow> clear_outcome \<times> session_prompt_queue" where
  "clear q = (\<lparr>co_queued_cleared = length (pq_queued q), co_steering_cancelled = length (pq_steering q),
     co_steering_in_flight = length (pq_delivering q)\<rparr>, q\<lparr>pq_queued := [], pq_steering := []\<rparr>)"

definition fully_stopped :: "clear_outcome \<Rightarrow> bool" where
  "fully_stopped c \<longleftrightarrow> co_steering_in_flight c = 0"

definition bump_range :: "nat \<Rightarrow> nat \<Rightarrow> prompt_queue_entry list \<Rightarrow> prompt_queue_entry list" where
  "bump_range lo hi xs = map (\<lambda>(n, e). if lo \<le> n \<and> n \<le> hi then entry_bump e else e) (enumerate 0 xs)"

definition move_to :: "string \<Rightarrow> nat \<Rightarrow> session_prompt_queue \<Rightarrow> string + session_prompt_queue" where
  "move_to i to_index q =
     (case entry_position i (pq_queued q) of
        None \<Rightarrow> Inl (unknown_prompt i)
      | Some from_index \<Rightarrow>
          let rest = remove_at from_index (pq_queued q);
              target = min to_index (length rest);
              moved = insert_at target (pq_queued q ! from_index) rest
          in Inr (q\<lparr>pq_queued := (if target = from_index then moved
               else bump_range (min target from_index) (max target from_index) moved)\<rparr>))"

definition run_next :: "string \<Rightarrow> session_prompt_queue \<Rightarrow> string + prompt_queue_entry \<times> session_prompt_queue" where
  "run_next i q =
     rbind (remove_entry i q) (\<lambda>(e, r).
       let entry = entry_bump (e\<lparr>pe_priority := True\<rparr>) in Inr (entry, r\<lparr>pq_queued := entry # pq_queued r\<rparr>))"

record steering_receipt =
  sc_entry :: prompt_queue_entry
  sc_disposition :: steering_disposition
  sc_entries :: "prompt_queue_entry list"

definition steer_queued :: "string \<Rightarrow> bool \<Rightarrow> session_prompt_queue \<Rightarrow> string + steering_receipt \<times> session_prompt_queue" where
  "steer_queued i can_inject q =
     rbind (remove_entry i q) (\<lambda>(e, r).
       if can_inject then
         let entry = entry_bump (e\<lparr>pe_source := ''steer_now''\<rparr>); s = r\<lparr>pq_steering := pq_steering r @ [entry]\<rparr>
         in Inr (\<lparr>sc_entry = entry, sc_disposition = SD_Pending, sc_entries = pq_queued s\<rparr>, s)
       else
         let entry = entry_first ''steering_deferred'' e; s = r\<lparr>pq_queued := entry # pq_queued r\<rparr>
         in Inr (\<lparr>sc_entry = entry, sc_disposition = SD_Queued, sc_entries = pq_queued s\<rparr>, s))"

definition steer_text_with_owner :: "string \<Rightarrow> time \<Rightarrow> string \<Rightarrow> bool \<Rightarrow> string option \<Rightarrow> session_prompt_queue
    \<Rightarrow> string + steering_receipt \<times> session_prompt_queue" where
  "steer_text_with_owner fresh_id now text can_inject owner q =
     rbind (entry_new fresh_id now text (if can_inject then ''steer_now'' else ''steering_deferred'') (\<not> can_inject)) (\<lambda>new.
       let entry = new\<lparr>pe_owner := owner\<rparr>;
           s = (if can_inject then q\<lparr>pq_steering := pq_steering q @ [entry]\<rparr> else q\<lparr>pq_queued := entry # pq_queued q\<rparr>)
       in Inr (\<lparr>sc_entry = entry, sc_disposition = (if can_inject then SD_Pending else SD_Queued), sc_entries = pq_queued s\<rparr>, s))"

definition drain_steering :: "session_prompt_queue \<Rightarrow> prompt_queue_entry list \<times> session_prompt_queue" where
  "drain_steering q = (pq_steering q, q\<lparr>pq_delivering := pq_steering q, pq_steering := []\<rparr>)"

definition defer_pending_steering :: "session_prompt_queue \<Rightarrow> nat \<times> session_prompt_queue" where
  "defer_pending_steering q = (length (pq_steering q),
     \<lparr>pq_queued = push_front_all (entry_first ''steering_deferred'') (pq_steering q) (pq_queued q),
      pq_steering = [], pq_delivering = []\<rparr>)"

definition recover_pending_steering :: "session_prompt_queue \<Rightarrow> nat \<times> session_prompt_queue" where
  "recover_pending_steering q =
     (let pending = pq_delivering q @ pq_steering q
      in (length pending, \<lparr>pq_queued = push_front_all (entry_first ''steering_delivery_recovery'') pending (pq_queued q),
            pq_steering = [], pq_delivering = []\<rparr>))"

definition entry_gate :: "prompt_queue_entry \<Rightarrow> combine_gate" where
  "entry_gate e = \<lparr>cg_id = pe_id e, cg_is_plain_prompt = (pe_kind e = ''prompt'' \<and> \<not> pe_priority e), cg_is_synthetic = False,
     cg_is_expanded_skill = False, cg_is_bash = (pe_kind e = ''command'' \<and> starts_with (CHR ''!'') (trim_start (pe_text e))),
     cg_has_images = False, cg_text = pe_text e\<rparr>"

record prompt_queue_batch =
  pb_entries :: "prompt_queue_entry list"
  pb_text :: string

record prompt_queue_take_result =
  tr_batch :: "prompt_queue_batch option"
  tr_entries :: "prompt_queue_entry list"
  tr_reservation :: "string option"

definition take_next :: "session_prompt_queue \<Rightarrow> prompt_queue_take_result \<times> session_prompt_queue" where
  "take_next q =
     (if pq_queued q = [] then (\<lparr>tr_batch = None, tr_entries = [], tr_reservation = None\<rparr>, q)
      else
        let count = max (combine_prefix_len (map entry_gate (pq_queued q)) []) 1;
            drained = take count (pq_queued q);
            rest = drop count (pq_queued q)
        in (\<lparr>tr_batch = Some \<lparr>pb_entries = drained, pb_text = join_texts (map pe_text drained)\<rparr>,
             tr_entries = rest, tr_reservation = None\<rparr>,
            q\<lparr>pq_queued := rest\<rparr>))"

definition restore_batch :: "prompt_queue_entry list \<Rightarrow> session_prompt_queue \<Rightarrow> session_prompt_queue" where
  "restore_batch entries q = q\<lparr>pq_queued := push_front_all entry_bump entries (pq_queued q)\<rparr>"

end
