(* ===== verification/Prompt_Properties.thy ===== *)
theory Prompt_Properties
  imports Prompt_Queue "HOL-Library.Multiset"
begin

section \<open>Properties of the prompt queue\<close>

text \<open>
  No accepted prompt is lost or delivered twice, reordering is fenced by versions, and a batch is the
  combinable front of the queue and can be handed back.
\<close>

lemma push_front_map: "push_front_all f es q = map f es @ q"
proof -
  have "foldl (\<lambda>q e. f e # q) q xs = map f (rev xs) @ q" for xs q by (induction xs arbitrary: q) auto
  then show ?thesis by (simp add: push_front_all_def)
qed

lemma entry_change_id [simp]: "pe_id (entry_bump e) = pe_id e" "pe_id (entry_first src e) = pe_id e"
  by (simp_all add: entry_bump_def entry_first_def)

lemma entry_change_ids [simp]: "map (pe_id \<circ> entry_bump) es = map pe_id es" "map (pe_id \<circ> entry_first src) es = map pe_id es"
  by simp_all

lemma position_Some: "entry_position i es = Some n \<longleftrightarrow> n < length es \<and> pe_id (es ! n) = i \<and> (\<forall>m < n. pe_id (es ! m) \<noteq> i)"
proof
  assume "entry_position i es = Some n"
  then have n: "n = length (takeWhile (\<lambda>e. pe_id e \<noteq> i) es)" "n < length es" by (auto simp: entry_position_def Let_def split: if_splits)
  have "pe_id (es ! m) \<noteq> i" if m: "m < n" for m
  proof -
    have "takeWhile (\<lambda>e. pe_id e \<noteq> i) es ! m = es ! m" using takeWhile_nth m n(1) by blast
    then show ?thesis using nth_mem [of m "takeWhile (\<lambda>e. pe_id e \<noteq> i) es"] m n(1) by (auto dest: set_takeWhileD)
  qed
  then show "n < length es \<and> pe_id (es ! n) = i \<and> (\<forall>m < n. pe_id (es ! m) \<noteq> i)"
    using nth_length_takeWhile [of "\<lambda>e. pe_id e \<noteq> i" es] n by simp
next
  assume n: "n < length es \<and> pe_id (es ! n) = i \<and> (\<forall>m < n. pe_id (es ! m) \<noteq> i)"
  then have "takeWhile (\<lambda>e. pe_id e \<noteq> i) es = take n es"
    by (intro takeWhile_eq_take_P_nth) auto
  then show "entry_position i es = Some n" using n by (simp add: entry_position_def Let_def)
qed

lemma mset_remove_at: "n < length xs \<Longrightarrow> mset xs = add_mset (xs ! n) (mset (remove_at n xs))"
  by (subst id_take_nth_drop [of n xs]) (auto simp: remove_at_def)

lemma mset_insert_at: "mset (insert_at n x xs) = add_mset x (mset xs)"
  by (simp add: insert_at_def) (metis append_take_drop_id mset_append union_commute)

lemma bump_range_ids: "map pe_id (bump_range lo hi xs) = map pe_id xs"
  by (rule nth_equalityI) (auto simp: bump_range_def nth_enumerate_eq)

lemma bump_range_mset: "image_mset pe_id (mset (bump_range lo hi xs)) = image_mset pe_id (mset xs)"
  using arg_cong [OF bump_range_ids, of mset] by simp

subsection \<open>No prompt is lost\<close>

text \<open>What a session holds, and the steps of a session: which ids come in, and which leave.\<close>

definition held_prompts :: "session_prompt_queue \<Rightarrow> string multiset" where
  "held_prompts q = mset (map pe_id (pq_delivering q @ pq_steering q @ pq_queued q))"

inductive queue_step :: "session_prompt_queue \<Rightarrow> string multiset \<Rightarrow> string multiset \<Rightarrow> session_prompt_queue \<Rightarrow> bool" where
  added: "add_with_owner i now text source priority owner q = Inr (e, r) \<Longrightarrow> queue_step q {#pe_id e#} {#} r"
| edited: "edit i version text q = Inr (e, r) \<Longrightarrow> queue_step q {#} {#} r"
| removed: "remove_entry i q = Inr (e, r) \<Longrightarrow> queue_step q {#} {#pe_id e#} r"
| cleared: "clear q = (c, r) \<Longrightarrow> queue_step q {#} (mset (map pe_id (pq_steering q @ pq_queued q))) r"
| moved: "move_to i to_index q = Inr r \<Longrightarrow> queue_step q {#} {#} r"
| next_run: "run_next i q = Inr (e, r) \<Longrightarrow> queue_step q {#} {#} r"
| steered: "steer_queued i can_inject q = Inr (receipt, r) \<Longrightarrow> queue_step q {#} {#} r"
| texted: "steer_text_with_owner i now text can_inject owner q = Inr (receipt, r) \<Longrightarrow> queue_step q {#pe_id (sc_entry receipt)#} {#} r"
| drained: "drain_steering q = (es, r) \<Longrightarrow> queue_step q {#} (mset (map pe_id (pq_delivering q))) r"
| deferred: "defer_pending_steering q = (n, r) \<Longrightarrow> queue_step q {#} (mset (map pe_id (pq_delivering q))) r"
| recovered: "recover_pending_steering q = (n, r) \<Longrightarrow> queue_step q {#} {#} r"
| taken: "take_next q = (a, r) \<Longrightarrow> tr_batch a = Some b \<Longrightarrow> queue_step q {#} (mset (map pe_id (pb_entries b))) r"
| restored: "r = restore_batch es q \<Longrightarrow> queue_step q (mset (map pe_id es)) {#} r"
| restarted: "r = durable_snapshot q \<Longrightarrow> queue_step q {#} {#} r"

lemma remove_run:
  "remove_entry i q = Inr (e, r) \<Longrightarrow> \<exists>n < length (pq_queued q). e = pq_queued q ! n \<and> r = q\<lparr>pq_queued := remove_at n (pq_queued q)\<rparr>"
  by (auto simp: remove_entry_def position_Some split: option.splits)

lemma remove_held: "remove_entry i q = Inr (e, r) \<Longrightarrow> held_prompts q = add_mset (pe_id e) (held_prompts r)"
  using mset_remove_at [of _ "pq_queued q"] by (auto simp: held_prompts_def dest!: remove_run)

lemma edit_held: "edit i version text q = Inr (e, r) \<Longrightarrow> held_prompts r = held_prompts q"
proof -
  assume "edit i version text q = Inr (e, r)"
  then obtain n where n: "n < length (pq_queued q)" "pe_id e = pe_id (pq_queued q ! n)" "r = q\<lparr>pq_queued := (pq_queued q)[n := e]\<rparr>"
    by (auto simp: edit_def rbind_ok position_Some Let_def entry_bump_def split: option.splits if_splits)
  then have "map pe_id (pq_queued r) = map pe_id (pq_queued q)" by (simp add: map_update list_update_same_conv)
  then show ?thesis using n(3) by (simp add: held_prompts_def flip: mset_map)
qed

lemma move_run:
  assumes "move_to i to_index q = Inr r"
  obtains n t where "n < length (pq_queued q)" "pe_id (pq_queued q ! n) = i" "t = min to_index (length (pq_queued q) - 1)"
    "r = q\<lparr>pq_queued := (if t = n then pq_queued q
       else bump_range (min t n) (max t n) (insert_at t (pq_queued q ! n) (remove_at n (pq_queued q))))\<rparr>"
proof -
  have same: "n < length xs \<Longrightarrow> insert_at n (xs ! n) (remove_at n xs) = xs" for n and xs :: "prompt_queue_entry list"
    by (simp add: insert_at_def remove_at_def id_take_nth_drop [symmetric])
  obtain n where n: "entry_position i (pq_queued q) = Some n" using assms by (auto simp: move_to_def split: option.splits)
  then have p: "n < length (pq_queued q)" "pe_id (pq_queued q ! n) = i" by (simp_all add: position_Some)
  have len: "length (remove_at n (pq_queued q)) = length (pq_queued q) - 1" using p(1) by (simp add: remove_at_def)
  show thesis by (rule that [OF p refl]) (use assms n p(1) len same in \<open>auto simp: move_to_def Let_def\<close>)
qed

lemma move_held: "move_to i to_index q = Inr r \<Longrightarrow> held_prompts r = held_prompts q"
  using mset_remove_at [of _ "pq_queued q"]
  by (elim move_run) (auto simp: held_prompts_def bump_range_mset mset_insert_at)

lemma step_held: "queue_step q gained lost r \<Longrightarrow> held_prompts q + gained = held_prompts r + lost"
proof (induction rule: queue_step.induct)
  case (taken q a r b)
  then have "pb_entries b @ pq_queued r = pq_queued q"
    by (auto simp: take_next_def Let_def split: if_splits)
  then have "mset (map pe_id (pq_queued q)) = mset (map pe_id (pb_entries b)) + mset (map pe_id (pq_queued r))"
    by (metis map_append mset_append)
  moreover have "pq_steering r = pq_steering q" "pq_delivering r = pq_delivering q"
    using taken by (auto simp: take_next_def Let_def split: if_splits)
  ultimately show ?case by (simp add: held_prompts_def)
next
  case (edited i version body q e r)
  then show ?case by (simp add: edit_held)
next
  case (removed i q e r)
  then show ?case by (simp add: remove_held)
next
  case (moved i to_index q r)
  then show ?case by (simp add: move_held)
next
  case (next_run i q e r)
  then obtain e' r' where "remove_entry i q = Inr (e', r')" "r = r'\<lparr>pq_queued := entry_bump (e'\<lparr>pe_priority := True\<rparr>) # pq_queued r'\<rparr>"
    by (auto simp: run_next_def rbind_ok Let_def)
  then show ?case using remove_held by (simp add: held_prompts_def entry_bump_def)
next
  case (steered i can_inject q receipt r)
  then obtain e' r' where e': "remove_entry i q = Inr (e', r')"
    "r = (if can_inject then r'\<lparr>pq_steering := pq_steering r' @ [entry_bump (e'\<lparr>pe_source := ''steer_now''\<rparr>)]\<rparr>
          else r'\<lparr>pq_queued := entry_first ''steering_deferred'' e' # pq_queued r'\<rparr>)"
    by (auto simp: steer_queued_def rbind_ok Let_def split: if_splits)
  then show ?case using remove_held [OF e'(1)] by (simp add: held_prompts_def entry_bump_def entry_first_def)
qed (auto simp: add_with_owner_def steer_text_with_owner_def clear_def drain_steering_def defer_pending_steering_def
    recover_pending_steering_def restore_batch_def durable_snapshot_def push_front_map rbind_ok Let_def held_prompts_def
    multiset.map_comp comp_def)

inductive queue_run :: "session_prompt_queue \<Rightarrow> string multiset \<Rightarrow> string multiset \<Rightarrow> session_prompt_queue \<Rightarrow> bool" where
  idle: "queue_run q {#} {#} q"
| more: "queue_run q gained lost r \<Longrightarrow> queue_step r g l t \<Longrightarrow> queue_run q (gained + g) (lost + l) t"

abbreviation no_prompts :: session_prompt_queue where
  "no_prompts \<equiv> \<lparr>pq_queued = [], pq_steering = [], pq_delivering = []\<rparr>"

text \<open>
  C32. No accepted prompt is lost or held twice. Along every run of a session, restarts from the durable
  snapshot included, each accepted prompt is either held once, as queued, steering or in delivery, or has left
  through a removal, a clear, a batch for a turn or a delivery.
\<close>

theorem prompts_conserved:
  assumes "queue_run no_prompts gained lost q"
  shows "gained = held_prompts q + lost"
proof -
  have "queue_run p gained lost q \<Longrightarrow> held_prompts p + gained = held_prompts q + lost" for p
  proof (induction rule: queue_run.induct)
    case (more p gained lost r g l t)
    then show ?case using step_held [of r g l t] by (metis union_assoc union_commute)
  qed simp
  from this [OF assms] show ?thesis by (simp add: held_prompts_def)
qed

subsection \<open>Reordering\<close>

lemma insert_at_nth:
  "t \<le> length xs \<Longrightarrow> k \<le> length xs \<Longrightarrow> insert_at t x xs ! k = (if k < t then xs ! k else if k = t then x else xs ! (k - 1))"
  by (cases "k < t") (auto simp: insert_at_def nth_append nth_Cons')

lemma remove_at_nth:
  "n < length xs \<Longrightarrow> k < length xs - 1 \<Longrightarrow> remove_at n xs ! k = (if k < n then xs ! k else xs ! Suc k)"
  by (cases "k < n") (auto simp: remove_at_def nth_append)

lemma at_length: "n < length xs \<Longrightarrow> length (remove_at n xs) = length xs - 1" "length (insert_at t x xs) = Suc (length xs)"
  by (simp_all add: remove_at_def insert_at_def)

lemma bump_range_nth:
  "k < length xs \<Longrightarrow> bump_range lo hi xs ! k = (if lo \<le> k \<and> k \<le> hi then entry_bump (xs ! k) else xs ! k)"
  by (simp add: bump_range_def nth_enumerate_eq)

text \<open>The place from which the entry at place \<open>k\<close> came.\<close>

definition came_from :: "nat \<Rightarrow> nat \<Rightarrow> nat \<Rightarrow> nat" where
  "came_from t n k = (if k = t then n else if t \<le> k \<and> k \<le> n then k - 1 else if n \<le> k \<and> k \<le> t then Suc k else k)"

lemma moved_nth:
  assumes n: "n < length xs" and t: "t < length xs" "t \<noteq> n" and k: "k < length xs"
  shows "bump_range (min t n) (max t n) (insert_at t (xs ! n) (remove_at n xs)) ! k
    = (if came_from t n k = k then xs ! k else entry_bump (xs ! came_from t n k))"
proof -
  have ys: "insert_at t (xs ! n) (remove_at n xs) ! k = xs ! came_from t n k"
    using n t k by (simp add: insert_at_nth remove_at_nth at_length came_from_def)
  have moved: "min t n \<le> k \<and> k \<le> max t n \<longleftrightarrow> came_from t n k \<noteq> k" using t(2) by (auto simp: came_from_def min_def max_def)
  have "k < length (insert_at t (xs ! n) (remove_at n xs))" using n k by (simp add: at_length)
  from bump_range_nth [OF this] show ?thesis by (simp add: ys moved)
qed

text \<open>
  C33. Reordering is fenced by versions. After a move every prompt is still queued, the moved one at the
  requested place or at the end; and the version a writer has read of any prompt is still accepted exactly
  when that prompt kept its place.
\<close>

theorem move_fences:
  assumes move: "move_to i to_index q = Inr r" and ids: "distinct (map pe_id (pq_queued q))" and m: "m < length (pq_queued q)"
  shows "entry_position i (pq_queued r) = Some (min to_index (length (pq_queued q) - 1))
    \<and> (\<exists>k. entry_position (pe_id (pq_queued q ! m)) (pq_queued r) = Some k)
    \<and> (check_version (pe_id (pq_queued q ! m)) (pe_version (pq_queued q ! m)) r = Inr ()
        \<longleftrightarrow> entry_position (pe_id (pq_queued q ! m)) (pq_queued r) = Some m)"
proof -
  let ?xs = "pq_queued q" and ?ys = "pq_queued r"
  from move obtain n t where n: "n < length ?xs" "pe_id (?xs ! n) = i" and t: "t = min to_index (length ?xs - 1)"
    and r: "r = q\<lparr>pq_queued := (if t = n then ?xs else bump_range (min t n) (max t n) (insert_at t (?xs ! n) (remove_at n ?xs)))\<rparr>"
    by (rule move_run)
  have tl: "t < length ?xs" using t n(1) by simp
  have shape: "\<exists>m < length ?xs. ?ys ! k = (if m = k then ?xs ! k else entry_bump (?xs ! m))" if "k < length ?xs" for k
  proof (cases "t = n")
    case False
    have "came_from t n k < length ?xs" using that n(1) tl by (auto simp: came_from_def)
    then show ?thesis using moved_nth [OF n(1) tl False that] r False by (intro exI [of _ "came_from t n k"]) simp
  qed (use that r in auto)
  have perm: "mset (map pe_id ?ys) = mset (map pe_id ?xs)"
    using move_held [OF move] r by (simp add: held_prompts_def)
  then have len: "length ?ys = length ?xs" and ids': "distinct (map pe_id ?ys)"
    using ids mset_eq_length by fastforce (metis ids mset_eq_imp_distinct_iff perm)
  have here: "entry_position x ?ys = Some k \<longleftrightarrow> k < length ?ys \<and> pe_id (?ys ! k) = x" for x k
    using ids' by (auto simp: position_Some distinct_conv_nth)
  have "pe_id (?xs ! m) \<in> set (map pe_id ?ys)"
    using m mset_eq_setD [OF perm] by (metis length_map nth_map nth_mem)
  then obtain k where k: "k < length ?ys" "pe_id (?ys ! k) = pe_id (?xs ! m)" by (auto simp: in_set_conv_nth)
  obtain m' where m': "m' < length ?xs" "?ys ! k = (if m' = k then ?xs ! k else entry_bump (?xs ! m'))"
    using shape k(1) len by metis
  then have "m' = m" using k(2) ids m by (auto simp: distinct_conv_nth split: if_splits)
  then have "check_version (pe_id (?xs ! m)) (pe_version (?xs ! m)) r = Inr () \<longleftrightarrow> k = m"
    using k m' here [of "pe_id (?xs ! m)" k] by (auto simp: check_version_def entry_bump_def)
  moreover have "pe_id (?ys ! t) = i"
    using n tl r moved_nth [OF n(1) tl _ tl] by (cases "t = n") (auto simp: came_from_def)
  ultimately show ?thesis using k here tl len t ids' by (metis option.inject)
qed

subsection \<open>Batches\<close>

definition plain_prompt :: "prompt_queue_entry \<Rightarrow> bool" where
  "plain_prompt e \<longleftrightarrow> pe_kind e = ''prompt'' \<and> \<not> pe_priority e \<and> pe_text e \<noteq> []"

lemma gate_plain: "can_merge_front (entry_gate e) \<longleftrightarrow> plain_prompt e" "can_merge_follower (entry_gate e) [] \<longleftrightarrow> plain_prompt e"
  by (auto simp: can_merge_front_def can_merge_follower_def entry_gate_def plain_prompt_def)

lemma prefix_plain:
  "combine_prefix_len (map entry_gate (e # es)) [] = (if plain_prompt e then 1 + length (takeWhile plain_prompt es) else 1)"
  by (simp add: gate_plain takeWhile_map comp_def)

text \<open>
  C34. A turn takes the front of the queue: the first prompt alone when it is a command or has priority, else
  all plain prompts up to the first that is not, in order and joined in one text. Handing the batch back restores the
  queue, with the versions of the returned prompts increased.
\<close>

theorem take_next_exact:
  assumes "take_next q = (a, r)" "tr_batch a = Some b"
  shows "tr_entries a = pq_queued r \<and> pb_entries b @ pq_queued r = pq_queued q
    \<and> pb_entries b = (if plain_prompt (hd (pq_queued q)) then takeWhile plain_prompt (pq_queued q) else [hd (pq_queued q)])
    \<and> pb_text b = join_texts (map pe_text (pb_entries b))
    \<and> restore_batch (pb_entries b) r = q\<lparr>pq_queued := map entry_bump (pb_entries b) @ pq_queued r\<rparr>"
proof -
  obtain e es where q: "pq_queued q = e # es" using assms by (cases "pq_queued q") (auto simp: take_next_def)
  have "take (length (takeWhile plain_prompt es)) es = takeWhile plain_prompt es"
    by (metis append_eq_conv_conj takeWhile_dropWhile_id)
  moreover have "combine_prefix_len (map entry_gate (pq_queued q)) []
      = (if plain_prompt e then 1 + length (takeWhile plain_prompt es) else 1)"
    unfolding q by (rule prefix_plain)
  then have "max (combine_prefix_len (map entry_gate (pq_queued q)) []) 1
      = Suc (if plain_prompt e then length (takeWhile plain_prompt es) else 0)" by simp
  then have "take_next q = (a, r) \<and> tr_batch a = Some b \<Longrightarrow>
      (let n = Suc (if plain_prompt e then length (takeWhile plain_prompt es) else 0); d = take n (e # es)
       in tr_entries a = drop n (e # es) \<and> b = \<lparr>pb_entries = d, pb_text = join_texts (map pe_text d)\<rparr> \<and> r = q\<lparr>pq_queued := drop n (e # es)\<rparr>)"
    unfolding take_next_def q [symmetric] Let_def using q by auto
  ultimately show ?thesis
    using assms by (auto simp: q Let_def restore_batch_def push_front_map)
qed

subsection \<open>A session\<close>

lemma trim_letter [simp]: "trim ''a'' = ''a''" "trim_start ''a'' = ''a''" "trim ''b'' = ''b''" "trim_start ''b'' = ''b''"
  by (simp_all add: trim_def trim_end_def trim_start_def strip_seqs.simps ws_seqs_def)

definition prompt :: "string \<Rightarrow> string \<Rightarrow> prompt_queue_entry" where
  "prompt i t = \<lparr>pe_id = i, pe_version = 0, pe_text = t, pe_kind = ''prompt'', pe_source = ''composer'', pe_owner = None,
     pe_created_at = 0, pe_priority = False\<rparr>"

definition two_prompts :: session_prompt_queue where
  "two_prompts = no_prompts\<lparr>pq_queued := [prompt ''1'' ''a'', prompt ''2'' ''b'']\<rparr>"

lemma add_prompts:
  "add_with_owner ''1'' 0 ''a'' ''composer'' False None no_prompts = Inr (prompt ''1'' ''a'', no_prompts\<lparr>pq_queued := [prompt ''1'' ''a'']\<rparr>)"
  "add_with_owner ''2'' 0 ''b'' ''composer'' False None (no_prompts\<lparr>pq_queued := [prompt ''1'' ''a'']\<rparr>)
     = Inr (prompt ''2'' ''b'', two_prompts)"
  by (simp_all add: add_with_owner_def entry_new_def clean_prompt_def classify_kind_def starts_with_def MAX_PROMPT_BYTES_def
      rbind_def prompt_def two_prompts_def Let_def)

theorem prompts_conserved_witness:
  "queue_run no_prompts {#''1'', ''2''#} {#} two_prompts \<and> held_prompts two_prompts = {#''1'', ''2''#}"
proof -
  have "queue_run no_prompts ({#} + {#pe_id (prompt ''1'' ''a'')#} + {#pe_id (prompt ''2'' ''b'')#}) ({#} + {#} + {#}) two_prompts"
    by (rule queue_run.more [OF queue_run.more [OF queue_run.idle queue_step.added] queue_step.added]) (rule add_prompts)+
  then have run: "queue_run no_prompts {#''1'', ''2''#} {#} two_prompts" by (simp add: prompt_def add_mset_commute)
  then show ?thesis using prompts_conserved [OF run] by simp
qed

lemma move_example: "\<exists>r. move_to ''1'' 1 two_prompts = Inr r"
  by (simp add: move_to_def entry_position_def two_prompts_def prompt_def Let_def)

theorem move_fences_witness:
  "\<exists>r. move_to ''1'' 1 two_prompts = Inr r \<and> entry_position ''1'' (pq_queued r) = Some 1
     \<and> check_version ''1'' 0 r \<noteq> Inr ()"
proof -
  obtain r where r: "move_to ''1'' 1 two_prompts = Inr r" using move_example by blast
  have q: "distinct (map pe_id (pq_queued two_prompts))" "0 < length (pq_queued two_prompts)" "length (pq_queued two_prompts) = 2"
    "pe_id (pq_queued two_prompts ! 0) = ''1''" "pe_version (pq_queued two_prompts ! 0) = 0"
    by (simp_all add: two_prompts_def prompt_def)
  show ?thesis using move_fences [OF r q(1,2)] q(3,4,5) r by (intro exI [of _ r]) simp
qed

theorem take_next_exact_witness:
  "\<exists>a b. take_next two_prompts = (a, no_prompts) \<and> tr_batch a = Some b \<and> tr_entries a = [] \<and> pb_entries b = [prompt ''1'' ''a'', prompt ''2'' ''b'']
     \<and> pb_text b = ''a'' @ [CHR 0x0A, CHR 0x0A] @ ''b''"
proof -
  have plain: "plain_prompt (prompt ''1'' ''a'')" "plain_prompt (prompt ''2'' ''b'')"
    by (simp_all add: plain_prompt_def prompt_def)
  have "combine_prefix_len (map entry_gate (pq_queued two_prompts)) [] = 2"
    using plain prefix_plain [of "prompt ''1'' ''a''" "[prompt ''2'' ''b'']"] by (simp add: two_prompts_def del: combine_prefix_len.simps)
  then obtain a b where b: "take_next two_prompts = (a, no_prompts)" "tr_batch a = Some b"
    by (simp add: take_next_def two_prompts_def Let_def del: combine_prefix_len.simps)
  then show ?thesis using take_next_exact [OF b] plain
    by (simp add: two_prompts_def join_texts_def TEXT_SEPARATOR_def prompt_def)
qed

end
