(* ===== verification/Authorization.thy ===== *)
theory Authorization
  imports Ledger_Store
begin

section \<open>Callers and workspaces\<close>

text \<open>
  \<^verbatim>\<open>orchestration/authz.rs\<close> and the methods of \<^verbatim>\<open>orchestration/service.rs\<close> that install credentials, authenticate a
  request and decide which work of the ledger a request may touch. The record \<open>control\<close> holds the fields of
  the service these methods use, with the secrets registered for redaction on the event bus. A panic is \<open>None\<close>.
  What the host answers to \<open>session_inspect\<close> and \<open>current_dir\<close> are arguments.
\<close>

definition LOCAL_DESKTOP_ORIGIN_ID :: string where "LOCAL_DESKTOP_ORIGIN_ID = ''local-desktop''"

subsection \<open>Credentials\<close>

record auth_context =
  ax_token_id :: string
  ax_owner_id :: string

record auth_credential =
  cr_id :: string
  cr_token :: string

definition validate_auth_credential_id :: "string \<Rightarrow> unit result" where
  "validate_auth_credential_id i =
     (if i = [] \<or> length i > 128 \<or> \<not> list_all (\<lambda>b. is_ascii_alphanumeric b \<or> b \<in> {CHR ''-'', CHR ''_'', CHR ''.''}) i
      then Inl (invalid (''auth credential id must contain only ASCII letters, numbers, '-', '_', or ''
        @ [CHR 0x27, CHR ''.'', CHR 0x27]))
      else if i = LOCAL_DESKTOP_ORIGIN_ID
      then Inl (invalid ''auth credential id 'local-desktop' is reserved for host-minted local desktop origin'')
      else Inr ())"

definition credential_new :: "string \<Rightarrow> string \<Rightarrow> auth_credential result" where
  "credential_new raw_id raw_token =
     (let i = trim raw_id; token = trim raw_token in
      rbind (validate_auth_credential_id i) (\<lambda>_.
        if token = [] then Inl (invalid ''auth credential token must not be empty'')
        else Inr \<lparr>cr_id = i, cr_token = token\<rparr>))"

definition constant_time_eq :: "8 word list \<Rightarrow> 8 word list \<Rightarrow> bool" where
  "constant_time_eq a b =
     (if length a \<noteq> length b then False
      else foldl (\<lambda>diff (x, y). Bit_Operations.or diff (Bit_Operations.xor x y)) 0 (zip a b) = 0)"

definition as_bytes :: "string \<Rightarrow> 8 word list" where
  "as_bytes s = map (\<lambda>c. of_nat (of_char c)) s"

definition strip_prefix :: "string \<Rightarrow> string \<Rightarrow> string option" where
  "strip_prefix p s = (if prefix p s then Some (drop (length p) s) else None)"

definition bearer_token :: "string \<Rightarrow> string" where
  "bearer_token header =
     (let h = trim header
      in trim (case strip_prefix ''Bearer '' h of
                 Some t \<Rightarrow> t
               | None \<Rightarrow> (case strip_prefix ''bearer '' h of Some t \<Rightarrow> t | None \<Rightarrow> [])))"

definition authenticate_bearer :: "string option \<Rightarrow> auth_credential list \<Rightarrow> string \<Rightarrow> auth_context result" where
  "authenticate_bearer header credentials owner_id =
     (if credentials = [] \<or> trim owner_id = []
      then Inl (orch_error_new Internal ''control plane credentials are not configured'')
      else case header of
        None \<Rightarrow> Inl (orch_error_new Unauthenticated ''missing Authorization bearer token'')
      | Some h \<Rightarrow>
          let token = bearer_token h in
          if token = [] then Inl (orch_error_new Unauthenticated ''missing bearer token'')
          else case find (\<lambda>c. constant_time_eq (as_bytes token) (as_bytes (cr_token c))) credentials of
            None \<Rightarrow> Inl (orch_error_new Unauthenticated ''invalid bearer token'')
          | Some c \<Rightarrow> Inr \<lparr>ax_token_id = cr_id c, ax_owner_id = trim owner_id\<rparr>)"

definition require_bearer :: "string option \<Rightarrow> string \<Rightarrow> auth_context result" where
  "require_bearer header expected =
     rbind (credential_new ''primary'' expected) (\<lambda>c. authenticate_bearer header [c] ''primary'')"

subsection \<open>The service\<close>

record control =
  ct_bearer_token :: string
  ct_allowlist :: "string list"
  ct_credentials :: "auth_credential list"
  ct_owner_id :: string
  ct_secrets :: "string list"

definition add_control_secret :: "string \<Rightarrow> string list \<Rightarrow> string list" where
  "add_control_secret x secrets = (if x \<noteq> [] \<and> x \<notin> set secrets then secrets @ [x] else secrets)"

definition primary_credentials :: "string \<Rightarrow> auth_credential list option" where
  "primary_credentials token =
     (if token = [] then Some []
      else case credential_new ''primary'' token of Inl _ \<Rightarrow> None | Inr c \<Rightarrow> Some [c])"

definition service_new :: "string \<Rightarrow> string list \<Rightarrow> string list \<Rightarrow> control option" where
  "service_new token roots secrets =
     (case primary_credentials token of
        None \<Rightarrow> None
      | Some credentials \<Rightarrow> Some
          \<lparr>ct_bearer_token = token, ct_allowlist = roots, ct_credentials = credentials, ct_owner_id = ''primary'',
           ct_secrets = add_control_secret token secrets\<rparr>)"

definition set_token :: "string \<Rightarrow> control \<Rightarrow> control option" where
  "set_token raw c =
     (let token = trim raw in
      case primary_credentials token of
        None \<Rightarrow> None
      | Some credentials \<Rightarrow> Some (c\<lparr>ct_bearer_token := token, ct_credentials := credentials,
          ct_secrets := add_control_secret token (ct_secrets c)\<rparr>))"

definition set_auth_credentials :: "auth_credential list \<Rightarrow> control \<Rightarrow> control result" where
  "set_auth_credentials credentials c =
     (if credentials = [] then Inl (invalid ''at least one auth credential is required'')
      else case find (\<lambda>x. cr_id x = ''primary'') credentials of
        None \<Rightarrow> Inl (invalid ''auth credentials must include the primary credential'')
      | Some primary \<Rightarrow>
          rbind (first_err (map (\<lambda>x. validate_auth_credential_id (cr_id x)) credentials)) (\<lambda>_.
            Inr (c\<lparr>ct_bearer_token := cr_token primary, ct_credentials := credentials,
              ct_secrets := foldl (\<lambda>secrets x. add_control_secret (cr_token x) secrets) (ct_secrets c) credentials\<rparr>)))"

definition set_agent_owner_id :: "string \<Rightarrow> control \<Rightarrow> control result" where
  "set_agent_owner_id raw c =
     (let owner_id = trim raw in
      if owner_id = [] \<or> length owner_id > 128 then Inl (invalid ''Agent owner id must be between 1 and 128 bytes'')
      else Inr (c\<lparr>ct_owner_id := owner_id\<rparr>))"

definition set_allowlist :: "string list \<Rightarrow> control \<Rightarrow> control" where
  "set_allowlist roots c = c\<lparr>ct_allowlist := roots\<rparr>"

definition auth_header :: "string option \<Rightarrow> control \<Rightarrow> auth_context result" where
  "auth_header header c = authenticate_bearer header (ct_credentials c) (ct_owner_id c)"

subsection \<open>Workspaces\<close>

definition path_join :: "string \<Rightarrow> string \<Rightarrow> string" where
  "path_join base p = (if suffix ''/'' base then base @ p else base @ ''/'' @ p)"

definition canonical_workspace :: "host \<Rightarrow> string + string \<Rightarrow> string \<Rightarrow> string result" where
  "canonical_workspace h current_dir path =
     rbind (if is_absolute_path path then Inr path
            else case current_dir of
                Inl e \<Rightarrow> Inl (orch_error_new Internal e)
              | Inr d \<Rightarrow> Inr (path_join d path)) (\<lambda>abs.
       case canonicalize h abs of
         None \<Rightarrow> Inl (orch_error_new WorkspaceMismatch (''cannot canonicalize '' @ abs @ '': '' @ io_error h))
       | Some p \<Rightarrow> Inr p)"

definition allowlist_new :: "host \<Rightarrow> string + string \<Rightarrow> string list \<Rightarrow> string list" where
  "allowlist_new h current_dir roots =
     List.map_filter (\<lambda>p. case canonical_workspace h current_dir p of Inl _ \<Rightarrow> None | Inr c \<Rightarrow> Some c) roots"

definition allowlist_contains :: "host \<Rightarrow> string + string \<Rightarrow> string list \<Rightarrow> string \<Rightarrow> bool" where
  "allowlist_contains h current_dir allowlist workspace =
     (case canonical_workspace h current_dir workspace of Inl _ \<Rightarrow> False | Inr c \<Rightarrow> list_ex (\<lambda>r. r = c) allowlist)"

definition require_workspace_match ::
  "host \<Rightarrow> string + string \<Rightarrow> string list \<Rightarrow> string option \<Rightarrow> string \<Rightarrow> string result" where
  "require_workspace_match h current_dir allowlist session_cwd claimed =
     rbind (canonical_workspace h current_dir claimed) (\<lambda>claimed_c.
     if \<not> allowlist_contains h current_dir allowlist claimed_c
     then Inl (orch_error_new WorkspaceMismatch ''workspace not in allowlist'')
     else case session_cwd of
       None \<Rightarrow> Inl (orch_error_new WorkspaceMismatch ''session has no project cwd'')
     | Some scwd \<Rightarrow>
         rbind (canonical_workspace h current_dir scwd) (\<lambda>session_c.
         if session_c \<noteq> claimed_c
         then Inl (orch_error_new WorkspaceMismatch ''session workspace does not match claimed workspace'')
         else Inr claimed_c))"

subsection \<open>The scope of a request\<close>

datatype workspace_status = Ready | Missing | Inaccessible | NotDirectory

fun status_str :: "workspace_status \<Rightarrow> string" where
  "status_str Ready = ''ready''"
| "status_str Missing = ''missing''"
| "status_str Inaccessible = ''inaccessible''"
| "status_str NotDirectory = ''not_directory''"

datatype session_kind = Build | Chat

record session_summary =
  ss_cwd :: string
  ss_archived :: bool
  ss_kind :: session_kind
  ss_workspace_status :: workspace_status

definition session_cwd :: "session_summary \<Rightarrow> string option" where
  "session_cwd x = (if ss_cwd x \<noteq> [] then Some (ss_cwd x) else None)"

definition require_build_session :: "(uuid \<Rightarrow> session_summary option) \<Rightarrow> uuid \<Rightarrow> session_summary result" where
  "require_build_session session_inspect session_id =
     (case session_inspect session_id of
        None \<Rightarrow> Inl (invalid ''unknown session'')
      | Some x \<Rightarrow>
          if ss_archived x
          then Inl (orch_error_new ForbiddenScope ''archived Lane is inspection-only; restore it before controlling it'')
          else if ss_kind x \<noteq> Build
          then Inl (orch_error_new ForbiddenScope ''only Build sessions are controllable in this slice'')
          else if ss_workspace_status x \<noteq> Ready
          then Inl (orch_error_new WorkspaceMismatch (''session workspace is '' @ status_str (ss_workspace_status x)
                 @ '': choose a working directory before controlling it''))
          else Inr x)"

definition authorize_work_read_scope ::
  "host \<Rightarrow> string + string \<Rightarrow> (uuid \<Rightarrow> session_summary option) \<Rightarrow> control \<Rightarrow> uuid \<Rightarrow> string \<Rightarrow> string result" where
  "authorize_work_read_scope h current_dir session_inspect c session_id workspace =
     (case session_inspect session_id of
        None \<Rightarrow> Inl (invalid ''unknown session'')
      | Some x \<Rightarrow>
          if ss_kind x \<noteq> Build
          then Inl (orch_error_new ForbiddenScope ''only Build sessions can own durable work'')
          else require_workspace_match h current_dir (ct_allowlist c) (session_cwd x) workspace)"

definition authorize_work_mutation_scope ::
  "host \<Rightarrow> string + string \<Rightarrow> (uuid \<Rightarrow> session_summary option) \<Rightarrow> control \<Rightarrow> uuid \<Rightarrow> string \<Rightarrow> string result" where
  "authorize_work_mutation_scope h current_dir session_inspect c session_id workspace =
     rbind (require_build_session session_inspect session_id) (\<lambda>x.
       require_workspace_match h current_dir (ct_allowlist c) (session_cwd x) workspace)"

definition load_work_scoped ::
  "host \<Rightarrow> string + string \<Rightarrow> (uuid \<Rightarrow> session_summary option) \<Rightarrow> control \<Rightarrow> uuid \<Rightarrow> string \<Rightarrow> string \<Rightarrow> bool
     \<Rightarrow> (work_item \<times> string) ledger_op" where
  "load_work_scoped h current_dir session_inspect c session_id workspace work_id allow_archived =
     bindE (lift (if allow_archived then authorize_work_read_scope h current_dir session_inspect c session_id workspace
                  else authorize_work_mutation_scope h current_dir session_inspect c session_id workspace)) (\<lambda>claimed.
     bindE (map_err internal_of (load_work_item work_id)) (\<lambda>found.
     bindE (some_or (invalid ''unknown work_id'') found) (\<lambda>item.
       if wi_session_id item \<noteq> session_id \<or> wi_workspace item \<noteq> claimed then raise (invalid ''unknown work_id'')
       else ret (item, claimed))))"

end
