(* ===== verification/Authorization_Properties.thy ===== *)
theory Authorization_Properties
  imports Authorization Example_Run
begin

section \<open>Properties of authorization\<close>

text \<open>
  A caller is identified by the token it presents and never as the local desktop; every accepted token is
  redacted, but for a start token given with blanks around it; and a request reaches only work of its own session in an allowlisted workspace.
\<close>

subsection \<open>Comparing and trimming\<close>

lemma bytes_inject: "as_bytes a = as_bytes b \<longleftrightarrow> a = b"
proof -
  have "(of_nat (of_char c) :: 8 word) = of_nat (of_char d) \<longleftrightarrow> c = d" for c d
  proof -
    have "unat (of_nat (of_char e) :: 8 word) = of_char e" for e
      using nat_of_char_less_256 [of e] by (simp add: unat_of_nat take_bit_nat_eq_self_iff)
    then show ?thesis by (metis char_of_char)
  qed
  then have "inj (\<lambda>c. of_nat (of_char c) :: 8 word)" by (intro injI) blast
  then show ?thesis unfolding as_bytes_def by (rule inj_map_eq_map)
qed

lemma constant_time_eq_iff: "constant_time_eq a b \<longleftrightarrow> a = b"
proof -
  have xor: "Bit_Operations.xor x y = 0 \<longleftrightarrow> x = y" for x y :: "8 word"
    by (metis xor.assoc xor.right_neutral xor_self_eq xor.left_neutral)
  have "foldl (\<lambda>d (x, y). Bit_Operations.or d (Bit_Operations.xor x y)) w (zip a b) = 0 \<longleftrightarrow> w = 0 \<and> a = b"
    if "length a = length b" for w
    using that by (induction a b arbitrary: w rule: list_induct2) (auto simp: or_eq_0_iff xor)
  then show ?thesis by (auto simp: constant_time_eq_def)
qed

lemma strip_suffix: "suffix (strip_seqs ws s) s"
proof (induction ws s rule: strip_seqs.induct)
  case (1 ws s)
  then show ?case by (subst strip_seqs.simps) (auto split: option.split intro: suffix_order.trans suffix_drop)
qed

lemma strip_final: "w \<in> set ws \<Longrightarrow> w \<noteq> [] \<Longrightarrow> \<not> prefix w (strip_seqs ws s)"
proof (induction ws s rule: strip_seqs.induct)
  case (1 ws s)
  then show ?case by (subst strip_seqs.simps) (auto simp: find_None_iff split: option.split)
qed

lemma strip_fix: "(\<And>w. w \<in> set ws \<Longrightarrow> w \<noteq> [] \<Longrightarrow> \<not> prefix w s) \<Longrightarrow> strip_seqs ws s = s"
proof -
  assume "\<And>w. w \<in> set ws \<Longrightarrow> w \<noteq> [] \<Longrightarrow> \<not> prefix w s"
  then have "find (\<lambda>w. w \<noteq> [] \<and> prefix w s) ws = None" by (auto simp: find_None_iff)
  then show ?thesis by (subst strip_seqs.simps) simp
qed

lemma trim_start_prefix: "prefix (trim_end s) s"
  using strip_suffix [of "map rev ws_seqs" "rev s"] by (simp add: trim_end_def suffix_to_prefix)

lemma trim_final:
  "w \<in> set ws_seqs \<Longrightarrow> w \<noteq> [] \<Longrightarrow> \<not> prefix w (trim s)" "w \<in> set ws_seqs \<Longrightarrow> w \<noteq> [] \<Longrightarrow> \<not> prefix (rev w) (rev (trim s))"
proof -
  assume w: "w \<in> set ws_seqs" "w \<noteq> []"
  show "\<not> prefix w (trim s)"
    using strip_final [OF w, of s] trim_start_prefix [of "trim_start s"] prefix_order.trans
    unfolding trim_def trim_start_def by blast
  show "\<not> prefix (rev w) (rev (trim s))"
    using strip_final [of "rev w" "map rev ws_seqs" "rev (trim_start s)"] w by (simp add: trim_def trim_end_def)
qed

lemma trimmed: "(\<And>w. w \<in> set ws_seqs \<Longrightarrow> w \<noteq> [] \<Longrightarrow> \<not> prefix w s \<and> \<not> prefix (rev w) (rev s)) \<Longrightarrow> trim s = s"
proof -
  assume s: "\<And>w. w \<in> set ws_seqs \<Longrightarrow> w \<noteq> [] \<Longrightarrow> \<not> prefix w s \<and> \<not> prefix (rev w) (rev s)"
  have "strip_seqs (map rev ws_seqs) (rev s) = rev s" by (rule strip_fix) (use s in auto)
  moreover have "strip_seqs ws_seqs s = s" using s by (intro strip_fix) blast
  ultimately show ?thesis by (simp add: trim_def trim_start_def trim_end_def)
qed

lemma trim_trim [simp]: "trim (trim s) = trim s"
  by (rule trimmed) (simp add: trim_final)

text \<open>A trimmed token survives the header it is sent in.\<close>

lemma trim_header: "t \<noteq> [] \<Longrightarrow> trim t = t \<Longrightarrow> trim (''Bearer '' @ t) = ''Bearer '' @ t"
proof (rule trimmed)
  fix w
  assume t: "t \<noteq> []" "trim t = t" and w: "w \<in> set ws_seqs" "w \<noteq> []"
  have inner: "CHR '' '' \<notin> set (butlast w)" "hd w \<noteq> CHR ''B''" using w(1) by (auto simp: ws_seqs_def)
  have "\<not> prefix (rev w) (rev t @ rev ''Bearer '')"
  proof
    assume "prefix (rev w) (rev t @ rev ''Bearer '')"
    then obtain k where k: "rev w = rev t @ k" "prefix k (rev ''Bearer '')" "k \<noteq> []"
      using trim_final(2) [OF w, of t] t(2) by (auto simp: prefix_append)
    then have "hd k = CHR '' ''" by (cases k) (auto simp: prefix_def)
    moreover have "w = rev k @ t" using arg_cong [OF k(1), of rev] by simp
    ultimately have "CHR '' '' \<in> set (butlast w)" using k(3) t(1) hd_in_set [of k] by (simp add: butlast_append)
    then show False using inner by simp
  qed
  moreover have "\<not> prefix w (''Bearer '' @ t)" using inner(2) w(2) by (cases w) auto
  ultimately show "\<not> prefix w (''Bearer '' @ t) \<and> \<not> prefix (rev w) (rev (''Bearer '' @ t))" by simp
qed

lemma bearer_token_header: "t \<noteq> [] \<Longrightarrow> trim t = t \<Longrightarrow> bearer_token (''Bearer '' @ t) = t"
  by (simp add: bearer_token_def trim_header strip_prefix_def Let_def del: append_Cons)

subsection \<open>Identity of a caller\<close>

text \<open>The id of a credential is a public field; its token is private and only set by the constructor.\<close>

definition minted :: "auth_credential \<Rightarrow> bool" where
  "minted x \<longleftrightarrow> (\<exists>i raw y. credential_new i raw = Inr y \<and> cr_token x = cr_token y)"

inductive control_step :: "control \<Rightarrow> control \<Rightarrow> bool" where
  token: "set_token raw c = Some d \<Longrightarrow> control_step c d"
| credentials: "set_auth_credentials xs c = Inr d \<Longrightarrow> list_all minted xs \<Longrightarrow> control_step c d"
| owner: "set_agent_owner_id raw c = Inr d \<Longrightarrow> control_step c d"
| allowlist: "control_step c (set_allowlist roots c)"

text \<open>A service started with the token of its configuration, as it stands there.\<close>

definition control_start :: "string \<Rightarrow> control \<Rightarrow> bool" where
  "control_start start c \<longleftrightarrow> (\<exists>roots secrets. service_new start roots secrets = Some c)"

definition redacted :: "string \<Rightarrow> control \<Rightarrow> string \<Rightarrow> bool" where
  "redacted start c token \<longleftrightarrow> token \<in> set (ct_secrets c) \<or> token = trim start \<and> trim start \<noteq> start"

definition control_ok :: "string \<Rightarrow> control \<Rightarrow> bool" where
  "control_ok start c \<longleftrightarrow> trim (ct_owner_id c) \<noteq> [] \<and>
     list_all (\<lambda>x. validate_auth_credential_id (cr_id x) = Inr () \<and> cr_token x \<noteq> [] \<and> trim (cr_token x) = cr_token x
       \<and> redacted start c (cr_token x)) (ct_credentials c)"

lemma new_credential:
  "credential_new i raw = Inr x \<longleftrightarrow> validate_auth_credential_id (trim i) = Inr () \<and> trim raw \<noteq> []
     \<and> x = \<lparr>cr_id = trim i, cr_token = trim raw\<rparr>"
  by (auto simp: credential_new_def rbind_ok Let_def)

lemma minted_token: "minted x \<Longrightarrow> cr_token x \<noteq> [] \<and> trim (cr_token x) = cr_token x"
  by (auto simp: minted_def new_credential)

lemma add_secret_set: "set (add_control_secret x secrets) = set secrets \<union> (if x = [] then {} else {x})"
  by (auto simp: add_control_secret_def)

lemma add_secrets_set:
  "\<forall>x \<in> set xs. cr_token x \<noteq> [] \<Longrightarrow>
     set (foldl (\<lambda>secrets x. add_control_secret (cr_token x) secrets) secrets xs) = set secrets \<union> cr_token ` set xs"
  by (induction xs arbitrary: secrets) (auto simp: add_secret_set)

lemma primary_trim: "trim ''primary'' = ''primary''"
  by (rule trimmed) (auto simp: ws_seqs_def)

lemma primary_valid: "validate_auth_credential_id ''primary'' = Inr ()"
  by (simp add: validate_auth_credential_id_def is_ascii_alphanumeric_def is_ascii_lowercase_def less_eq_char_def
      LOCAL_DESKTOP_ORIGIN_ID_def)

lemma primary_credentials_iff:
  "primary_credentials token = Some xs \<longleftrightarrow>
     (if token = [] then xs = [] else trim token \<noteq> [] \<and> xs = [\<lparr>cr_id = ''primary'', cr_token = trim token\<rparr>])"
  by (auto simp: primary_credentials_def credential_new_def primary_trim primary_valid rbind_def Let_def)

lemma set_token_total: "\<exists>d. set_token raw c = Some d"
proof -
  have "primary_credentials (trim raw) =
      Some (if trim raw = [] then [] else [\<lparr>cr_id = ''primary'', cr_token = trim raw\<rparr>])"
    by (simp add: primary_credentials_iff)
  then show ?thesis by (simp add: set_token_def Let_def)
qed

lemma control_start_ok:
  assumes "control_start start c"
  shows "control_ok start c"
proof -
  obtain xs where xs: "primary_credentials start = Some xs" "ct_credentials c = xs" "ct_owner_id c = ''primary''"
    and secrets: "start \<noteq> [] \<Longrightarrow> start \<in> set (ct_secrets c)"
    using assms by (auto simp: control_start_def service_new_def add_secret_set split: option.splits)
  show ?thesis
  proof (cases "start = []")
    case True
    then show ?thesis using xs by (simp add: control_ok_def primary_credentials_iff primary_trim)
  next
    case False
    moreover have "redacted start c (trim start)"
      using secrets False by (cases "trim start = start") (auto simp: redacted_def)
    ultimately show ?thesis
      using xs by (simp add: control_ok_def primary_credentials_iff primary_trim primary_valid)
  qed
qed

lemma control_step_ok:
  assumes ok: "control_ok start c" and step: "control_step c d"
  shows "control_ok start d"
  using step
proof cases
  case (credentials xs)
  then have "\<forall>x \<in> set xs. cr_token x \<noteq> [] \<and> trim (cr_token x) = cr_token x"
    using minted_token by (auto simp: list_all_iff)
  then show ?thesis using credentials ok
    by (auto simp: set_auth_credentials_def control_ok_def list_all_iff rbind_ok add_secrets_set redacted_def
        split: if_splits option.splits)
qed (use ok in \<open>auto simp: control_ok_def set_token_def primary_credentials_iff primary_valid add_secret_set
    redacted_def set_agent_owner_id_def set_allowlist_def list_all_iff Let_def split: if_splits option.splits\<close>)

interpretation credentials: invariant_machine "control_start start" control_step "control_ok start" for start
  by unfold_locales (use control_start_ok control_step_ok in auto)

lemma authenticate_ok:
  "authenticate_bearer header xs owner = Inr ctx \<longleftrightarrow> trim owner \<noteq> [] \<and>
     (\<exists>h x. header = Some h \<and> bearer_token h \<noteq> [] \<and> find (\<lambda>y. bearer_token h = cr_token y) xs = Some x
       \<and> ctx = \<lparr>ax_token_id = cr_id x, ax_owner_id = trim owner\<rparr>)"
  by (auto simp: authenticate_bearer_def constant_time_eq_iff bytes_inject Let_def split: option.splits if_splits)

text \<open>
  C29. A caller is who its token says, and never the local desktop. Whatever token the service was started
  with and however its credentials were changed since, an authenticated request presented the token of
  an installed credential, the first one with that token, and carries the id of that credential and the owner
  of the service; that id is not the reserved origin of the local desktop. Its token is registered for redaction, with one
  exception: the token the service was started with, when it was given with blanks around it.
\<close>

theorem caller_identified:
  assumes "control_start start c0" "control_step\<^sup>*\<^sup>* c0 c" "auth_header header c = Inr ctx"
  shows "\<exists>h x. header = Some h \<and> find (\<lambda>y. bearer_token h = cr_token y) (ct_credentials c) = Some x
    \<and> x \<in> set (ct_credentials c) \<and> bearer_token h = cr_token x
    \<and> ax_token_id ctx = cr_id x \<and> ax_owner_id ctx = trim (ct_owner_id c)
    \<and> ax_token_id ctx \<noteq> LOCAL_DESKTOP_ORIGIN_ID
    \<and> (bearer_token h \<in> set (ct_secrets c) \<or> bearer_token h = trim start \<and> trim start \<noteq> start)"
proof -
  have ok: "control_ok start c" using credentials.reach_inv assms(1,2) by blast
  obtain h x where x: "header = Some h" "find (\<lambda>y. bearer_token h = cr_token y) (ct_credentials c) = Some x"
    "ctx = \<lparr>ax_token_id = cr_id x, ax_owner_id = trim (ct_owner_id c)\<rparr>"
    using assms(3) unfolding auth_header_def authenticate_ok by blast
  from x(2) have "x \<in> set (ct_credentials c)" "cr_token x = bearer_token h" by (auto simp: find_Some_iff)
  moreover from this ok have "cr_id x \<noteq> LOCAL_DESKTOP_ORIGIN_ID" "redacted start c (cr_token x)"
    by (auto simp: control_ok_def list_all_iff validate_auth_credential_id_def split: if_splits)
  ultimately show ?thesis using x by (intro exI [of _ h] exI [of _ x]) (simp add: redacted_def)
qed

text \<open>
  C31. Every installed credential works. Whatever token the service was started with and however its credentials were
  changed since, the token of an installed credential, sent as a bearer token, authenticates the
  caller, as the first installed credential with that token. Credentials may share a token; one that shares it
  with no other authenticates as itself.
\<close>

theorem own_token_accepted:
  assumes "control_start start c0" "control_step\<^sup>*\<^sup>* c0 c" "x \<in> set (ct_credentials c)"
  shows "\<exists>before y rest. ct_credentials c = before @ y # rest \<and> cr_token y = cr_token x
    \<and> (\<forall>z \<in> set before. cr_token z \<noteq> cr_token x)
    \<and> auth_header (Some (''Bearer '' @ cr_token x)) c = Inr \<lparr>ax_token_id = cr_id y, ax_owner_id = trim (ct_owner_id c)\<rparr>
    \<and> ((\<forall>z \<in> set (ct_credentials c). cr_token z = cr_token x \<longrightarrow> z = x) \<longrightarrow> y = x)"
proof -
  have ok: "control_ok start c" using credentials.reach_inv assms(1,2) by blast
  then have t: "cr_token x \<noteq> []" "trim (cr_token x) = cr_token x" "trim (ct_owner_id c) \<noteq> []"
    using assms(3) by (auto simp: control_ok_def list_all_iff)
  obtain before y rest where y: "ct_credentials c = before @ y # rest" "cr_token y = cr_token x"
    "\<forall>z \<in> set before. cr_token z \<noteq> cr_token x"
    using split_list_first_prop [of "ct_credentials c" "\<lambda>y. cr_token y = cr_token x"] assms(3) by metis
  then have "find (\<lambda>z. cr_token x = cr_token z) before = None" by (auto simp: find_None_iff)
  then have "find (\<lambda>z. cr_token x = cr_token z) (ct_credentials c) = Some y"
    unfolding y(1) using y(2) by (induction before) (auto split: if_splits)
  then have "auth_header (Some (''Bearer '' @ cr_token x)) c = Inr \<lparr>ax_token_id = cr_id y, ax_owner_id = trim (ct_owner_id c)\<rparr>"
    unfolding auth_header_def authenticate_ok using t
    by (intro conjI exI [of _ "''Bearer '' @ cr_token x"] exI [of _ y]) (simp_all only: bearer_token_header refl not_False_eq_True)
  then show ?thesis using y by (intro exI [of _ before] exI [of _ y] exI [of _ rest]) auto
qed

subsection \<open>The work a request can reach\<close>

text \<open>What canonicalisation promises: its result is absolute and its own canonical form.\<close>

definition canonical_host :: "host \<Rightarrow> bool" where
  "canonical_host h \<longleftrightarrow> (\<forall>p q. canonicalize h p = Some q \<longrightarrow> is_absolute_path q \<and> canonicalize h q = Some q)"

lemma canonical_again: "canonical_host h \<Longrightarrow> canonical_workspace h d p = Inr q \<Longrightarrow> canonical_workspace h e q = Inr q"
  by (auto simp: canonical_workspace_def canonical_host_def rbind_ok split: option.splits)

lemma workspace_match_iff:
  assumes "canonical_host h"
  shows "require_workspace_match h d allowlist scwd claimed = Inr p \<longleftrightarrow>
    canonical_workspace h d claimed = Inr p \<and> p \<in> set allowlist \<and> (\<exists>w. scwd = Some w \<and> canonical_workspace h d w = Inr p)"
  using canonical_again [OF assms]
  by (fastforce simp: require_workspace_match_def allowlist_contains_def rbind_ok list_ex_iff split: option.splits if_splits sum.splits)

lemma allowlist_roots: "p \<in> set (allowlist_new h d roots) \<longleftrightarrow> (\<exists>r \<in> set roots. canonical_workspace h d r = Inr p)"
  by (force simp: allowlist_new_def List.map_filter_def split: sum.splits)

text \<open>
  C30. A request reaches only its own work. When a caller names a session, a workspace and a work item and is
  let through, the item is stored in the ledger, belongs to that session, and lies in the workspace named, which is the
  canonical form of an allowlisted root and of the directory of the session; nothing is changed. The session is a Build session, and for a
  request that changes work it is not archived and its directory is usable.
\<close>

theorem work_scope_confined:
  assumes host: "canonical_host h" and roots: "ct_allowlist c = allowlist_new h d roots"
    and run: "load_work_scoped h d session_inspect c session_id workspace work_id allow_archived s = (Inr (item, claimed), t)"
  shows "t = s \<and> file_get (lg_items s) work_id = Some item \<and> wi_session_id item = session_id \<and> wi_workspace item = claimed
    \<and> canonical_workspace h d workspace = Inr claimed
    \<and> list_ex (\<lambda>r. canonical_workspace h d r = Inr claimed) roots
    \<and> (\<exists>x. session_inspect session_id = Some x \<and> ss_kind x = Build \<and> canonical_workspace h d (ss_cwd x) = Inr claimed
        \<and> (allow_archived \<or> \<not> ss_archived x \<and> ss_workspace_status x = Ready))"
proof -
  have scope: "(if allow_archived then authorize_work_read_scope h d session_inspect c session_id workspace
      else authorize_work_mutation_scope h d session_inspect c session_id workspace) = Inr claimed"
    and item: "t = s" "file_get (lg_items s) work_id = Some item" "wi_session_id item = session_id" "wi_workspace item = claimed"
    using run by (auto simp: load_work_scoped_def load_work_item_def op_simps map_err_def some_or_def checked_def
        split: option.splits if_splits sum.splits)
  obtain x where x: "session_inspect session_id = Some x" "ss_kind x = Build"
    "allow_archived \<or> \<not> ss_archived x \<and> ss_workspace_status x = Ready"
    "require_workspace_match h d (ct_allowlist c) (session_cwd x) workspace = Inr claimed"
    using scope by (auto simp: authorize_work_read_scope_def authorize_work_mutation_scope_def require_build_session_def rbind_ok
        split: option.splits if_splits)
  from x(4) show ?thesis unfolding workspace_match_iff [OF host] roots allowlist_roots
    using item x(1-3) by (auto simp: session_cwd_def list_ex_iff split: if_splits)
qed

subsection \<open>Examples\<close>

lemma trim_t: "trim ''t'' = ''t''" "trim '' t'' = ''t''" "trim '' '' = []"
proof -
  show t: "trim ''t'' = ''t''" by (rule trimmed) (auto simp: ws_seqs_def)
  have strip: "strip_seqs ws_seqs (CHR '' '' # r) = strip_seqs ws_seqs r" for r
    by (subst strip_seqs.simps) (simp add: ws_seqs_def)
  then show "trim '' t'' = ''t''" using t by (simp add: trim_def trim_start_def)
  have "strip_seqs ws [] = []" for ws by (rule strip_fix) auto
  then show "trim '' '' = []" using strip by (simp add: trim_def trim_start_def trim_end_def)
qed

definition one_client :: control where
  "one_client = \<lparr>ct_bearer_token = ''t'', ct_allowlist = [''/w''], ct_credentials = [\<lparr>cr_id = ''primary'', cr_token = ''t''\<rparr>],
     ct_owner_id = ''primary'', ct_secrets = [''t'']\<rparr>"

lemma one_client_start: "control_start ''t'' one_client"
proof -
  have "primary_credentials ''t'' = Some [\<lparr>cr_id = ''primary'', cr_token = ''t''\<rparr>]"
    by (simp add: primary_credentials_iff trim_t)
  then show ?thesis unfolding control_start_def
    by (intro exI [of _ "[''/w'']"] exI [of _ "[]"]) (simp add: service_new_def one_client_def add_control_secret_def)
qed

lemma client_header: "bearer_token ''Bearer t'' = ''t''"
  using bearer_token_header [of "''t''"] trim_t by simp

theorem caller_identified_witness:
  "auth_header (Some ''Bearer t'') one_client = Inr \<lparr>ax_token_id = ''primary'', ax_owner_id = ''primary''\<rparr>
     \<and> ''t'' \<in> set (ct_secrets one_client)"
proof -
  have auth: "auth_header (Some ''Bearer t'') one_client = Inr \<lparr>ax_token_id = ''primary'', ax_owner_id = ''primary''\<rparr>"
    by (simp add: auth_header_def authenticate_ok client_header one_client_def primary_trim)
  show ?thesis using caller_identified [OF one_client_start rtranclp.rtrancl_refl auth] auth client_header
    by (auto simp: trim_t)
qed

text \<open>Two credentials of the same token: the first one answers for both.\<close>

definition shared_token :: control where
  "shared_token = one_client\<lparr>ct_credentials :=
     [\<lparr>cr_id = ''primary'', cr_token = ''t''\<rparr>, \<lparr>cr_id = ''phone'', cr_token = ''t''\<rparr>]\<rparr>"

lemma shared_token_step: "control_step one_client shared_token"
proof (rule control_step.credentials)
  let ?xs = "[\<lparr>cr_id = ''primary'', cr_token = ''t''\<rparr>, \<lparr>cr_id = ''phone'', cr_token = ''t''\<rparr>]"
  have "validate_auth_credential_id ''phone'' = Inr ()"
    by (simp add: validate_auth_credential_id_def is_ascii_alphanumeric_def is_ascii_lowercase_def less_eq_char_def
        LOCAL_DESKTOP_ORIGIN_ID_def)
  then show "set_auth_credentials ?xs one_client = Inr shared_token"
    by (simp add: set_auth_credentials_def primary_valid rbind_def first_err.simps shared_token_def one_client_def add_control_secret_def)
  have "minted x" if "cr_token x = ''t''" for x
    unfolding minted_def new_credential using that primary_trim primary_valid trim_t(1)
    by (intro exI [of _ "''primary''"] exI [of _ "''t''"] exI [of _ "\<lparr>cr_id = ''primary'', cr_token = ''t''\<rparr>"]) simp
  then show "list_all minted ?xs" by simp
qed

theorem own_token_accepted_witness:
  "auth_header (Some (''Bearer '' @ ''t'')) shared_token = Inr \<lparr>ax_token_id = ''primary'', ax_owner_id = ''primary''\<rparr>"
proof -
  have "control_step\<^sup>*\<^sup>* one_client shared_token" using shared_token_step by (rule r_into_rtranclp)
  from own_token_accepted [OF one_client_start this, of "\<lparr>cr_id = ''phone'', cr_token = ''t''\<rparr>"]
  show ?thesis by (auto simp: shared_token_def one_client_def primary_trim Cons_eq_append_conv)
qed

definition unix_host :: host where
  "unix_host = exact_host\<lparr>canonicalize := (\<lambda>p. if is_absolute_path p then Some p else None)\<rparr>"

definition one_session :: "uuid \<Rightarrow> session_summary option" where
  "one_session i = (if i = 7
     then Some \<lparr>ss_cwd = ''/w'', ss_archived = False, ss_kind = Build, ss_workspace_status = Ready\<rparr> else None)"

lemma unix_canonical: "canonical_host unix_host" "canonical_workspace unix_host d ''/w'' = Inr ''/w''"
  by (simp_all add: canonical_host_def unix_host_def canonical_workspace_def is_absolute_path_def rbind_def)

lemma scoped_example:
  "load_work_scoped unix_host (Inr ''/'') one_session one_client 7 ''/w'' ''w'' False saved_ledger
     = (Inr (example_item ''w'' [], ''/w''), saved_ledger)"
  by (simp add: load_work_scoped_def authorize_work_mutation_scope_def require_build_session_def one_session_def
      require_workspace_match_def unix_canonical allowlist_contains_def session_cwd_def one_client_def rbind_def op_simps
      map_err_def some_or_def load_simps example_files saved_ledger_def empty_ledger_def example_item_valid)

theorem work_scope_confined_witness:
  "wi_session_id (example_item ''w'' []) = 7 \<and> wi_workspace (example_item ''w'' []) = ''/w''
     \<and> file_get (lg_items saved_ledger) ''w'' = Some (example_item ''w'' [])"
proof -
  have "ct_allowlist one_client = allowlist_new unix_host (Inr ''/'') [''/w'']"
    by (simp add: one_client_def allowlist_new_def List.map_filter_def unix_canonical)
  from work_scope_confined [OF unix_canonical(1) this scoped_example] show ?thesis by simp
qed

text \<open>
  The constructor of the service takes the token as given: with a blank around it, the credential accepts the
  trimmed token but redaction looks for the padded one, and a token of blanks only ends in a panic.
\<close>

lemma padded_token_unredacted:
  "\<exists>c. service_new '' t'' [] [] = Some c \<and> is_ok (auth_header (Some ''Bearer t'') c) \<and> ''t'' \<notin> set (ct_secrets c)"
  "service_new '' '' [] [] = None"
proof -
  have "credential_new ''primary'' '' t'' = Inr \<lparr>cr_id = ''primary'', cr_token = ''t''\<rparr>"
    by (simp add: new_credential primary_trim primary_valid trim_t)
  then show "\<exists>c. service_new '' t'' [] [] = Some c \<and> is_ok (auth_header (Some ''Bearer t'') c) \<and> ''t'' \<notin> set (ct_secrets c)"
    using authenticate_ok [of "Some ''Bearer t''" "[\<lparr>cr_id = ''primary'', cr_token = ''t''\<rparr>]" "''primary''"
      "\<lparr>ax_token_id = ''primary'', ax_owner_id = ''primary''\<rparr>"]
    by (simp add: service_new_def primary_credentials_def add_control_secret_def auth_header_def client_header primary_trim is_ok_def)
  have "credential_new ''primary'' '' '' = Inl (invalid ''auth credential token must not be empty'')"
    by (simp add: credential_new_def primary_trim primary_valid trim_t rbind_def)
  then show "service_new '' '' [] [] = None" by (simp add: service_new_def primary_credentials_def)
qed

end
