(* ===== verification/Spec2Isabelle.thy ===== *)
theory Spec2Isabelle
  imports Example_Completion Work_Contract Receipt_Contract Message_Properties Routine_Examples Worker_Properties
    Manager_Gaps Prompt_Properties Authorization_Properties
begin

text \<open>
  \<^bold>\<open>The durable work ledger of the GrokPtah agent bridge\<close>

  The crate \<^verbatim>\<open>src/crates/codegen/grokptah-agent-bridge\<close> lets several agents and people share
  work. Its core is the orchestration store (\<^verbatim>\<open>src/orchestration/\<close>): work items that depend
  on each other, attempts of workers that hold an item under a lease, decisions of people on
  an item, evidence that decides whether work may succeed, receipts that make a request
  idempotent, and write-ahead intents that make a change of several files survive a crash.
  Beside the ledger the store keeps a mailbox of numbered messages and routines that create
  work on a schedule, and shows the workers with their load and leases. A manager coordinates work through
  plans: dependent steps that become work items one after the other, with replanning after a failure.
  The prompt queue of a session (\<^verbatim>\<open>src/prompt_queue.rs\<close>) holds the prompts that wait for the running turn
  and the steering injected into it. File names below are relative to the crate.

  \<^bold>\<open>Theories.\<close>

  \<^item> \<open>Ledger_Prelude\<close>: errors (\<^verbatim>\<open>types.rs\<close>), results, the operations \<open>op\<close> on an explicit state
    with the weakest precondition \<open>wp\<close>, strings as Rust prints and trims them, and the
    collections \<open>wp\<close>, \<open>ledger_intro\<close> and \<open>ok_run\<close> that the component proofs use.
  \<^item> \<open>Evidence\<close>: \<^verbatim>\<open>completion.rs\<close> and the checks of \<^verbatim>\<open>verified_change.rs\<close>.
  \<^item> \<open>Workload\<close>: \<^verbatim>\<open>orchestration/workload.rs\<close>: items, attempts, decisions, their validation,
    lease tokens and durations.
  \<^item> \<open>Work_Cycle\<close>, \<open>Work_Graph\<close>: \<^verbatim>\<open>orchestration/graph.rs\<close>: lanes, the cycle finder, the validator
    of a write, the admission evaluator and the projection.
  \<^item> \<open>Ledger_Store\<close>, \<open>Idempotency\<close>, \<open>Ledger_Intents\<close>, \<open>Work_Reconcile\<close>, \<open>Work_Decisions\<close>,
    \<open>Work_Leases\<close>: \<^verbatim>\<open>orchestration/store.rs\<close>: the record \<open>ledger\<close> with one directory per kind of
    file, and one definition per method of \<open>OrchStore\<close>, with every guard, early return and
    durable write in the order of the code.
  \<^item> \<open>Ledger_Records\<close>, \<open>Lease_Commit\<close>, \<open>Lease_Safety\<close>, \<open>Ledger_Machine\<close>: the invariant of the
    ledger, kept by every operation, and the step relation \<open>ledger_step\<close> of all public
    operations with crashes and reopening.
  \<^item> \<open>Crash_Recovery\<close>, \<open>Lease_Contract\<close>, \<open>Run_Rules\<close>, \<open>Work_Contract\<close>, \<open>Receipt_Contract\<close>: what
    each operation promises when it returns, recovery of interrupted changes, and the
    refinement of the abstract book of a request.
  \<^item> \<open>Ledger_Part\<close>: the locale \<open>ledger_part\<close> of a component that keeps files beside the ledger,
    interpreted by the mailbox, the routines, the workers and the manager plans. \<open>Ledger_Save\<close>: what such
    a component can rely on when it saves work.
  \<^item> \<open>Json_Bounds\<close>: JSON values, and \<open>merge_bounds\<close> of \<^verbatim>\<open>orchestration/types.rs\<close>.
  \<^item> \<open>Messages\<close>, \<open>Message_Contract\<close>, \<open>Message_Properties\<close>: \<^verbatim>\<open>orchestration/message.rs\<close> and the
    message methods of the store; numbering, paging, retention, acknowledgement and redaction, the names of
    secrets being listed again in the specification.
  \<^item> \<open>Routines\<close>, \<open>Routine_Store\<close>: \<^verbatim>\<open>orchestration/routine.rs\<close> and the routine methods of the store:
    triggers and schedules, captured policy, activations with their intents and dedupe receipts,
    passes over due routines, and recovery.
  \<^item> \<open>Routine_Schedule\<close>, \<open>Routine_Contract\<close>, \<open>Routine_Properties\<close>, \<open>Routine_Pass\<close>, \<open>Routine_Examples\<close>:
    the next slot of a trigger, the effect of an activation for all outcomes of its writes, one
    activation per key, the limit of work in flight, narrowing of policy, backoff and circuit,
    progress of a pass; and what unfinished activations do when the store is opened.
  \<^item> \<open>Workers\<close>, \<open>Worker_Properties\<close>: \<^verbatim>\<open>orchestration/worker.rs\<close> and the worker methods of the store:
    heartbeats, projections of load, liveness and leases, and the limits of an assignment.
  \<^item> \<open>Managed_Policy\<close>: the execution policy of an agent (\<^verbatim>\<open>orchestration/managed.rs\<close>).
  \<^item> \<open>Manager_Plans\<close>, \<open>Manager_Store\<close>, \<open>Manager_Service\<close>: \<^verbatim>\<open>orchestration/manager.rs\<close>, the manager methods of
    the store, and the manager tools and supervisor of \<^verbatim>\<open>orchestration/service.rs\<close>.
  \<^item> \<open>Manager_Graph\<close>, \<open>Manager_Progress\<close>, \<open>Manager_Examples\<close>: the validation of a plan is exact, the replan loop
    ends at the least set, work is created when it is ready and within the limit, and the invariant of every plan.
  \<^item> \<open>Manager_Safety\<close>, \<open>Manager_Commit\<close>, \<open>Manager_Runs\<close>, \<open>Manager_Gaps\<close>: the tools and the supervisor over the stored plans,
    for every outcome of the writes: one work item per step, serialization by revision, creation that is all
    or nothing; concrete runs; and the situations in which a plan gets stuck.
  \<^item> \<open>Authorization\<close>, \<open>Authorization_Properties\<close>: \<^verbatim>\<open>orchestration/authz.rs\<close>, the installation of credentials and the scope
    checks of \<^verbatim>\<open>orchestration/service.rs\<close>: who a caller is, and which work it can reach.
  \<^item> \<open>Prompt_Queue\<close>, \<open>Prompt_Properties\<close>: \<^verbatim>\<open>prompt_queue.rs\<close> and \<^verbatim>\<open>prompt_combine.rs\<close>: no accepted prompt is
    lost or held twice, reordering is fenced by versions, and what a batch contains.
  \<^item> \<open>Canonical_Encoding\<close>, \<open>Example_Run\<close>, \<open>Example_Completion\<close>: an injective encoding of
    records that shows the hypothesis on the digest can be met, and concrete runs of the
    ledger on which the theorems are applied.

  \<^bold>\<open>The host.\<close> The clock, the source of fresh ids, the digest of a record, the canonical
  form of a path and the outcome of the n-th durable write are the fields of the record
  \<open>host\<close>, an argument of every operation. A write is refused, done, or done although an
  error is reported, as a rename followed by a failing sync is. The locale \<open>sound_host\<close>
  states what the safety theorems rely on: the clock does not run backwards, and
  the digest is injective on items and on attempts, the usual idealisation of SHA-256. \<open>exact_host\<close> meets all of it.
  For lease tokens only the payloads compared are assumed not to collide (\<open>no_collision\<close>).

  \<^bold>\<open>Machine integers.\<close> Revisions and counters are kept in their width where the code
  saturates (\<open>saturating_add\<close>); the versions of queued prompts are 64-bit words; the casts of the interval schedule to \<open>i64\<close> and \<open>i32\<close> are written
  out; instants are integers in nanoseconds. Time zones are a parameter of the routines.

  \<^bold>\<open>Termination.\<close> Every definition is total; no fuel is used. The walk of the cycle finder
  terminates because its path has no repetition, the depth-first search of a plan because the path
  grows within the known steps, and the replan loop because its set grows within the steps.

  \<^bold>\<open>Not modelled.\<close> Locks and threads (each method runs under the store's lock and is one
  transition here; a tool of a manager is a sequence of such methods and is run without others in between), JSON text of the files, the audit log, and the host around the
  store: sessions, providers, processes, version control and network protocols. A record is named by its id where the code names
  its file by the hash of the id; the data and apply phase of an error are left out; reading an agent does not
  migrate and save its specification again; opening the store recovers the work ledger and its receipts only, the recovery
  of routines and of manager plans being operations of their own; and the counters of observed tests, 32-bit in the code, are natural numbers.
\<close>

section \<open>The whole ledger\<close>

text \<open>
  C1. At most one worker holds a work item. In every state the ledger can reach, through
  any sequence of calls, failed and torn writes, restarts and reopenings, two attempts of
  the same work item whose leases are live at the current instant are the same attempt.
\<close>

theorem exclusive_lease:
  assumes host: "sound_host h" and start: "ledger_start s" and run: "(ledger_step h)\<^sup>*\<^sup>* s t"
    and a: "a \<in> attempts_set t" "lease_active_at a (utc_now h (lg_clock t))"
    and b: "b \<in> attempts_set t" "lease_active_at b (utc_now h (lg_clock t))"
    and same: "wa_work_id a = wa_work_id b"
  shows "a = b"
proof -
  from sound_host.reachable_safe [OF host start run] obtain t0 where ok: "ledger_ok h t0 t"
    unfolding safe_def stays_def by blast
  then have "holders_ok (utc_now h (lg_clock t)) (attempts_set t)"
    "dir_ok wa_attempt_id (lg_attempts t)"
    unfolding ledger_ok_def records_ok_def by (auto intro: holders_ok_later)
  then show ?thesis
    using a b same dir_list_get [of wa_attempt_id "lg_attempts t"]
    unfolding holders_ok_def attempts_set_def by (metis option.inject)
qed

theorem exclusive_lease_witness:
  "ledger_start empty_ledger \<and> (ledger_step exact_host)\<^sup>*\<^sup>* empty_ledger claimed_ledger
   \<and> {b \<in> attempts_set claimed_ledger. wa_work_id b = ''w''
        \<and> lease_active_at b (utc_now exact_host (lg_clock claimed_ledger))} = {claimed_attempt}"
proof -
  have a: "claimed_attempt \<in> attempts_set claimed_ledger"
    "lease_active_at claimed_attempt (utc_now exact_host (lg_clock claimed_ledger))"
    by (simp_all add: attempts_set_def claimed_ledger_def saved_ledger_def empty_ledger_def
          dir_list_def lease_active_at_def) (simp add: claimed_attempt_def)
  show ?thesis
    using exclusive_lease [OF exact.sound_host_axioms empty_ledger_start claimed_reachable _ _ a]
      a empty_ledger_start claimed_reachable by auto
qed

text \<open>
  C3. Every record of a reachable ledger is well formed: it lies under its own id, passes
  the validation of its type, and an item never counts more attempts than its retry policy
  allows, whose bound is at most 100.
\<close>

theorem reachable_records_valid:
  assumes host: "sound_host h" and start: "ledger_start s" and run: "(ledger_step h)\<^sup>*\<^sup>* s t"
  shows "(\<forall>w i. dir_get (lg_items t) w = Some i \<longrightarrow>
             wi_work_id i = w \<and> item_validate i = Inr ()
             \<and> wi_attempt_count i \<le> rp_max_attempts (wp_retry (wi_policy i))
             \<and> rp_max_attempts (wp_retry (wi_policy i)) \<le> 100)
       \<and> (\<forall>k a. dir_get (lg_attempts t) k = Some a \<longrightarrow>
             wa_attempt_id a = k \<and> attempt_validate a = Inr ())"
proof -
  from sound_host.reachable_safe [OF host start run] have ok: "records_ok t"
    unfolding safe_def stays_def ledger_ok_def by blast
  then have "item_validate i = Inr () \<and> wi_work_id i = w" if "dir_get (lg_items t) w = Some i" for w i
    using that dir_ok_key [of wi_work_id "lg_items t" w i] dir_list_get [of wi_work_id "lg_items t" i]
    unfolding records_ok_def by auto
  moreover from ok have "attempt_validate a = Inr () \<and> wa_attempt_id a = k"
    if "dir_get (lg_attempts t) k = Some a" for k a
    using that dir_ok_key [of wa_attempt_id "lg_attempts t" k a]
      dir_list_get [of wa_attempt_id "lg_attempts t" a]
    unfolding records_ok_def attempts_set_def by auto
  ultimately show ?thesis using item_validate_attempts by blast
qed

theorem reachable_records_valid_witness:
  "dir_get (lg_items claimed_ledger) ''w'' = Some claimed_item
   \<and> dir_get (lg_attempts claimed_ledger) ''uu'' = Some claimed_attempt
   \<and> item_validate claimed_item = Inr () \<and> wi_attempt_count claimed_item \<le> 3
   \<and> attempt_validate claimed_attempt = Inr ()"
proof -
  have "dir_get (lg_items claimed_ledger) ''w'' = Some claimed_item"
    "dir_get (lg_attempts claimed_ledger) ''uu'' = Some claimed_attempt"
    by (simp_all add: claimed_ledger_def dir_get_def)
  then show ?thesis
    using reachable_records_valid [OF exact.sound_host_axioms empty_ledger_start claimed_reachable]
    by (metis example_attempts claimed_simps(7))
qed

text \<open>
  C2. A change that spans several files is never lost halfway. Take a ledger whose one pending intent is on disk
  and which holds any part of that change, let a commit run on storage that fails at any write, torn or
  not, and stop there. The intent is then still on disk, or the change is complete. When the store is opened
  on storage that works, the recovery, which knows only the intents it finds on disk, succeeds: item, attempts and receipt are as the
  change says, no intent is left, and no record of another work item has changed.
\<close>

theorem interrupted_commit_recovers:
  assumes h: "sound_host h" and g: "sound_host g" and same: "hash_payload g = hash_payload h"
    and works: "reliable g" and wf: "lifecycle_wf i" and s: "between h i s"
    and name: "safe_id_filename (li_intent_id i) = Inr k" and disk: "lg_lifecycles s = [(k, i)]"
    and stop: "commit_work_lifecycle_intent h i s = (r, t)"
  shows "(lg_lifecycles t = [(k, i)] \<or> applied h i t)
    \<and> (\<exists>u. recover_work_lifecycle_intents g t = (Inr (), u) \<and> applied g i u \<and> others_same i s u \<and> lg_lifecycles u = [])"
proof -
  have t: "between h i t" "others_same i s t" "lg_lifecycles t = [(k, i)] \<or> lg_lifecycles t = [] \<and> applied h i t"
    using sound_host.wp_commit_pending [OF h s wf name disk] stop by (auto simp: wp_def split: sum.splits)
  have "\<exists>u. recover_work_lifecycle_intents g t = (Inr (), u) \<and> applied g i u \<and> others_same i t u \<and> lg_lifecycles u = []"
  proof (cases "lg_lifecycles t = []")
    case True
    then show ?thesis using t(3)
      by (auto simp: recover_work_lifecycle_intents_def bindE_def gets_def ret_def dir_list_def sort_by_def applied_hash [OF same]
          others_same_def)
  next
    case False
    then have disk: "lg_lifecycles t = [(k, i)]" using t(3) by simp
    obtain x u where u: "commit_work_lifecycle_intent g i t = (x, u)" by fastforce
    have "between g i t" using t(1) by (simp add: between_hash [OF same])
    from sound_host.wp_commit_pending [OF g this wf name disk] works u
    have "x = Inr ()" "applied g i u" "others_same i t u" "lg_lifecycles u = []" by (auto simp: wp_def split: sum.splits)
    then show ?thesis using u disk
      by (auto simp: recover_work_lifecycle_intents_def bindE_def thenE_def gets_def ret_def dir_list_def sort_by_def)
  qed
  then show ?thesis using t(2,3) others_same_trans by blast
qed

text \<open>
  The example's claim, with its intent on disk, on storage whose next write reaches the
  file but reports an error.
\<close>

definition torn_host :: host where
  "torn_host = exact_host\<lparr>durable_outcome := (\<lambda>n. if n = 2 then WrittenUnsynced else Written)\<rparr>"

interpretation torn: sound_host torn_host
  by unfold_locales
    (simp_all add: torn_host_def attempt_digest_def work_digest_def enc_work_item_inj enc_work_attempt_inj)

definition claim_intent :: work_lifecycle_intent where
  "claim_intent =
     \<lparr>li_schema_version = 1, li_intent_id = ''uuu'', li_operation = O_Claim, li_work_id = ''w'',
      li_prior_item = example_item ''w'' [], li_item = claimed_item, li_prior_attempts = [],
      li_attempts = [claimed_attempt], li_request = None\<rparr>"

definition intended_ledger :: ledger where
  "intended_ledger = before_commit\<lparr>lg_lifecycles := [(''uuu'', claim_intent)], lg_writes := 2\<rparr>"

lemma claim_intent_wf: "lifecycle_wf claim_intent"
  by (simp add: lifecycle_wf_def claim_intent_def lifecycle_validate_def validate_work_attempt_set_def
        example_item_valid claimed_item_valid claimed_attempt_valid op_not_blank [of O_Claim, simplified] rbind_def is_ok_def
        example_files WORK_LIFECYCLE_INTENT_SCHEMA_VERSION_def)

lemma claim_intent_between: "between torn_host claim_intent intended_ledger"
  by (simp add: between_def records_ok_def attempts_set_def dir_list_def dir_ok_def dir_get_def
        intended_ledger_def before_commit_def saved_ledger_def empty_ledger_def claim_intent_def
        attempts_between_def receipt_between_def example_item_valid)

theorem interrupted_commit_recovers_witness:
  "commit_work_lifecycle_intent torn_host claim_intent intended_ledger
     = (Inl (internal_of (Opaque (io_error torn_host))),
        note_partial_commit (internal_of (Opaque (io_error torn_host)))
          (intended_ledger\<lparr>lg_attempts := [(''uu'', claimed_attempt)], lg_writes := 3\<rparr>))
   \<and> (\<exists>u. recover_work_lifecycle_intents exact_host
           (note_partial_commit (internal_of (Opaque (io_error torn_host)))
             (intended_ledger\<lparr>lg_attempts := [(''uu'', claimed_attempt)], lg_writes := 3\<rparr>)) = (Inr (), u)
         \<and> applied exact_host claim_intent u \<and> others_same claim_intent intended_ledger u \<and> lg_lifecycles u = [])"
proof -
  have hp: "hash_payload exact_host = hash_payload torn_host" by (simp add: torn_host_def)
  have name: "safe_id_filename (li_intent_id claim_intent) = Inr ''uuu''" by (simp add: claim_intent_def example_files)
  have disk: "lg_lifecycles intended_ledger = [(''uuu'', claim_intent)]" by (simp add: intended_ledger_def)
  have stop: "commit_work_lifecycle_intent torn_host claim_intent intended_ledger
     = (Inl (internal_of (Opaque (io_error torn_host))),
        note_partial_commit (internal_of (Opaque (io_error torn_host)))
          (intended_ledger\<lparr>lg_attempts := [(''uu'', claimed_attempt)], lg_writes := 3\<rparr>))"
    by (simp add: commit_simps op_simps load_simps example_item_valid claimed_item_valid
        claimed_attempt_valid example_files op_not_blank [of O_Claim, simplified] before_commit_def claim_intent_def
        intended_ledger_def saved_ledger_def empty_ledger_def item_differs rbind_def torn_host_def)
  show ?thesis
    using interrupted_commit_recovers [OF torn.sound_host_axioms exact.sound_host_axioms hp _
        claim_intent_wf claim_intent_between name disk stop] stop
    by (simp add: reliable_def)
qed

section \<open>Operations of a worker\<close>

text \<open>
  C4. What a claim grants. On a safe ledger, a claim that returns found no attempt of the item whose lease
  was live at that instant, and has stored the leased item and a live attempt of the claimant whose token it hands
  out; the attempt number is one more than the stored item's count, is the new count and is within the retry budget, the
  lease is positive and at most an hour, the item was claimable by the claimant and before its deadline,
  and every dependency is a stored item of the same lane that has succeeded.
\<close>

theorem claim_grants:
  assumes host: "sound_host h" and s: "safe h s"
    and run: "claim_work_inner h w c ms sec fence s = (Inr cl, t)"
  shows "\<exists>lease stored. lease_duration ms = Inr lease \<and> 0 < lease \<and> lease \<le> milliseconds MAX_WORK_LEASE_MS
    \<and> granted h w c lease cl t
    \<and> dir_get (lg_items s) w = Some stored \<and> wa_attempt_number (cl_attempt cl) = Suc (wi_attempt_count stored)
    \<and> (\<forall>a \<in> attempts_set s. wa_work_id a = w \<longrightarrow> \<not> lease_active_at a (wa_acquired_at (cl_attempt cl)))"
proof -
  obtain lease stored where claim: "lease_duration ms = Inr lease" "granted h w c lease cl t"
    "dir_get (lg_items s) w = Some stored" "wi_attempt_count (cl_work cl) = Suc (wi_attempt_count stored)"
    "\<forall>a \<in> attempts_set s. wa_work_id a = w \<longrightarrow> \<not> lease_active_at a (wa_acquired_at (cl_attempt cl))"
    using sound_host.claim_inner_granted [OF host run s] by blast
  moreover from this have "0 < lease" "lease \<le> milliseconds MAX_WORK_LEASE_MS"
    "wa_attempt_number (cl_attempt cl) = Suc (wi_attempt_count stored)"
    by (auto simp: lease_duration_def milliseconds_def granted_def Let_def split: if_splits)
  ultimately show ?thesis by blast
qed

theorem claim_grants_witness:
  "claim_work_inner exact_host ''w'' ''bob'' None None None saved_ledger
     = (Inr \<lparr>cl_work = claimed_item, cl_attempt = claimed_attempt, cl_lease_token = ''u''\<rparr>, claimed_ledger)
   \<and> granted exact_host ''w'' ''bob'' 300000000000
       \<lparr>cl_work = claimed_item, cl_attempt = claimed_attempt, cl_lease_token = ''u''\<rparr> claimed_ledger"
proof -
  have "ledger_step exact_host empty_ledger saved_ledger"
    using ledger_step.call [of exact_host empty_ledger "C_SaveItem (example_item ''w'' [])"]
    by (simp add: save_example)
  then have "safe exact_host saved_ledger"
    using exact.reachable_safe [OF empty_ledger_start] by blast
  moreover have "lease_duration None = Inr 300000000000"
    by (simp add: lease_duration_def DEFAULT_WORK_LEASE_MS_def MAX_WORK_LEASE_MS_def milliseconds_def)
  ultimately show ?thesis
    using claim_grants [OF exact.sound_host_axioms _ claim_example [unfolded claim_work_def]]
      claim_example [unfolded claim_work_def] by simp
qed

text \<open>
  C40. A lease secret opens its own attempt and no other. A claim with a lease secret hands out the
  token derived from the claimed attempt and the secret, and stores the hash of it. Whoever derives a token from any attempt
  record, the same one after renewals and changes of state included, and any secret, gets one that opens the claimed attempt
  exactly when work item, attempt id, attempt number and secret are those of the claim; among the stored attempts
  that is the claimed one only. The hash is assumed not to collide on the payloads compared.
\<close>

theorem lease_secret_binds:
  assumes host: "sound_host h" and s: "safe h s"
    and run: "claim_work_with_lease_secret h w c ms secret s = (Inr cl, t)"
    and derivation: "no_collision h
        (P_LeaseSecret secret' (wa_work_id b) (wa_attempt_id b) (wa_attempt_number b))
        (P_LeaseSecret secret w (wa_attempt_id (cl_attempt cl)) (wa_attempt_number (cl_attempt cl)))"
    and token: "no_collision h (P_LeaseToken (cl_lease_token cl)) (P_LeaseToken (lease_token_for_secret h b secret'))"
  shows "dir_get (lg_attempts t) (wa_attempt_id (cl_attempt cl)) = Some (cl_attempt cl)
    \<and> cl_lease_token cl = lease_token_for_secret h (cl_attempt cl) secret
    \<and> wa_lease_token_hash (cl_attempt cl) = hash_payload h (P_LeaseToken (cl_lease_token cl))
    \<and> (token_matches h (cl_attempt cl) (lease_token_for_secret h b secret') \<longleftrightarrow>
         secret' = secret \<and> wa_work_id b = w \<and> wa_attempt_id b = wa_attempt_id (cl_attempt cl)
         \<and> wa_attempt_number b = wa_attempt_number (cl_attempt cl))
    \<and> (b \<in> attempts_set t \<longrightarrow>
         (token_matches h (cl_attempt cl) (lease_token_for_secret h b secret') \<longleftrightarrow>
           secret' = secret \<and> b = cl_attempt cl))"
proof -
  from run have claim: "claim_work_inner h w c ms (Some secret) None s = (Inr cl, t)"
    by (auto simp: claim_work_with_lease_secret_def ok_run)
  obtain lease where granted: "granted h w c lease cl t" using sound_host.claim_inner_granted [OF host claim s] by blast
  then have stored: "dir_get (lg_attempts t) (wa_attempt_id (cl_attempt cl)) = Some (cl_attempt cl)"
    and work: "wa_work_id (cl_attempt cl) = w"
    and hash: "wa_lease_token_hash (cl_attempt cl) = hash_payload h (P_LeaseToken (cl_lease_token cl))"
    by (simp_all add: granted_def Let_def token_matches_def)
  have tok: "cl_lease_token cl = lease_token_for_secret h (cl_attempt cl) secret" using claim by (rule claim_inner_secret)
  have opens: "token_matches h (cl_attempt cl) (lease_token_for_secret h b secret') \<longleftrightarrow>
      lease_token_for_secret h b secret' = cl_lease_token cl"
    unfolding token_matches_def hash using token unfolding no_collision_def payload.inject by metis
  also have "\<dots> \<longleftrightarrow> secret' = secret \<and> wa_work_id b = w \<and> wa_attempt_id b = wa_attempt_id (cl_attempt cl)
      \<and> wa_attempt_number b = wa_attempt_number (cl_attempt cl)"
    unfolding tok lease_token_for_secret_def work using derivation unfolding no_collision_def payload.inject by metis
  finally have same: "token_matches h (cl_attempt cl) (lease_token_for_secret h b secret') \<longleftrightarrow>
      secret' = secret \<and> wa_work_id b = w \<and> wa_attempt_id b = wa_attempt_id (cl_attempt cl)
      \<and> wa_attempt_number b = wa_attempt_number (cl_attempt cl)" .
  have "safe h t" by (rule keeps_ok [OF sound_host.safe_claims(2) [OF host] run s])
  then have "dir_ok wa_attempt_id (lg_attempts t)" by (auto simp: safe_def records_ok_def dest: stays_records)
  then have "b \<in> attempts_set t \<Longrightarrow> wa_attempt_id b = wa_attempt_id (cl_attempt cl) \<Longrightarrow> b = cl_attempt cl"
    using stored dir_list_get [of wa_attempt_id "lg_attempts t" b] by (simp add: attempts_set_def)
  then show ?thesis using stored tok hash same work by blast
qed

theorem lease_secret_binds_witness:
  "let cl = \<lparr>cl_work = claimed_item, cl_attempt = secret_attempt, cl_lease_token = ''sk''\<rparr>;
       renewed = secret_attempt\<lparr>wa_lease_expires_at := 600000000000, wa_state := A_Running\<rparr>
   in claim_work_with_lease_secret exact_host ''w'' ''bob'' None ''k'' saved_ledger = (Inr cl, secret_ledger)
      \<and> token_matches exact_host secret_attempt (lease_token_for_secret exact_host renewed ''k'')
      \<and> \<not> token_matches exact_host secret_attempt (lease_token_for_secret exact_host renewed ''other'')"
proof -
  let ?cl = "\<lparr>cl_work = claimed_item, cl_attempt = secret_attempt, cl_lease_token = ''sk''\<rparr>"
  let ?b = "secret_attempt\<lparr>wa_lease_expires_at := 600000000000, wa_state := A_Running\<rparr>"
  have "ledger_step exact_host empty_ledger saved_ledger"
    using ledger_step.call [of exact_host empty_ledger "C_SaveItem (example_item ''w'' [])"]
    by (simp add: save_example)
  then have s: "safe exact_host saved_ledger" using exact.reachable_safe [OF empty_ledger_start] by blast
  note binds = lease_secret_binds [OF exact.sound_host_axioms s secret_claim_example, where b = ?b]
  have "token_matches exact_host secret_attempt (lease_token_for_secret exact_host ?b ''k'')"
    using binds [of "''k''"] by (simp add: no_collision_def lease_token_for_secret_def exact_host_def)
  moreover have "\<not> token_matches exact_host secret_attempt (lease_token_for_secret exact_host ?b ''other'')"
    using binds [of "''other''"] by (simp add: no_collision_def lease_token_for_secret_def exact_host_def)
  ultimately show ?thesis using secret_claim_example by (simp add: Let_def)
qed

text \<open>
  C5. Work does not succeed on a worker's word. When a completion moves an item to its
  succeeded state, the caller held the live lease, the policy asks for no approval, and
  either the required checks of the applied candidate authorize it, or a person approved it
  before, or the result carries evidence bound to this item, this attempt and one of its
  linked runs, equal to the evidence that run stored, with passing tests and none failed.
\<close>

theorem success_needs_authority:
  assumes host: "sound_host h" and ok: "records_ok s"
    and run: "complete_work h w k tok r s = (Inr (i, a), t)"
    and prior: "dir_get (lg_items s) w = Some prior" "wi_state prior \<noteq> W_Succeeded"
    and succeeded: "wi_state i = W_Succeeded"
  shows "\<exists>held. holds_lease h s w k tok prior held \<and> \<not> wp_requires_approval (wi_policy prior)
    \<and> (if wp_required_checks (wi_policy prior) \<noteq> []
       then required_checks_authorize s (prior\<lparr>wi_result := Some r\<rparr>)
       else wi_approval prior \<noteq> None \<or> evidenced h s prior held r)"
proof -
  let ?item = "prior\<lparr>wi_result := Some r\<rparr>"
  from sound_host.complete_ok [OF host run ok] obtain p held where
    held: "dir_get (lg_items s) w = Some p" "dir_get (lg_attempts s) k = Some held" "wa_work_id held = w"
      "token_matches h held tok"
    and result: "if already_completed p held then i = p
       else lease_active_at held (utc_now h (lg_clock s))
         \<and> wi_state i = snd (completion_states h s (p\<lparr>wi_result := Some r\<rparr>)
             (held\<lparr>wa_result := Some r, wa_updated_at := utc_now h (lg_clock s)\<rparr>))"
    by (fastforce simp: Let_def cong: if_cong)
  have p: "p = prior" using held(1) prior(1) by simp
  then have i: "wi_state i = snd (completion_states h s ?item
        (held\<lparr>wa_result := Some r, wa_updated_at := utc_now h (lg_clock s)\<rparr>))"
    and live: "lease_active_at held (utc_now h (lg_clock s))"
    using result prior(2) succeeded by (simp_all split: if_splits)
  let ?att = "held\<lparr>wa_result := Some r, wa_updated_at := utc_now h (lg_clock s)\<rparr>"
  from succeeded i have auth: "success_is_authorized h s ?item (Some ?att) (Some r) None = Inr True"
    "\<not> wp_requires_approval (wi_policy prior)"
    by (auto simp: completion_states_def ordinary_completion_states_def split: if_splits)
  have "wi_work_id prior = w" "wa_attempt_id held = k"
    using ok prior(1) held(2) dir_ok_key by (auto simp: records_ok_def)
  then have lease: "holds_lease h s w k tok prior held" using prior held live by (simp add: holds_lease_def)
  have "if wp_required_checks (wi_policy prior) \<noteq> []
       then required_checks_authorize s ?item else wi_approval prior \<noteq> None \<or> evidenced h s prior held r"
  proof (cases "wp_required_checks (wi_policy prior) = [] \<and> wi_approval prior = None")
    case True
    then have "evidenced h s ?item ?att r"
      using success_is_authorized_ordinary [of ?item h s ?att r] auth(1) by simp
    then show ?thesis using True by (simp add: evidenced_def)
  next
    case False
    then show ?thesis using auth(1) by (auto simp: success_is_authorized_def split: if_splits)
  qed
  then show ?thesis using lease auth(2) by blast
qed

theorem success_needs_authority_witness:
  "complete_work exact_host ''w'' ''uu'' ''u'' example_result linked_ledger
     = (Inr (finished_item, finished_attempt), finished_ledger)
   \<and> wi_state finished_item = W_Succeeded
   \<and> (\<exists>held. holds_lease exact_host linked_ledger ''w'' ''uu'' ''u'' claimed_item held
         \<and> evidenced exact_host linked_ledger claimed_item held example_result)"
proof -
  have p: "dir_get (lg_items linked_ledger) ''w'' = Some claimed_item"
    by (simp add: linked_ledger_def claimed_ledger_def dir_get_def)
  have n: "wi_approval claimed_item = None" "wp_required_checks example_policy = []"
    by (simp_all add: claimed_item_def example_item_def example_policy_def)
  have f: "wi_state finished_item = W_Succeeded" by (simp add: finished_item_def)
  show ?thesis
    using success_needs_authority [OF exact.sound_host_axioms linked_records complete_example p _ f] n f
      complete_example by auto
qed

text \<open>
  Renewing moves only the holder's own expiry. A renewal that returns was made with the
  token of a live attempt of this item; it sets heartbeat and expiry from the current
  instant, and every other field of the attempt, the item, and all other records are kept.
\<close>

theorem renew_extends_own_lease:
  assumes host: "sound_host h" and ok: "records_ok s"
    and run: "renew_work_lease h w k tok ms s = (Inr a, t)"
  shows "\<exists>item held lease. holds_lease h s w k tok item held \<and> lease_duration ms = Inr lease
    \<and> a = held\<lparr>wa_last_heartbeat_at := utc_now h (lg_clock s),
               wa_lease_expires_at := utc_now h (lg_clock s) + lease,
               wa_updated_at := utc_now h (lg_clock s)\<rparr>
    \<and> work_updated item a s t"
  using wp_result(1) [OF sound_host.wp_renew [OF host ok] run] .

theorem renew_extends_own_lease_witness:
  "renew_work_lease exact_host ''w'' ''uu'' ''u'' None claimed_ledger
     = (Inr renewed_attempt, changed_ledger claimed_item renewed_attempt 5)
   \<and> (\<exists>item held. holds_lease exact_host claimed_ledger ''w'' ''uu'' ''u'' item held
         \<and> work_updated item renewed_attempt claimed_ledger (changed_ledger claimed_item renewed_attempt 5))"
  using renew_extends_own_lease [OF exact.sound_host_axioms claimed_records renew_example]
    renew_example by blast

text \<open>
  Giving work back: after a release the item is queued at its next revision, the
  attempt is closed with the reason, and nothing else has changed.
\<close>

theorem release_returns_work:
  assumes host: "sound_host h" and ok: "records_ok s"
    and run: "release_work h w k tok reason s = (Inr (i, a), t)"
  shows "\<exists>item held. holds_lease h s w k tok item held
    \<and> i = bump_at (utc_now h (Suc (lg_clock s))) (item\<lparr>wi_state := W_Queued\<rparr>)
    \<and> a = held\<lparr>wa_state := A_Released, wa_terminal_reason := Some reason,
               wa_updated_at := utc_now h (lg_clock s)\<rparr>
    \<and> work_updated i a s t"
  using wp_result(1) [OF sound_host.wp_release [OF host ok] run] by simp

theorem release_returns_work_witness:
  "release_work exact_host ''w'' ''uu'' ''u'' ''stop'' claimed_ledger
     = (Inr (moved_item W_Queued None, released_attempt), changed_ledger (moved_item W_Queued None) released_attempt 6)
   \<and> work_updated (moved_item W_Queued None) released_attempt claimed_ledger
        (changed_ledger (moved_item W_Queued None) released_attempt 6)"
  using release_returns_work [OF exact.sound_host_axioms claimed_records release_example]
    release_example by blast

text \<open>
  C7. A failed attempt spends its number: the item goes back to the queue exactly when the
  policy retries failures and the attempt's number is below the budget, and is failed
  otherwise; the attempt is closed and only these two records change.
\<close>

theorem fail_retries_within_budget:
  assumes host: "sound_host h" and ok: "records_ok s"
    and run: "fail_work h w k tok r s = (Inr (i, a), t)"
  shows "\<exists>item held. holds_lease h s w k tok item held
    \<and> (wi_state i = W_Queued \<longleftrightarrow> rp_retry_failed (wp_retry (wi_policy item))
         \<and> wa_attempt_number held < rp_max_attempts (wp_retry (wi_policy item)))
    \<and> wi_state i \<in> {W_Queued, W_Failed} \<and> wi_result i = Some r \<and> wa_state a = A_Failed
    \<and> wa_terminal_reason a = wr_failure r \<and> work_updated i a s t"
proof -
  obtain item held where "holds_lease h s w k tok item held" "work_updated i a s t"
    "i = bump_at (utc_now h (Suc (lg_clock s))) (item\<lparr>wi_result := Some r,
       wi_state := (if rp_retry_failed (wp_retry (wi_policy item))
                       \<and> wa_attempt_number held < rp_max_attempts (wp_retry (wi_policy item))
                    then W_Queued else W_Failed)\<rparr>)"
    "a = held\<lparr>wa_result := Some r, wa_state := A_Failed, wa_terminal_reason := wr_failure r,
               wa_updated_at := utc_now h (lg_clock s)\<rparr>"
    using wp_result(1) [OF sound_host.wp_fail [OF host ok] run] by auto
  then show ?thesis by (intro exI [of _ item] exI [of _ held]) (auto simp: bump_at_def)
qed

theorem fail_retries_within_budget_witness:
  "fail_work exact_host ''w'' ''uu'' ''u'' failure_result claimed_ledger
     = (Inr (moved_item W_Queued (Some failure_result), failed_attempt),
        changed_ledger (moved_item W_Queued (Some failure_result)) failed_attempt 6)
   \<and> work_updated (moved_item W_Queued (Some failure_result)) failed_attempt claimed_ledger
        (changed_ledger (moved_item W_Queued (Some failure_result)) failed_attempt 6)"
  using fail_retries_within_budget [OF exact.sound_host_axioms claimed_records fail_example]
    fail_example by blast

text \<open>
  Cancelling is final for every worker: afterwards the item is in its cancelled state
  and no attempt of it is active, or the item was already terminal and is unchanged; a
  caller that names a revision is served only at that revision.
\<close>

theorem cancel_closes_attempts:
  assumes host: "sound_host h" and ok: "records_ok s"
    and run: "cancel_work_checked h w reason er s = (Inr (i, as), t)"
  shows "\<exists>prior. dir_get (lg_items s) w = Some prior \<and> dir_get (lg_items t) w = Some i
    \<and> er \<in> {None, Some (wi_revision prior)}
    \<and> (if ws_is_terminal (wi_state prior) then i = prior
       else wi_state i = W_Cancelled
         \<and> (\<forall>a \<in> attempts_set t. wa_work_id a = w \<longrightarrow> \<not> as_is_active (wa_state a)))"
  using wp_result(1) [OF sound_host.wp_cancel [OF host ok] run] by auto


theorem cancel_closes_attempts_witness:
  "{a \<in> attempts_set (changed_ledger (moved_item W_Cancelled (Some (cancellation_result ''stop'' 4000000)))
        closed_attempt 6). wa_work_id a = ''w'' \<and> as_is_active (wa_state a)} = {}"
proof -
  have "dir_get (lg_items claimed_ledger) ''w'' = Some claimed_item"
    by (simp add: claimed_ledger_def dir_get_def)
  then show ?thesis
    using cancel_closes_attempts [OF exact.sound_host_axioms claimed_records cancel_example] by auto
qed

text \<open>
  C8. A wrong token changes nothing. Whoever presents a token that does not open the named
  attempt gets the forbidden error from every operation of a lease holder, and item,
  attempts, receipts, decisions and intents stay as they are: only the clock is read and the
  request binding consumed.
\<close>

theorem wrong_token_refused:
  assumes item: "checked item_validate (file_get (lg_items s) w) = Inr (Some i)"
    and attempt: "checked attempt_validate (file_get (lg_attempts s) k) = Inr (Some a)"
    and ok: "records_ok s" and tok: "wa_work_id a = wi_work_id i" "\<not> token_matches h a tok"
  shows "let t = s\<lparr>lg_operation_request := None, lg_clock := Suc (lg_clock s)\<rparr>;
        e = orch_error_new ForbiddenScope ''invalid work lease token'' in
    (lease_duration ms = Inr l \<longrightarrow> renew_work_lease h w k tok ms s = (Inl e, t))
    \<and> link_work_run h w k tok run s = (Inl e, t)
    \<and> report_work_progress h w k tok pg s = (Inl e, t)
    \<and> release_work h w k tok reason s = (Inl e, t)
    \<and> (result_validate r = Inr () \<longrightarrow> fail_work h w k tok r s = (Inl e, t) \<and> complete_work h w k tok r s = (Inl e, t))"
proof -
  define t e where "t = s\<lparr>lg_operation_request := None, lg_clock := Suc (lg_clock s)\<rparr>"
    and "e = orch_error_new ForbiddenScope ''invalid work lease token''"
  let ?s = "s\<lparr>lg_operation_request := None\<rparr>"
  have req: "require_work_item w ?s = (Inr i, ?s)" "require_work_attempt k t = (Inr a, t)"
    using item attempt by (auto simp: load_ok t_def)
  have list: "list_attempts_of w ?s = (Inr (attempts_of s w), ?s)"
    using wp_list_attempts_of [of ?s w "\<lambda>x u. x = attempts_of s w \<and> u = ?s" "\<lambda>_ _. False"] ok
    by (simp add: wp_def split: prod.splits sum.splits)
  have now: "now_op h ?s = (Inr (utc_now h (lg_clock s)), t)" by (simp add: now_op_def t_def)
  have adopt: "adopt_operation_request s = (Inr (lg_operation_request s), ?s)"
    by (simp add: adopt_operation_request_def)
  have refuse: "check_token h i a tok t = (Inl e, t)"
    using tok by (simp add: check_token_def check_def thenE_def bindE_def ret_def raise_def e_def)
  have lease: "with_lease h w k tok body ?s = (Inl e, t)" for body :: "work_item \<Rightarrow> work_attempt list \<Rightarrow> time \<Rightarrow> work_attempt \<Rightarrow> 'a ledger_op"
    by (simp add: with_lease_def load_active_attempt_for_token_def bindE_def thenE_def req list now refuse)
  show ?thesis
    unfolding Let_def t_def [symmetric] e_def [symmetric]
    by (simp add: renew_work_lease_def link_work_run_def report_work_progress_def release_work_def fail_work_def
          complete_work_def complete_held_def bindE_def thenE_def lift_def adopt lease req list now refuse)
qed

theorem wrong_token_refused_witness:
  "release_work exact_host ''w'' ''uu'' ''bad'' ''stop'' claimed_ledger
     = (Inl (orch_error_new ForbiddenScope ''invalid work lease token''),
        claimed_ledger\<lparr>lg_operation_request := None, lg_clock := Suc (lg_clock claimed_ledger)\<rparr>)"
proof -
  have "checked item_validate (file_get (lg_items claimed_ledger) ''w'') = Inr (Some claimed_item)"
    "checked attempt_validate (file_get (lg_attempts claimed_ledger) ''uu'') = Inr (Some claimed_attempt)"
    by (simp_all add: load_simps example_files claimed_item_valid claimed_attempt_valid claimed_ledger_def)
  moreover have "\<not> token_matches exact_host claimed_attempt ''bad''"
    by (simp add: token_matches_def claimed_attempt_def)
  ultimately show ?thesis
    using wrong_token_refused [where s = claimed_ledger and w = "''w''" and k = "''uu''"
        and h = exact_host and tok = "''bad''" and reason = "''stop''"] claimed_records
    by (simp add: Let_def)
qed


section \<open>Requests\<close>

text \<open>
  A finished receipt is never rewritten. Whatever operation runs, whatever write of it
  fails, the stored outcome of a finished request stays as it is; it can only disappear,
  and only when a new request of the same owner finds the owner's book at its bound of 4096.
\<close>

theorem finished_receipt_immutable:
  assumes "distinct (map fst (lg_receipts s))" and "lg_legacy_receipts s = []"
    and "dir_get (lg_receipts s) k = Some r" and "ir_status r \<noteq> ''pending''" and "ledger_step h s t"
  shows "distinct (map fst (lg_receipts t))
    \<and> (dir_get (lg_receipts t) k = Some r
       \<or> dir_get (lg_receipts t) k = None \<and> owner_full s (fst k))"
proof -
  have s: "holds_receipt k r (lg_receipts s)" using assms(1,3) by (simp add: holds_receipt_def)
  note rb = receipt_book_finished [OF assms(4), of k]
  show ?thesis
    using assms(5)
  proof cases
    case (call c)
    show ?thesis
    proof (cases "\<exists>sc tool q p. c = C_ClaimReceipt sc tool q p")
      case True
      then obtain sc tool q p where c: "c = C_ClaimReceipt sc tool q p" by blast
      have "receipt_kept s sc k r t"
        using wp_claim_receipt [OF s assms(2), of h sc tool q p] call c
        by (auto simp: wp_def split: prod.splits sum.splits)
      then show ?thesis by (auto simp: receipt_kept_def)
    next
      case False
      then have "book (holds_receipt k r) t"
        using receipt_book.call_book [OF rb, of s c h] s call by (auto simp: book_def)
      then show ?thesis by (simp add: book_def holds_receipt_def)
    qed
  qed (use s in \<open>simp_all add: holds_receipt_def\<close>)
qed

definition zero_digest :: string where
  "zero_digest = replicate 64 CHR ''0''"

definition example_key :: "string \<times> string \<times> string" where
  "example_key = (''o'', zero_digest, ''r'')"

definition example_receipt :: idempotency_receipt where
  "example_receipt =
     \<lparr>ir_schema_version = IDEMPOTENCY_RECEIPT_SCHEMA_VERSION, ir_owner_id = ''o'', ir_session_id = 7,
       ir_workspace_digest = zero_digest, ir_request_id = ''r'', ir_payload_hash = ''p'',
       ir_run_id = None, ir_tool = ''t'', ir_response = R_Null, ir_error = None, ir_created_at = 0,
       ir_status = ''complete'', ir_cleanup_plan_digest = ''''\<rparr>"

definition receipt_ledger :: ledger where
  "receipt_ledger = empty_ledger\<lparr>lg_receipts := [(example_key, example_receipt)]\<rparr>"

theorem finished_receipt_immutable_witness:
  "\<exists>t. t = run_call exact_host (C_FailReceipt (scope_for ''o'' zero_digest 7) ''t'' ''r'' ''p'' None
             (orch_error_new Internal ''late'')) receipt_ledger
     \<and> distinct (map fst (lg_receipts t)) \<and> dir_get (lg_receipts t) example_key = Some example_receipt"
proof -
  let ?c = "C_FailReceipt (scope_for ''o'' zero_digest 7) ''t'' ''r'' ''p'' None
    (orch_error_new Internal ''late'')"
  have "distinct (map fst (lg_receipts receipt_ledger))" "lg_legacy_receipts receipt_ledger = []"
    "dir_get (lg_receipts receipt_ledger) example_key = Some example_receipt"
    "ir_status example_receipt \<noteq> ''pending''" "\<not> owner_full receipt_ledger (fst example_key)"
    by (simp_all add: receipt_ledger_def empty_ledger_def dir_get_def example_receipt_def owner_full_def
          MAX_IDEMPOTENCY_RECEIPTS_PER_OWNER_def)
  then show ?thesis
    using finished_receipt_immutable [of receipt_ledger example_key example_receipt exact_host,
        OF _ _ _ _ ledger_step.call [of exact_host receipt_ledger ?c]]
    by auto
qed

text \<open>
  C6. The receipts implement the abstract book of a request: seen through its view, claiming a
  request answers and steps as \<open>spec_claim\<close>, and settling it as \<open>spec_finish\<close>, with the
  error codes of the code; both keep the ledger within the refinement.
\<close>

theorem receipts_refine:
  assumes "reliable h" and "valid_workspace_digest digest" and "is_ok (safe_id_filename req)"
    and wf: "request_wf owner digest req s"
  shows "(let (r, t) = claim_request h owner digest req c s
          in request_wf owner digest req t
             \<and> spec_claim c (request_view (owner, digest, req) s) = (r, request_view (owner, digest, req) t))
       \<and> (let (r, t) = finish_request h owner digest req c out s
          in request_wf owner digest req t
             \<and> spec_finish c out (request_view (owner, digest, req) s) = (r, request_view (owner, digest, req) t))"
proof -
  from assms have "reliable_request h digest req" by (simp add: reliable_request_def)
  then show ?thesis
    using reliable_request.claim_step [OF _ wf] reliable_request.finish_step [OF _ wf]
    by (simp add: Let_def split: prod.split)
qed

interpretation example_request: reliable_request exact_host "''o''" "zero_digest" "''r''"
proof unfold_locales
  show "reliable exact_host" by (simp add: reliable_def)
  show "valid_workspace_digest zero_digest"
    by (simp add: zero_digest_def valid_workspace_digest_def is_ascii_hexdigit_def is_ascii_digit_def)
  have "safe_id_filename ''r'' = Inr ''r''" by (simp add: safe_id_filename_def rbind_ok NUL_def BACKSLASH_def)
  then show "is_ok (safe_id_filename ''r'')" by (simp add: is_ok_def)
qed

lemma receipt_ledger_wf:
  "request_wf ''o'' zero_digest ''r'' receipt_ledger"
  "request_wf ''o'' zero_digest ''r'' empty_ledger"
  by (simp_all add: request_wf_def receipt_ledger_def empty_ledger_def example_key_def dir_get_def
        receipt_fits_def example_receipt_def shard_size_def MAX_IDEMPOTENCY_RECEIPTS_PER_OWNER_def)

theorem receipts_refine_witness:
  "fst (claim_request exact_host ''o'' zero_digest ''r'' (7, ''t'', ''p'') receipt_ledger)
     = Inr (Replay (Inr R_Null))
   \<and> fst (claim_request exact_host ''o'' zero_digest ''r'' (7, ''t'', ''q'') receipt_ledger)
     = Inl Conflict"
proof -
  have v: "request_view (''o'', zero_digest, ''r'') receipt_ledger = Finished (7, ''t'', ''p'') (Inr R_Null)"
    by (simp add: request_view_def receipt_ledger_def example_key_def dir_get_def example_receipt_def
          receipt_caller_def receipt_outcome_def)
  note refine = receipts_refine [OF example_request.reliable example_request.digest example_request.name
      receipt_ledger_wf(1), unfolded v, THEN conjunct1]
  show ?thesis
    using refine [of "(7, ''t'', ''p'')"] refine [of "(7, ''t'', ''q'')"] by (auto split: prod.splits)
qed

text \<open>
  A request is performed once. On a new request id the first claim is told to perform the
  work; after it is settled, every further claim of the same caller is answered with the stored
  outcome, and a claim with another session, tool or payload is refused as a conflict.
\<close>

theorem request_performed_once:
  assumes "reliable h" and "valid_workspace_digest digest" and "is_ok (safe_id_filename req)"
    and "request_wf owner digest req s" and "request_view (owner, digest, req) s = Fresh"
    and "claim_request h owner digest req c s = (r1, s1)"
    and "finish_request h owner digest req c out s1 = (r2, s2)"
    and "claim_request h owner digest req b s2 = (r3, s3)"
  shows "r1 = Inr Perform \<and> r2 = Inr ()
    \<and> r3 = (if b = c then Inr (Replay out) else Inl Conflict)
    \<and> request_view (owner, digest, req) s3 = Finished c out"
proof -
  from assms(1-3) have "reliable_request h digest req" by (simp add: reliable_request_def)
  then show ?thesis
    by (rule reliable_request.request_once [OF _ assms(4-8)])
qed

theorem request_performed_once_witness:
  "\<exists>s1 s2 s3. claim_request exact_host ''o'' zero_digest ''r'' (7, ''t'', ''p'') empty_ledger
       = (Inr Perform, s1)
   \<and> finish_request exact_host ''o'' zero_digest ''r'' (7, ''t'', ''p'') (Inr R_Null) s1 = (Inr (), s2)
   \<and> claim_request exact_host ''o'' zero_digest ''r'' (7, ''t'', ''p'') s2
       = (Inr (Replay (Inr R_Null)), s3)"
proof -
  let ?claim = "claim_request exact_host ''o'' zero_digest ''r'' (7, ''t'', ''p'')"
    and ?finish = "finish_request exact_host ''o'' zero_digest ''r'' (7, ''t'', ''p'') (Inr R_Null)"
  obtain r1 s1 where 1: "?claim empty_ledger = (r1, s1)" by (cases "?claim empty_ledger")
  obtain r2 s2 where 2: "?finish s1 = (r2, s2)" by (cases "?finish s1")
  obtain r3 s3 where 3: "?claim s2 = (r3, s3)" by (cases "?claim s2")
  have "request_view (''o'', zero_digest, ''r'') empty_ledger = Fresh"
    by (simp add: request_view_def empty_ledger_def dir_get_def)
  from request_performed_once [OF example_request.reliable example_request.digest example_request.name
      receipt_ledger_wf(2) this 1 2 3]
  show ?thesis using 1 2 3 by simp
qed

end
